(* ===== verification/Prelude.thy ===== *)
theory Prelude
  imports Complex_Main "HOL-Library.Word" "HOL-Library.AList"
begin

text \<open>
  Shared vocabulary of the development: the error-and-state monad in which every handler of
  \<open>crates/world/src\<close> is written, its weakest-precondition calculus (collection \<open>wp\<close>), the
  contract of an SQL table, strings as UTF-8 byte sequences, hash maps as association lists, and
  the reachability locale used by every state machine of the program.
\<close>

named_theorems wp "weakest preconditions of the monadic operations"

section \<open>Strings\<close>

text \<open>
  A Rust \<open>String\<close> is a valid UTF-8 byte sequence, here a list of 8-bit characters: \<open>s.len()\<close> is
  \<open>length s\<close>, and \<open>s.chars().count()\<close> counts the bytes that do not continue a code point.
\<close>

type_synonym ident = string

definition is_cont :: "char \<Rightarrow> bool" where
  "is_cont c \<longleftrightarrow> (of_char c :: nat) div 64 = 2"

definition char_count :: "string \<Rightarrow> nat" where
  "char_count s = length (filter (\<lambda>c. \<not> is_cont c) s)"

lemma char_count_le_length: "char_count s \<le> length s"
  by (simp add: char_count_def)

text \<open>\<open>{}\<close> of the format macros on the integers the messages print.\<close>

fun show_nat :: "nat \<Rightarrow> string" where
  "show_nat n =
     (if n < 10 then [char_of (48 + n)] else show_nat (n div 10) @ [char_of (48 + n mod 10)])"

declare show_nat.simps [simp del]

definition show_int :: "int \<Rightarrow> string" where
  "show_int i = (if i < 0 then ''-'' @ show_nat (nat (- i)) else show_nat (nat i))"

text \<open>The casts \<open>as u32\<close> and \<open>as i32\<close> of a wider integer: reduction modulo \<open>2 ^ 32\<close>.\<close>

definition as_u32 :: "int \<Rightarrow> int" where
  "as_u32 i = i mod 2 ^ 32"

definition as_i32 :: "int \<Rightarrow> int" where
  "as_i32 i = (i + 2 ^ 31) mod 2 ^ 32 - 2 ^ 31"

lemma as_u32_id [simp]: "0 \<le> i \<Longrightarrow> i < 2 ^ 32 \<Longrightarrow> as_u32 i = i"
  by (simp add: as_u32_def)

lemma as_i32_id: "- (2 ^ 31) \<le> i \<Longrightarrow> i < 2 ^ 31 \<Longrightarrow> as_i32 i = i"
  by (simp add: as_i32_def)

lemma as_i32_range: "- (2 ^ 31) \<le> as_i32 i \<and> as_i32 i < 2 ^ 31"
  by (simp add: as_i32_def)

section \<open>The error and state monad\<close>

text \<open>
  A handler takes the state and returns either an early-return value (\<open>Inl\<close>: what \<open>?\<close> or
  \<open>return Err(..)\<close> hands back) or a result (\<open>Inr\<close>), with the state its side effects left. State
  changes made before an early return stay, as they do in the code.
\<close>

type_synonym ('s, 'e, 'a) sem = "'s \<Rightarrow> ('e + 'a) \<times> 's"

definition ret :: "'a \<Rightarrow> ('s, 'e, 'a) sem" where
  "ret a = (\<lambda>s. (Inr a, s))"

definition throw :: "'e \<Rightarrow> ('s, 'e, 'a) sem" where
  "throw e = (\<lambda>s. (Inl e, s))"

definition bindE :: "('s, 'e, 'a) sem \<Rightarrow> ('a \<Rightarrow> ('s, 'e, 'b) sem) \<Rightarrow> ('s, 'e, 'b) sem" where
  "bindE m f = (\<lambda>s. case m s of (Inl e, s') \<Rightarrow> (Inl e, s') | (Inr a, s') \<Rightarrow> f a s')"

definition thenE :: "('s, 'e, 'a) sem \<Rightarrow> ('s, 'e, 'b) sem \<Rightarrow> ('s, 'e, 'b) sem" where
  "thenE m n = bindE m (\<lambda>_. n)"

definition guardE :: "bool \<Rightarrow> 'e \<Rightarrow> ('s, 'e, unit) sem" where
  "guardE b e = (if b then ret () else throw e)"

definition liftE :: "'e + 'a \<Rightarrow> ('s, 'e, 'a) sem" where
  "liftE r = (\<lambda>s. (r, s))"

definition asksE :: "('s \<Rightarrow> 'a) \<Rightarrow> ('s, 'e, 'a) sem" where
  "asksE f = (\<lambda>s. (Inr (f s), s))"

definition modifyE :: "('s \<Rightarrow> 's) \<Rightarrow> ('s, 'e, unit) sem" where
  "modifyE f = (\<lambda>s. (Inr (), f s))"

text \<open>\<open>map_err\<close>, \<open>let _ = ..\<close>, and a \<open>match\<close> on the outcome of a fallible call.\<close>

definition mapErr :: "('e \<Rightarrow> 'f) \<Rightarrow> ('s, 'e, 'a) sem \<Rightarrow> ('s, 'f, 'a) sem" where
  "mapErr g m = (\<lambda>s. case m s of (Inl e, s') \<Rightarrow> (Inl (g e), s') | (Inr a, s') \<Rightarrow> (Inr a, s'))"

definition tryE :: "('s, 'e, 'a) sem \<Rightarrow> ('s, 'f, 'e + 'a) sem" where
  "tryE m = (\<lambda>s. case m s of (r, s') \<Rightarrow> (Inr r, s'))"

definition ignoreE :: "('s, 'e, 'a) sem \<Rightarrow> ('s, 'f, unit) sem" where
  "ignoreE m = (\<lambda>s. (Inr (), snd (m s)))"

definition orDefault :: "'a \<Rightarrow> ('s, 'e, 'a) sem \<Rightarrow> ('s, 'f, 'a) sem" where
  "orDefault d m = (\<lambda>s. case m s of (Inl e, s') \<Rightarrow> (Inr d, s') | (Inr a, s') \<Rightarrow> (Inr a, s'))"

text \<open>A \<open>for\<close> loop over a collected list; an early return in the body leaves the loop.\<close>

fun forE :: "'a list \<Rightarrow> ('a \<Rightarrow> ('s, 'e, unit) sem) \<Rightarrow> ('s, 'e, unit) sem" where
  "forE [] body = ret ()"
| "forE (x # xs) body = thenE (body x) (forE xs body)"

text \<open>A loop whose body says whether to count the element (\<open>continue\<close> is a 0).\<close>

fun countE :: "'a list \<Rightarrow> ('a \<Rightarrow> ('s, 'e, nat) sem) \<Rightarrow> ('s, 'e, nat) sem" where
  "countE [] body = ret 0"
| "countE (x # xs) body = bindE (body x) (\<lambda>n. bindE (countE xs body) (\<lambda>k. ret (n + k)))"

subsection \<open>Weakest preconditions\<close>

text \<open>
  \<open>wpE m Q E s\<close>: run from \<open>s\<close>, \<open>m\<close> either returns a result and a state satisfying \<open>Q\<close> or leaves
  early with a value and a state satisfying \<open>E\<close>.
\<close>

definition wpE :: "('s, 'e, 'a) sem \<Rightarrow> ('a \<Rightarrow> 's \<Rightarrow> bool) \<Rightarrow> ('e \<Rightarrow> 's \<Rightarrow> bool) \<Rightarrow> 's \<Rightarrow> bool" where
  "wpE m Q E s = (case m s of (Inl e, s') \<Rightarrow> E e s' | (Inr a, s') \<Rightarrow> Q a s')"

lemma wp_ret [wp]: "wpE (ret a) Q E = Q a"
  by (simp add: fun_eq_iff wpE_def ret_def)

lemma wp_throw [wp]: "wpE (throw e) Q E = E e"
  by (simp add: fun_eq_iff wpE_def throw_def)

lemma wp_bind [wp]: "wpE (bindE m f) Q E = wpE m (\<lambda>a. wpE (f a) Q E) E"
  by (simp add: fun_eq_iff wpE_def bindE_def split: prod.splits sum.splits)

lemma wp_then [wp]: "wpE (thenE m n) Q E = wpE m (\<lambda>_. wpE n Q E) E"
  by (simp add: thenE_def wp_bind)

lemma wp_guard [wp]: "wpE (guardE b e) Q E = (\<lambda>s. if b then Q () s else E e s)"
  by (simp add: fun_eq_iff guardE_def wp_ret wp_throw)

lemma wp_lift [wp]: "wpE (liftE r) Q E = (\<lambda>s. case r of Inl e \<Rightarrow> E e s | Inr a \<Rightarrow> Q a s)"
  by (simp add: fun_eq_iff wpE_def liftE_def split: sum.splits)

lemma wp_asks [wp]: "wpE (asksE f) Q E = (\<lambda>s. Q (f s) s)"
  by (simp add: fun_eq_iff wpE_def asksE_def)

lemma wp_modify [wp]: "wpE (modifyE f) Q E = (\<lambda>s. Q () (f s))"
  by (simp add: fun_eq_iff wpE_def modifyE_def)

lemma wp_mapErr [wp]: "wpE (mapErr g m) Q E = wpE m Q (\<lambda>e. E (g e))"
  by (simp add: fun_eq_iff wpE_def mapErr_def split: prod.splits sum.splits)

lemma wp_try [wp]: "wpE (tryE m) Q E = wpE m (\<lambda>a. Q (Inr a)) (\<lambda>e. Q (Inl e))"
  by (simp add: fun_eq_iff wpE_def tryE_def split: prod.splits sum.splits)

lemma wp_ignore [wp]: "wpE (ignoreE m) Q E = wpE m (\<lambda>_. Q ()) (\<lambda>_. Q ())"
  by (simp add: fun_eq_iff wpE_def ignoreE_def split: prod.splits sum.splits)

lemma wp_orDefault [wp]: "wpE (orDefault d m) Q E = wpE m Q (\<lambda>_. Q d)"
  by (simp add: fun_eq_iff wpE_def orDefault_def split: prod.splits sum.splits)

lemma wp_if [wp]:
  "wpE (if b then m else n) Q E = (\<lambda>s. if b then wpE m Q E s else wpE n Q E s)"
  by (simp add: fun_eq_iff)

lemma wp_option [wp]:
  "wpE (case x of None \<Rightarrow> m | Some y \<Rightarrow> n y) Q E =
     (\<lambda>s. case x of None \<Rightarrow> wpE m Q E s | Some y \<Rightarrow> wpE (n y) Q E s)"
  by (simp add: fun_eq_iff split: option.splits)

lemma wp_sum [wp]:
  "wpE (case x of Inl a \<Rightarrow> m a | Inr b \<Rightarrow> n b) Q E =
     (\<lambda>s. case x of Inl a \<Rightarrow> wpE (m a) Q E s | Inr b \<Rightarrow> wpE (n b) Q E s)"
  by (simp add: fun_eq_iff split: sum.splits)

lemma wp_prod [wp]:
  "wpE (case x of (a, b) \<Rightarrow> m a b) Q E = (\<lambda>s. case x of (a, b) \<Rightarrow> wpE (m a b) Q E s)"
  by (simp add: fun_eq_iff split: prod.splits)

lemma wp_mono:
  assumes "wpE m Q E s"
    and "\<And>a t. Q a t \<Longrightarrow> Q' a t" and "\<And>e t. E e t \<Longrightarrow> E' e t"
  shows "wpE m Q' E' s"
  using assms by (auto simp: wpE_def split: prod.splits sum.splits)

lemma wp_conj:
  "wpE m Q E s \<Longrightarrow> wpE m Q' E' s \<Longrightarrow> wpE m (\<lambda>a t. Q a t \<and> Q' a t) (\<lambda>e t. E e t \<and> E' e t) s"
  by (auto simp: wpE_def split: prod.splits sum.splits)

lemma wp_snd: "wpE m (\<lambda>_. P) (\<lambda>_. P) s = P (snd (m s))"
  by (simp add: wpE_def split: prod.splits sum.splits)

lemma wp_true [simp]: "wpE m (\<lambda>_ _. True) (\<lambda>_ _. True) s"
  by (simp add: wpE_def split: prod.splits sum.splits)

lemma wp_forE:
  assumes "\<And>x t. x \<in> set xs \<Longrightarrow> I t \<Longrightarrow> wpE (body x) (\<lambda>_. I) (\<lambda>_. I) t" and "I s"
  shows "wpE (forE xs body) (\<lambda>_. I) (\<lambda>_. I) s"
  using assms
proof (induction xs arbitrary: s)
  case Nil
  then show ?case by (simp add: wp)
next
  case (Cons x xs)
  have IH: "wpE (forE xs body) (\<lambda>_. I) (\<lambda>_. I) t" if "I t" for t
    by (rule Cons.IH [OF _ that]) (simp add: Cons.prems(1))
  have "wpE (body x) (\<lambda>_. wpE (forE xs body) (\<lambda>_. I) (\<lambda>_. I)) (\<lambda>_. I) s"
    by (rule wp_mono [OF Cons.prems(1)]) (simp_all add: Cons.prems(2) IH)
  then show ?case by (simp add: wp)
qed

lemma wp_countE:
  assumes "\<And>x t. x \<in> set xs \<Longrightarrow> I t \<Longrightarrow> wpE (body x) (\<lambda>_. I) (\<lambda>_. I) t" and "I s"
  shows "wpE (countE xs body) (\<lambda>_. I) (\<lambda>_. I) s"
  using assms
proof (induction xs arbitrary: s)
  case Nil
  then show ?case by (simp add: wp)
next
  case (Cons x xs)
  have IH: "wpE (countE xs body) (\<lambda>_. I) (\<lambda>_. I) t" if "I t" for t
    by (rule Cons.IH [OF _ that]) (simp add: Cons.prems(1))
  have "wpE (body x) (\<lambda>_. wpE (countE xs body) (\<lambda>_. I) (\<lambda>_. I)) (\<lambda>_. I) s"
    by (rule wp_mono [OF Cons.prems(1)]) (simp_all add: Cons.prems(2) IH)
  then show ?case by (simp add: wp)
qed

text \<open>From a run to its weakest precondition and back.\<close>

lemma wpE_Inr: "wpE m Q E s \<Longrightarrow> m s = (Inr a, t) \<Longrightarrow> Q a t"
  by (simp add: wpE_def)

lemma wpE_Inl: "wpE m Q E s \<Longrightarrow> m s = (Inl e, t) \<Longrightarrow> E e t"
  by (simp add: wpE_def)

lemma wpE_run: "wpE m Q (\<lambda>_ _. False) s \<Longrightarrow> m s = (r, t) \<Longrightarrow> \<exists>a. r = Inr a \<and> Q a t"
  by (auto simp: wpE_def split: sum.splits)

lemma wpE_inv: "wpE m (\<lambda>_. P) (\<lambda>_. P) s \<Longrightarrow> m s = (r, t) \<Longrightarrow> P t"
  by (auto simp: wpE_def split: sum.splits)

section \<open>Rows of an SQL table\<close>

text \<open>
  A table is the list of its rows, in the order a \<open>SELECT\<close> without \<open>ORDER BY\<close> returns them.
  \<open>SELECT .. WHERE key = ?\<close>, \<open>UPDATE .. WHERE key = ?\<close> and \<open>DELETE .. WHERE key = ?\<close>:
\<close>

definition find_row :: "('r \<Rightarrow> 'k) \<Rightarrow> 'k \<Rightarrow> 'r list \<Rightarrow> 'r option" where
  "find_row key k rows = find (\<lambda>r. key r = k) rows"

definition update_rows :: "('r \<Rightarrow> bool) \<Rightarrow> ('r \<Rightarrow> 'r) \<Rightarrow> 'r list \<Rightarrow> 'r list" where
  "update_rows p f rows = map (\<lambda>r. if p r then f r else r) rows"

definition delete_rows :: "('r \<Rightarrow> bool) \<Rightarrow> 'r list \<Rightarrow> 'r list" where
  "delete_rows p rows = filter (\<lambda>r. \<not> p r) rows"

lemma find_row_Some: "find_row key k rows = Some r \<Longrightarrow> r \<in> set rows \<and> key r = k"
  by (auto simp: find_row_def find_Some_iff)

lemma find_row_None: "find_row key k rows = None \<longleftrightarrow> k \<notin> key ` set rows"
  by (auto simp: find_row_def find_None_iff)

lemma find_row_simps [simp]:
  "find_row key k [] = None"
  "find_row key k (r # rows) = (if key r = k then Some r else find_row key k rows)"
  by (simp_all add: find_row_def)

lemma find_SomeD: "find p xs = Some x \<Longrightarrow> x \<in> set xs \<and> p x"
  by (auto simp: find_Some_iff)

lemma find_append:
  "find p (xs @ ys) = (case find p xs of Some x \<Rightarrow> Some x | None \<Rightarrow> find p ys)"
  by (induction xs) auto

lemma find_row_append:
  "find_row key k (xs @ ys) =
     (case find_row key k xs of Some r \<Rightarrow> Some r | None \<Rightarrow> find_row key k ys)"
  by (induction xs) auto

lemma set_update_rows: "set (update_rows p f rows) = (\<lambda>r. if p r then f r else r) ` set rows"
  by (simp add: update_rows_def)

lemma in_update_rows:
  "r \<in> set (update_rows p f rows) \<Longrightarrow> (\<exists>r0 \<in> set rows. p r0 \<and> r = f r0) \<or> (r \<in> set rows \<and> \<not> p r)"
  by (auto simp: update_rows_def)

lemma set_delete_rows [simp]: "set (delete_rows p rows) = {r \<in> set rows. \<not> p r}"
  by (auto simp: delete_rows_def)

lemma find_row_update:
  assumes "\<And>r. key (f r) = key r"
  shows "find_row key k (update_rows (\<lambda>r. key r = j) f rows) =
    (if j = k then map_option f (find_row key k rows) else find_row key k rows)"
  using assms by (induction rows) (auto simp: update_rows_def)

lemma keys_update_rows:
  assumes "\<And>r. key (f r) = key r"
  shows "map key (update_rows p f rows) = map key rows"
  using assms by (induction rows) (auto simp: update_rows_def)

lemma find_row_delete:
  "find_row key k (delete_rows (\<lambda>r. key r = j) rows) = (if j = k then None else find_row key k rows)"
  by (induction rows) (auto simp: delete_rows_def)

lemma find_row_distinct:
  "distinct (map key rows) \<Longrightarrow> r \<in> set rows \<Longrightarrow> find_row key (key r) rows = Some r"
  by (induction rows) (auto simp: image_iff)

lemma in_map_filter: "y \<in> set (List.map_filter g xs) \<longleftrightarrow> (\<exists>x \<in> set xs. g x = Some y)"
  by (induction xs) (auto simp: map_filter_simps split: option.splits)

text \<open>A filtered projection keeps the keys distinct.\<close>

lemma distinct_map_filter:
  assumes "\<And>x y. g x = Some y \<Longrightarrow> key y = k x" and "distinct (map k xs)"
  shows "distinct (map key (List.map_filter g xs))"
  using assms(2)
proof (induction xs)
  case Nil
  then show ?case by (simp add: map_filter_simps)
next
  case (Cons x xs)
  have "key y \<noteq> k x" if "y \<in> set (List.map_filter g xs)" for y
  proof -
    from that obtain z where "z \<in> set xs" "g z = Some y" by (auto simp: in_map_filter)
    with assms(1) have "key y = k z" "k z \<in> k ` set xs" by auto
    with Cons.prems show ?thesis by auto
  qed
  then have "k x \<notin> key ` set (List.map_filter g xs)" by (metis imageE)
  with Cons assms(1) show ?case by (cases "g x") (simp_all add: map_filter_simps)
qed

section \<open>Hash maps\<close>

text \<open>
  A \<open>HashMap\<close> is an association list whose order stands for the map's unspecified iteration order;
  \<open>insert\<close>, \<open>remove\<close> and \<open>get\<close> are \<open>AList.update\<close>, \<open>AList.delete\<close> and \<open>map_of\<close>.
\<close>

definition amap_upd :: "'k \<Rightarrow> ('v \<Rightarrow> 'v) \<Rightarrow> ('k \<times> 'v) list \<Rightarrow> ('k \<times> 'v) list" where
  "amap_upd k f m = map (\<lambda>(j, v). if j = k then (j, f v) else (j, v)) m"

lemma map_of_amap_upd:
  "map_of (amap_upd k f m) j = (if j = k then map_option f (map_of m j) else map_of m j)"
  by (induction m) (auto simp: amap_upd_def)

lemma keys_amap_upd [simp]: "map fst (amap_upd k f m) = map fst m"
  by (induction m) (auto simp: amap_upd_def)

section \<open>Reachable states\<close>

text \<open>An inductive invariant of a transition system holds in every reachable state.\<close>

inductive reach :: "('s \<Rightarrow> bool) \<Rightarrow> ('s \<Rightarrow> 's \<Rightarrow> bool) \<Rightarrow> 's \<Rightarrow> bool" for start step where
  reach_start: "start s \<Longrightarrow> reach start step s"
| reach_step: "reach start step s \<Longrightarrow> step s t \<Longrightarrow> reach start step t"

locale invariant_system =
  fixes start :: "'s \<Rightarrow> bool" and step :: "'s \<Rightarrow> 's \<Rightarrow> bool" and inv :: "'s \<Rightarrow> bool"
  assumes start_inv: "start s \<Longrightarrow> inv s"
    and step_inv: "inv s \<Longrightarrow> step s t \<Longrightarrow> inv t"
begin

lemma reach_inv: "reach start step s \<Longrightarrow> inv s"
  by (induction rule: reach.induct) (auto intro: start_inv step_inv)

lemma steps_inv: "step\<^sup>*\<^sup>* s t \<Longrightarrow> inv s \<Longrightarrow> inv t"
  by (induction rule: rtranclp_induct) (auto intro: step_inv)

end

end
