(* ===== verification/Json.thy ===== *)
theory Json
  imports Prelude
begin

text \<open>
  \<open>serde_json::Value\<close> as the handlers use it: the value type, \<open>Value::get\<close>, the \<open>as_*\<close> readers
  with the ranges of their integer types, and \<open>Map::insert\<close>. Objects are association lists.
\<close>

datatype json =
    JNull
  | JBool bool
  | JInt int
  | JReal real
  | JStr string
  | JArr "json list"
  | JObj "(string \<times> json) list"

fun jget :: "string \<Rightarrow> json \<Rightarrow> json option" where
  "jget k (JObj kvs) = map_of kvs k"
| "jget k _ = None"

fun as_str :: "json \<Rightarrow> string option" where
  "as_str (JStr s) = Some s"
| "as_str _ = None"

fun as_bool :: "json \<Rightarrow> bool option" where
  "as_bool (JBool b) = Some b"
| "as_bool _ = None"

fun as_i64 :: "json \<Rightarrow> int option" where
  "as_i64 (JInt i) = (if - (2 ^ 63) \<le> i \<and> i < 2 ^ 63 then Some i else None)"
| "as_i64 _ = None"

fun as_u64 :: "json \<Rightarrow> int option" where
  "as_u64 (JInt i) = (if 0 \<le> i \<and> i < 2 ^ 64 then Some i else None)"
| "as_u64 _ = None"

fun as_f64 :: "json \<Rightarrow> real option" where
  "as_f64 (JInt i) = Some (of_int i)"
| "as_f64 (JReal r) = Some r"
| "as_f64 _ = None"

fun is_null :: "json \<Rightarrow> bool" where
  "is_null JNull = True"
| "is_null _ = False"

text \<open>\<open>args.get(key).and_then(|v| v.as_str())\<close> and its siblings.\<close>

definition get_str :: "string \<Rightarrow> json \<Rightarrow> string option" where
  "get_str k v = Option.bind (jget k v) as_str"

definition get_i64 :: "string \<Rightarrow> json \<Rightarrow> int option" where
  "get_i64 k v = Option.bind (jget k v) as_i64"

definition get_u64 :: "string \<Rightarrow> json \<Rightarrow> int option" where
  "get_u64 k v = Option.bind (jget k v) as_u64"

definition get_bool :: "string \<Rightarrow> json \<Rightarrow> bool option" where
  "get_bool k v = Option.bind (jget k v) as_bool"

definition str_or :: "string \<Rightarrow> string option \<Rightarrow> string" where
  "str_or d x = (case x of None \<Rightarrow> d | Some s \<Rightarrow> s)"

text \<open>\<open>json!(x)\<close> of an optional value: \<open>None\<close> is \<open>null\<close>.\<close>

definition jopt :: "string option \<Rightarrow> json" where
  "jopt x = (case x of None \<Rightarrow> JNull | Some s \<Rightarrow> JStr s)"

definition jopt_int :: "int option \<Rightarrow> json" where
  "jopt_int x = (case x of None \<Rightarrow> JNull | Some i \<Rightarrow> JInt i)"

definition obj_insert :: "string \<Rightarrow> json \<Rightarrow> (string \<times> json) list \<Rightarrow> (string \<times> json) list" where
  "obj_insert k v kvs = AList.update k v kvs"

lemma jget_obj_insert: "jget k (JObj (obj_insert k v kvs)) = Some v"
  by (simp add: obj_insert_def update_conv')

lemma jget_obj_insert_other: "j \<noteq> k \<Longrightarrow> jget j (JObj (obj_insert k v kvs)) = map_of kvs j"
  by (simp add: obj_insert_def update_conv')

end
