(* ===== verification/TaskSM.thy ===== *)
theory TaskSM
  imports Prelude
begin

text \<open>
  The task state machine of \<open>task_sm.rs\<close>: \<open>next\<close> (here \<open>next_status\<close>, \<open>next\<close> being a keyword) and
  the two spellings of a status in \<open>tasks.status\<close>. The step relation \<open>task_step\<close> and its
  reachable statuses are derived from \<open>next_status\<close>.
\<close>

datatype task_status =
    Proposed | Queued | InProgress | AwaitingReview | ChangesRequested | Done | Failed | Escalated

datatype actor = Manager | NonManager | Operator | System

datatype transition =
    SubtaskCreate actor
  | AcceptProposal actor
  | RejectProposal actor
  | AssignFromQueued
  | TaskDoneMcp
  | RequestChanges
  | TaskAccept
  | OperatorForceAccept
  | OperatorForceFail
  | Fail
  | Escalate

text \<open>A branch guarded by \<open>s != Done && s != Failed\<close> falls through to the last arm.\<close>

definition next_status :: "task_status \<Rightarrow> transition \<Rightarrow> string + task_status" where
  "next_status current t =
     (case t of
        SubtaskCreate Manager \<Rightarrow> Inr Queued
      | SubtaskCreate Operator \<Rightarrow> Inr Queued
      | SubtaskCreate NonManager \<Rightarrow> Inr Proposed
      | SubtaskCreate System \<Rightarrow> Inr Queued
      | AcceptProposal _ \<Rightarrow>
          (if current = Proposed then Inr Queued else Inl ''illegal transition'')
      | RejectProposal _ \<Rightarrow>
          (if current = Proposed then Inr Failed else Inl ''illegal transition'')
      | AssignFromQueued \<Rightarrow>
          (if current = Queued then Inr InProgress else Inl ''illegal transition'')
      | TaskDoneMcp \<Rightarrow>
          (if current = InProgress then Inr AwaitingReview
           else if current = ChangesRequested then Inr AwaitingReview
           else Inl ''illegal transition'')
      | RequestChanges \<Rightarrow>
          (if current = AwaitingReview then Inr ChangesRequested else Inl ''illegal transition'')
      | TaskAccept \<Rightarrow>
          (if current = AwaitingReview then Inr Done else Inl ''illegal transition'')
      | OperatorForceAccept \<Rightarrow>
          (if current = AwaitingReview then Inr Done else Inl ''illegal transition'')
      | OperatorForceFail \<Rightarrow>
          (if current \<noteq> Done \<and> current \<noteq> Failed then Inr Failed else Inl ''illegal transition'')
      | Fail \<Rightarrow>
          (if current \<noteq> Done \<and> current \<noteq> Failed then Inr Failed else Inl ''illegal transition'')
      | Escalate \<Rightarrow>
          (if current \<noteq> Done \<and> current \<noteq> Failed then Inr Escalated else Inl ''illegal transition''))"

text \<open>The column's spelling, \<open>parse_status\<close> and \<open>status_to_str\<close> of \<open>mcp_dispatch.rs\<close>.\<close>

definition parse_status :: "string \<Rightarrow> task_status option" where
  "parse_status s =
     (if s = ''proposed'' then Some Proposed
      else if s = ''queued'' then Some Queued
      else if s = ''in_progress'' then Some InProgress
      else if s = ''awaiting_review'' then Some AwaitingReview
      else if s = ''changes_requested'' then Some ChangesRequested
      else if s = ''done'' then Some Done
      else if s = ''failed'' then Some Failed
      else if s = ''escalated'' then Some Escalated
      else None)"

fun status_to_str :: "task_status \<Rightarrow> string" where
  "status_to_str Proposed = ''proposed''"
| "status_to_str Queued = ''queued''"
| "status_to_str InProgress = ''in_progress''"
| "status_to_str AwaitingReview = ''awaiting_review''"
| "status_to_str ChangesRequested = ''changes_requested''"
| "status_to_str Done = ''done''"
| "status_to_str Failed = ''failed''"
| "status_to_str Escalated = ''escalated''"

section \<open>Statuses and their spelling\<close>

lemma parse_status_to_str [simp]: "parse_status (status_to_str s) = Some s"
  by (cases s) (simp_all add: parse_status_def)

lemma parse_status_Some: "parse_status str = Some s \<Longrightarrow> str = status_to_str s"
  by (auto simp: parse_status_def split: if_splits)

lemma status_to_str_eq_iff [simp]: "status_to_str a = status_to_str b \<longleftrightarrow> a = b"
  by (metis option.inject parse_status_to_str)

text \<open>The literals of the SQL statements, read back through \<open>parse_status\<close>.\<close>

lemma parse_status_literals [simp]:
  "parse_status ''proposed'' = Some Proposed"
  "parse_status ''queued'' = Some Queued"
  "parse_status ''in_progress'' = Some InProgress"
  "parse_status ''awaiting_review'' = Some AwaitingReview"
  "parse_status ''changes_requested'' = Some ChangesRequested"
  "parse_status ''done'' = Some Done"
  "parse_status ''failed'' = Some Failed"
  "parse_status ''escalated'' = Some Escalated"
  by (simp_all add: parse_status_def)

section \<open>Steps of one task\<close>

definition is_create :: "transition \<Rightarrow> bool" where
  "is_create t \<longleftrightarrow> (\<exists>a. t = SubtaskCreate a)"

lemma is_create_simps [simp]:
  "is_create (SubtaskCreate a)" "\<not> is_create (AcceptProposal a)" "\<not> is_create (RejectProposal a)"
  "\<not> is_create AssignFromQueued" "\<not> is_create TaskDoneMcp" "\<not> is_create RequestChanges"
  "\<not> is_create TaskAccept" "\<not> is_create OperatorForceAccept" "\<not> is_create OperatorForceFail"
  "\<not> is_create Fail" "\<not> is_create Escalate"
  by (simp_all add: is_create_def)

text \<open>A request on an existing task that \<open>next\<close> grants. \<open>SubtaskCreate\<close> concerns a new row.\<close>

inductive task_step :: "task_status \<Rightarrow> task_status \<Rightarrow> bool" where
  "\<not> is_create t \<Longrightarrow> next_status s t = Inr s' \<Longrightarrow> task_step s s'"

inductive_cases task_stepE: "task_step s s'"

lemma next_status_Inr:
  "next_status s t = Inr s' \<longleftrightarrow>
     (case t of
        SubtaskCreate a \<Rightarrow> s' = (if a = NonManager then Proposed else Queued)
      | AcceptProposal _ \<Rightarrow> s = Proposed \<and> s' = Queued
      | RejectProposal _ \<Rightarrow> s = Proposed \<and> s' = Failed
      | AssignFromQueued \<Rightarrow> s = Queued \<and> s' = InProgress
      | TaskDoneMcp \<Rightarrow> (s = InProgress \<or> s = ChangesRequested) \<and> s' = AwaitingReview
      | RequestChanges \<Rightarrow> s = AwaitingReview \<and> s' = ChangesRequested
      | TaskAccept \<Rightarrow> s = AwaitingReview \<and> s' = Done
      | OperatorForceAccept \<Rightarrow> s = AwaitingReview \<and> s' = Done
      | OperatorForceFail \<Rightarrow> s \<noteq> Done \<and> s \<noteq> Failed \<and> s' = Failed
      | Fail \<Rightarrow> s \<noteq> Done \<and> s \<noteq> Failed \<and> s' = Failed
      | Escalate \<Rightarrow> s \<noteq> Done \<and> s \<noteq> Failed \<and> s' = Escalated)"
  by (auto simp: next_status_def split: transition.split actor.split)

lemma task_step_iff:
  "task_step s s' \<longleftrightarrow>
     (s = Proposed \<and> s' = Queued) \<or> (s = Queued \<and> s' = InProgress) \<or>
     ((s = InProgress \<or> s = ChangesRequested) \<and> s' = AwaitingReview) \<or>
     (s = AwaitingReview \<and> (s' = ChangesRequested \<or> s' = Done)) \<or>
     (s \<noteq> Done \<and> s \<noteq> Failed \<and> (s' = Failed \<or> s' = Escalated))" (is "_ \<longleftrightarrow> ?R")
proof
  assume "task_step s s'"
  then show ?R
    by (elim task_stepE) (auto simp: next_status_Inr split: transition.splits)
next
  have step: "\<not> is_create t \<Longrightarrow> next_status s t = Inr s' \<Longrightarrow> task_step s s'" for t
    by (rule task_step.intros)
  assume ?R
  then show "task_step s s'"
    using step [of "AcceptProposal Manager"] step [of AssignFromQueued] step [of TaskDoneMcp]
      step [of RequestChanges] step [of TaskAccept] step [of Fail] step [of Escalate]
    by (auto simp: next_status_Inr)
qed

lemma task_step_from_final [simp]: "\<not> task_step Done s'" "\<not> task_step Failed s'"
  by (simp_all add: task_step_iff)

lemma final_absorbing: "task_step\<^sup>*\<^sup>* s s' \<Longrightarrow> s = Done \<or> s = Failed \<Longrightarrow> s' = s"
  by (induction rule: rtranclp_induct) auto

text \<open>A run of requests: the first one \<open>next\<close> refuses ends it.\<close>

fun run_transitions :: "task_status \<Rightarrow> transition list \<Rightarrow> string + task_status" where
  "run_transitions s [] = Inr s"
| "run_transitions s (t # ts) =
     (case next_status s t of Inl e \<Rightarrow> Inl e | Inr s' \<Rightarrow> run_transitions s' ts)"

text \<open>
  The stages on the way to \<open>Done\<close>: from each status, the requests that every successful run to
  \<open>Done\<close> still has to contain.
\<close>

fun needed_for_done :: "task_status \<Rightarrow> transition set" where
  "needed_for_done Proposed = {AssignFromQueued, TaskDoneMcp}"
| "needed_for_done Queued = {AssignFromQueued, TaskDoneMcp}"
| "needed_for_done InProgress = {TaskDoneMcp}"
| "needed_for_done ChangesRequested = {TaskDoneMcp}"
| "needed_for_done _ = {}"

lemma next_status_dead:
  "next_status s t = Inr s' \<Longrightarrow> \<not> is_create t \<Longrightarrow> s = Failed \<or> s = Escalated \<Longrightarrow>
     s' = Failed \<or> s' = Escalated"
  by (cases t) (auto simp: next_status_Inr)

lemma run_dead:
  "run_transitions s ts = Inr s' \<Longrightarrow> \<forall>t \<in> set ts. \<not> is_create t \<Longrightarrow> s = Failed \<or> s = Escalated \<Longrightarrow>
     s' = Failed \<or> s' = Escalated"
proof (induction ts arbitrary: s)
  case Nil
  then show ?case by auto
next
  case (Cons t ts)
  then obtain u where st: "next_status s t = Inr u" and run: "run_transitions u ts = Inr s'"
    by (auto split: sum.splits)
  show ?case
    by (rule Cons.IH [OF run]) (use Cons.prems next_status_dead [OF st] in auto)
qed

lemma next_status_needs:
  assumes "next_status s t = Inr s'" and "\<not> is_create t" and "s' \<noteq> Failed" and "s' \<noteq> Escalated"
  shows "needed_for_done s \<subseteq> insert t (needed_for_done s')"
  using assms by (cases t; cases s) (simp_all add: next_status_Inr)

lemma run_to_done_needs:
  "run_transitions s ts = Inr Done \<Longrightarrow> \<forall>t \<in> set ts. \<not> is_create t \<Longrightarrow>
     needed_for_done s \<subseteq> set ts"
proof (induction ts arbitrary: s)
  case Nil
  then show ?case by simp
next
  case (Cons t ts)
  then obtain s' where st: "next_status s t = Inr s'" and run: "run_transitions s' ts = Inr Done"
    by (auto split: sum.splits)
  have "needed_for_done s' \<subseteq> set ts" by (rule Cons.IH [OF run]) (use Cons.prems in simp)
  moreover have "s' \<noteq> Failed \<and> s' \<noteq> Escalated"
    using run_dead [OF run] Cons.prems(2) by auto
  ultimately show ?case
    using next_status_needs [OF st] Cons.prems(2) by auto
qed

section \<open>Properties\<close>

lemma run_append:
  "run_transitions s (xs @ ys) =
     (case run_transitions s xs of Inl e \<Rightarrow> Inl e | Inr s' \<Rightarrow> run_transitions s' ys)"
  by (induction xs arbitrary: s) (auto split: sum.split)

lemma run_last_accept:
  assumes "run_transitions s ts = Inr Done" and "s \<noteq> Done" and "\<forall>t \<in> set ts. \<not> is_create t"
  shows "ts \<noteq> [] \<and> (last ts = TaskAccept \<or> last ts = OperatorForceAccept)"
proof (cases ts rule: rev_cases)
  case Nil
  with assms show ?thesis by simp
next
  case (snoc xs t)
  with assms(1) obtain u where "next_status u t = Inr Done" by (auto simp: run_append split: sum.splits)
  with assms(3) snoc show ?thesis by (cases t) (auto simp: next_status_Inr)
qed

lemma run_split:
  assumes "run_transitions s (xs @ t # ys) = Inr Done"
  obtains u v where "next_status u t = Inr v" "run_transitions v ys = Inr Done"
  using assms by (auto simp: run_append split: sum.splits)

text \<open>C12: A queued task is accepted as done only after it was assigned, then submitted by its worker, and
  the very last granted request was an acceptance. No sequence of granted requests skips a stage.\<close>
theorem done_only_after_work_and_review:
  assumes "run_transitions Queued ts = Inr Done" and "\<forall>t \<in> set ts. \<not> is_create t"
  shows "\<exists>as bs cs. ts = as @ AssignFromQueued # bs @ TaskDoneMcp # cs \<and>
    (last ts = TaskAccept \<or> last ts = OperatorForceAccept)"
proof -
  have "AssignFromQueued \<in> set ts" using run_to_done_needs [OF assms] by simp
  then obtain as r where ts: "ts = as @ AssignFromQueued # r" by (auto dest: split_list)
  with assms(1) obtain u v where "next_status u AssignFromQueued = Inr v" "run_transitions v r = Inr Done"
    by (auto intro: run_split [of Queued as AssignFromQueued r])
  then have "run_transitions InProgress r = Inr Done" by (simp add: next_status_Inr)
  with assms(2) ts have "TaskDoneMcp \<in> set r" using run_to_done_needs [of InProgress r] by simp
  then obtain bs cs where "r = bs @ TaskDoneMcp # cs" by (auto dest: split_list)
  with ts run_last_accept [OF assms(1) _ assms(2)] show ?thesis by auto
qed

theorem done_only_after_work_and_review_witness:
  "\<exists>as bs cs. [AssignFromQueued, TaskDoneMcp, RequestChanges, TaskDoneMcp, TaskAccept] =
     as @ AssignFromQueued # bs @ TaskDoneMcp # cs \<and>
     (last [AssignFromQueued, TaskDoneMcp, RequestChanges, TaskDoneMcp, TaskAccept] = TaskAccept \<or>
      last [AssignFromQueued, TaskDoneMcp, RequestChanges, TaskDoneMcp, TaskAccept] = OperatorForceAccept)"
  by (rule done_only_after_work_and_review) (simp_all add: next_status_def)

text \<open>Reading and writing the status column are inverse: every status is read back as itself, and a
  text that reads as a status is exactly the text written for it.\<close>

lemma status_text_roundtrip:
  "(parse_status (status_to_str st) = Some st) \<and> (parse_status txt = Some st \<longleftrightarrow> txt = status_to_str st)"
  using parse_status_Some by auto

text \<open>Once a task is done or failed, no granted request moves it: every run of requests from there is
  either refused or leaves the status as it is.\<close>

lemma done_and_failed_are_final:
  assumes "s = Done \<or> s = Failed" and "\<forall>t \<in> set ts. \<not> is_create t"
  shows "run_transitions s ts = (if ts = [] then Inr s else Inl ''illegal transition'')"
proof (cases ts)
  case Nil
  then show ?thesis by simp
next
  case (Cons t us)
  with assms have "next_status s t = Inl ''illegal transition''"
    by (cases t) (auto simp: next_status_def)
  with Cons show ?thesis by simp
qed

end
