(* ===== verification/Permissions.thy ===== *)
theory Permissions
  imports Prelude
begin

text \<open>The permission predicates of \<open>permissions.rs\<close> and the operator roles of \<open>auth.rs\<close>.\<close>

section \<open>Agents\<close>

datatype agent_kind = KAgent | KOperator

record agent_ref =
  ar_agent_id :: ident
  ar_startup_id :: ident
  ar_kind :: agent_kind
  ar_manager_id :: "ident option"

definition can_enter_room :: "agent_ref \<Rightarrow> ident option \<Rightarrow> bool" where
  "can_enter_room agent room_private_to =
     (if ar_kind agent = KOperator then True
      else case room_private_to of None \<Rightarrow> True | Some owner \<Rightarrow> owner = ar_startup_id agent)"

definition can_send_directive :: "agent_ref \<Rightarrow> agent_ref \<Rightarrow> bool" where
  "can_send_directive frm to =
     (if ar_kind frm = KOperator then True
      else if ar_startup_id frm \<noteq> ar_startup_id to then False
      else ar_manager_id to = Some (ar_agent_id frm))"

definition can_receive_chat_in_room :: "agent_ref \<Rightarrow> agent_ref \<Rightarrow> ident option \<Rightarrow> bool" where
  "can_receive_chat_in_room listener speaker room_private_to =
     (can_enter_room listener room_private_to \<and> can_enter_room speaker room_private_to)"

lemma can_enter_room_agent:
  "ar_kind a = KAgent \<Longrightarrow> can_enter_room a p \<longleftrightarrow> p = None \<or> p = Some (ar_startup_id a)"
  by (auto simp: can_enter_room_def split: option.splits)

lemma directive_same_startup:
  "ar_kind frm = KAgent \<Longrightarrow> can_send_directive frm to \<Longrightarrow>
     ar_startup_id frm = ar_startup_id to \<and> ar_manager_id to = Some (ar_agent_id frm)"
  by (auto simp: can_send_directive_def split: if_splits)

lemma chat_private_same_startup:
  assumes "ar_kind l = KAgent" "ar_kind s = KAgent" "can_receive_chat_in_room l s (Some owner)"
  shows "ar_startup_id l = owner \<and> ar_startup_id s = owner"
  using assms by (auto simp: can_receive_chat_in_room_def can_enter_room_agent)

section \<open>Operator roles\<close>

datatype operator_role = RViewer | RManager | RAdmin

fun role_rank :: "operator_role \<Rightarrow> nat" where
  "role_rank RViewer = 0"
| "role_rank RManager = 1"
| "role_rank RAdmin = 2"

definition role_from_str :: "string \<Rightarrow> operator_role option" where
  "role_from_str s =
     (if s = ''viewer'' then Some RViewer
      else if s = ''manager'' then Some RManager
      else if s = ''admin'' then Some RAdmin
      else None)"

fun role_as_str :: "operator_role \<Rightarrow> string" where
  "role_as_str RViewer = ''viewer''"
| "role_as_str RManager = ''manager''"
| "role_as_str RAdmin = ''admin''"

text \<open>\<open>(self as u8) >= (other as u8)\<close>\<close>

definition at_least :: "operator_role \<Rightarrow> operator_role \<Rightarrow> bool" where
  "at_least self other = (role_rank self \<ge> role_rank other)"

record operator_identity =
  oi_id :: ident
  oi_name :: string
  oi_role :: operator_role

lemma role_rank_inj [simp]: "role_rank a = role_rank b \<longleftrightarrow> a = b"
  by (cases a; cases b) simp_all

instantiation operator_role :: linorder
begin

definition less_eq_operator_role :: "operator_role \<Rightarrow> operator_role \<Rightarrow> bool" where
  "a \<le> b \<longleftrightarrow> at_least b a"

definition less_operator_role :: "operator_role \<Rightarrow> operator_role \<Rightarrow> bool" where
  "a < b \<longleftrightarrow> \<not> at_least a (b :: operator_role)"

instance
proof
  fix x y z :: operator_role
  show "x < y \<longleftrightarrow> x \<le> y \<and> \<not> y \<le> x"
    by (auto simp: less_eq_operator_role_def less_operator_role_def at_least_def)
  show "x \<le> x" by (simp add: less_eq_operator_role_def at_least_def)
  show "x \<le> y \<Longrightarrow> y \<le> z \<Longrightarrow> x \<le> z" by (simp add: less_eq_operator_role_def at_least_def)
  show "x \<le> y \<Longrightarrow> y \<le> x \<Longrightarrow> x = y"
    by (metis at_least_def le_antisym less_eq_operator_role_def role_rank_inj)
  show "x \<le> y \<or> y \<le> x" by (auto simp: less_eq_operator_role_def at_least_def)
qed

end

lemma at_least_iff_le: "at_least a b \<longleftrightarrow> b \<le> a"
  by (simp add: less_eq_operator_role_def)

lemma role_roundtrip [simp]: "role_from_str (role_as_str r) = Some r"
  by (cases r) (simp_all add: role_from_str_def)

lemma role_from_str_Some: "role_from_str s = Some r \<Longrightarrow> s = role_as_str r"
  by (auto simp: role_from_str_def split: if_splits)

lemma at_least_admin: "at_least RAdmin r" and at_least_refl: "at_least r r"
  by (cases r; simp add: at_least_def)+

lemma at_least_manager: "at_least r RManager \<longleftrightarrow> r \<noteq> RViewer"
  by (cases r) (simp_all add: at_least_def)

lemma at_least_Admin_only: "at_least r RAdmin \<longleftrightarrow> r = RAdmin"
  by (cases r) (simp_all add: at_least_def)

end
