(* ===== verification/Town.thy ===== *)
theory Town
  imports Prelude
begin

text \<open>
  The typed town layout of \<open>seed.rs\<close> (\<open>TownLayout\<close>, \<open>RoomDef\<close>, \<open>DoorDef\<close>, \<open>default_town\<close>) and the
  geometry every movement component shares: tiles, room bounds and Manhattan steps. Coordinates
  are \<open>i32\<close> in the code; the layout and the requests keep them far from the range's ends, so they
  are \<open>int\<close> here and \<open>default_town_in_range\<close> states the margin.
\<close>

type_synonym tile = "int \<times> int"
type_synonym bounds = "int \<times> int \<times> int \<times> int"

section \<open>Geometry\<close>

fun in_bounds :: "bounds \<Rightarrow> tile \<Rightarrow> bool" where
  "in_bounds (bx, by', bw, bh) (x, y) \<longleftrightarrow> x \<ge> bx \<and> x < bx + bw \<and> y \<ge> by' \<and> y < by' + bh"

definition moves4 :: "tile list" where
  "moves4 = [(- 1, 0), (1, 0), (0, - 1), (0, 1)]"

fun shift :: "tile \<Rightarrow> tile \<Rightarrow> tile" where
  "shift (x, y) (dx, dy) = (x + dx, y + dy)"

fun manhattan :: "tile \<Rightarrow> tile \<Rightarrow> int" where
  "manhattan (x, y) (x', y') = \<bar>x - x'\<bar> + \<bar>y - y'\<bar>"

lemma manhattan_self [simp]: "manhattan t t = 0"
  by (cases t) simp

lemma manhattan_sym: "manhattan a b = manhattan b a"
  by (cases a; cases b) simp

lemma manhattan_zero [simp]: "manhattan a b = 0 \<longleftrightarrow> a = b"
  by (cases a; cases b) auto

lemma manhattan_nonneg [simp]: "0 \<le> manhattan a b"
  by (cases a; cases b) simp

lemma manhattan_shift: "m \<in> set moves4 \<Longrightarrow> manhattan t (shift t m) = 1"
  by (cases t) (auto simp: moves4_def)

section \<open>The layout\<close>

record room_def =
  rd_id :: ident
  rd_bounds :: bounds
  rd_private_to :: "ident option"

record door_def =
  dd_id :: ident
  dd_a_room :: ident
  dd_b_room :: ident
  dd_tile :: tile

record town_layout =
  tl_town_id :: ident
  tl_rooms :: "room_def list"
  tl_doors :: "door_def list"

definition default_town :: town_layout where
  "default_town = \<lparr> tl_town_id = ''town_default'',
     tl_rooms =
       [\<lparr> rd_id = ''suite_1'', rd_bounds = (0, 0, 7, 6), rd_private_to = None \<rparr>,
        \<lparr> rd_id = ''suite_2'', rd_bounds = (0, 6, 7, 6), rd_private_to = None \<rparr>,
        \<lparr> rd_id = ''suite_3'', rd_bounds = (33, 0, 7, 6), rd_private_to = None \<rparr>,
        \<lparr> rd_id = ''suite_4'', rd_bounds = (33, 6, 7, 6), rd_private_to = None \<rparr>,
        \<lparr> rd_id = ''lobby'', rd_bounds = (7, 4, 26, 4), rd_private_to = None \<rparr>,
        \<lparr> rd_id = ''cafe'', rd_bounds = (7, 0, 26, 4), rd_private_to = None \<rparr>,
        \<lparr> rd_id = ''library'', rd_bounds = (7, 8, 26, 4), rd_private_to = None \<rparr>],
     tl_doors =
       [\<lparr> dd_id = ''door_s1_lobby'', dd_a_room = ''suite_1'', dd_b_room = ''lobby'', dd_tile = (7, 4) \<rparr>,
        \<lparr> dd_id = ''door_s2_lobby'', dd_a_room = ''suite_2'', dd_b_room = ''lobby'', dd_tile = (7, 7) \<rparr>,
        \<lparr> dd_id = ''door_s3_lobby'', dd_a_room = ''suite_3'', dd_b_room = ''lobby'', dd_tile = (33, 4) \<rparr>,
        \<lparr> dd_id = ''door_s4_lobby'', dd_a_room = ''suite_4'', dd_b_room = ''lobby'', dd_tile = (33, 7) \<rparr>,
        \<lparr> dd_id = ''door_lobby_cafe'', dd_a_room = ''lobby'', dd_b_room = ''cafe'', dd_tile = (20, 4) \<rparr>,
        \<lparr> dd_id = ''door_lobby_library'', dd_a_room = ''lobby'', dd_b_room = ''library'',
          dd_tile = (20, 8) \<rparr>] \<rparr>"

definition layout_room :: "town_layout \<Rightarrow> ident \<Rightarrow> room_def option" where
  "layout_room layout i = find (\<lambda>r. rd_id r = i) (tl_rooms layout)"

definition door_at :: "town_layout \<Rightarrow> tile \<Rightarrow> door_def option" where
  "door_at layout t = find (\<lambda>d. dd_tile d = t) (tl_doors layout)"

text \<open>\<open>iter().map(..).collect()\<close> into a \<open>HashMap\<close>: a later entry replaces an earlier one.\<close>

definition room_bounds_map :: "town_layout \<Rightarrow> (ident \<times> bounds) list" where
  "room_bounds_map layout =
     fold (\<lambda>r m. AList.update (rd_id r) (rd_bounds r) m) (tl_rooms layout) []"

lemma map_of_room_bounds_fold:
  "map_of (fold (\<lambda>r m. AList.update (rd_id r) (rd_bounds r) m) rs m) i =
     (case find (\<lambda>r. rd_id r = i) (rev rs) of Some r \<Rightarrow> Some (rd_bounds r) | None \<Rightarrow> map_of m i)"
  by (induction rs arbitrary: m) (simp_all add: update_conv' find_append split: option.split)

lemma find_rev_distinct:
  "distinct (map f xs) \<Longrightarrow> find (\<lambda>x. f x = k) (rev xs) = find (\<lambda>x. f x = k) xs"
proof (induction xs)
  case Nil
  then show ?case by simp
next
  case (Cons x xs)
  then have "find (\<lambda>y. f y = f x) xs = None" by (auto simp: find_None_iff image_iff)
  with Cons show ?case by (cases "f x = k") (simp_all add: find_append split: option.split)
qed

text \<open>With distinct room ids, the map the paths are computed on agrees with \<open>layout.room\<close>.\<close>

lemma room_bounds_map_room:
  assumes "distinct (map rd_id (tl_rooms layout))"
  shows "map_of (room_bounds_map layout) i = map_option rd_bounds (layout_room layout i)"
  by (simp add: room_bounds_map_def map_of_room_bounds_fold find_rev_distinct [OF assms]
      layout_room_def split: option.splits)

lemma layout_room_id: "layout_room layout i = Some r \<Longrightarrow> rd_id r = i \<and> r \<in> set (tl_rooms layout)"
  by (auto simp: layout_room_def find_Some_iff)

definition coord_ok :: "int \<Rightarrow> bool" where
  "coord_ok c \<longleftrightarrow> \<bar>c\<bar> \<le> 2 ^ 20"

lemma default_town_in_range:
  "(\<forall>r \<in> set (tl_rooms default_town). case rd_bounds r of (x, y, w, h) \<Rightarrow>
       coord_ok x \<and> coord_ok y \<and> coord_ok (x + w) \<and> coord_ok (y + h)) \<and>
   (\<forall>d \<in> set (tl_doors default_town). case dd_tile d of (x, y) \<Rightarrow> coord_ok x \<and> coord_ok y)"
  by (simp add: default_town_def coord_ok_def)

text \<open>
  Permission on rooms, \<open>can_enter_layout_room\<close> of \<open>move_sys.rs\<close>, and the claims on suites that the
  loop's \<open>InsertAvatars\<close> and \<open>ReleaseSuite\<close> commands make.
\<close>

definition can_enter_layout_room :: "town_layout \<Rightarrow> ident \<Rightarrow> ident \<Rightarrow> bool" where
  "can_enter_layout_room layout startup_id room_id =
     (case layout_room layout room_id of
        Some r \<Rightarrow> (case rd_private_to r of None \<Rightarrow> True | Some owner \<Rightarrow> owner = startup_id)
      | None \<Rightarrow> False)"

text \<open>\<open>layout.rooms.iter_mut().find(|r| r.id == suite_id)\<close>: only the first match is claimed.\<close>

fun claim_first :: "ident \<Rightarrow> ident \<Rightarrow> room_def list \<Rightarrow> room_def list" where
  "claim_first suite sid [] = []"
| "claim_first suite sid (r # rs) =
     (if rd_id r = suite then r\<lparr>rd_private_to := Some sid\<rparr> # rs else r # claim_first suite sid rs)"

definition claim_suite :: "ident \<Rightarrow> ident \<Rightarrow> town_layout \<Rightarrow> town_layout" where
  "claim_suite suite sid layout = layout\<lparr>tl_rooms := claim_first suite sid (tl_rooms layout)\<rparr>"

definition release_suites :: "ident \<Rightarrow> town_layout \<Rightarrow> town_layout" where
  "release_suites sid layout = layout\<lparr>tl_rooms :=
     map (\<lambda>r. if rd_private_to r = Some sid then r\<lparr>rd_private_to := None\<rparr> else r) (tl_rooms layout)\<rparr>"

lemma find_claim_first:
  "find (\<lambda>r. rd_id r = i) (claim_first suite sid rs) =
     (if i = suite then map_option (\<lambda>r. r\<lparr>rd_private_to := Some sid\<rparr>) (find (\<lambda>r. rd_id r = i) rs)
      else find (\<lambda>r. rd_id r = i) rs)"
  by (induction rs) auto

lemma layout_room_claim:
  "layout_room (claim_suite suite sid layout) i =
     (if i = suite then map_option (\<lambda>r. r\<lparr>rd_private_to := Some sid\<rparr>) (layout_room layout i)
      else layout_room layout i)"
  by (simp add: layout_room_def claim_suite_def find_claim_first)

lemma layout_room_release:
  "layout_room (release_suites sid layout) i =
     map_option (\<lambda>r. if rd_private_to r = Some sid then r\<lparr>rd_private_to := None\<rparr> else r)
       (layout_room layout i)"
proof -
  have "find (\<lambda>r. rd_id r = i)
      (map (\<lambda>r. if rd_private_to r = Some sid then r\<lparr>rd_private_to := None\<rparr> else r) rs) =
    map_option (\<lambda>r. if rd_private_to r = Some sid then r\<lparr>rd_private_to := None\<rparr> else r)
      (find (\<lambda>r. rd_id r = i) rs)" for rs
    by (induction rs) auto
  then show ?thesis by (simp add: layout_room_def release_suites_def)
qed

lemma can_enter_iff:
  "can_enter_layout_room layout sid i \<longleftrightarrow>
     (\<exists>r. layout_room layout i = Some r \<and> (rd_private_to r = None \<or> rd_private_to r = Some sid))"
  by (auto simp: can_enter_layout_room_def split: option.splits)

section \<open>Properties\<close>

text \<open>After a startup has claimed a suite of the layout it is the only one that may enter that suite,
  and everybody's rights on the other rooms are as before.\<close>

lemma claimed_suite_is_private:
  assumes "layout_room layout suite = Some r"
  shows "can_enter_layout_room (claim_suite suite owner layout) sid room \<longleftrightarrow>
    (if room = suite then sid = owner else can_enter_layout_room layout sid room)"
  using assms by (auto simp: can_enter_layout_room_def layout_room_claim split: option.split)

text \<open>Dissolving a startup gives its suites back to everybody and changes no rights on other rooms.\<close>

lemma released_suites_are_public:
  "can_enter_layout_room (release_suites owner layout) sid room \<longleftrightarrow>
     can_enter_layout_room layout sid room \<or>
     Option.bind (layout_room layout room) rd_private_to = Some owner"
  by (auto simp: can_enter_layout_room_def layout_room_release split: option.splits)

end
