(* ===== verification/Paths.thy ===== *)
theory Paths
  imports Town
begin

text \<open>
  Path finding, \<open>path.rs\<close>: the room graph, the coarse route between rooms, tile paths inside one
  room and their composition \<open>full_route\<close>. \<open>astar\<close> of the crate \<open>pathfinding\<close> is a parameter of
  the definitions; \<open>astar_contract\<close> states what its documentation promises. An \<open>unwrap\<close> of \<open>None\<close>
  is the value \<open>Inl UnwrapNone\<close>.
\<close>

type_synonym 'n astar =
  "'n \<Rightarrow> ('n \<Rightarrow> ('n \<times> nat) list) \<Rightarrow> ('n \<Rightarrow> nat) \<Rightarrow> ('n \<Rightarrow> bool) \<Rightarrow> ('n list \<times> nat) option"

text \<open>
  What keeps a computation from returning: a failed \<open>unwrap\<close>, or a wait that never ends (\<open>Hangs\<close>), after
  which nothing of the computation happens either.
\<close>

datatype panic = UnwrapNone | Hangs

section \<open>The room graph\<close>

record door =
  d_a :: ident
  d_b :: ident
  d_tile :: tile

record room_graph =
  rg_doors :: "door list"
  rg_neighbors :: "(ident \<times> (ident \<times> tile) list) list"

text \<open>\<open>entry(k).or_default().push(v)\<close>\<close>

definition push_entry :: "'k \<Rightarrow> 'v \<Rightarrow> ('k \<times> 'v list) list \<Rightarrow> ('k \<times> 'v list) list" where
  "push_entry k v m =
     (case map_of m k of
        None \<Rightarrow> AList.update k [v] m
      | Some vs \<Rightarrow> AList.update k (vs @ [v]) m)"

definition add_door :: "door \<Rightarrow> (ident \<times> (ident \<times> tile) list) list \<Rightarrow>
    (ident \<times> (ident \<times> tile) list) list" where
  "add_door d m =
     push_entry (d_b d) (d_a d, d_tile d) (push_entry (d_a d) (d_b d, d_tile d) m)"

definition from_doors :: "door list \<Rightarrow> room_graph" where
  "from_doors doors = \<lparr> rg_doors = doors, rg_neighbors = fold add_door doors [] \<rparr>"

definition neighbors_of :: "room_graph \<Rightarrow> ident \<Rightarrow> (ident \<times> tile) list" where
  "neighbors_of g r = (case map_of (rg_neighbors g) r of None \<Rightarrow> [] | Some ns \<Rightarrow> ns)"

text \<open>The door tile a window \<open>[w0, w1]\<close> of the room path crosses; both look-ups are unwrapped.\<close>

definition hop_tile :: "room_graph \<Rightarrow> ident \<Rightarrow> ident \<Rightarrow> panic + tile" where
  "hop_tile g r nxt =
     (case map_of (rg_neighbors g) r of
        None \<Rightarrow> Inl UnwrapNone
      | Some ns \<Rightarrow> (case find (\<lambda>(n, _). n = nxt) ns of
          None \<Rightarrow> Inl UnwrapNone
        | Some (_, t) \<Rightarrow> Inr t))"

fun hops :: "room_graph \<Rightarrow> ident list \<Rightarrow> panic + (ident \<times> tile) list" where
  "hops g (r # nxt # rest) =
     (case hop_tile g r nxt of
        Inl p \<Rightarrow> Inl p
      | Inr t \<Rightarrow> (case hops g (nxt # rest) of Inl p \<Rightarrow> Inl p | Inr ws \<Rightarrow> Inr ((nxt, t) # ws)))"
| "hops g _ = Inr []"

definition route :: "ident astar \<Rightarrow> room_graph \<Rightarrow> ident \<Rightarrow> ident \<Rightarrow>
    panic + (ident \<times> tile) list option" where
  "route astar g frm to =
     (if frm = to then Inr (Some [])
      else case astar frm (\<lambda>r. map (\<lambda>(nb, _). (nb, 1)) (neighbors_of g r)) (\<lambda>_. 0) (\<lambda>r. r = to) of
             None \<Rightarrow> Inr None
           | Some (path, _) \<Rightarrow> (case hops g path of Inl p \<Rightarrow> Inl p | Inr ws \<Rightarrow> Inr (Some ws)))"

section \<open>Tiles inside a room\<close>

definition tile_succs :: "bounds \<Rightarrow> tile \<Rightarrow> (tile \<times> nat) list" where
  "tile_succs b t = map (\<lambda>n. (n, 1)) (filter (in_bounds b) (map (shift t) moves4))"

definition tile_path :: "tile astar \<Rightarrow> bounds \<Rightarrow> tile \<Rightarrow> tile \<Rightarrow> tile list option" where
  "tile_path astar b frm to =
     (if \<not> in_bounds b frm \<or> \<not> in_bounds b to then None
      else map_option fst
        (astar frm (tile_succs b) (\<lambda>p. nat (manhattan p to)) (\<lambda>p. p = to)))"

definition adjacent_inside :: "bounds \<Rightarrow> tile \<Rightarrow> tile option" where
  "adjacent_inside b door_tile =
     (if in_bounds b door_tile then Some door_tile
      else find (in_bounds b) (map (shift door_tile) moves4))"

section \<open>The full route\<close>

type_synonym segment = "ident \<times> tile list"

text \<open>The loop over the way-points: current room, current tile and the segments so far.\<close>

fun walk_waypoints :: "tile astar \<Rightarrow> (ident \<times> bounds) list \<Rightarrow> ident \<Rightarrow> tile \<Rightarrow> segment list \<Rightarrow>
    (ident \<times> tile) list \<Rightarrow> (ident \<times> tile \<times> segment list) option" where
  "walk_waypoints astar bm cur_room cur_tile out [] = Some (cur_room, cur_tile, out)"
| "walk_waypoints astar bm cur_room cur_tile out ((next_room, door) # ws) =
     Option.bind (map_of bm cur_room) (\<lambda>b.
     Option.bind (adjacent_inside b door) (\<lambda>exit_tile.
     Option.bind (tile_path astar b cur_tile exit_tile) (\<lambda>seg.
     let segment = (if exit_tile \<noteq> door then seg @ [door] else seg) in
     Option.bind (map_of bm next_room) (\<lambda>nb.
     Option.bind (adjacent_inside nb door) (\<lambda>entry_tile.
     walk_waypoints astar bm next_room entry_tile (out @ [(cur_room, segment)]) ws)))))"

definition full_route :: "ident astar \<Rightarrow> tile astar \<Rightarrow> room_graph \<Rightarrow> (ident \<times> bounds) list \<Rightarrow>
    ident \<times> tile \<Rightarrow> ident \<times> tile \<Rightarrow> panic + segment list option" where
  "full_route astar_r astar_t g bm frm to =
     (case route astar_r g (fst frm) (fst to) of
        Inl p \<Rightarrow> Inl p
      | Inr None \<Rightarrow> Inr None
      | Inr (Some waypoints) \<Rightarrow>
          (if waypoints = [] then
             Inr (Option.bind (map_of bm (fst frm)) (\<lambda>b.
                  Option.bind (tile_path astar_t b (snd frm) (snd to)) (\<lambda>seg.
                  Some [(fst frm, seg)])))
           else
             Inr (Option.bind (walk_waypoints astar_t bm (fst frm) (snd frm) [] waypoints)
                  (\<lambda>(room, tl, out).
                  Option.bind (map_of bm room) (\<lambda>b.
                  Option.bind (tile_path astar_t b tl (snd to)) (\<lambda>seg.
                  Some (out @ [(room, seg)])))))))"

section \<open>What \<open>astar\<close> promises\<close>

text \<open>
  \<open>Some (path, cost)\<close> is a path that starts at the start node, follows successors, ends in a node
  that satisfies the success test, and visits no node twice (the costs used here are positive and
  the path is a cheapest one).
\<close>

definition is_walk :: "('n \<Rightarrow> ('n \<times> nat) list) \<Rightarrow> 'n list \<Rightarrow> bool" where
  "is_walk succs p \<longleftrightarrow> (\<forall>i. Suc i < length p \<longrightarrow> p ! Suc i \<in> fst ` set (succs (p ! i)))"

definition astar_contract :: "'n astar \<Rightarrow> bool" where
  "astar_contract a \<longleftrightarrow>
     (\<forall>start succs h goal p c. a start succs h goal = Some (p, c) \<longrightarrow>
        p \<noteq> [] \<and> hd p = start \<and> goal (last p) \<and> distinct p \<and> is_walk succs p)"

lemma astar_contractD:
  assumes "astar_contract a" and "a start succs h goal = Some (p, c)"
  shows "p \<noteq> []" "hd p = start" "goal (last p)" "distinct p" "is_walk succs p"
  using assms unfolding astar_contract_def by blast+

lemma is_walk_Nil [simp]: "is_walk succs []" and is_walk_single [simp]: "is_walk succs [x]"
  by (simp_all add: is_walk_def)

lemma is_walk_Cons2 [simp]:
  "is_walk succs (x # y # p) \<longleftrightarrow> y \<in> fst ` set (succs x) \<and> is_walk succs (y # p)"
proof
  assume w: "is_walk succs (x # y # p)"
  then have "(x # y # p) ! Suc 0 \<in> fst ` set (succs ((x # y # p) ! 0))"
    unfolding is_walk_def by (metis length_Cons less_Suc_eq_0_disj Suc_less_eq)
  moreover have "is_walk succs (y # p)"
    unfolding is_walk_def
  proof (intro allI impI)
    fix i
    assume "Suc i < length (y # p)"
    with w have "(x # y # p) ! Suc (Suc i) \<in> fst ` set (succs ((x # y # p) ! Suc i))"
      unfolding is_walk_def by (metis Suc_less_eq length_Cons)
    then show "(y # p) ! Suc i \<in> fst ` set (succs ((y # p) ! i))" by simp
  qed
  ultimately show "y \<in> fst ` set (succs x) \<and> is_walk succs (y # p)" by simp
next
  assume h: "y \<in> fst ` set (succs x) \<and> is_walk succs (y # p)"
  show "is_walk succs (x # y # p)"
    unfolding is_walk_def
  proof (intro allI impI)
    fix i
    assume "Suc i < length (x # y # p)"
    with h show "(x # y # p) ! Suc i \<in> fst ` set (succs ((x # y # p) ! i))"
      by (cases i) (auto simp: is_walk_def)
  qed
qed

text \<open>
  A depth-first search with fuel satisfies the contract: it shows that the contract can hold and
  evaluates the examples.
\<close>

fun first_some :: "('a \<Rightarrow> 'b option) \<Rightarrow> 'a list \<Rightarrow> 'b option" where
  "first_some f [] = None"
| "first_some f (x # xs) = (case f x of Some y \<Rightarrow> Some y | None \<Rightarrow> first_some f xs)"

lemma first_some_Some: "first_some f xs = Some y \<Longrightarrow> \<exists>x \<in> set xs. f x = Some y"
  by (induction xs) (auto split: option.splits)

primrec dfs :: "nat \<Rightarrow> 'n list \<Rightarrow> ('n \<Rightarrow> ('n \<times> nat) list) \<Rightarrow> ('n \<Rightarrow> bool) \<Rightarrow> 'n \<Rightarrow> 'n list option" where
  "dfs 0 seen succs goal n = None"
| "dfs (Suc k) seen succs goal n =
     (if goal n then Some [n]
      else map_option ((#) n)
        (first_some (dfs k (n # seen) succs goal)
           (filter (\<lambda>m. m \<notin> set (n # seen)) (map fst (succs n)))))"

definition dfs_astar :: "nat \<Rightarrow> 'n astar" where
  "dfs_astar fuel start succs h goal =
     map_option (\<lambda>p. (p, length p)) (dfs fuel [] succs goal start)"

lemma dfs_sound:
  "dfs k seen succs goal n = Some p \<Longrightarrow> n \<notin> set seen \<Longrightarrow>
     p \<noteq> [] \<and> hd p = n \<and> goal (last p) \<and> distinct p \<and> set p \<inter> set seen = {} \<and> is_walk succs p"
proof (induction k arbitrary: seen n p)
  case 0
  then show ?case by simp
next
  case (Suc k)
  show ?case
  proof (cases "goal n")
    case True
    with Suc.prems show ?thesis by auto
  next
    case False
    with Suc.prems(1) obtain q where
      q: "first_some (dfs k (n # seen) succs goal)
            (filter (\<lambda>m. m \<notin> set (n # seen)) (map fst (succs n))) = Some q" and p: "p = n # q"
      by auto
    from first_some_Some [OF q] obtain m where
      m: "m \<in> fst ` set (succs n)" "m \<notin> set (n # seen)" "dfs k (n # seen) succs goal m = Some q"
      by auto
    from Suc.IH [OF m(3,2)] have IH:
      "q \<noteq> []" "hd q = m" "goal (last q)" "distinct q" "set q \<inter> set (n # seen) = {}" "is_walk succs q"
      by auto
    then obtain q' where "q = m # q'" by (cases q) auto
    with IH m(1) p Suc.prems(2) show ?thesis by auto
  qed
qed

lemma dfs_astar_contract: "astar_contract (dfs_astar fuel)"
  unfolding astar_contract_def dfs_astar_def
  by (auto dest!: dfs_sound)

section \<open>Routes are walks\<close>

text \<open>\<open>linked\<close>: consecutive tiles are at most one Manhattan step apart.\<close>

fun linked :: "tile list \<Rightarrow> bool" where
  "linked (a # b # ts) \<longleftrightarrow> manhattan a b \<le> 1 \<and> linked (b # ts)"
| "linked _ \<longleftrightarrow> True"

lemma linked_append:
  "linked (xs @ ys) \<longleftrightarrow>
     linked xs \<and> linked ys \<and> (xs \<noteq> [] \<longrightarrow> ys \<noteq> [] \<longrightarrow> manhattan (last xs) (hd ys) \<le> 1)"
proof (induction xs)
  case Nil
  then show ?case by simp
next
  case (Cons a xs)
  then show ?case by (cases xs; cases ys) auto
qed

lemma tile_succs_adjacent: "n \<in> fst ` set (tile_succs b t) \<Longrightarrow> manhattan t n = 1 \<and> in_bounds b n"
  by (auto simp: tile_succs_def manhattan_shift)

lemma tile_walk: "is_walk (tile_succs b) p \<Longrightarrow> linked p \<and> (p \<noteq> [] \<longrightarrow> in_bounds b (hd p) \<longrightarrow> (\<forall>t \<in> set p. in_bounds b t))"
proof (induction p rule: linked.induct)
  case (1 x y p)
  then have "manhattan x y = 1 \<and> in_bounds b y" by (intro tile_succs_adjacent) simp
  with 1 show ?case by auto
qed auto

lemma tile_path_sound:
  assumes "astar_contract astar" and "tile_path astar b frm to = Some p"
  shows "p \<noteq> []" "hd p = frm" "last p = to" "distinct p" "linked p" "\<forall>t \<in> set p. in_bounds b t"
proof -
  from assms(2) obtain c where
    r: "astar frm (tile_succs b) (\<lambda>p. nat (manhattan p to)) (\<lambda>p. p = to) = Some (p, c)"
    and b: "in_bounds b frm"
    by (auto simp: tile_path_def split: if_splits)
  note c = astar_contractD [OF assms(1) r]
  show "p \<noteq> []" "hd p = frm" "last p = to" "distinct p" using c by simp_all
  show "linked p" "\<forall>t \<in> set p. in_bounds b t" using tile_walk [OF c(5)] c(1,2) b by auto
qed

lemma adjacent_inside_sound:
  assumes "adjacent_inside b door = Some t"
  shows "in_bounds b t" "manhattan t door \<le> 1" "in_bounds b door \<Longrightarrow> t = door"
proof -
  have "in_bounds b t \<and> manhattan t door \<le> 1 \<and> (in_bounds b door \<longrightarrow> t = door)"
  proof (cases "in_bounds b door")
    case True
    with assms show ?thesis by (auto simp: adjacent_inside_def)
  next
    case False
    with assms have "find (in_bounds b) (map (shift door) moves4) = Some t"
      by (simp add: adjacent_inside_def)
    then have "t \<in> shift door ` set moves4" and "in_bounds b t" by (auto dest: find_SomeD)
    then obtain m where "m \<in> set moves4" "t = shift door m" "in_bounds b t" by blast
    with False show ?thesis using manhattan_shift [of m door] by (simp add: manhattan_sym)
  qed
  then show "in_bounds b t" "manhattan t door \<le> 1" "in_bounds b door \<Longrightarrow> t = door" by auto
qed


section \<open>The room graph and the coarse route\<close>

lemma map_of_push_entry:
  "map_of (push_entry k v m) r =
     (if r = k then Some ((case map_of m k of None \<Rightarrow> [] | Some vs \<Rightarrow> vs) @ [v]) else map_of m r)"
  by (simp add: push_entry_def update_conv' split: option.split)

definition entry_set :: "('k \<times> 'v list) list \<Rightarrow> 'k \<Rightarrow> 'v set" where
  "entry_set m r = (case map_of m r of None \<Rightarrow> {} | Some vs \<Rightarrow> set vs)"

lemma entry_set_push: "entry_set (push_entry k v m) r = entry_set m r \<union> (if r = k then {v} else {})"
  by (auto simp: entry_set_def map_of_push_entry split: option.splits)

lemma entry_set_fold:
  "entry_set (fold add_door ds m) r = entry_set m r \<union>
     {(n, t). \<exists>d \<in> set ds. d_tile d = t \<and> (d_a d = r \<and> d_b d = n \<or> d_b d = r \<and> d_a d = n)}"
proof (induction ds arbitrary: m)
  case Nil
  then show ?case by simp
next
  case (Cons d ds)
  have "entry_set (add_door d m) r = entry_set m r \<union>
    {(n, t). d_tile d = t \<and> (d_a d = r \<and> d_b d = n \<or> d_b d = r \<and> d_a d = n)}"
    by (auto simp: add_door_def entry_set_push)
  with Cons show ?case by auto
qed

lemma set_neighbors_of: "set (neighbors_of g r) = entry_set (rg_neighbors g) r"
  by (simp add: neighbors_of_def entry_set_def split: option.split)

text \<open>\<open>neighbors\<close> holds exactly the two directions of every door.\<close>

lemma neighbors_from_doors:
  "(n, t) \<in> set (neighbors_of (from_doors ds) r) \<longleftrightarrow>
     (\<exists>d \<in> set ds. d_tile d = t \<and> (d_a d = r \<and> d_b d = n \<or> d_b d = r \<and> d_a d = n))"
  by (simp add: set_neighbors_of from_doors_def entry_set_fold) (simp add: entry_set_def)

fun route_ok :: "room_graph \<Rightarrow> ident \<Rightarrow> (ident \<times> tile) list \<Rightarrow> bool" where
  "route_ok g r [] = True"
| "route_ok g r ((n, t) # ws) = ((n, t) \<in> set (neighbors_of g r) \<and> route_ok g n ws)"

lemma hop_tile_neighbor:
  assumes "nxt \<in> fst ` set (neighbors_of g r)"
  shows "\<exists>t. hop_tile g r nxt = Inr t \<and> (nxt, t) \<in> set (neighbors_of g r)"
proof -
  from assms obtain ns where ns: "map_of (rg_neighbors g) r = Some ns" "nxt \<in> fst ` set ns"
    by (cases "map_of (rg_neighbors g) r") (auto simp: neighbors_of_def)
  from ns(2) obtain t0 where "(nxt, t0) \<in> set ns" by auto
  then have "find (\<lambda>(n, _). n = nxt) ns \<noteq> None" unfolding find_None_iff by blast
  then obtain n t where f: "find (\<lambda>(n, _). n = nxt) ns = Some (n, t)" by auto
  from find_SomeD [OF this] have "(n, t) \<in> set ns" "n = nxt" by auto
  with ns f show ?thesis by (auto simp: hop_tile_def neighbors_of_def)
qed

lemma hops_walk:
  assumes "is_walk (\<lambda>r. map (\<lambda>(nb, _). (nb, 1 :: nat)) (neighbors_of g r)) p"
  shows "\<exists>ws. hops g p = Inr ws \<and> map fst ws = tl p \<and> (p \<noteq> [] \<longrightarrow> route_ok g (hd p) ws)"
  using assms
proof (induction g p rule: hops.induct)
  case (1 g r nxt rest)
  from "1.prems" have n: "nxt \<in> fst ` set (neighbors_of g r)" by force
  from hop_tile_neighbor [OF this] obtain t where
    t: "hop_tile g r nxt = Inr t" "(nxt, t) \<in> set (neighbors_of g r)" by blast
  from 1 t(1) obtain ws where
    "hops g (nxt # rest) = Inr ws" "map fst ws = rest" "route_ok g nxt ws" by auto
  with t show ?case by simp
qed auto

lemma route_sound:
  assumes "astar_contract astar"
  shows "\<exists>w. route astar g frm to = Inr w \<and>
    (\<forall>ws. w = Some ws \<longrightarrow> route_ok g frm ws \<and> last (frm # map fst ws) = to \<and> distinct (frm # map fst ws))"
proof (cases "frm = to")
  case True
  then show ?thesis by (simp add: route_def)
next
  case False
  let ?succs = "\<lambda>r. map (\<lambda>(nb, _). (nb, 1 :: nat)) (neighbors_of g r)"
  show ?thesis
  proof (cases "astar frm ?succs (\<lambda>_. 0) (\<lambda>r. r = to)")
    case None
    with False show ?thesis by (simp add: route_def)
  next
    case (Some pc)
    obtain p c where pc: "pc = (p, c)" by (cases pc)
    note r = astar_contractD [OF assms Some [unfolded pc]]
    from hops_walk [OF r(5)] obtain ws where
      ws: "hops g p = Inr ws" "map fst ws = tl p" "route_ok g (hd p) ws" using r(1) by auto
    have "frm # map fst ws = p" using ws(2) r(1,2) by (cases p) auto
    then have "route astar g frm to = Inr (Some ws)"
      and "route_ok g frm ws" and "last (frm # map fst ws) = to" and "distinct (frm # map fst ws)"
      using ws r(2-4) Some pc False by (simp_all add: route_def)
    then show ?thesis by blast
  qed
qed

section \<open>The segments of a full route\<close>

abbreviation tiles_of :: "segment list \<Rightarrow> tile list" where
  "tiles_of segs \<equiv> concat (map snd segs)"

lemma walk_waypoints_acc:
  "walk_waypoints astar bm r t out ws =
     map_option (\<lambda>(r', t', o'). (r', t', out @ o')) (walk_waypoints astar bm r t [] ws)"
proof (induction ws arbitrary: r t out)
  case Nil
  then show ?case by simp
next
  case (Cons w ws)
  obtain n d where w: "w = (n, d)" by (cases w)
  show ?case
    unfolding w walk_waypoints.simps Let_def
    by (subst (1 2) Cons.IH)
       (auto simp: map_option_bind option.map_comp o_def intro!: option.map_cong
         split: option.splits Option.bind_splits)
qed

text \<open>A segment that ends at a door: a walk inside its room, up to the step onto the door tile.\<close>

definition exits_by :: "bounds \<Rightarrow> tile \<Rightarrow> tile list \<Rightarrow> bool" where
  "exits_by b door seg \<longleftrightarrow> seg \<noteq> [] \<and> linked seg \<and> last seg = door \<and> distinct seg \<and>
     (\<forall>t \<in> set seg. in_bounds b t \<or> t = door)"

lemma walk_waypoints_Cons:
  assumes "astar_contract astar" and "walk_waypoints astar bm r t [] ((n, door) # ws) = Some (r', t', out)"
  obtains b nb seg entry out' where
    "map_of bm r = Some b" "map_of bm n = Some nb" "adjacent_inside nb door = Some entry"
    "exits_by b door seg" "hd seg = t" "in_bounds b t"
    "walk_waypoints astar bm n entry [] ws = Some (r', t', out')" "out = (r, seg) # out'"
proof -
  from assms(2) obtain b ex seg nb entry where
    h: "map_of bm r = Some b" "adjacent_inside b door = Some ex" "tile_path astar b t ex = Some seg"
       "map_of bm n = Some nb" "adjacent_inside nb door = Some entry"
    and rest: "walk_waypoints astar bm n entry [(r, if ex \<noteq> door then seg @ [door] else seg)] ws
        = Some (r', t', out)"
    by (auto simp: Let_def bind_eq_Some_conv)
  note tp = tile_path_sound [OF assms(1) h(3)] and ai = adjacent_inside_sound [OF h(2)]
  let ?seg = "if ex \<noteq> door then seg @ [door] else seg"
  have nin: "ex \<noteq> door \<Longrightarrow> \<not> in_bounds b door" using ai(3) by blast
  have ex: "exits_by b door ?seg"
    using tp ai nin by (auto simp: exits_by_def linked_append)
  have hd: "hd ?seg = t" "in_bounds b t" using tp by (auto simp: hd_append)
  from rest obtain out' where
    "walk_waypoints astar bm n entry [] ws = Some (r', t', out')" "out = (r, ?seg) # out'"
    by (subst (asm) walk_waypoints_acc) auto
  with h ex hd show thesis by (intro that) simp_all
qed

lemma walk_waypoints_sound:
  assumes "astar_contract astar" and "walk_waypoints astar bm r t [] ws = Some (r', t', out)"
  shows "map fst out @ [r'] = r # map fst ws \<and> linked (tiles_of out @ [t']) \<and>
    hd (tiles_of out @ [t']) = t \<and> (\<forall>s \<in> set out. snd s \<noteq> [] \<and> distinct (snd s))"
  using assms(2)
proof (induction ws arbitrary: r t out)
  case Nil
  then show ?case by simp
next
  case (Cons w ws)
  obtain n door where w: "w = (n, door)" by (cases w)
  obtain b nb seg entry out' where
    h: "adjacent_inside nb door = Some entry" "exits_by b door seg" "hd seg = t"
       "walk_waypoints astar bm n entry [] ws = Some (r', t', out')" "out = (r, seg) # out'"
    using Cons.prems unfolding w by (elim walk_waypoints_Cons [OF assms(1)]) blast
  note IH = Cons.IH [OF h(4)]
  have "manhattan door entry \<le> 1" using adjacent_inside_sound(2) [OF h(1)] by (simp add: manhattan_sym)
  then show ?case
    using IH h(2,3,5) w by (auto simp: linked_append exits_by_def)
qed

lemma hd_append_hd: "ys \<noteq> [] \<Longrightarrow> hd (xs @ [hd ys]) = hd (xs @ ys)"
  by (cases xs) simp_all

text \<open>Every route starts at the given tile, ends at the target and never jumps.\<close>

lemma full_route_sound:
  assumes "astar_contract ar" and "astar_contract at'"
    and "full_route ar at' g bm frm to = Inr (Some segs)"
  shows "segs \<noteq> [] \<and> linked (tiles_of segs) \<and> hd (tiles_of segs) = snd frm \<and>
    last (tiles_of segs) = snd to \<and> fst (hd segs) = fst frm \<and> fst (last segs) = fst to \<and>
    (\<forall>s \<in> set segs. snd s \<noteq> [] \<and> distinct (snd s))"
proof -
  obtain w where w: "route ar g (fst frm) (fst to) = Inr (Some w)"
    using assms(3) by (auto simp: full_route_def split: sum.splits option.splits)
  from route_sound [OF assms(1), of g "fst frm" "fst to"] w
  have lw: "last (fst frm # map fst w) = fst to" by simp
  show ?thesis
  proof (cases "w = []")
    case True
    with assms(3) w obtain b seg where
      "map_of bm (fst frm) = Some b" "tile_path at' b (snd frm) (snd to) = Some seg"
      "segs = [(fst frm, seg)]"
      by (auto simp: full_route_def bind_eq_Some_conv)
    with tile_path_sound [OF assms(2)] lw True show ?thesis by auto
  next
    case False
    with assms(3) w obtain r t out b seg where
      ww: "walk_waypoints at' bm (fst frm) (snd frm) [] w = Some (r, t, out)"
      and seg: "tile_path at' b t (snd to) = Some seg" and segs: "segs = out @ [(r, seg)]"
      by (auto simp: full_route_def bind_eq_Some_conv)
    note ws = walk_waypoints_sound [OF assms(2) ww] and tp = tile_path_sound [OF assms(2) seg]
    from ws False have "out \<noteq> []" by auto
    then obtain o1 os where "out = o1 # os" by (cases out) auto
    moreover from this ws have "fst o1 = fst frm" by auto
    moreover have "r = fst to" using ws lw by (metis last_snoc)
    ultimately show ?thesis
      using ws tp segs by (auto simp: linked_append hd_append_hd)
  qed
qed

end
