(* ===== verification/Health.thy ===== *)
theory Health
  imports Town
begin

text \<open>
  Worker liveness, \<open>health.rs\<close>, and the avatars of the in-memory world view, \<open>state.rs\<close>. Seconds
  are \<open>i64\<close> in the code; the clock and the stored time stamps stay far inside that range.
\<close>

datatype health = Online | RecentlyLost | Offline | AboutToGc

definition RECENTLY_LOST_MAX_SECS :: int where
  "RECENTLY_LOST_MAX_SECS = 5 * 60"

definition OFFLINE_MAX_SECS :: int where
  "OFFLINE_MAX_SECS = 6 * 24 * 60 * 60"

definition ABOUT_TO_GC_MAX_SECS :: int where
  "ABOUT_TO_GC_MAX_SECS = 7 * 24 * 60 * 60"

lemmas health_limits = RECENTLY_LOST_MAX_SECS_def OFFLINE_MAX_SECS_def ABOUT_TO_GC_MAX_SECS_def

definition derive_health :: "int \<Rightarrow> int option \<Rightarrow> bool \<Rightarrow> bool \<Rightarrow> health" where
  "derive_health now_ts last_seen is_connected is_operator =
     (if is_operator then Online
      else if is_connected then Online
      else case last_seen of
          None \<Rightarrow> Offline
        | Some ts \<Rightarrow>
            let delta = now_ts - ts in
            (if delta < 0 then Online
             else if delta \<le> RECENTLY_LOST_MAX_SECS then RecentlyLost
             else if delta \<le> OFFLINE_MAX_SECS then Offline
             else if delta \<le> ABOUT_TO_GC_MAX_SECS then AboutToGc
             else Offline))"

record avatar =
  av_agent_id :: ident
  av_startup_id :: ident
  av_role :: string
  av_backend :: string
  av_current_pos :: tile
  av_target_pos :: "tile option"
  av_room_id :: ident
  av_status :: string
  av_last_seen_at :: "int option"
  av_health :: health

type_synonym avatars = "(ident \<times> avatar) list"

lemma derive_live [simp]:
  "derive_health now seen True op = Online" "derive_health now seen con True = Online"
  by (simp_all add: derive_health_def)

lemma derive_lost:
  "derive_health now (Some ts) False False =
     (if now < ts then Online
      else if now - ts \<le> 300 then RecentlyLost
      else if 518400 < now - ts \<and> now - ts \<le> 604800 then AboutToGc
      else Offline)"
  by (auto simp: derive_health_def health_limits Let_def)

text \<open>
  A silent worker's health only moves along \<open>RecentlyLost\<close>, \<open>Offline\<close>, \<open>AboutToGc\<close>, \<open>Offline\<close> as
  time passes: the rank of its bucket in that order never decreases.
\<close>

definition lost_rank :: "int \<Rightarrow> nat" where
  "lost_rank d = (if d \<le> 300 then 0 else if d \<le> 518400 then 1 else if d \<le> 604800 then 2 else 3)"

lemma derive_by_rank:
  "ts \<le> now \<Longrightarrow> derive_health now (Some ts) False False =
     [RecentlyLost, Offline, AboutToGc, Offline] ! lost_rank (now - ts)"
  by (simp add: derive_lost lost_rank_def)

lemma lost_rank_mono: "d \<le> e \<Longrightarrow> lost_rank d \<le> lost_rank e"
  by (simp add: lost_rank_def)

section \<open>Properties\<close>

text \<open>A worker that stays silent only ages: between two moments after its last sign of life its
  health moves forward along recently lost, offline, about to be collected, offline, and never back.\<close>

lemma silent_worker_only_ages:
  assumes "ts \<le> now" and "now \<le> later"
  shows "\<exists>i j. i \<le> j \<and> j < 4 \<and>
    derive_health now (Some ts) False False = [RecentlyLost, Offline, AboutToGc, Offline] ! i \<and>
    derive_health later (Some ts) False False = [RecentlyLost, Offline, AboutToGc, Offline] ! j"
proof (intro exI conjI)
  show "lost_rank (now - ts) \<le> lost_rank (later - ts)" using assms by (intro lost_rank_mono) simp
  show "lost_rank (later - ts) < 4" by (simp add: lost_rank_def)
qed (use assms in \<open>auto intro!: derive_by_rank\<close>)

end
