(* ===== verification/MoveSys.thy ===== *)
theory MoveSys
  imports Paths Health
begin

text \<open>
  The movement subsystem, \<open>move_sys.rs\<close>: \<open>start_move\<close> plans a queue of steps from a full route and
  \<open>step_all\<close> advances every avatar one tile per tick. The path store is an association list from
  agents to step queues. A panic in the route computation is the \<open>Inl\<close> of the sum.
\<close>

record move_step =
  ms_tile :: tile
  ms_enter_room :: "ident option"

type_synonym path_store = "(ident \<times> move_step list) list"

datatype start_move_result = MoveOk | NoPath | PermissionDenied | NoSuchAgent

datatype move_event = Complete ident ident

definition graph_from_layout :: "town_layout \<Rightarrow> room_graph" where
  "graph_from_layout layout =
     from_doors (map (\<lambda>d. \<lparr> d_a = dd_a_room d, d_b = dd_b_room d, d_tile = dd_tile d \<rparr>)
       (tl_doors layout))"

text \<open>
  One segment of the route: tiles equal to the tile before them are skipped, and the tile at the
  last index carries the room that follows (\<open>nxt\<close>, none in the last segment).
\<close>

fun plan_seg :: "ident option \<Rightarrow> tile option \<Rightarrow> tile list \<Rightarrow> move_step list \<times> tile option" where
  "plan_seg nxt last_tile [] = ([], last_tile)"
| "plan_seg nxt last_tile (t # ts) =
     (if last_tile = Some t then plan_seg nxt last_tile ts
      else case plan_seg nxt (Some t) ts of
             (steps, l) \<Rightarrow>
               (\<lparr> ms_tile = t, ms_enter_room = (if ts = [] then nxt else None) \<rparr> # steps, l))"

fun plan_route :: "tile option \<Rightarrow> segment list \<Rightarrow> move_step list" where
  "plan_route last_tile [] = []"
| "plan_route last_tile ((room, seg) # rest) =
     (case plan_seg (case rest of [] \<Rightarrow> None | (n, _) # _ \<Rightarrow> Some n) last_tile seg of
        (steps, l) \<Rightarrow> steps @ plan_route l rest)"

definition drop_leading :: "tile \<Rightarrow> move_step list \<Rightarrow> move_step list" where
  "drop_leading frm steps =
     (case steps of [] \<Rightarrow> [] | s # rest \<Rightarrow> (if ms_tile s = frm then rest else steps))"

definition start_move :: "ident astar \<Rightarrow> tile astar \<Rightarrow> town_layout \<Rightarrow> room_graph \<Rightarrow> ident \<Rightarrow> ident \<Rightarrow>
    tile \<Rightarrow> avatars \<Rightarrow> path_store \<Rightarrow> panic + (start_move_result \<times> avatars \<times> path_store)" where
  "start_move astar_r astar_t layout graph agent_id target_room target avs paths =
     (case map_of avs agent_id of
        None \<Rightarrow> Inr (NoSuchAgent, avs, paths)
      | Some av \<Rightarrow>
          if \<not> can_enter_layout_room layout (av_startup_id av) target_room
          then Inr (PermissionDenied, avs, paths)
          else case full_route astar_r astar_t graph (room_bounds_map layout)
                 (av_room_id av, av_current_pos av) (target_room, target) of
              Inl p \<Rightarrow> Inl p
            | Inr None \<Rightarrow> Inr (NoPath, avs, paths)
            | Inr (Some segs) \<Rightarrow>
                let steps = drop_leading (av_current_pos av) (plan_route None segs) in
                (if steps = []
                 then Inr (MoveOk, amap_upd agent_id (\<lambda>a. a\<lparr>av_target_pos := None\<rparr>) avs, paths)
                 else Inr (MoveOk, amap_upd agent_id (\<lambda>a. a\<lparr>av_target_pos := Some target\<rparr>) avs,
                           AList.update agent_id steps paths)))"

definition move_onto :: "move_step \<Rightarrow> avatar \<Rightarrow> avatar" where
  "move_onto s a = a\<lparr>av_current_pos := ms_tile s,
     av_room_id := (case ms_enter_room s of None \<Rightarrow> av_room_id a | Some r \<Rightarrow> r)\<rparr>"

definition clear_target :: "avatar \<Rightarrow> avatar" where
  "clear_target a = a\<lparr>av_target_pos := None\<rparr>"

text \<open>The entries of \<open>to_remove\<close> are left out of the store as the iteration passes them.\<close>

fun step_all :: "avatars \<Rightarrow> path_store \<Rightarrow> avatars \<times> path_store \<times> move_event list" where
  "step_all avs [] = (avs, [], [])"
| "step_all avs ((agent_id, path) # ps) =
     (case map_of avs agent_id of
        None \<Rightarrow> step_all avs ps
      | Some av \<Rightarrow> (case path of
            [] \<Rightarrow> step_all (amap_upd agent_id clear_target avs) ps
          | s # rest \<Rightarrow>
              if rest = [] then
                (case step_all (amap_upd agent_id (\<lambda>a. clear_target (move_onto s a)) avs) ps of
                   (avs', ps', ev) \<Rightarrow>
                     (avs', ps', Complete agent_id (av_room_id (move_onto s av)) # ev))
              else
                (case step_all (amap_upd agent_id (move_onto s) avs) ps of
                   (avs', ps', ev) \<Rightarrow> (avs', (agent_id, rest) # ps', ev))))"

section \<open>The planned steps\<close>

text \<open>The tiles of a plan are the route's tiles without repetitions.\<close>

definition after_tile :: "tile option \<Rightarrow> tile list \<Rightarrow> tile list" where
  "after_tile l ts = (case l of None \<Rightarrow> remdups_adj ts | Some x \<Rightarrow> tl (remdups_adj (x # ts)))"

lemma after_tile_simps [simp]:
  "after_tile l [] = []"
  "after_tile (Some t) (t # ts) = after_tile (Some t) ts"
  "l \<noteq> Some t \<Longrightarrow> after_tile l (t # ts) = t # after_tile (Some t) ts"
  by (auto simp: after_tile_def split: option.splits)

lemma plan_seg_tiles:
  "map ms_tile (fst (plan_seg nxt l ts)) = after_tile l ts \<and>
   snd (plan_seg nxt l ts) = (if ts = [] then l else Some (last ts))"
  by (induction ts arbitrary: l) (simp_all add: case_prod_beta)

lemma after_tile_append:
  "after_tile l (xs @ ys) = after_tile l xs @ after_tile (if xs = [] then l else Some (last xs)) ys"
proof (induction xs arbitrary: l)
  case Nil
  then show ?case by simp
next
  case (Cons x xs)
  then show ?case by (cases "l = Some x") auto
qed

lemma plan_route_tiles: "map ms_tile (plan_route l segs) = after_tile l (tiles_of segs)"
proof (induction l segs rule: plan_route.induct)
  case (1 l)
  then show ?case by simp
next
  case (2 l room seg rest)
  obtain ss l' where p: "plan_seg (case rest of [] \<Rightarrow> None | (n, _) # _ \<Rightarrow> Some n) l seg = (ss, l')"
    by (metis prod.exhaust)
  with plan_seg_tiles [of "case rest of [] \<Rightarrow> None | (n, _) # _ \<Rightarrow> Some n" l seg] 2 [OF p [symmetric]]
  show ?case by (simp add: after_tile_append)
qed

fun stepping :: "tile list \<Rightarrow> bool" where
  "stepping (a # b # ts) \<longleftrightarrow> manhattan a b = 1 \<and> stepping (b # ts)"
| "stepping _ \<longleftrightarrow> True"

lemma stepping_remdups_adj: "linked ts \<Longrightarrow> stepping (remdups_adj ts)"
proof (induction ts rule: linked.induct)
  case (1 a b ts)
  show ?case
  proof (cases "a = b")
    case True
    with 1 show ?thesis by simp
  next
    case False
    moreover obtain r where "remdups_adj (b # ts) = b # r" by (metis remdups_adj_Cons_alt)
    moreover have "manhattan a b = 1"
      using 1(2) False manhattan_nonneg [of a b] manhattan_zero [of a b] by (simp del: manhattan_nonneg manhattan_zero)
    ultimately show ?thesis using 1 by simp
  qed
qed simp_all

lemma last_remdups_adj': "ts \<noteq> [] \<Longrightarrow> last (remdups_adj ts) = last ts"
  by (induction ts rule: remdups_adj.induct) auto

section \<open>What \<open>start_move\<close> plans\<close>

lemma drop_leading_route:
  assumes "segs \<noteq> []" and "\<forall>s \<in> set segs. snd s \<noteq> []" and "hd (tiles_of segs) = p"
  shows "p # map ms_tile (drop_leading p (plan_route None segs)) = remdups_adj (tiles_of segs)"
proof -
  have ne: "tiles_of segs \<noteq> []" using assms(1,2) by (cases segs) auto
  have t: "map ms_tile (plan_route None segs) = remdups_adj (tiles_of segs)"
    by (simp add: plan_route_tiles after_tile_def)
  have "plan_route None segs \<noteq> []" using t ne by (metis list.map_disc_iff remdups_adj_Nil_iff)
  then obtain s r where r: "plan_route None segs = s # r" by (cases "plan_route None segs") auto
  have "ms_tile s = hd (remdups_adj (tiles_of segs))" using t r by (metis list.sel(1) list.simps(9))
  also have "\<dots> = p" using assms(3) ne by (simp add: hd_remdups_adj)
  finally show ?thesis using t r by (simp add: drop_leading_def)
qed

lemma plan_walks:
  assumes "astar_contract ar" and "astar_contract at'"
    and "full_route ar at' g bm frm to = Inr (Some segs)"
    and "steps = drop_leading (snd frm) (plan_route None segs)"
  shows "stepping (snd frm # map ms_tile steps)" "last (snd frm # map ms_tile steps) = snd to"
proof -
  note fr = full_route_sound [OF assms(1-3)]
  have eq: "snd frm # map ms_tile steps = remdups_adj (tiles_of segs)"
    unfolding assms(4) by (rule drop_leading_route) (use fr in auto)
  from fr have ne: "tiles_of segs \<noteq> []" by (cases segs) auto
  show "stepping (snd frm # map ms_tile steps)" using eq fr stepping_remdups_adj by metis
  show "last (snd frm # map ms_tile steps) = snd to"
    using eq fr last_remdups_adj' [OF ne] by metis
qed

text \<open>The outcomes of \<open>start_move\<close>, branch by branch.\<close>

lemma start_move_refused:
  assumes "start_move ar at' layout g a room t avs ps = Inr (r, avs', ps')" and "r \<noteq> MoveOk"
  shows "avs' = avs" "ps' = ps"
  using assms by (auto simp: start_move_def Let_def split: option.splits if_splits sum.splits)

lemma start_move_granted:
  assumes "start_move ar at' layout g a room t avs ps = Inr (MoveOk, avs', ps')"
  obtains av segs steps where
    "map_of avs a = Some av" "can_enter_layout_room layout (av_startup_id av) room"
    "full_route ar at' g (room_bounds_map layout) (av_room_id av, av_current_pos av) (room, t) =
       Inr (Some segs)"
    "steps = drop_leading (av_current_pos av) (plan_route None segs)"
    "avs' = amap_upd a (\<lambda>x. x\<lparr>av_target_pos := (if steps = [] then None else Some t)\<rparr>) avs"
    "ps' = (if steps = [] then ps else AList.update a steps ps)"
  using assms
  by (auto simp: start_move_def Let_def split: option.splits if_splits sum.splits)

lemma start_move_no_panic:
  assumes "astar_contract ar"
  shows "start_move ar at' layout g a room t avs ps \<noteq> Inl p"
proof (cases "map_of avs a")
  case None
  then show ?thesis by (simp add: start_move_def)
next
  case (Some av)
  have "full_route ar at' g bm f to' \<noteq> Inl q" for bm f to' q
    using route_sound [OF assms, of g "fst f" "fst to'"]
    by (auto simp: full_route_def split: option.splits if_splits)
  with Some show ?thesis by (auto simp: start_move_def Let_def split: option.splits sum.splits)
qed

section \<open>Executing a plan\<close>

fun advance :: "move_step list \<Rightarrow> avatar \<Rightarrow> avatar" where
  "advance [] = clear_target"
| "advance (s # rest) = (if rest = [] then clear_target \<circ> move_onto s else move_onto s)"

fun remaining :: "move_step list \<Rightarrow> move_step list option" where
  "remaining (s # r # rest) = Some (r # rest)"
| "remaining _ = None"

lemma map_of_amap_fst: "fst ` set (amap_upd k f m) = fst ` set m"
  by (metis keys_amap_upd list.set_map)

lemma step_all_sound:
  assumes "step_all avs ps = (avs', ps', ev)" and "distinct (map fst ps)"
  shows "map_of avs' a = (case map_of ps a of None \<Rightarrow> map_of avs a
           | Some path \<Rightarrow> map_option (advance path) (map_of avs a)) \<and>
    map_of ps' a = (if map_of avs a = None then None else Option.bind (map_of ps a) remaining) \<and>
    set (map fst ps') \<subseteq> set (map fst ps) \<and> distinct (map fst ps') \<and>
    (\<forall>r. Complete a r \<in> set ev \<longleftrightarrow>
       (\<exists>s av. map_of ps a = Some [s] \<and> map_of avs a = Some av \<and> r = av_room_id (move_onto s av)))"
  using assms
proof (induction ps arbitrary: avs avs' ps' ev)
  case Nil
  then show ?case by simp
next
  case (Cons p ps)
  obtain b path where p: "p = (b, path)" by (cases p)
  from Cons.prems p have b: "b \<notin> fst ` set ps" and d: "distinct (map fst ps)" by auto
  then have nb: "map_of ps b = None" by (simp add: map_of_eq_None_iff)
  show ?case
  proof (cases "map_of avs b")
    case None
    with Cons.prems(1) p have "step_all avs ps = (avs', ps', ev)" by simp
    from Cons.IH [OF this d] None nb p show ?thesis by auto
  next
    case (Some av)
    show ?thesis
    proof (cases path)
      case Nil
      with Cons.prems(1) p Some have "step_all (amap_upd b clear_target avs) ps = (avs', ps', ev)"
        by simp
      from Cons.IH [OF this d] Nil Some nb p show ?thesis
        by (cases "map_of ps a") (auto simp: map_of_amap_upd)
    next
      case s: (Cons s rest)
      show ?thesis
      proof (cases "rest = []")
        case True
        with Cons.prems(1) p Some s obtain e where
          "step_all (amap_upd b (\<lambda>a. clear_target (move_onto s a)) avs) ps = (avs', ps', e)"
          "ev = Complete b (av_room_id (move_onto s av)) # e"
          by (auto split: prod.splits)
        with Cons.IH [OF this(1) d] s Some nb p True show ?thesis
          by (cases "map_of ps a") (auto simp: map_of_amap_upd o_def)
      next
        case False
        with Cons.prems(1) p Some s obtain q where
          "step_all (amap_upd b (move_onto s) avs) ps = (avs', q, ev)" "ps' = (b, rest) # q"
          by (auto split: prod.splits)
        moreover from this Cons.IH [OF this(1) d] b have "b \<notin> fst ` set q" by auto
        moreover obtain r rs where "rest = r # rs" using False by (cases rest) auto
        ultimately show ?thesis
          using Cons.IH [of "amap_upd b (move_onto s) avs" avs' q ev] d s Some nb p
          by (cases "map_of ps a") (auto simp: map_of_amap_upd)
      qed
    qed
  qed
qed

definition walk :: "avatars \<times> path_store \<Rightarrow> avatars \<times> path_store" where
  "walk w = (case step_all (fst w) (snd w) of (avs, ps, _) \<Rightarrow> (avs, ps))"

lemma walk_one:
  assumes "distinct (map fst ps)" and "map_of avs a = Some av" and "map_of ps a = Some path"
  shows "map_of (fst (walk (avs, ps))) a = Some (advance path av)"
    and "map_of (snd (walk (avs, ps))) a = remaining path"
    and "distinct (map fst (snd (walk (avs, ps))))"
proof -
  obtain avs' ps' ev where s: "step_all avs ps = (avs', ps', ev)" by (metis prod.exhaust)
  note st = step_all_sound [OF s assms(1), of a]
  show "map_of (fst (walk (avs, ps))) a = Some (advance path av)"
    and "map_of (snd (walk (avs, ps))) a = remaining path"
    and "distinct (map fst (snd (walk (avs, ps))))"
    using st s assms(2,3) by (simp_all add: walk_def)
qed

text \<open>After as many ticks as the plan has steps the avatar has taken all of them and rests.\<close>

lemma walk_all:
  assumes "path \<noteq> []" and "distinct (map fst (snd w))" and "map_of (fst w) a = Some av"
    and "map_of (snd w) a = Some path"
  shows "map_of (fst ((walk ^^ length path) w)) a = Some (clear_target (fold move_onto path av)) \<and>
    map_of (snd ((walk ^^ length path) w)) a = None"
  using assms
proof (induction path arbitrary: w av)
  case Nil
  then show ?case by simp
next
  case (Cons s path)
  have eq: "(walk ^^ length (s # path)) w = (walk ^^ length path) (walk w)"
    by (simp add: funpow_swap1)
  note w1 = walk_one [OF Cons.prems(2-4), simplified]
  show ?case
  proof (cases "path = []")
    case True
    with w1 eq show ?thesis by simp
  next
    case False
    then have "remaining (s # path) = Some path" by (cases path) simp_all
    with w1 False have "map_of (fst (walk w)) a = Some (move_onto s av)"
      "map_of (snd (walk w)) a = Some path" "distinct (map fst (snd (walk w)))" by simp_all
    from Cons.IH [OF False this(3,1,2)] eq show ?thesis by simp
  qed
qed

lemma fold_move_onto_pos:
  "av_current_pos (fold move_onto path av) = last (av_current_pos av # map ms_tile path)"
  by (induction path arbitrary: av) (auto simp: move_onto_def)

section \<open>The room at the end of a plan\<close>

lemma fold_move_onto_room:
  "av_room_id (fold move_onto path av) =
     last (av_room_id av # List.map_filter ms_enter_room path)"
  by (induction path arbitrary: av) (auto simp: move_onto_def map_filter_simps split: option.splits)

lemma plan_seg_no_room: "s \<in> set (fst (plan_seg None l ts)) \<Longrightarrow> ms_enter_room s = None"
  by (induction ts arbitrary: l) (auto simp: case_prod_beta split: if_splits)

lemma plan_seg_last:
  assumes "y \<noteq> z"
  shows "\<exists>A. fst (plan_seg nxt l (xs @ [y, z])) = A @ [\<lparr> ms_tile = z, ms_enter_room = nxt \<rparr>] \<and>
    (l = None \<longrightarrow> A \<noteq> [])"
  using assms
proof (induction xs arbitrary: l)
  case Nil
  then show ?case by (auto simp: case_prod_beta)
next
  case (Cons x xs)
  then obtain A where "fst (plan_seg nxt (Some x) (xs @ [y, z])) = A @ [\<lparr> ms_tile = z, ms_enter_room = nxt \<rparr>]"
    by blast
  with Cons show ?case by (cases "l = Some x") (auto simp: case_prod_beta)
qed

lemma plan_route_last_hop:
  assumes "y \<noteq> z" and "\<forall>s \<in> set pre. snd s \<noteq> []"
  shows "\<exists>A B. plan_route l (pre @ [(r1, xs @ [y, z]), (r2, seg)]) =
      A @ \<lparr> ms_tile = z, ms_enter_room = Some r2 \<rparr> # B \<and>
    (\<forall>s \<in> set B. ms_enter_room s = None) \<and> (l = None \<longrightarrow> A \<noteq> [])"
  using assms(2)
proof (induction pre arbitrary: l)
  case Nil
  obtain A where A: "fst (plan_seg (Some r2) l (xs @ [y, z])) =
      A @ [\<lparr> ms_tile = z, ms_enter_room = Some r2 \<rparr>]" "l = None \<longrightarrow> A \<noteq> []"
    using plan_seg_last [OF assms(1), of "Some r2" l xs] by blast
  let ?B = "fst (plan_seg None (Some z) seg)"
  have "snd (plan_seg (Some r2) l (xs @ [y, z])) = Some z"
    by (simp add: plan_seg_tiles)
  with A(1) have "plan_route l ([] @ [(r1, xs @ [y, z]), (r2, seg)]) =
      A @ \<lparr> ms_tile = z, ms_enter_room = Some r2 \<rparr> # ?B"
    by (simp add: case_prod_beta)
  with A(2) plan_seg_no_room show ?case by blast
next
  case (Cons p pre)
  obtain r ts where p: "p = (r, ts)" by (cases p)
  let ?n = "case pre @ [(r1, xs @ [y, z]), (r2, seg)] of [] \<Rightarrow> None | (n, _) # _ \<Rightarrow> Some n"
  let ?s = "plan_seg ?n l ts"
  obtain A B where AB: "plan_route (snd ?s) (pre @ [(r1, xs @ [y, z]), (r2, seg)]) =
      A @ \<lparr> ms_tile = z, ms_enter_room = Some r2 \<rparr> # B" "\<forall>s \<in> set B. ms_enter_room s = None"
    using Cons.IH [of "snd ?s"] Cons.prems by auto
  moreover have "l = None \<longrightarrow> fst ?s \<noteq> []"
    using Cons.prems p by (cases ts) (auto simp: case_prod_beta)
  ultimately show ?case using p
    by (intro exI [of _ "fst ?s @ A"] exI [of _ B]) (auto simp: case_prod_beta)
qed

lemma drop_leading_append:
  "A \<noteq> [] \<Longrightarrow> \<exists>A'. drop_leading f (A @ B) = A' @ B"
  by (cases A) (auto simp: drop_leading_def)

lemma set_drop_leading: "set (drop_leading f xs) \<subseteq> set xs"
  by (auto simp: drop_leading_def split: list.splits if_splits)

lemma list_last_two:
  assumes "2 \<le> length xs"
  shows "\<exists>ys y z. xs = ys @ [y, z]"
proof (cases xs rule: rev_cases)
  case Nil
  with assms show ?thesis by simp
next
  case (snoc ys z)
  with assms show ?thesis by (cases ys rule: rev_cases) auto
qed

text \<open>The avatar ends in the target room when the last segment before it has at least two tiles.\<close>

lemma plan_room:
  assumes "astar_contract ar" and "astar_contract at'"
    and "full_route ar at' g bm (av_room_id av, av_current_pos av) to = Inr (Some segs)"
    and "length segs = 1 \<or> 2 \<le> length (snd (last (butlast segs)))"
  shows "av_room_id (fold move_onto (drop_leading (av_current_pos av) (plan_route None segs)) av) = fst to"
proof -
  note fr = full_route_sound [OF assms(1-3)]
  show ?thesis
  proof (cases "length segs = 1")
    case True
    then obtain r seg where s: "segs = [(r, seg)]" by (auto simp: length_Suc_conv)
    have "\<forall>s \<in> set (drop_leading f (plan_route None segs)). ms_enter_room s = None" for f
      using plan_seg_no_room [of _ None seg] set_drop_leading [of f "plan_route None segs"]
      by (auto simp: s case_prod_beta)
    then have "List.map_filter ms_enter_room (drop_leading f (plan_route None segs)) = []" for f
      by (auto simp: map_filter_def filter_empty_conv)
    with fr s show ?thesis by (auto simp: fold_move_onto_room)
  next
    case False
    with fr have "2 \<le> length segs" by (cases segs) (auto simp: Suc_le_eq)
    then obtain pre s1 s2 where s: "segs = pre @ [s1, s2]" using list_last_two by blast
    with assms(4) False have "2 \<le> length (snd s1)" by (simp add: butlast_append)
    then obtain xs y z where yz: "snd s1 = xs @ [y, z]" using list_last_two by blast
    have "distinct (snd s1)" using fr s by simp
    with yz have "y \<noteq> z" by auto
    obtain A B where AB: "plan_route None segs = A @ \<lparr> ms_tile = z, ms_enter_room = Some (fst s2) \<rparr> # B"
      "\<forall>s \<in> set B. ms_enter_room s = None" "A \<noteq> []"
      using plan_route_last_hop [OF \<open>y \<noteq> z\<close>, of pre None "fst s1" xs "fst s2" "snd s2"] fr s yz
      by (metis (no_types, lifting) Un_iff prod.collapse set_append)
    obtain A' where A': "drop_leading f (plan_route None segs) =
        A' @ \<lparr> ms_tile = z, ms_enter_room = Some (fst s2) \<rparr> # B" if "f = av_current_pos av" for f
      using drop_leading_append [OF AB(3)] AB(1) by metis
    have "List.map_filter ms_enter_room B = []" using AB(2) by (auto simp: map_filter_def filter_empty_conv)
    with A' fr s show ?thesis by (simp add: fold_move_onto_room map_filter_def move_onto_def)
  qed
qed

text \<open>
  An avatar that stands on a door tile inside its own room: the first segment is that tile alone, its
  step is dropped, and with it the change of room.
\<close>

lemma plan_door_start:
  assumes "segs = [(r1, [av_current_pos av]), (r2, seg)]"
  shows "av_room_id (fold move_onto (drop_leading (av_current_pos av) (plan_route None segs)) av) =
    av_room_id av"
proof -
  let ?B = "fst (plan_seg None (Some (av_current_pos av)) seg)"
  have "drop_leading (av_current_pos av) (plan_route None segs) = ?B"
    using assms by (simp add: case_prod_beta drop_leading_def)
  moreover have "List.map_filter ms_enter_room ?B = []"
    using plan_seg_no_room [of _ "Some (av_current_pos av)" seg]
    by (auto simp: map_filter_def filter_empty_conv)
  ultimately show ?thesis by (simp add: fold_move_onto_room)
qed

section \<open>Properties\<close>

text \<open>C18: A granted move that has steps to take is carried out: the path store then holds a plan that
  starts next to the avatar, moves one tile at a time and ends on the target, and after as many ticks as
  the plan has steps the avatar stands on the target tile with nothing left to walk.\<close>
theorem granted_move_arrives:
  assumes "astar_contract ar" and "astar_contract at'"
    and "start_move ar at' layout g a room t avs ps = Inr (MoveOk, avs', ps')"
    and "map_of avs a = Some av" and "av_current_pos av \<noteq> t" and "distinct (map fst ps)"
  shows "\<exists>steps av'. map_of ps' a = Some steps \<and> stepping (av_current_pos av # map ms_tile steps) \<and>
    map_of (fst ((walk ^^ length steps) (avs', ps'))) a = Some av' \<and>
    av_current_pos av' = t \<and> av_target_pos av' = None \<and>
    map_of (snd ((walk ^^ length steps) (avs', ps'))) a = None"
proof -
  from assms(3,4) obtain segs steps where
    route: "full_route ar at' g (room_bounds_map layout) (av_room_id av, av_current_pos av) (room, t) = Inr (Some segs)"
    and steps: "steps = drop_leading (snd (av_room_id av, av_current_pos av)) (plan_route None segs)"
    and avs': "avs' = amap_upd a (\<lambda>x. x\<lparr>av_target_pos := (if steps = [] then None else Some t)\<rparr>) avs"
    and ps': "ps' = (if steps = [] then ps else AList.update a steps ps)"
    by (auto elim!: start_move_granted)
  note w = plan_walks [OF assms(1,2) route steps, simplified]
  have ne: "steps \<noteq> []" using w(2) assms(5) by auto
  let ?av = "av\<lparr>av_target_pos := Some t\<rparr>"
  have "map_of ps' a = Some steps" "distinct (map fst ps')"
    using ne assms(6) by (simp_all add: ps' update_conv' distinct_update)
  moreover have "map_of avs' a = Some ?av" using assms(4) ne by (simp add: avs' map_of_amap_upd)
  ultimately have "map_of (fst ((walk ^^ length steps) (avs', ps'))) a =
      Some (clear_target (fold move_onto steps ?av)) \<and> map_of (snd ((walk ^^ length steps) (avs', ps'))) a = None"
    using walk_all [OF ne, of "(avs', ps')" a ?av] by simp
  moreover have "av_current_pos (clear_target (fold move_onto steps ?av)) = t"
    using w(2) by (simp add: clear_target_def fold_move_onto_pos)
  ultimately show ?thesis
    using w(1) \<open>map_of ps' a = Some steps\<close> by (auto simp: clear_target_def)
qed

definition walker :: avatar where
  "walker = \<lparr> av_agent_id = ''a'', av_startup_id = ''s1'', av_role = ''engineer'', av_backend = ''claude_code'',
     av_current_pos = (5, 4), av_target_pos = None, av_room_id = ''suite_1'', av_status = ''idle'',
     av_last_seen_at = None, av_health = Online \<rparr>"

lemma walker_move:
  "start_move (dfs_astar 4) (dfs_astar 2) default_town (graph_from_layout default_town) ''a'' ''lobby'' (8, 4)
     [(''a'', walker)] [] =
   Inr (MoveOk, [(''a'', walker\<lparr>av_target_pos := Some (8, 4)\<rparr>)],
     [(''a'', [\<lparr> ms_tile = (6, 4), ms_enter_room = None \<rparr>, \<lparr> ms_tile = (7, 4), ms_enter_room = Some ''lobby'' \<rparr>,
       \<lparr> ms_tile = (8, 4), ms_enter_room = None \<rparr>])])"
  by code_simp

theorem granted_move_arrives_witness:
  "\<exists>steps av'. map_of [(''a'', [\<lparr> ms_tile = (6, 4), ms_enter_room = None \<rparr>,
       \<lparr> ms_tile = (7, 4), ms_enter_room = Some ''lobby'' \<rparr>, \<lparr> ms_tile = (8, 4), ms_enter_room = None \<rparr>])] ''a'' = Some steps \<and>
    stepping (av_current_pos walker # map ms_tile steps) \<and>
    map_of (fst ((walk ^^ length steps) ([(''a'', walker\<lparr>av_target_pos := Some (8, 4)\<rparr>)],
      [(''a'', [\<lparr> ms_tile = (6, 4), ms_enter_room = None \<rparr>, \<lparr> ms_tile = (7, 4), ms_enter_room = Some ''lobby'' \<rparr>,
       \<lparr> ms_tile = (8, 4), ms_enter_room = None \<rparr>])]))) ''a'' = Some av' \<and>
    av_current_pos av' = (8, 4) \<and> av_target_pos av' = None \<and>
    map_of (snd ((walk ^^ length steps) ([(''a'', walker\<lparr>av_target_pos := Some (8, 4)\<rparr>)],
      [(''a'', [\<lparr> ms_tile = (6, 4), ms_enter_room = None \<rparr>, \<lparr> ms_tile = (7, 4), ms_enter_room = Some ''lobby'' \<rparr>,
       \<lparr> ms_tile = (8, 4), ms_enter_room = None \<rparr>])]))) ''a'' = None"
  by (rule granted_move_arrives [OF dfs_astar_contract dfs_astar_contract walker_move])
     (simp_all add: walker_def)

text \<open>A move never panics, whatever the layout, the graph and the positions: the two \<open>unwrap\<close>s of the
  route computation always find their entry.\<close>

lemma moves_never_panic:
  assumes "astar_contract ar"
  shows "start_move ar at' layout g a room t avs ps \<noteq> Inl UnwrapNone"
  by (rule start_move_no_panic) (rule assms)

text \<open>Walking a plan from a route of one room, or whose segment before the last has at least two
  tiles, ends in the target room.\<close>

lemma walked_plan_changes_room:
  assumes "astar_contract ar" and "astar_contract at'"
    and "full_route ar at' g bm (av_room_id av, av_current_pos av) to = Inr (Some segs)"
    and "length segs = 1 \<or> 2 \<le> length (snd (last (butlast segs)))"
  shows "av_room_id (fold move_onto (drop_leading (av_current_pos av) (plan_route None segs)) av) = fst to"
  by (rule plan_room) (rule assms)+

lemma walker_route:
  "full_route (dfs_astar 4) (dfs_astar 2) (graph_from_layout default_town) (room_bounds_map default_town)
     (av_room_id walker, av_current_pos walker) (''lobby'', (8, 4)) =
   Inr (Some [(''suite_1'', [(5, 4), (6, 4), (7, 4)]), (''lobby'', [(7, 4), (8, 4)])])"
  by code_simp

text \<open>An avatar that already stands on the door tile of its own room keeps its old room after walking
  into the next one: the door step that carries the change of room is dropped from the plan.\<close>

lemma door_start_keeps_old_room:
  "av_room_id (fold move_onto (drop_leading (av_current_pos av)
     (plan_route None [(av_room_id av, [av_current_pos av]), (next_room, seg)])) av) = av_room_id av"
  by (rule plan_door_start) (rule refl)

text \<open>A tick of the movement system reports the arrival of exactly those avatars that took the last step
  of their plan, with the room that step leads to, and drops exactly their plans and those of avatars that
  are gone.\<close>

lemma tick_reports_arrivals:
  assumes "step_all avs ps = (avs', ps', ev)" and "distinct (map fst ps)"
  shows "(Complete a r \<in> set ev \<longleftrightarrow>
      (\<exists>s av. map_of ps a = Some [s] \<and> map_of avs a = Some av \<and> r = av_room_id (move_onto s av))) \<and>
    map_of ps' a = (if map_of avs a = None then None else Option.bind (map_of ps a) remaining)"
  using step_all_sound [OF assms, of a] by blast

end
