(* ===== verification/World.thy ===== *)
theory World
  imports Json TaskSM Permissions MoveSys
begin

text \<open>
  The state every command of the world loop works on: the in-memory world view, the path store, the
  town layout and the worker channels of \<open>loop_.rs\<close> and \<open>state.rs\<close>, the SQLite database of
  \<open>migrations/\<close> with its foreign keys and unique constraints, and the console broadcast. SQL is
  modelled statement by statement: a statement either fails (the next bit of \<open>faults\<close>), violates a
  constraint, or runs; a transaction that fails leaves the database as it was.
\<close>

section \<open>Tables\<close>

record task =
  t_id :: ident
  t_startup :: ident
  t_parent :: "ident option"
  t_title :: string
  t_description :: string
  t_assignee :: "ident option"
  t_required_room :: "ident option"
  t_status :: string
  t_review_round :: int
  t_audit :: "json list"
  t_epistemic :: "json list"
  t_artifact :: "string option"
  t_created_at :: int
  t_updated_at :: int
  t_preferred_backend :: "string option"
  t_preferred_model :: "string option"
  t_cost_estimate :: "real option"
  t_blocked_on :: "ident option"
  t_deadline_at :: "int option"
  t_deadline_notified_at :: "int option"
  t_self_reviewed_at :: "int option"

record agent =
  ag_id :: ident
  ag_startup :: ident
  ag_name :: string
  ag_role :: string
  ag_backend :: string
  ag_model :: string
  ag_position :: string
  ag_home_room :: ident
  ag_manager :: "ident option"
  ag_is_peer_reviewer :: int

record startup =
  su_id :: ident
  su_name :: string
  su_cap :: real
  su_spent :: real
  su_workspace :: string
  su_status :: string
  su_auto_steal_enabled :: int
  su_auto_steal_after_secs :: int
  su_auto_recovery_enabled :: int
  su_auto_recovery_max_attempts :: int
  su_goal :: string
  su_town :: ident
  su_created_at :: int

record message =
  m_id :: ident
  m_startup :: ident
  m_room :: "ident option"
  m_author :: ident
  m_body :: string
  m_kind :: string
  m_ts :: int

record budget_event =
  be_id :: ident
  be_startup :: ident
  be_agent :: "ident option"
  be_task :: "ident option"
  be_in_tokens :: int
  be_out_tokens :: int
  be_cost :: real
  be_model :: string
  be_ts :: int

record fs_op =
  fo_id :: ident
  fo_startup :: ident
  fo_agent :: "ident option"
  fo_op :: string
  fo_path :: string
  fo_bytes :: int
  fo_ok :: bool
  fo_error :: "string option"
  fo_ts :: int

record system_event =
  se_id :: ident
  se_startup :: "ident option"
  se_kind :: string
  se_payload :: json
  se_severity :: string
  se_ts :: int

record operator_row =
  op_id :: ident
  op_name :: string
  op_token :: "string option"
  op_token_hash :: "string option"
  op_role :: string
  op_created_at :: int

record action_lock =
  al_id :: ident
  al_key :: string
  al_operator :: ident
  al_acquired_at :: int
  al_expires_at :: int

record skill =
  sk_id :: ident
  sk_startup :: ident
  sk_name :: string
  sk_content :: string
  sk_created_at :: int
  sk_updated_at :: int
  sk_is_global :: int

record agent_skill =
  as_agent :: ident
  as_skill :: ident
  as_attached_at :: int

record skill_file =
  sf_id :: ident
  sf_skill :: ident
  sf_name :: string
  sf_content :: string
  sf_created_at :: int
  sf_updated_at :: int

record skill_revision =
  sr_id :: ident
  sr_skill :: ident
  sr_seq :: int
  sr_content :: string
  sr_created_at :: int
  sr_agent :: "ident option"
  sr_operator :: "ident option"

text \<open>The town as \<open>seed.rs\<close> writes it; \<open>bounds\<close> and \<open>map_json\<close> are JSON texts.\<close>

record town_row =
  tw_id :: ident
  tw_name :: string
  tw_map :: string

record room_row =
  rm_id :: ident
  rm_town :: ident
  rm_name :: string
  rm_type :: string
  rm_bounds :: string
  rm_private_to :: "ident option"

record door_row =
  dr_id :: ident
  dr_town :: ident
  dr_room_a :: ident
  dr_room_b :: ident
  dr_x :: int
  dr_y :: int

record database =
  d_tasks :: "task list"
  d_agents :: "agent list"
  d_startups :: "startup list"
  d_messages :: "message list"
  d_budget_events :: "budget_event list"
  d_fs_audit :: "fs_op list"
  d_system_events :: "system_event list"
  d_operators :: "operator_row list"
  d_locks :: "action_lock list"
  d_skills :: "skill list"
  d_agent_skills :: "agent_skill list"
  d_skill_files :: "skill_file list"
  d_skill_revisions :: "skill_revision list"
  d_towns :: "town_row list"
  d_rooms :: "room_row list"
  d_doors :: "door_row list"

section \<open>Channels and the console broadcast\<close>

text \<open>The bounded \<open>mpsc\<close> channel of one worker connection: \<open>try_send\<close> never blocks.\<close>

record chan =
  ch_queue :: "json list"
  ch_is_open :: bool

datatype send_result = SendOk | SendFull | SendClosed

definition OUT_BUS_CAP :: nat where
  "OUT_BUS_CAP = 64"

definition try_send :: "json \<Rightarrow> chan \<Rightarrow> send_result \<times> chan" where
  "try_send payload c =
     (if \<not> ch_is_open c then (SendClosed, c)
      else if OUT_BUS_CAP \<le> length (ch_queue c) then (SendFull, c)
      else (SendOk, c\<lparr>ch_queue := ch_queue c @ [payload]\<rparr>))"

type_synonym out_bus = "(ident \<times> chan) list"

text \<open>\<open>out_bus.get(id)\<close> then \<open>try_send\<close>; an absent entry sends nothing.\<close>

definition bus_send :: "ident \<Rightarrow> json \<Rightarrow> out_bus \<Rightarrow> out_bus" where
  "bus_send i payload bus = amap_upd i (\<lambda>c. snd (try_send payload c)) bus"

datatype frame =
    FSystemEvent string string "ident option" json int
  | FChat ident int ident ident ident string
  | FDirective ident int ident ident "string option" ident string "ident option"
  | FSkillChanged ident string ident "ident option" "json option"
  | FActionLocked json
  | FActionUnlocked string
  | FOperatorPresence "json list"

section \<open>The state of the world loop\<close>

record sys =
  tick_seq :: "64 word"
  catalog :: "(string \<times> json) list"
  avatars :: avatars
  paths :: path_store
  layout :: town_layout
  out_bus :: out_bus
  db :: database
  frames :: "frame list"
  now_ms :: int
  uuid_ctr :: nat
  faults :: "bool list"

definition now_secs :: "sys \<Rightarrow> int" where
  "now_secs s = now_ms s div 1000"

text \<open>
  Code outside the repository, as the handlers use it: \<open>pathfinding\<close>'s A*, the room graph computed
  at start, UUIDs, the file system below the working directory (\<open>canonicalize\<close>, reading a file,
  \<open>exists\<close>), Unicode NFC, the JSON parser and printer and the process runner. A path is the list of its
  components; a canonical one is read from the root directory. \<open>e_sql_text\<close> is the driver's error text,
  \<open>e_debug\<close> the quoted \<open>{:?}\<close> of a string, \<open>e_uuid_simple\<close> a UUID without hyphens, \<open>e_sha256_hex\<close> the
  digest the tokens are stored under.
\<close>

type_synonym fs_path = "string list"

datatype sql_error = SqlFault | UniqueViolation | ForeignKeyViolation | RowNotFound

record command_outcome =
  co_exit_code :: "int option"
  co_stdout_tail :: string
  co_stderr_tail :: string
  co_timed_out :: bool
  co_elapsed_ms :: int

text \<open>
  What the operating system does with a child process: the spawn fails; or the wait ends at some moment, in
  milliseconds, with the exit code or an error, or never; and each stream delivers its bytes and reaches
  its end at some moment, or never. A child that keeps running keeps its streams.
\<close>

record process =
  pr_spawn_error :: "string option"
  pr_wait :: "(nat \<times> (string + int option)) option"
  pr_stdout :: "string \<times> nat option"
  pr_stderr :: "string \<times> nat option"

record env =
  e_astar_room :: "ident astar"
  e_astar_tile :: "tile astar"
  e_graph :: room_graph
  e_uuid :: "nat \<Rightarrow> ident"
  e_canonicalize :: "fs_path \<Rightarrow> fs_path option"
  e_read :: "fs_path \<Rightarrow> string option"
  e_is_utf8 :: "string \<Rightarrow> bool"
  e_exists :: "fs_path \<Rightarrow> bool"
  e_nfc :: "string \<Rightarrow> string"
  e_parse_json :: "string \<Rightarrow> json option"
  e_to_string :: "json \<Rightarrow> string"
  e_sql_text :: "sql_error \<Rightarrow> string"
  e_debug :: "string \<Rightarrow> string"
  e_uuid_simple :: "nat \<Rightarrow> string"
  e_sha256_hex :: "string \<Rightarrow> string"
  e_process :: "string \<Rightarrow> string list \<Rightarrow> fs_path \<Rightarrow> process"

definition fresh_uuid :: "env \<Rightarrow> (sys, 'e, ident) sem" where
  "fresh_uuid env = (\<lambda>s. (Inr (e_uuid env (uuid_ctr s)), s\<lparr>uuid_ctr := Suc (uuid_ctr s)\<rparr>))"

definition send_to :: "ident \<Rightarrow> json \<Rightarrow> (sys, 'e, unit) sem" where
  "send_to i payload = modifyE (\<lambda>s. s\<lparr>out_bus := bus_send i payload (out_bus s)\<rparr>)"

definition broadcast :: "frame \<Rightarrow> (sys, 'e, unit) sem" where
  "broadcast f = modifyE (\<lambda>s. s\<lparr>frames := frames s @ [f]\<rparr>)"

text \<open>\<open>world.avatars.get_mut(id)\<close> followed by \<open>av.status = ..\<close>\<close>

definition set_avatar_status :: "ident \<Rightarrow> string \<Rightarrow> (sys, 'e, unit) sem" where
  "set_avatar_status i st =
     modifyE (\<lambda>s. s\<lparr>avatars := amap_upd i (\<lambda>a. a\<lparr>av_status := st\<rparr>) (avatars s)\<rparr>)"

section \<open>SQL statements\<close>

definition sql_stmt :: "(sys \<Rightarrow> sql_error + 'a \<times> database) \<Rightarrow> (sys, sql_error, 'a) sem" where
  "sql_stmt f = (\<lambda>s.
     if faults s \<noteq> [] \<and> hd (faults s) then (Inl SqlFault, s\<lparr>faults := tl (faults s)\<rparr>)
     else case f s of
        Inl e \<Rightarrow> (Inl e, s\<lparr>faults := tl (faults s)\<rparr>)
      | Inr (a, d) \<Rightarrow> (Inr a, s\<lparr>faults := tl (faults s), db := d\<rparr>))"

definition sql_query :: "(database \<Rightarrow> 'a) \<Rightarrow> (sys, sql_error, 'a) sem" where
  "sql_query f = sql_stmt (\<lambda>s. Inr (f (db s), db s))"

text \<open>An \<open>UPDATE\<close> or \<open>DELETE\<close> that no constraint can refuse; \<open>f\<close> may read the clock.\<close>

definition sql_exec :: "(sys \<Rightarrow> database) \<Rightarrow> (sys, sql_error, unit) sem" where
  "sql_exec f = sql_stmt (\<lambda>s. Inr ((), f s))"

text \<open>A statement whose constraints are checked first.\<close>

definition sql_checked :: "(database \<Rightarrow> sql_error option) \<Rightarrow> (sys \<Rightarrow> database) \<Rightarrow>
    (sys, sql_error, unit) sem" where
  "sql_checked chk f = sql_stmt (\<lambda>s. case chk (db s) of Some e \<Rightarrow> Inl e | None \<Rightarrow> Inr ((), f s))"

definition sql_nop :: "(sys, sql_error, unit) sem" where
  "sql_nop = sql_exec db"

text \<open>\<open>pool.begin()\<close> .. \<open>tx.commit()\<close>: a failure inside or at the commit rolls back.\<close>

definition transactE :: "(sql_error \<Rightarrow> 'e) \<Rightarrow> (sys, 'e, 'a) sem \<Rightarrow> (sys, 'e, 'a) sem" where
  "transactE wrap m = (\<lambda>s. case mapErr wrap sql_nop s of
       (Inl e, s1) \<Rightarrow> (Inl e, s1)
     | (Inr _, s1) \<Rightarrow> (case m s1 of
          (Inl e, s2) \<Rightarrow> (Inl e, s2\<lparr>db := db s1\<rparr>)
        | (Inr a, s2) \<Rightarrow> (case mapErr wrap sql_nop s2 of
             (Inl e, s3) \<Rightarrow> (Inl e, s3\<lparr>db := db s1\<rparr>)
           | (Inr _, s3) \<Rightarrow> (Inr a, s3))))"

definition sql_pop :: "sys \<Rightarrow> sys" where
  "sql_pop s = s\<lparr>faults := tl (faults s)\<rparr>"

definition sql_fails :: "sys \<Rightarrow> bool" where
  "sql_fails s \<longleftrightarrow> faults s \<noteq> [] \<and> hd (faults s)"

lemma wp_sql_stmt [wp]:
  "wpE (sql_stmt f) Q E =
     (\<lambda>s. if sql_fails s then E SqlFault (sql_pop s)
          else case f s of
              Inl e \<Rightarrow> E e (sql_pop s)
            | Inr r \<Rightarrow> Q (fst r) (sql_pop s\<lparr>db := snd r\<rparr>))"
  by (simp add: fun_eq_iff wpE_def sql_stmt_def sql_pop_def sql_fails_def
      split: sum.split prod.split)

lemma wp_sql_query [wp]:
  "wpE (sql_query f) Q E =
     (\<lambda>s. if sql_fails s then E SqlFault (sql_pop s) else Q (f (db s)) (sql_pop s))"
  by (simp add: fun_eq_iff wpE_def sql_query_def sql_stmt_def sql_pop_def sql_fails_def)

lemma wp_sql_exec [wp]:
  "wpE (sql_exec f) Q E =
     (\<lambda>s. if sql_fails s then E SqlFault (sql_pop s) else Q () (sql_pop s\<lparr>db := f s\<rparr>))"
  by (simp add: fun_eq_iff wpE_def sql_exec_def sql_stmt_def sql_pop_def sql_fails_def)

lemma wp_sql_checked [wp]:
  "wpE (sql_checked chk f) Q E =
     (\<lambda>s. if sql_fails s then E SqlFault (sql_pop s)
          else case chk (db s) of
              Some e \<Rightarrow> E e (sql_pop s)
            | None \<Rightarrow> Q () (sql_pop s\<lparr>db := f s\<rparr>))"
  by (simp add: fun_eq_iff wpE_def sql_checked_def sql_stmt_def sql_pop_def sql_fails_def
      split: option.split)

lemma wp_sql_nop [wp]:
  "wpE sql_nop Q E = (\<lambda>s. if sql_fails s then E SqlFault (sql_pop s) else Q () (sql_pop s))"
  by (simp add: fun_eq_iff wpE_def sql_nop_def sql_exec_def sql_stmt_def sql_pop_def sql_fails_def)

lemma wp_transact [wp]:
  "wpE (transactE wrap m) Q E =
     (\<lambda>s. if sql_fails s then E (wrap SqlFault) (sql_pop s)
          else wpE m
            (\<lambda>a t. if sql_fails t then E (wrap SqlFault) (sql_pop t\<lparr>db := db s\<rparr>) else Q a (sql_pop t))
            (\<lambda>e t. E e (t\<lparr>db := db s\<rparr>)) (sql_pop s))"
  by (auto simp: fun_eq_iff wpE_def transactE_def mapErr_def sql_nop_def sql_exec_def sql_stmt_def
      sql_pop_def sql_fails_def split: prod.splits sum.splits)

lemma wp_fresh_uuid [wp]:
  "wpE (fresh_uuid env) Q E =
     (\<lambda>s. Q (e_uuid env (uuid_ctr s)) (s\<lparr>uuid_ctr := Suc (uuid_ctr s)\<rparr>))"
  by (simp add: fun_eq_iff wpE_def fresh_uuid_def)

lemma wp_send_to [wp]:
  "wpE (send_to i p) Q E = (\<lambda>s. Q () (s\<lparr>out_bus := bus_send i p (out_bus s)\<rparr>))"
  by (simp add: send_to_def wp)

lemma wp_broadcast [wp]: "wpE (broadcast f) Q E = (\<lambda>s. Q () (s\<lparr>frames := frames s @ [f]\<rparr>))"
  by (simp add: broadcast_def wp)

lemma wp_set_avatar_status [wp]:
  "wpE (set_avatar_status i st) Q E =
     (\<lambda>s. Q () (s\<lparr>avatars := amap_upd i (\<lambda>a. a\<lparr>av_status := st\<rparr>) (avatars s)\<rparr>))"
  by (simp add: set_avatar_status_def wp)

lemma sql_pop_simps [simp]:
  "tick_seq (sql_pop s) = tick_seq s" "catalog (sql_pop s) = catalog s"
  "avatars (sql_pop s) = avatars s" "paths (sql_pop s) = paths s" "layout (sql_pop s) = layout s"
  "out_bus (sql_pop s) = out_bus s" "db (sql_pop s) = db s" "frames (sql_pop s) = frames s"
  "now_ms (sql_pop s) = now_ms s" "uuid_ctr (sql_pop s) = uuid_ctr s"
  by (simp_all add: sql_pop_def)

lemma now_secs_simps [simp]:
  "now_secs (sql_pop s) = now_secs s"
  "now_secs (s\<lparr>db := d\<rparr>) = now_secs s"
  "now_secs (s\<lparr>uuid_ctr := n\<rparr>) = now_secs s"
  "now_secs (s\<lparr>frames := fr\<rparr>) = now_secs s"
  "now_secs (s\<lparr>out_bus := b\<rparr>) = now_secs s"
  "now_secs (s\<lparr>avatars := a\<rparr>) = now_secs s"
  "now_secs (s\<lparr>paths := p\<rparr>) = now_secs s"
  by (simp_all add: now_secs_def)

text \<open>With no fault ahead every statement runs.\<close>

lemma no_faults [simp]:
  "faults s = [] \<Longrightarrow> \<not> sql_fails s" "faults s = [] \<Longrightarrow> faults (sql_pop s) = []"
  by (simp_all add: sql_fails_def sql_pop_def)

lemma sql_fails_simps [simp]:
  "sql_fails (s\<lparr>db := d\<rparr>) = sql_fails s"
  "sql_fails (s\<lparr>uuid_ctr := n\<rparr>) = sql_fails s"
  "sql_fails (s\<lparr>frames := fr\<rparr>) = sql_fails s"
  "sql_fails (s\<lparr>out_bus := b\<rparr>) = sql_fails s"
  "sql_fails (s\<lparr>avatars := a\<rparr>) = sql_fails s"
  "sql_fails (s\<lparr>paths := p\<rparr>) = sql_fails s"
  by (simp_all add: sql_fails_def)

section \<open>Rows and constraints the handlers share\<close>

definition task_row :: "database \<Rightarrow> ident \<Rightarrow> task option" where
  "task_row d i = find_row t_id i (d_tasks d)"

definition agent_row :: "database \<Rightarrow> ident \<Rightarrow> agent option" where
  "agent_row d i = find_row ag_id i (d_agents d)"

definition startup_row :: "database \<Rightarrow> ident \<Rightarrow> startup option" where
  "startup_row d i = find_row su_id i (d_startups d)"

definition operator_row_of :: "database \<Rightarrow> ident \<Rightarrow> operator_row option" where
  "operator_row_of d i = find_row op_id i (d_operators d)"

definition refs :: "('a \<Rightarrow> 'b option) \<Rightarrow> 'a option \<Rightarrow> bool" where
  "refs look k = (case k of None \<Rightarrow> True | Some i \<Rightarrow> look i \<noteq> None)"

definition fk :: "bool \<Rightarrow> sql_error option" where
  "fk ok = (if ok then None else Some ForeignKeyViolation)"

text \<open>\<open>UPDATE tasks SET .. WHERE p\<close>\<close>

definition upd_tasks :: "(task \<Rightarrow> bool) \<Rightarrow> (task \<Rightarrow> task) \<Rightarrow> database \<Rightarrow> database" where
  "upd_tasks p f d = d\<lparr>d_tasks := update_rows p f (d_tasks d)\<rparr>"

definition upd_task :: "ident \<Rightarrow> (task \<Rightarrow> task) \<Rightarrow> database \<Rightarrow> database" where
  "upd_task i f d = upd_tasks (\<lambda>t. t_id t = i) f d"

definition upd_startup :: "ident \<Rightarrow> (startup \<Rightarrow> startup) \<Rightarrow> database \<Rightarrow> database" where
  "upd_startup i f d = d\<lparr>d_startups := update_rows (\<lambda>r. su_id r = i) f (d_startups d)\<rparr>"

lemma fk_simps [simp]: "fk True = None" "fk False = Some ForeignKeyViolation"
  "fk b = None \<longleftrightarrow> b" "fk b = Some e \<longleftrightarrow> \<not> b \<and> e = ForeignKeyViolation"
  by (auto simp: fk_def)

lemma case_fk [simp]:
  "(case fk b of Some e \<Rightarrow> f e | None \<Rightarrow> q) = (if b then q else f ForeignKeyViolation)"
  by (simp add: fk_def)

lemma refs_simps [simp]: "refs look None" "refs look (Some i) \<longleftrightarrow> look i \<noteq> None"
  by (simp_all add: refs_def)

lemma task_row_upd:
  assumes "\<And>t. t_id (f t) = t_id t"
  shows "task_row (upd_task i f d) j =
    (if i = j then map_option f (task_row d j) else task_row d j)"
  using assms by (simp add: task_row_def upd_task_def upd_tasks_def find_row_update)

lemma upd_task_simps [simp]:
  "d_agents (upd_task i f d) = d_agents d" "d_startups (upd_task i f d) = d_startups d"
  "d_messages (upd_task i f d) = d_messages d" "d_operators (upd_task i f d) = d_operators d"
  "d_budget_events (upd_task i f d) = d_budget_events d"
  "d_system_events (upd_task i f d) = d_system_events d" "d_locks (upd_task i f d) = d_locks d"
  by (simp_all add: upd_task_def upd_tasks_def)

lemma row_cong [simp]:
  "task_row (d\<lparr>d_messages := m\<rparr>) = task_row d" "task_row (d\<lparr>d_system_events := e\<rparr>) = task_row d"
  "task_row (d\<lparr>d_budget_events := b\<rparr>) = task_row d" "task_row (upd_startup i f d) = task_row d"
  "agent_row (d\<lparr>d_messages := m\<rparr>) = agent_row d" "agent_row (d\<lparr>d_system_events := e\<rparr>) = agent_row d"
  "agent_row (d\<lparr>d_budget_events := b\<rparr>) = agent_row d" "agent_row (d\<lparr>d_tasks := t\<rparr>) = agent_row d"
  "agent_row (upd_task i g d) = agent_row d"
  "startup_row (d\<lparr>d_messages := m\<rparr>) = startup_row d"
  "startup_row (d\<lparr>d_system_events := e\<rparr>) = startup_row d"
  "startup_row (d\<lparr>d_tasks := t\<rparr>) = startup_row d" "startup_row (upd_task i g d) = startup_row d"
  by (simp_all add: task_row_def agent_row_def startup_row_def fun_eq_iff upd_task_def upd_tasks_def
      upd_startup_def)

section \<open>What handlers answer\<close>

text \<open>
  The error half of a handler: a code with its message, an SQL error (code \<open>sql\<close>, its message the
  driver's text) or a panic that unwinds the loop.
\<close>

datatype handler_error = HErr string string | HSql sql_error | HPanic panic

type_synonym 'a handler = "(sys, handler_error, 'a) sem"

definition sqlH :: "(sys, sql_error, 'a) sem \<Rightarrow> 'a handler" where
  "sqlH m = mapErr HSql m"

lemma wp_sqlH [wp]: "wpE (sqlH m) Q E = wpE m Q (\<lambda>e. E (HSql e))"
  by (simp add: sqlH_def wp)

definition require_str :: "json \<Rightarrow> string \<Rightarrow> string handler" where
  "require_str args key = (case get_str key args of
      None \<Rightarrow> throw (HErr ''bad_args'' (key @ '' required''))
    | Some v \<Rightarrow> ret v)"

definition MAX_BODY_LENGTH :: nat where
  "MAX_BODY_LENGTH = 4096"

definition check_body_length :: "string \<Rightarrow> string \<Rightarrow> unit handler" where
  "check_body_length field body =
     guardE (char_count body \<le> MAX_BODY_LENGTH)
       (HErr ''body_too_long''
          (field @ '' exceeds '' @ show_nat MAX_BODY_LENGTH @ '' chars (got '' @
           show_nat (char_count body) @ '')''))"

lemma wp_require_str [wp]:
  "wpE (require_str args key) Q E =
     (\<lambda>s. case get_str key args of
        None \<Rightarrow> E (HErr ''bad_args'' (key @ '' required'')) s | Some v \<Rightarrow> Q v s)"
  by (simp add: require_str_def wp fun_eq_iff split: option.split)

lemma wp_check_body [wp]:
  "wpE (check_body_length field body) Q E =
     (\<lambda>s. if char_count body \<le> 4096 then Q () s
          else E (HErr ''body_too_long''
            (field @ '' exceeds '' @ show_nat MAX_BODY_LENGTH @ '' chars (got '' @
             show_nat (char_count body) @ '')'')) s)"
  by (simp add: check_body_length_def wp MAX_BODY_LENGTH_def)

end
