(* ===== verification/Store.thy ===== *)
theory Store
  imports World
begin

text \<open>
  The typed SQL entry points of \<open>persist.rs\<close> and \<open>emit.rs\<close>, and the invariant of the tables that
  the handlers keep: \<open>db_inv\<close> (every task and its assignee belong to one startup, statuses parse,
  review rounds stay bounded) and \<open>tasks_evolve\<close> (a status only moves along the state machine).
\<close>

section \<open>persist.rs and emit.rs\<close>

definition append_audit :: "ident \<Rightarrow> json \<Rightarrow> (sys, sql_error, unit) sem" where
  "append_audit task_id entry = sql_exec (\<lambda>s.
     upd_task task_id (\<lambda>t. t\<lparr>t_audit := t_audit t @ [entry], t_updated_at := now_secs s\<rparr>) (db s))"

definition append_epistemic :: "ident \<Rightarrow> json \<Rightarrow> (sys, sql_error, unit) sem" where
  "append_epistemic task_id entry = sql_exec (\<lambda>s.
     upd_task task_id (\<lambda>t. t\<lparr>t_epistemic := t_epistemic t @ [entry], t_updated_at := now_secs s\<rparr>)
       (db s))"

definition record_fs_audit :: "env \<Rightarrow> ident \<Rightarrow> ident \<Rightarrow> string \<Rightarrow> string \<Rightarrow> int \<Rightarrow> bool \<Rightarrow> string option \<Rightarrow>
    (sys, sql_error, unit) sem" where
  "record_fs_audit env startup_id agent_id op path bytes ok err =
     bindE (fresh_uuid env) (\<lambda>i.
     sql_checked
       (\<lambda>d. fk (startup_row d startup_id \<noteq> None \<and> agent_row d agent_id \<noteq> None))
       (\<lambda>s. (db s)\<lparr>d_fs_audit := d_fs_audit (db s) @
          [\<lparr> fo_id = i, fo_startup = startup_id, fo_agent = Some agent_id, fo_op = op, fo_path = path,
             fo_bytes = bytes, fo_ok = ok, fo_error = err, fo_ts = now_secs s \<rparr>]\<rparr>))"

definition record_budget_event :: "env \<Rightarrow> ident \<Rightarrow> ident \<Rightarrow> ident option \<Rightarrow> int \<Rightarrow> int \<Rightarrow> real \<Rightarrow>
    string \<Rightarrow> (sys, sql_error, unit) sem" where
  "record_budget_event env startup_id agent_id task_id in_tokens out_tokens cost model_id =
     bindE (fresh_uuid env) (\<lambda>i.
     sql_checked
       (\<lambda>d. fk (startup_row d startup_id \<noteq> None \<and> agent_row d agent_id \<noteq> None \<and>
                refs (task_row d) task_id))
       (\<lambda>s. (db s)\<lparr>d_budget_events := d_budget_events (db s) @
          [\<lparr> be_id = i, be_startup = startup_id, be_agent = Some agent_id, be_task = task_id,
             be_in_tokens = in_tokens, be_out_tokens = out_tokens, be_cost = cost,
             be_model = model_id, be_ts = now_secs s \<rparr>]\<rparr>))"

definition insert_system_event :: "ident \<Rightarrow> ident option \<Rightarrow> string \<Rightarrow> json \<Rightarrow> string \<Rightarrow>
    (sys, sql_error, unit) sem" where
  "insert_system_event i startup_id kind payload severity =
     sql_checked
       (\<lambda>d. if find_row se_id i (d_system_events d) \<noteq> None then Some UniqueViolation else None)
       (\<lambda>s. (db s)\<lparr>d_system_events := d_system_events (db s) @
          [\<lparr> se_id = i, se_startup = startup_id, se_kind = kind, se_payload = payload,
             se_severity = severity, se_ts = now_secs s \<rparr>]\<rparr>)"

definition record_system_event :: "env \<Rightarrow> ident option \<Rightarrow> string \<Rightarrow> json \<Rightarrow> string \<Rightarrow>
    (sys, sql_error, unit) sem" where
  "record_system_event env startup_id kind payload severity =
     bindE (fresh_uuid env) (\<lambda>i. insert_system_event i startup_id kind payload severity)"

definition snapshot_positions :: "(ident \<times> string) list \<Rightarrow> (sys, sql_error, unit) sem" where
  "snapshot_positions positions =
     (if positions = [] then ret ()
      else transactE id (forE positions (\<lambda>(agent_id, pos). sql_exec (\<lambda>s.
        (db s)\<lparr>d_agents := update_rows (\<lambda>a. ag_id a = agent_id) (\<lambda>a. a\<lparr>ag_position := pos\<rparr>)
           (d_agents (db s))\<rparr>))))"

text \<open>
  \<open>emit_system_event\<close>: the row first, then the frame with the same content; the payload is the JSON
  value whose text the row stores. Milliseconds on the wire, seconds in the row.
\<close>

definition emit_system_event :: "env \<Rightarrow> ident option \<Rightarrow> string \<Rightarrow> json \<Rightarrow> string \<Rightarrow>
    (sys, sql_error, unit) sem" where
  "emit_system_event env startup_id kind payload severity =
     bindE (fresh_uuid env) (\<lambda>i.
     bindE (asksE now_secs) (\<lambda>ts_secs.
     thenE (insert_system_event i startup_id kind payload severity)
       (broadcast (FSystemEvent severity kind startup_id payload (ts_secs * 1000)))))"

section \<open>The invariant of the tables\<close>

definition startup_of_agent :: "database \<Rightarrow> ident \<Rightarrow> ident option" where
  "startup_of_agent d i = map_option ag_startup (agent_row d i)"

definition startup_of_task :: "database \<Rightarrow> ident \<Rightarrow> ident option" where
  "startup_of_task d i = map_option t_startup (task_row d i)"

definition MAX_REVIEW_ROUNDS :: int where
  "MAX_REVIEW_ROUNDS = 3"

text \<open>Statuses in which somebody works on the task or has worked on it.\<close>

definition has_worker :: "string \<Rightarrow> bool" where
  "has_worker st \<longleftrightarrow> st = ''in_progress'' \<or> st = ''awaiting_review'' \<or> st = ''changes_requested''"

definition task_ok :: "(ident \<Rightarrow> ident option) \<Rightarrow> (ident \<Rightarrow> ident option) \<Rightarrow> task \<Rightarrow> bool" where
  "task_ok agents tasks t \<longleftrightarrow>
     parse_status (t_status t) \<noteq> None \<and>
     0 \<le> t_review_round t \<and> t_review_round t \<le> MAX_REVIEW_ROUNDS \<and>
     (\<forall>a. t_assignee t = Some a \<longrightarrow> agents a = Some (t_startup t)) \<and>
     (\<forall>p. t_parent t = Some p \<longrightarrow> tasks p = Some (t_startup t)) \<and>
     (has_worker (t_status t) \<longrightarrow> t_assignee t \<noteq> None)"

definition db_inv :: "database \<Rightarrow> bool" where
  "db_inv d \<longleftrightarrow> distinct (map t_id (d_tasks d)) \<and>
     (\<forall>t \<in> set (d_tasks d). task_ok (startup_of_agent d) (startup_of_task d) t)"

lemma db_inv_row: "db_inv d \<Longrightarrow> task_row d i = Some t \<Longrightarrow>
    task_ok (startup_of_agent d) (startup_of_task d) t \<and> t_id t = i \<and> t \<in> set (d_tasks d)"
  by (auto simp: db_inv_def task_row_def dest: find_row_Some)

lemma db_inv_unique:
  "db_inv d \<Longrightarrow> t \<in> set (d_tasks d) \<Longrightarrow> task_row d (t_id t) = Some t"
  by (simp add: db_inv_def task_row_def find_row_distinct)

lemma startup_of_upd_task:
  assumes "\<And>t. t_id (f t) = t_id t \<and> t_startup (f t) = t_startup t"
  shows "startup_of_task (upd_task i f d) = startup_of_task d"
  using assms by (auto simp: fun_eq_iff startup_of_task_def task_row_upd option.map_comp o_def)

lemma startup_of_agent_upd [simp]: "startup_of_agent (upd_task i f d) = startup_of_agent d"
  by (simp add: startup_of_agent_def fun_eq_iff)

text \<open>An update of one task keeps the invariant when the new row is sound and keeps its place.\<close>

lemma db_inv_upd_task:
  assumes "db_inv d" and "\<And>t. t_id (f t) = t_id t \<and> t_startup (f t) = t_startup t"
    and "\<And>t. task_row d i = Some t \<Longrightarrow> task_ok (startup_of_agent d) (startup_of_task d) (f t)"
  shows "db_inv (upd_task i f d)"
proof -
  have s: "startup_of_task (upd_task i f d) = startup_of_task d"
    by (rule startup_of_upd_task) (rule assms(2))
  have "map t_id (d_tasks (upd_task i f d)) = map t_id (d_tasks d)"
    using assms(2) by (simp add: upd_task_def upd_tasks_def keys_update_rows)
  moreover have "task_ok (startup_of_agent d) (startup_of_task d) t'"
    if "t' \<in> set (d_tasks (upd_task i f d))" for t'
  proof -
    from that have "(\<exists>t \<in> set (d_tasks d). t_id t = i \<and> t' = f t) \<or> t' \<in> set (d_tasks d)"
      by (auto simp: upd_task_def upd_tasks_def dest: in_update_rows)
    then show ?thesis
      using assms(1,3) db_inv_unique [OF assms(1)] by (auto simp: db_inv_def)
  qed
  ultimately show ?thesis using assms(1) by (simp add: db_inv_def s)
qed

lemma task_ok_cong:
  assumes "t_status t' = t_status t" "t_review_round t' = t_review_round t" "t_assignee t' = t_assignee t"
    "t_parent t' = t_parent t" "t_startup t' = t_startup t"
  shows "task_ok ag ts t' = task_ok ag ts t"
  using assms by (simp add: task_ok_def)

lemma db_inv_upd_plain:
  assumes "db_inv d" and "\<And>t. t_id (f t) = t_id t \<and> t_startup (f t) = t_startup t \<and>
    t_status (f t) = t_status t \<and> t_review_round (f t) = t_review_round t \<and>
    t_assignee (f t) = t_assignee t \<and> t_parent (f t) = t_parent t"
  shows "db_inv (upd_task i f d)"
proof (rule db_inv_upd_task [OF assms(1)])
  show "t_id (f t) = t_id t \<and> t_startup (f t) = t_startup t" for t using assms(2) [of t] by blast
  fix t
  assume "task_row d i = Some t"
  with db_inv_row [OF assms(1)] have "task_ok (startup_of_agent d) (startup_of_task d) t" by blast
  then show "task_ok (startup_of_agent d) (startup_of_task d) (f t)"
    using task_ok_cong [of "f t" t] assms(2) [of t] by simp
qed

lemma db_inv_cong [simp]:
  "db_inv (d\<lparr>d_messages := m\<rparr>) = db_inv d" "db_inv (d\<lparr>d_system_events := e\<rparr>) = db_inv d"
  "db_inv (d\<lparr>d_budget_events := b\<rparr>) = db_inv d" "db_inv (upd_startup i f d) = db_inv d"
  "db_inv (d\<lparr>d_locks := l\<rparr>) = db_inv d"
  by (simp_all add: db_inv_def startup_of_agent_def [abs_def] startup_of_task_def [abs_def]
      agent_row_def task_row_def upd_startup_def)

section \<open>Tasks only move along the state machine\<close>

definition task_evolves :: "(task_status \<Rightarrow> task_status \<Rightarrow> bool) \<Rightarrow> task \<Rightarrow> task \<Rightarrow> bool" where
  "task_evolves R t t' \<longleftrightarrow>
     t_id t' = t_id t \<and> t_startup t' = t_startup t \<and> t_parent t' = t_parent t \<and>
     (\<exists>a b. parse_status (t_status t) = Some a \<and> parse_status (t_status t') = Some b \<and>
        R\<^sup>*\<^sup>* a b \<or> t_status t' = t_status t)"

definition tasks_evolve :: "(task_status \<Rightarrow> task_status \<Rightarrow> bool) \<Rightarrow> database \<Rightarrow> database \<Rightarrow> bool" where
  "tasks_evolve R d d' \<longleftrightarrow>
     (\<exists>old new. d_tasks d' = old @ new \<and> list_all2 (task_evolves R) (d_tasks d) old)"

lemma task_evolves_refl [simp]: "task_evolves R t t"
  by (auto simp: task_evolves_def)

lemma task_evolves_trans: "task_evolves R t u \<Longrightarrow> task_evolves R u v \<Longrightarrow> task_evolves R t v"
  unfolding task_evolves_def by (auto dest: rtranclp_trans)

lemma tasks_evolve_refl [simp]: "tasks_evolve R d d"
proof -
  have "d_tasks d = d_tasks d @ []" and "list_all2 (task_evolves R) (d_tasks d) (d_tasks d)"
    by (simp_all add: list.rel_refl)
  then show ?thesis unfolding tasks_evolve_def by blast
qed

lemma tasks_evolve_cong [simp]:
  "tasks_evolve R c (d\<lparr>d_messages := m\<rparr>) = tasks_evolve R c d"
  "tasks_evolve R c (d\<lparr>d_system_events := e\<rparr>) = tasks_evolve R c d"
  "tasks_evolve R c (d\<lparr>d_budget_events := b\<rparr>) = tasks_evolve R c d"
  "tasks_evolve R c (d\<lparr>d_locks := l\<rparr>) = tasks_evolve R c d"
  "tasks_evolve R c (upd_startup i f d) = tasks_evolve R c d"
  by (simp_all add: tasks_evolve_def upd_startup_def)

lemma tasks_evolve_upd:
  assumes "tasks_evolve R c d" and "\<And>t. t \<in> set (d_tasks d) \<Longrightarrow> t_id t = i \<Longrightarrow> task_evolves R t (f t)"
  shows "tasks_evolve R c (upd_task i f d)"
proof -
  let ?g = "\<lambda>t. if t_id t = i then f t else t"
  from assms(1) obtain old new where d: "d_tasks d = old @ new"
    and r: "list_all2 (task_evolves R) (d_tasks c) old" by (auto simp: tasks_evolve_def)
  have "list_all2 (task_evolves R) old (map ?g old)"
    using assms(2) d by (auto simp: list_all2_conv_all_nth)
  with r have "list_all2 (task_evolves R) (d_tasks c) (map ?g old)"
    by (rule list_all2_trans [of "task_evolves R" "task_evolves R" "task_evolves R", rotated 1])
       (rule task_evolves_trans)
  moreover have "d_tasks (upd_task i f d) = map ?g old @ map ?g new"
    using d by (simp add: upd_task_def upd_tasks_def update_rows_def)
  ultimately show ?thesis by (auto simp: tasks_evolve_def)
qed

lemma tasks_evolve_upd_plain:
  assumes "tasks_evolve R c d" and "\<And>t. t_id (f t) = t_id t \<and> t_startup (f t) = t_startup t \<and>
    t_parent (f t) = t_parent t \<and> t_status (f t) = t_status t"
  shows "tasks_evolve R c (upd_task i f d)"
  using assms by (intro tasks_evolve_upd) (auto simp: task_evolves_def)

text \<open>A status write that \<open>R\<close> allows, on the row it read.\<close>

lemma tasks_evolve_move:
  assumes "tasks_evolve R c d" and "db_inv d" and "task_row d i = Some t"
    and "parse_status (t_status t) = Some a" and "R a b"
    and "\<And>t. t_id (f t) = t_id t \<and> t_startup (f t) = t_startup t \<and> t_parent (f t) = t_parent t \<and>
      t_status (f t) = status_to_str b"
  shows "tasks_evolve R c (upd_task i f d)"
proof (rule tasks_evolve_upd [OF assms(1)])
  fix u
  assume "u \<in> set (d_tasks d)" "t_id u = i"
  with db_inv_unique [OF assms(2)] assms(3) have "u = t" by fastforce
  then show "task_evolves R u (f u)" using assms(4,5,6) by (auto simp: task_evolves_def)
qed

text \<open>A status write that \<open>next\<close> granted.\<close>

lemma tasks_evolve_step:
  assumes "tasks_evolve task_step c d" and "db_inv d" and "task_row d i = Some t"
    and "parse_status (t_status t) = Some a" and "next_status a tr = Inr b" and "\<not> is_create tr"
    and "\<And>t. t_id (f t) = t_id t \<and> t_startup (f t) = t_startup t \<and> t_parent (f t) = t_parent t \<and>
      t_status (f t) = status_to_str b"
  shows "tasks_evolve task_step c (upd_task i f d)"
  by (rule tasks_evolve_move [OF assms(1-4) task_step.intros [OF assms(6,5)] assms(7)])

lemma tasks_evolve_append:
  assumes "tasks_evolve R c d"
  shows "tasks_evolve R c (d\<lparr>d_tasks := d_tasks d @ ts\<rparr>)"
proof -
  from assms obtain old new where "d_tasks d = old @ new" "list_all2 (task_evolves R) (d_tasks c) old"
    by (auto simp: tasks_evolve_def)
  then have "d_tasks d @ ts = old @ (new @ ts)" and "list_all2 (task_evolves R) (d_tasks c) old"
    by simp_all
  then show ?thesis unfolding tasks_evolve_def by force
qed

lemma task_evolves_mono: "task_evolves R t u \<Longrightarrow> (\<And>a b. R a b \<Longrightarrow> S a b) \<Longrightarrow> task_evolves S t u"
  unfolding task_evolves_def by (metis mono_rtranclp)

lemma tasks_evolve_mono:
  assumes "tasks_evolve R c d" and "\<And>a b. R a b \<Longrightarrow> S a b"
  shows "tasks_evolve S c d"
proof -
  from assms(1) obtain old new where "d_tasks d = old @ new" "list_all2 (task_evolves R) (d_tasks c) old"
    by (auto simp: tasks_evolve_def)
  moreover from this(2) have "list_all2 (task_evolves S) (d_tasks c) old"
    by (rule list_all2_mono) (rule task_evolves_mono [OF _ assms(2)])
  ultimately show ?thesis by (auto simp: tasks_evolve_def)
qed

lemma tasks_evolve_trans:
  assumes "tasks_evolve R c d" and "tasks_evolve R d e"
  shows "tasks_evolve R c e"
proof -
  from assms obtain old new old' new' where
    d: "d_tasks d = old @ new" "list_all2 (task_evolves R) (d_tasks c) old" and
    e: "d_tasks e = old' @ new'" "list_all2 (task_evolves R) (old @ new) old'"
    by (auto simp: tasks_evolve_def)
  from e(2) obtain o1 o2 where o: "old' = o1 @ o2" "list_all2 (task_evolves R) old o1"
    by (auto simp: list_all2_append1)
  have "list_all2 (task_evolves R) (d_tasks c) o1"
    by (rule list_all2_trans [of "task_evolves R" "task_evolves R" "task_evolves R"])
       (use task_evolves_trans d(2) o(2) in blast)+
  moreover have "d_tasks e = o1 @ (o2 @ new')" using e(1) o(1) by simp
  ultimately show ?thesis unfolding tasks_evolve_def by blast
qed

end
