(* ===== verification/Sandbox.thy ===== *)
theory Sandbox
  imports Store
begin

text \<open>
  The path sandbox of \<open>sandbox.rs\<close>, the check pipeline of \<open>self_review.rs\<close> and the pure parts of
  \<open>agent_tools.rs\<close>. The text of I/O errors is not part of the messages here.
\<close>

section \<open>Text of a path\<close>

fun split_slash :: "string \<Rightarrow> string list" where
  "split_slash [] = [[]]"
| "split_slash (c # cs) =
     (if c = CHR ''/'' then [] # split_slash cs
      else (case split_slash cs of [] \<Rightarrow> [[c]] | w # ws \<Rightarrow> (c # w) # ws))"

text \<open>\<open>Path::components\<close> of a relative path: empty and \<open>.\<close> components disappear.\<close>

definition path_components :: "string \<Rightarrow> fs_path" where
  "path_components s = filter (\<lambda>c. c \<noteq> [] \<and> c \<noteq> ''.'') (split_slash s)"

fun is_prefix :: "'a list \<Rightarrow> 'a list \<Rightarrow> bool" where
  "is_prefix [] ys = True"
| "is_prefix (x # xs) [] = False"
| "is_prefix (x # xs) (y # ys) = (x = y \<and> is_prefix xs ys)"

fun contains_sub :: "string \<Rightarrow> string \<Rightarrow> bool" where
  "contains_sub needle [] = (needle = [])"
| "contains_sub needle (c # cs) = (is_prefix needle (c # cs) \<or> contains_sub needle cs)"

definition ends_with :: "string \<Rightarrow> string \<Rightarrow> bool" where
  "ends_with s suf = is_prefix (rev suf) (rev s)"

text \<open>\<open>chars().nth(1)\<close>: the first byte of the second code point.\<close>

definition second_char :: "string \<Rightarrow> char option" where
  "second_char s = (case s of [] \<Rightarrow> None
     | _ # cs \<Rightarrow> (case dropWhile is_cont cs of [] \<Rightarrow> None | c # _ \<Rightarrow> Some c))"

text \<open>The UTF-8 bytes of \<open>U+202E, U+202D, U+202A, U+202B, U+202C, U+200E, U+200F\<close>.\<close>

definition forbidden_ctrl :: "string list" where
  "forbidden_ctrl = map (\<lambda>b. [char_of (226 :: nat), char_of (128 :: nat), char_of (b :: nat)])
     [174, 173, 170, 171, 172, 142, 143]"

section \<open>resolve\<close>

definition check_candidate :: "env \<Rightarrow> string \<Rightarrow> string + unit" where
  "check_candidate env candidate =
     (if candidate = [] then Inl ''empty path''
      else if char_of (0 :: nat) \<in> set candidate then Inl ''nul byte in path''
      else if 4096 < length candidate then Inl ''path too long''
      else if is_prefix ''/'' candidate then Inl ''absolute path forbidden''
      else if 2 \<le> length candidate \<and> second_char candidate = Some (CHR '':'') then Inl ''windows absolute''
      else if is_prefix [CHR 0x5C, CHR 0x5C] candidate \<or> is_prefix ''//'' candidate then Inl ''UNC path forbidden''
      else if (\<exists>w \<in> set forbidden_ctrl. contains_sub w candidate) then Inl ''bidi control char''
      else if e_nfc env candidate \<noteq> candidate then Inl ''non-NFC path''
      else if ends_with candidate ''.'' \<or> ends_with candidate '' '' then Inl ''trailing dot or space''
      else Inr ())"

text \<open>\<open>Path::file_name\<close>: the last component, unless it is \<open>..\<close>.\<close>

definition file_name :: "fs_path \<Rightarrow> string option" where
  "file_name p = (if p = [] \<or> last p = ''..'' then None else Some (last p))"

text \<open>
  \<open>canonicalize\<close> hands the text of the path to the operating system, which takes a final slash to ask for a
  directory; here that slash is an empty last component. \<open>parent\<close> and \<open>file_name\<close> do not see it.
\<close>

definition slash_at_end :: "string \<Rightarrow> fs_path" where
  "slash_at_end candidate = (if ends_with candidate ''/'' then [[]] else [])"

text \<open>realpath of the joined path; if it does not exist yet, of its parent with the basename.\<close>

definition realpath_or_parent :: "env \<Rightarrow> fs_path \<Rightarrow> fs_path \<Rightarrow> fs_path \<Rightarrow> string + fs_path" where
  "realpath_or_parent env canon_root joined slash =
     (case e_canonicalize env (joined @ slash) of
        Some c \<Rightarrow> Inr c
      | None \<Rightarrow>
          if joined = [] then Inl ''no parent''
          else (case e_canonicalize env (butlast joined) of
              None \<Rightarrow> Inl ''parent canonicalize''
            | Some parent_c \<Rightarrow>
                if \<not> is_prefix canon_root parent_c then Inl ''parent escapes root''
                else (case file_name joined of
                    None \<Rightarrow> Inl ''no file name''
                  | Some f \<Rightarrow> Inr (parent_c @ [f]))))"

definition resolve :: "env \<Rightarrow> fs_path \<Rightarrow> string \<Rightarrow> string + fs_path" where
  "resolve env ws_root candidate = (case check_candidate env candidate of
      Inl e \<Rightarrow> Inl e
    | Inr _ \<Rightarrow>
        (case e_canonicalize env ws_root of
           None \<Rightarrow> Inl ''root canonicalize''
         | Some canon_root \<Rightarrow>
             (case realpath_or_parent env canon_root (ws_root @ path_components candidate)
                 (slash_at_end candidate) of
                Inl e \<Rightarrow> Inl e
              | Inr canon \<Rightarrow>
                  if is_prefix canon_root canon then Inr canon else Inl ''path escapes root'')))"

lemma is_prefix_iff: "is_prefix xs ys \<longleftrightarrow> (\<exists>zs. ys = xs @ zs)"
  by (induction xs ys rule: is_prefix.induct) auto

lemma is_prefix_append [simp]: "is_prefix xs (xs @ ys)"
  by (auto simp: is_prefix_iff)

lemma realpath_Inr:
  "realpath_or_parent env r j sl = Inr p \<longleftrightarrow>
     e_canonicalize env (j @ sl) = Some p \<or>
     (e_canonicalize env (j @ sl) = None \<and> j \<noteq> [] \<and> last j \<noteq> ''..'' \<and>
      (\<exists>q. e_canonicalize env (butlast j) = Some q \<and> is_prefix r q \<and> p = q @ [last j]))"
  by (auto simp: realpath_or_parent_def file_name_def split: option.splits)

text \<open>Whatever \<open>resolve\<close> hands out lies below the canonical root.\<close>

lemma resolve_Inr:
  "resolve env ws_root candidate = Inr p \<longleftrightarrow>
     check_candidate env candidate = Inr () \<and>
     (\<exists>r. e_canonicalize env ws_root = Some r \<and> is_prefix r p \<and>
        realpath_or_parent env r (ws_root @ path_components candidate) (slash_at_end candidate) = Inr p)"
  by (auto simp: resolve_def split: sum.splits option.splits)

lemma resolve_candidate: "resolve env ws_root candidate = Inr p \<Longrightarrow> check_candidate env candidate = Inr ()"
  by (simp add: resolve_Inr)

lemma candidate_ok:
  "check_candidate env c = Inr () \<longleftrightarrow>
     c \<noteq> [] \<and> char_of (0 :: nat) \<notin> set c \<and> length c \<le> 4096 \<and> \<not> is_prefix ''/'' c \<and>
     \<not> (2 \<le> length c \<and> second_char c = Some (CHR '':'')) \<and> \<not> is_prefix [CHR 0x5C, CHR 0x5C] c \<and>
     (\<forall>w \<in> set forbidden_ctrl. \<not> contains_sub w c) \<and> e_nfc env c = c \<and>
     \<not> ends_with c ''.'' \<and> \<not> ends_with c '' ''"
proof -
  have "is_prefix ''//'' c \<Longrightarrow> is_prefix ''/'' c" by (auto simp: is_prefix_iff)
  then show ?thesis unfolding check_candidate_def by (simp add: not_less)
qed

section \<open>self_review.rs\<close>

datatype severity = SevWarn | SevError

fun severity_as_str :: "severity \<Rightarrow> string" where
  "severity_as_str SevWarn = ''warn''"
| "severity_as_str SevError = ''error''"

record check_result =
  cr_check :: string
  cr_severity :: severity
  cr_message :: string

record self_review_outcome =
  sro_ok :: bool
  sro_must_fix :: "check_result list"

definition workspace_root :: "ident \<Rightarrow> fs_path" where
  "workspace_root startup_id = path_components (''workspaces/'' @ startup_id)"

definition canonical_artifact_path :: "ident \<Rightarrow> ident \<Rightarrow> string" where
  "canonical_artifact_path startup_id task_id =
     ''workspaces/'' @ startup_id @ ''/artifacts/'' @ task_id @ ''.md''"

definition artifact_tail :: "ident \<Rightarrow> string" where
  "artifact_tail task_id = ''artifacts/'' @ task_id @ ''.md''"

text \<open>\<open>Path::extension\<close> of the last component: what follows its last dot, unless the dot leads.\<close>

definition extension :: "string \<Rightarrow> string option" where
  "extension s = (let comps = path_components s in
     if comps = [] \<or> last comps = ''..'' then None
     else let r = rev (last comps); ext = takeWhile (\<lambda>c. c \<noteq> CHR ''.'') r in
       if length r \<le> length ext + 1 then None else Some (rev ext))"

definition failing :: "string \<Rightarrow> string \<Rightarrow> self_review_outcome" where
  "failing chk msg = \<lparr> sro_ok = False,
     sro_must_fix = [\<lparr> cr_check = chk, cr_severity = SevError, cr_message = msg \<rparr>] \<rparr>"

definition self_review_run :: "env \<Rightarrow> ident \<Rightarrow> ident \<Rightarrow> string \<Rightarrow> self_review_outcome" where
  "self_review_run env startup_id task_id artifact_path =
     (let canonical = canonical_artifact_path startup_id task_id in
      if artifact_path \<noteq> canonical then
        failing ''canonical_path'' (''expected '' @ canonical @ '', got '' @ artifact_path)
      else case resolve env (workspace_root startup_id) (artifact_tail task_id) of
          Inl e \<Rightarrow> failing ''artifact_exists'' (''sandbox refused: '' @ e)
        | Inr resolved \<Rightarrow> (case e_read env resolved of
              None \<Rightarrow> failing ''artifact_exists'' ''read failed''
            | Some bytes \<Rightarrow>
                if bytes = [] then failing ''artifact_exists'' ''artifact is zero bytes''
                else
                  let lint = (if extension artifact_path = Some ''json'' \<and>
                        \<not> (e_is_utf8 env bytes \<and> e_parse_json env bytes \<noteq> None)
                      then [\<lparr> cr_check = ''json_lint'', cr_severity = SevError,
                              cr_message = ''artifact is not valid JSON'' \<rparr>] else []);
                    md = (if ends_with artifact_path ''.md''
                      then [\<lparr> cr_check = ''markdown_lint'', cr_severity = SevWarn,
                              cr_message = ''deferred: TS sidecar lint pipeline lands in P6.B'' \<rparr>] else []);
                    must_fix = lint @ md
                  in \<lparr> sro_ok = \<not> (\<exists>c \<in> set must_fix. cr_severity c = SevError),
                       sro_must_fix = must_fix \<rparr>))"

definition check_json :: "check_result \<Rightarrow> json" where
  "check_json c = JObj [(''check'', JStr (cr_check c)),
     (''severity'', JStr (severity_as_str (cr_severity c))), (''message'', JStr (cr_message c))]"

text \<open>The stamp fails the call; the audit entry is best effort.\<close>

definition self_review_record :: "ident \<Rightarrow> ident \<Rightarrow> self_review_outcome \<Rightarrow>
    (sys, sql_error, unit) sem" where
  "self_review_record task_id agent_id outcome =
     thenE (if sro_ok outcome then
              sql_exec (\<lambda>s. upd_task task_id (\<lambda>t. t\<lparr>t_self_reviewed_at := Some (now_secs s)\<rparr>) (db s))
            else ret ())
       (ignoreE (append_audit task_id (JObj [(''actor'', JStr ''engineer''), (''kind'', JStr ''self_review''),
          (''agent_id'', JStr agent_id),
          (''outcome'', JStr (if sro_ok outcome then ''pass'' else ''fail'')),
          (''checks'', JArr (map check_json (sro_must_fix outcome)))])))"

text \<open>
  The gate is exact: a run passes just when the path is the canonical one and names a non-empty
  readable file in the sandbox.
\<close>

lemma extension_canonical: "extension (canonical_artifact_path sid tid) \<noteq> Some ''json''"
proof -
  let ?s = "canonical_artifact_path sid tid"
  have "\<exists>ws w. path_components ?s = ws @ [w @ ''.md'']"
  proof -
    have split_snoc: "\<exists>ws w. split_slash (cs @ ''.md'') = ws @ [w @ ''.md'']" for cs
    proof (induction cs)
      case Nil
      have "split_slash ([] @ ''.md'') = [] @ [[] @ ''.md'']" by simp
      then show ?case by blast
    next
      case (Cons c cs)
      then obtain ws w where h: "split_slash (cs @ ''.md'') = ws @ [w @ ''.md'']" by blast
      show ?case
      proof (cases "c = CHR ''/''")
        case True
        with h have "split_slash ((c # cs) @ ''.md'') = ([] # ws) @ [w @ ''.md'']" by simp
        then show ?thesis by blast
      next
        case False
        show ?thesis
        proof (cases ws)
          case Nil
          with h False have "split_slash ((c # cs) @ ''.md'') = [] @ [(c # w) @ ''.md'']" by simp
          then show ?thesis by blast
        next
          case (Cons v vs)
          with h False have "split_slash ((c # cs) @ ''.md'') = ((c # v) # vs) @ [w @ ''.md'']" by simp
          then show ?thesis by blast
        qed
      qed
    qed
    obtain ws w where "split_slash ?s = ws @ [w @ ''.md'']"
      using split_snoc [of "''workspaces/'' @ sid @ ''/artifacts/'' @ tid"]
      by (auto simp: canonical_artifact_path_def)
    then have "path_components ?s = filter (\<lambda>c. c \<noteq> [] \<and> c \<noteq> ''.'') ws @ [w @ ''.md'']"
      by (simp add: path_components_def append_eq_Cons_conv)
    then show ?thesis by blast
  qed
  then obtain ws w where w: "path_components ?s = ws @ [w @ ''.md'']" by blast
  show ?thesis by (auto simp: extension_def w Let_def)
qed

lemma self_review_ok:
  "sro_ok (self_review_run env sid tid path) \<longleftrightarrow>
     path = canonical_artifact_path sid tid \<and>
     (\<exists>p b. resolve env (workspace_root sid) (artifact_tail tid) = Inr p \<and> e_read env p = Some b \<and> b \<noteq> [])"
  using extension_canonical [of sid tid]
  by (auto simp: self_review_run_def failing_def Let_def split: sum.splits option.splits)

section \<open>agent_tools.rs\<close>

definition TAIL_CAP_BYTES :: nat where
  "TAIL_CAP_BYTES = 16 * 1024"

definition DEFAULT_TIMEOUT_SECS :: int where
  "DEFAULT_TIMEOUT_SECS = 120"

text \<open>The bytes \<open>tail_to_string\<close> keeps, before the lossy decoding.\<close>

definition tail_bytes :: "string \<Rightarrow> string" where
  "tail_bytes bytes = dropWhile is_cont (drop (length bytes - TAIL_CAP_BYTES) bytes)"

definition task_workdir :: "ident \<Rightarrow> ident \<Rightarrow> fs_path" where
  "task_workdir startup_id task_id =
     path_components (''workspaces/'' @ startup_id @ ''/'' @ task_id @ ''/workdir'')"

definition sniff_test_command :: "env \<Rightarrow> fs_path \<Rightarrow> string \<times> string list" where
  "sniff_test_command env workdir =
     (if e_exists env (workdir @ [''Cargo.toml'']) then (''cargo'', [''test'', ''--quiet''])
      else if e_exists env (workdir @ [''package.json'']) then (''pnpm'', [''test''])
      else if e_exists env (workdir @ [''Makefile'']) then (''make'', [''test''])
      else (''sh'', [''-c'', ''echo 'no recognized test target' && exit 0'']))"

lemma tail_bytes_bound: "length (tail_bytes b) \<le> TAIL_CAP_BYTES"
  using length_dropWhile_le [of is_cont "drop (length b - TAIL_CAP_BYTES) b"]
  by (simp add: tail_bytes_def)

lemma tail_bytes_suffix: "\<exists>pre. b = pre @ tail_bytes b"
  by (metis append_take_drop_id tail_bytes_def takeWhile_dropWhile_id append_assoc)

lemma tail_bytes_boundary: "tail_bytes b = [] \<or> \<not> is_cont (hd (tail_bytes b))"
  using hd_dropWhile [of is_cont] by (auto simp: tail_bytes_def)

section \<open>Properties\<close>

text \<open>C20: Every path the sandbox hands out lies below the canonical workspace root and contains no
  parent component, given that \<open>canonicalize\<close> returns no parent component, as its documentation says;
  and the text it came from is relative, at most 4096 bytes long and free of NUL bytes.\<close>
theorem sandbox_confines:
  assumes "\<And>p c. e_canonicalize env p = Some c \<Longrightarrow> ''..'' \<notin> set c"
    and "resolve env ws_root candidate = Inr p"
  shows "\<exists>r. e_canonicalize env ws_root = Some r \<and> is_prefix r p \<and> ''..'' \<notin> set p \<and>
    \<not> is_prefix ''/'' candidate \<and> length candidate \<le> 4096 \<and> char_of (0 :: nat) \<notin> set candidate"
proof -
  from assms(2) obtain r where
    r: "e_canonicalize env ws_root = Some r" "is_prefix r p"
       "realpath_or_parent env r (ws_root @ path_components candidate) (slash_at_end candidate) = Inr p"
    and c: "check_candidate env candidate = Inr ()" by (auto simp: resolve_Inr)
  have "''..'' \<notin> set p" using r(3) assms(1) by (auto simp: realpath_Inr)
  with r c show ?thesis by (simp add: candidate_ok)
qed

definition tiny_env :: env where
  "tiny_env = \<lparr> e_astar_room = \<lambda>_ _ _ _. None, e_astar_tile = \<lambda>_ _ _ _. None,
     e_graph = from_doors [], e_uuid = \<lambda>n. ''u'' @ show_nat n,
     e_canonicalize = (\<lambda>p. if p = [''workspaces'', ''s1''] then Some [''srv'', ''s1'']
        else if p = [''workspaces'', ''s1'', ''artifacts''] then Some [''srv'', ''s1'', ''artifacts'']
        else if p = [''workspaces'', ''s1'', ''artifacts'', ''t1.md'']
          then Some [''srv'', ''s1'', ''artifacts'', ''t1.md''] else None),
     e_read = (\<lambda>p. if p = [''srv'', ''s1'', ''artifacts'', ''t1.md''] then Some ''done'' else None),
     e_is_utf8 = (\<lambda>_. True), e_exists = (\<lambda>_. False), e_nfc = (\<lambda>x. x),
     e_parse_json = (\<lambda>_. None), e_to_string = (\<lambda>_. []), e_sql_text = (\<lambda>_. ''database error''),
     e_debug = (\<lambda>x. ''\"'' @ x @ ''\"''), e_uuid_simple = (\<lambda>n. ''u'' @ show_nat n), e_sha256_hex = (\<lambda>x. x),
     e_process = (\<lambda>_ _ _. \<lparr> pr_spawn_error = Some ''not found'', pr_wait = None, pr_stdout = ([], None),
       pr_stderr = ([], None) \<rparr>) \<rparr>"

theorem sandbox_confines_witness:
  "\<exists>r. e_canonicalize tiny_env [''workspaces'', ''s1''] = Some r \<and>
    is_prefix r [''srv'', ''s1'', ''artifacts'', ''new.md''] \<and>
    ''..'' \<notin> set [''srv'', ''s1'', ''artifacts'', ''new.md''] \<and>
    \<not> is_prefix ''/'' ''artifacts/new.md'' \<and> length ''artifacts/new.md'' \<le> 4096 \<and>
    char_of (0 :: nat) \<notin> set ''artifacts/new.md''"
proof (rule sandbox_confines)
  show "''..'' \<notin> set c" if "e_canonicalize tiny_env p = Some c" for p c
    using that by (auto simp: tiny_env_def split: if_splits)
  show "resolve tiny_env [''workspaces'', ''s1''] ''artifacts/new.md'' =
      Inr [''srv'', ''s1'', ''artifacts'', ''new.md'']"
    by code_simp
qed

text \<open>
  What confinement does not say: a candidate with a slash at its end hides a link. When the last component
  is a symbolic link to a file, canonicalizing the path with the slash fails, and the fallback hands out
  the link itself, below the root, without asking where it leads: the canonical form of the path without
  the slash, wherever it is, does not occur in the hypotheses.
\<close>

lemma trailing_slash_hides_a_link:
  assumes "check_candidate env candidate = Inr ()" and "ends_with candidate ''/''"
    and "e_canonicalize env ws_root = Some r"
    and "path_components candidate = ds @ [f]" and "file_name (ws_root @ ds @ [f]) = Some f"
    and "e_canonicalize env (ws_root @ ds @ [f, []]) = None"
    and "e_canonicalize env (ws_root @ ds) = Some q" and "is_prefix r q"
  shows "resolve env ws_root candidate = Inr (q @ [f])"
proof -
  have "butlast (ws_root @ ds @ [f]) = ws_root @ ds" by (metis append_assoc butlast_snoc)
  moreover have "is_prefix r (q @ [f])" using assms(8) by (auto simp: is_prefix_iff)
  ultimately show ?thesis
    using assms by (simp add: resolve_def realpath_or_parent_def slash_at_end_def)
qed

text \<open>The review gate is exact: a self-review passes precisely when the submitted path is the
  canonical artifact path of the task and that path resolves in the sandbox to a readable file that is
  not empty.\<close>

lemma self_review_gate_exact:
  "sro_ok (self_review_run env sid tid path) \<longleftrightarrow>
     path = ''workspaces/'' @ sid @ ''/artifacts/'' @ tid @ ''.md'' \<and>
     (\<exists>p b. resolve env (workspace_root sid) (artifact_tail tid) = Inr p \<and> e_read env p = Some b \<and> b \<noteq> [])"
  by (simp only: self_review_ok canonical_artifact_path_def)

end
