(* ===== verification/McpTasks.thy ===== *)
theory McpTasks
  imports Sandbox
begin

text \<open>
  The task tools of \<open>mcp_dispatch.rs\<close>, one definition per handler, in the order of the source. A
  handler takes the caller's avatar as it was when the call came in and the JSON arguments.
\<close>

section \<open>Helpers\<close>

record task_view =
  tv_status :: task_status
  tv_startup :: ident
  tv_parent :: "ident option"
  tv_assignee :: "ident option"
  tv_review_round :: int
  tv_artifact :: "string option"

definition load_task :: "ident \<Rightarrow> task_view handler" where
  "load_task task_id =
     bindE (sqlH (sql_query (\<lambda>d. task_row d task_id))) (\<lambda>row. case row of
        None \<Rightarrow> throw (HErr ''unknown_task'' (''no task: '' @ task_id))
      | Some t \<Rightarrow> (case parse_status (t_status t) of
            None \<Rightarrow> throw (HErr ''unknown_status'' (t_status t))
          | Some st \<Rightarrow> ret \<lparr> tv_status = st, tv_startup = t_startup t, tv_parent = t_parent t,
              tv_assignee = t_assignee t, tv_review_round = as_u32 (t_review_round t),
              tv_artifact = t_artifact t \<rparr>))"

text \<open>\<open>SELECT assignee_agent_id FROM tasks WHERE id = ?\<close>, flattened by \<open>and_then\<close>.\<close>

definition assignee_of :: "ident \<Rightarrow> ident option handler" where
  "assignee_of task_id = sqlH (sql_query (\<lambda>d. Option.bind (task_row d task_id) t_assignee))"

definition caller_is_manager_of_task :: "avatar \<Rightarrow> task_view \<Rightarrow> bool handler" where
  "caller_is_manager_of_task caller task = (case tv_parent task of
      Some parent_id \<Rightarrow>
        bindE (assignee_of parent_id) (\<lambda>a. ret (a = Some (av_agent_id caller)))
    | None \<Rightarrow> (case tv_assignee task of
          None \<Rightarrow> ret False
        | Some assignee \<Rightarrow>
            bindE (sqlH (sql_query (\<lambda>d. Option.bind (agent_row d assignee) ag_manager)))
              (\<lambda>m. ret (m = Some (av_agent_id caller)))))"

definition caller_manages_parent :: "avatar \<Rightarrow> ident \<Rightarrow> bool handler" where
  "caller_manages_parent caller parent_id =
     bindE (assignee_of parent_id) (\<lambda>a. ret (a = Some (av_agent_id caller)))"

definition is_public_room :: "ident \<Rightarrow> bool" where
  "is_public_room room_id \<longleftrightarrow> room_id = ''lobby'' \<or> room_id = ''cafe'' \<or> room_id = ''library''"

definition next_or_illegal :: "task_status \<Rightarrow> transition \<Rightarrow> task_status handler" where
  "next_or_illegal st tr = (case next_status st tr of
      Inl r \<Rightarrow> throw (HErr ''illegal_transition'' r)
    | Inr s \<Rightarrow> ret s)"

definition same_startup :: "task_view \<Rightarrow> avatar \<Rightarrow> unit handler" where
  "same_startup task caller =
     guardE (tv_startup task = av_startup_id caller)
       (HErr ''cross_startup'' ''task belongs to another startup'')"

definition set_status :: "ident \<Rightarrow> task_status \<Rightarrow> unit handler" where
  "set_status task_id st = sqlH (sql_exec (\<lambda>s.
     upd_task task_id (\<lambda>t. t\<lparr>t_status := status_to_str st, t_updated_at := now_secs s\<rparr>) (db s)))"

definition startup_of_agent_row :: "ident \<Rightarrow> ident option handler" where
  "startup_of_agent_row a = sqlH (sql_query (\<lambda>d. map_option ag_startup (agent_row d a)))"

text \<open>The assignee a manager names must exist and belong to the caller's startup.\<close>

definition require_own_agent :: "avatar \<Rightarrow> ident \<Rightarrow> unit handler" where
  "require_own_agent caller a =
     bindE (startup_of_agent_row a) (\<lambda>r. case r of
        None \<Rightarrow> throw (HErr ''unknown_assignee'' ''no such agent'')
      | Some sid \<Rightarrow> guardE (sid = av_startup_id caller)
          (HErr ''cross_startup'' ''assignee in different startup''))"

definition insert_message :: "ident \<Rightarrow> ident \<Rightarrow> ident option \<Rightarrow> ident \<Rightarrow> string \<Rightarrow> string \<Rightarrow>
    (sys, sql_error, unit) sem" where
  "insert_message i startup_id room author body kind = sql_checked
     (\<lambda>d. if find_row m_id i (d_messages d) \<noteq> None then Some UniqueViolation
          else fk (startup_row d startup_id \<noteq> None))
     (\<lambda>s. (db s)\<lparr>d_messages := d_messages (db s) @
        [\<lparr> m_id = i, m_startup = startup_id, m_room = room, m_author = author, m_body = body,
           m_kind = kind, m_ts = now_secs s \<rparr>]\<rparr>)"

definition insert_task :: "task \<Rightarrow> (sys, sql_error, unit) sem" where
  "insert_task t = sql_checked
     (\<lambda>d. if task_row d (t_id t) \<noteq> None then Some UniqueViolation
          else fk (startup_row d (t_startup t) \<noteq> None \<and> refs (task_row d) (t_parent t) \<and>
                   refs (agent_row d) (t_assignee t) \<and> refs (task_row d) (t_blocked_on t)))
     (\<lambda>s. (db s)\<lparr>d_tasks := d_tasks (db s) @ [t]\<rparr>)"

text \<open>The columns an \<open>INSERT INTO tasks\<close> leaves to their defaults.\<close>

definition new_task :: "ident \<Rightarrow> ident \<Rightarrow> ident option \<Rightarrow> string \<Rightarrow> string \<Rightarrow> string \<Rightarrow> ident option \<Rightarrow>
    ident option \<Rightarrow> int \<Rightarrow> task" where
  "new_task i startup_id parent title description status assignee room now_s =
     \<lparr> t_id = i, t_startup = startup_id, t_parent = parent, t_title = title,
       t_description = description, t_assignee = assignee, t_required_room = room,
       t_status = status, t_review_round = 0, t_audit = [], t_epistemic = [], t_artifact = None,
       t_created_at = now_s, t_updated_at = now_s, t_preferred_backend = None,
       t_preferred_model = None, t_cost_estimate = None, t_blocked_on = None,
       t_deadline_at = None, t_deadline_notified_at = None, t_self_reviewed_at = None \<rparr>"

section \<open>Movement and chat\<close>

definition do_start_move :: "env \<Rightarrow> ident \<Rightarrow> ident \<Rightarrow> tile \<Rightarrow> (sys, panic, start_move_result) sem" where
  "do_start_move env agent_id room t = (\<lambda>s.
     case start_move (e_astar_room env) (e_astar_tile env) (layout s) (e_graph env) agent_id room t
            (avatars s) (paths s) of
       Inl p \<Rightarrow> (Inl p, s)
     | Inr (r, avs, ps) \<Rightarrow> (Inr r, s\<lparr>avatars := avs, paths := ps\<rparr>))"

text \<open>Signed division by two truncates.\<close>

definition half :: "int \<Rightarrow> int" where
  "half i = (if i < 0 then - ((- i) div 2) else i div 2)"

definition room_center :: "room_def \<Rightarrow> tile" where
  "room_center r = (case rd_bounds r of (bx, by', bw, bh) \<Rightarrow> (bx + half bw, by' + half bh))"

definition tile_arg :: "json \<Rightarrow> tile handler" where
  "tile_arg t =
     bindE (case get_i64 ''x'' t of None \<Rightarrow> throw (HErr ''bad_args'' ''target_tile.x missing'')
            | Some x \<Rightarrow> ret (as_i32 x)) (\<lambda>x.
     bindE (case get_i64 ''y'' t of None \<Rightarrow> throw (HErr ''bad_args'' ''target_tile.y missing'')
            | Some y \<Rightarrow> ret (as_i32 y)) (\<lambda>y.
     ret (x, y)))"

definition move_target :: "avatar \<Rightarrow> json \<Rightarrow> (ident \<times> tile) handler" where
  "move_target caller args = (case (get_str ''target_room'' args, jget ''target_tile'' args) of
      (Some r, Some t) \<Rightarrow> bindE (tile_arg t) (\<lambda>xy. ret (r, xy))
    | (Some r, None) \<Rightarrow> bindE (asksE (\<lambda>s. layout_room (layout s) r)) (\<lambda>rd. case rd of
          None \<Rightarrow> throw (HErr ''bad_args'' (''unknown room: '' @ r))
        | Some rd \<Rightarrow> ret (r, room_center rd))
    | (None, Some t) \<Rightarrow> bindE (tile_arg t) (\<lambda>xy. ret (av_room_id caller, xy))
    | (None, None) \<Rightarrow> throw (HErr ''bad_args'' ''must provide target_room or target_tile''))"

definition tile_json :: "tile \<Rightarrow> json" where
  "tile_json t = JObj [(''x'', JInt (fst t)), (''y'', JInt (snd t))]"

definition handle_move_intent :: "env \<Rightarrow> avatar \<Rightarrow> json \<Rightarrow> json handler" where
  "handle_move_intent env caller args =
     bindE (move_target caller args) (\<lambda>(room, xy).
     bindE (mapErr HPanic (do_start_move env (av_agent_id caller) room xy)) (\<lambda>r. case r of
        MoveOk \<Rightarrow> bindE (asksE (\<lambda>s. case map_of (paths s) (av_agent_id caller) of
            None \<Rightarrow> 0 | Some p \<Rightarrow> int (length p))) (\<lambda>n.
          ret (JObj [(''target_room'', JStr room), (''target_tile'', tile_json xy),
            (''queued_steps'', JInt n)]))
      | NoPath \<Rightarrow> throw (HErr ''no_path'' ''no path to target'')
      | PermissionDenied \<Rightarrow>
          thenE (ignoreE (emit_system_event env (Some (av_startup_id caller)) ''permission_violation''
              (JObj [(''agent_id'', JStr (av_agent_id caller)), (''kind'', JStr ''move_intent_denied''),
                (''target_room'', JStr room)]) ''alert''))
            (throw (HErr ''no_permission'' ''cannot enter target room''))
      | NoSuchAgent \<Rightarrow> throw (HErr ''unknown_agent'' ''agent not found'')))"

text \<open>Who hears a chat: the others in the room, of the same startup unless the room is public.\<close>

definition hears :: "avatar \<Rightarrow> ident \<times> avatar \<Rightarrow> bool" where
  "hears caller p = (case p of (peer_id, peer) \<Rightarrow>
     peer_id \<noteq> av_agent_id caller \<and> av_room_id peer = av_room_id caller \<and>
     (av_startup_id peer = av_startup_id caller \<or> is_public_room (av_room_id caller)))"

definition check_directive :: "avatar \<Rightarrow> ident option \<Rightarrow> unit handler" where
  "check_directive caller to_agent_id = (case to_agent_id of
      None \<Rightarrow> throw (HErr ''bad_args'' ''directive requires to_agent_id'')
    | Some recipient \<Rightarrow>
        bindE (sqlH (sql_query (\<lambda>d. agent_row d recipient))) (\<lambda>row. case row of
          None \<Rightarrow> throw (HErr ''unknown_recipient'' (''no such agent: '' @ recipient))
        | Some ag \<Rightarrow>
            thenE (guardE (ag_startup ag = av_startup_id caller)
              (HErr ''cross_startup'' ''directive cannot cross startups''))
              (guardE (ag_manager ag = Some (av_agent_id caller))
                (HErr ''no_permission'' ''directive requires manager-of-recipient''))))"

definition deliver_chat :: "avatar \<Rightarrow> ident \<Rightarrow> string \<Rightarrow> unit handler" where
  "deliver_chat caller i body =
     bindE (asksE (\<lambda>s. filter (hears caller) (avatars s))) (\<lambda>peers.
     thenE (forE peers (\<lambda>(peer_id, _). send_to peer_id
         (JObj [(''type'', JStr ''chat_received''), (''v'', JInt 1),
           (''from_agent_id'', JStr (av_agent_id caller)), (''body'', JStr body),
           (''room_id'', JStr (av_room_id caller))])))
     (bindE (asksE now_ms) (\<lambda>ts.
       broadcast (FChat i ts (av_startup_id caller) (av_room_id caller) (av_agent_id caller) body))))"

definition deliver_directive :: "avatar \<Rightarrow> ident \<Rightarrow> string \<Rightarrow> ident \<Rightarrow> unit handler" where
  "deliver_directive caller i body rid =
     thenE (send_to rid (JObj [(''type'', JStr ''directive''), (''v'', JInt 1),
         (''from_agent_id'', JStr (av_agent_id caller)), (''body'', JStr body)]))
     (bindE (asksE now_ms) (\<lambda>ts.
       broadcast (FDirective i ts (av_startup_id caller) (av_agent_id caller) None rid body None)))"

definition handle_speak :: "env \<Rightarrow> avatar \<Rightarrow> json \<Rightarrow> json handler" where
  "handle_speak env caller args =
     bindE (require_str args ''body'') (\<lambda>body.
     thenE (check_body_length ''body'' body)
     (let kind = str_or ''chat'' (get_str ''kind'' args); to_agent_id = get_str ''to_agent_id'' args in
      thenE (guardE (kind = ''chat'' \<or> kind = ''directive'')
        (HErr ''bad_args'' (''unknown speak kind: '' @ kind)))
      (thenE (if kind = ''directive'' then check_directive caller to_agent_id else ret ())
      (bindE (fresh_uuid env) (\<lambda>i.
      thenE (sqlH (insert_message i (av_startup_id caller)
          (if kind = ''chat'' then Some (av_room_id caller) else None) (av_agent_id caller) body kind))
      (thenE (if kind = ''chat'' then deliver_chat caller i body
              else case to_agent_id of None \<Rightarrow> ret () | Some rid \<Rightarrow> deliver_directive caller i body rid)
      (ret (JObj [(''message_id'', JStr i)]))))))))"

section \<open>The life of a task\<close>

definition must_fix_json :: "check_result \<Rightarrow> json" where
  "must_fix_json c = JObj [(''check'', JStr (cr_check c)),
     (''severity'', JStr (case cr_severity c of SevWarn \<Rightarrow> ''Warn'' | SevError \<Rightarrow> ''Error'')),
     (''message'', JStr (cr_message c))]"

text \<open>The pre-submit gate, on unless \<open>auto_check\<close> is \<open>false\<close>; its recording is best effort.\<close>

definition auto_check_gate :: "env \<Rightarrow> avatar \<Rightarrow> ident \<Rightarrow> string \<Rightarrow> json \<Rightarrow> unit handler" where
  "auto_check_gate env caller task_id artifact_path args =
     (if get_bool ''auto_check'' args = Some False then ret ()
      else let outcome = self_review_run env (av_startup_id caller) task_id artifact_path in
        thenE (ignoreE (self_review_record task_id (av_agent_id caller) outcome))
          (guardE (sro_ok outcome)
            (HErr ''must_fix'' (e_to_string env (JArr (map must_fix_json (sro_must_fix outcome)))))))"

definition agent_audit :: "string \<Rightarrow> string \<Rightarrow> avatar \<Rightarrow> json" where
  "agent_audit actr kind caller = JObj [(''actor'', JStr actr), (''kind'', JStr kind),
     (''agent_id'', JStr (av_agent_id caller))]"

definition subtask_done_json :: "ident \<Rightarrow> ident \<Rightarrow> string \<Rightarrow> int \<Rightarrow> json" where
  "subtask_done_json parent_id task_id artifact_path rnd = JObj [(''type'', JStr ''subtask_done''),
     (''v'', JInt 1), (''parent_id'', JStr parent_id), (''child_id'', JStr task_id),
     (''artifact_path'', JStr artifact_path), (''review_round'', JInt rnd)]"

text \<open>One hop of notification: the assignee of the parent task.\<close>

definition notify_parent :: "task_view \<Rightarrow> ident \<Rightarrow> string \<Rightarrow> unit handler" where
  "notify_parent task task_id artifact_path = (case tv_parent task of
      None \<Rightarrow> ret ()
    | Some parent_id \<Rightarrow> bindE (assignee_of parent_id) (\<lambda>m. case m of
          None \<Rightarrow> ret ()
        | Some manager \<Rightarrow> send_to manager
            (subtask_done_json parent_id task_id artifact_path (tv_review_round task))))"

definition status_reply :: "ident \<Rightarrow> task_status \<Rightarrow> json" where
  "status_reply task_id st =
     JObj [(''task_id'', JStr task_id), (''new_status'', JStr (status_to_str st))]"

definition handle_task_done :: "env \<Rightarrow> avatar \<Rightarrow> json \<Rightarrow> json handler" where
  "handle_task_done env caller args =
     bindE (require_str args ''task_id'') (\<lambda>task_id.
     bindE (require_str args ''artifact_path'') (\<lambda>artifact_path.
     bindE (load_task task_id) (\<lambda>task.
     thenE (same_startup task caller)
     (thenE (guardE (tv_assignee task = Some (av_agent_id caller))
       (HErr ''no_permission'' ''task_done requires assignee''))
     (let canonical = canonical_artifact_path (av_startup_id caller) task_id in
      thenE (guardE (artifact_path = canonical)
        (HErr ''bad_artifact_path'' (''expected '' @ canonical @ '', got '' @ artifact_path)))
      (thenE (case resolve env (workspace_root (av_startup_id caller)) (artifact_tail task_id) of
          Inl e \<Rightarrow> throw (HErr ''sandbox_violation'' e) | Inr _ \<Rightarrow> ret ())
      (thenE (auto_check_gate env caller task_id artifact_path args)
      (bindE (next_or_illegal (tv_status task) TaskDoneMcp) (\<lambda>new_status.
      thenE (sqlH (sql_exec (\<lambda>s. upd_task task_id (\<lambda>t. t\<lparr>t_status := status_to_str new_status,
          t_artifact := Some artifact_path, t_updated_at := now_secs s\<rparr>) (db s))))
      (thenE (ignoreE (append_audit task_id (agent_audit ''agent'' ''task_done'' caller)))
      (thenE (set_avatar_status (av_agent_id caller) ''idle'')
      (thenE (notify_parent task task_id artifact_path)
      (ret (status_reply task_id new_status))))))))))))))"

definition handle_task_failed :: "avatar \<Rightarrow> json \<Rightarrow> json handler" where
  "handle_task_failed caller args =
     bindE (require_str args ''task_id'') (\<lambda>task_id.
     let reason = str_or [] (get_str ''reason'' args) in
     bindE (load_task task_id) (\<lambda>task.
     thenE (same_startup task caller)
     (thenE (guardE (tv_assignee task = Some (av_agent_id caller))
       (HErr ''no_permission'' ''task_failed requires assignee''))
     (bindE (next_or_illegal (tv_status task) Fail) (\<lambda>new_status.
      thenE (set_status task_id new_status)
      (thenE (ignoreE (append_audit task_id (JObj [(''actor'', JStr ''agent''),
          (''kind'', JStr ''task_failed''), (''agent_id'', JStr (av_agent_id caller)),
          (''reason'', JStr reason)])))
      (thenE (set_avatar_status (av_agent_id caller) ''idle'')
      (ret (status_reply task_id new_status)))))))))"

definition handle_subtask_create :: "env \<Rightarrow> avatar \<Rightarrow> json \<Rightarrow> json handler" where
  "handle_subtask_create env caller args =
     bindE (require_str args ''parent_id'') (\<lambda>parent_id.
     let title = str_or [] (get_str ''title'' args);
         description = str_or [] (get_str ''description'' args);
         required_room = get_str ''required_room'' args;
         requested_assignee = get_str ''assignee_agent_id'' args in
     bindE (sqlH (sql_query (\<lambda>d. task_row d parent_id))) (\<lambda>row. case row of
        None \<Rightarrow> throw (HErr ''unknown_task'' (''no parent: '' @ parent_id))
      | Some parent \<Rightarrow>
          thenE (guardE (t_startup parent = av_startup_id caller)
            (HErr ''cross_startup'' ''parent task belongs to another startup''))
          (let is_manager = (t_assignee parent = Some (av_agent_id caller));
               assignee = (if is_manager then requested_assignee else None) in
           bindE (next_or_illegal Proposed (SubtaskCreate (if is_manager then Manager else NonManager)))
             (\<lambda>new_status.
           thenE (case assignee of None \<Rightarrow> ret () | Some aid \<Rightarrow> require_own_agent caller aid)
           (bindE (fresh_uuid env) (\<lambda>i.
           bindE (asksE now_secs) (\<lambda>t0.
           thenE (sqlH (insert_task (new_task i (av_startup_id caller) (Some parent_id) title description
               (status_to_str new_status) assignee required_room t0)))
           (thenE (if is_manager then ret () else (case t_assignee parent of
               None \<Rightarrow> ret ()
             | Some manager \<Rightarrow> send_to manager (JObj [(''type'', JStr ''subtask_proposed''),
                 (''v'', JInt 1), (''parent_id'', JStr parent_id), (''proposed_task_id'', JStr i),
                 (''proposer_agent_id'', JStr (av_agent_id caller)), (''title'', JStr title),
                 (''description'', JStr description)])))
           (ret (JObj [(''task_id'', JStr i), (''status'', JStr (status_to_str new_status))]))))))))))"

definition handle_task_accept :: "avatar \<Rightarrow> json \<Rightarrow> json handler" where
  "handle_task_accept caller args =
     bindE (require_str args ''task_id'') (\<lambda>task_id.
     bindE (load_task task_id) (\<lambda>task.
     thenE (same_startup task caller)
     (bindE (caller_is_manager_of_task caller task) (\<lambda>is_manager.
      thenE (guardE is_manager (HErr ''no_permission'' ''task_accept is manager-only''))
      (bindE (next_or_illegal (tv_status task) TaskAccept) (\<lambda>new_status.
       thenE (set_status task_id new_status)
       (thenE (ignoreE (append_audit task_id (agent_audit ''manager'' ''task_accept'' caller)))
       (thenE (notify_parent task task_id (str_or [] (tv_artifact task)))
       (ret (status_reply task_id new_status))))))))))"

definition is_peer_reviewer :: "avatar \<Rightarrow> bool handler" where
  "is_peer_reviewer caller = sqlH (sql_query (\<lambda>d. case agent_row d (av_agent_id caller) of
      None \<Rightarrow> False | Some ag \<Rightarrow> ag_is_peer_reviewer ag \<noteq> 0))"

text \<open>The escalation branch: the round limit is reached.\<close>

definition escalate_task :: "env \<Rightarrow> avatar \<Rightarrow> ident \<Rightarrow> task_view \<Rightarrow> string \<Rightarrow> json handler" where
  "escalate_task env caller task_id task feedback =
     bindE (next_or_illegal (tv_status task) Escalate) (\<lambda>escalated.
     thenE (set_status task_id escalated)
     (thenE (ignoreE (append_audit task_id (JObj [(''actor'', JStr ''system''),
         (''kind'', JStr ''escalated''), (''reason'', JStr ''max_review_rounds_exceeded''),
         (''at_round'', JInt (tv_review_round task)), (''triggered_by'', JStr (av_agent_id caller))])))
     (thenE (ignoreE (emit_system_event env (Some (av_startup_id caller)) ''task_escalated''
         (JObj [(''task_id'', JStr task_id), (''rounds'', JInt (tv_review_round task)),
           (''feedback'', JStr feedback)]) ''alert''))
     (ret (JObj [(''task_id'', JStr task_id), (''new_status'', JStr (status_to_str escalated)),
         (''status'', JStr (status_to_str escalated)), (''review_round'', JInt (tv_review_round task)),
         (''reason'', JStr ''max_review_rounds_exceeded'')])))))"

text \<open>The regular branch: the round is counted and the feedback stored in one transaction.\<close>

definition bounce_task :: "env \<Rightarrow> avatar \<Rightarrow> ident \<Rightarrow> task_view \<Rightarrow> string \<Rightarrow> string \<Rightarrow> ident \<Rightarrow>
    json handler" where
  "bounce_task env caller task_id task feedback actor_kind assignee =
     bindE (next_or_illegal (tv_status task) RequestChanges) (\<lambda>new_status.
     bindE (fresh_uuid env) (\<lambda>directive_id.
     thenE (transactE HSql
       (thenE (sqlH (sql_exec (\<lambda>s. upd_task task_id (\<lambda>t. t\<lparr>t_status := status_to_str new_status,
            t_review_round := t_review_round t + 1, t_self_reviewed_at := None,
            t_updated_at := now_secs s\<rparr>) (db s))))
          (sqlH (insert_message directive_id (av_startup_id caller) None (av_agent_id caller) feedback
            ''directive''))))
     (thenE (ignoreE (append_audit task_id (agent_audit actor_kind ''task_request_changes'' caller)))
     (bindE (asksE now_ms) (\<lambda>ts.
      thenE (broadcast (FDirective directive_id ts (av_startup_id caller) (av_agent_id caller) None
          assignee feedback (Some task_id)))
      (thenE (send_to assignee (JObj [(''type'', JStr ''directive''), (''v'', JInt 1),
          (''from_agent_id'', JStr (av_agent_id caller)), (''body'', JStr feedback),
          (''in_response_to_task'', JStr task_id)]))
      (ret (status_reply task_id new_status))))))))"

definition handle_task_request_changes :: "env \<Rightarrow> avatar \<Rightarrow> json \<Rightarrow> json handler" where
  "handle_task_request_changes env caller args =
     bindE (require_str args ''task_id'') (\<lambda>task_id.
     bindE (require_str args ''feedback'') (\<lambda>feedback.
     thenE (check_body_length ''feedback'' feedback)
     (bindE (load_task task_id) (\<lambda>task.
     thenE (same_startup task caller)
     (bindE (caller_is_manager_of_task caller task) (\<lambda>is_manager.
      bindE (if is_manager then ret False
             else bindE (is_peer_reviewer caller) (\<lambda>is_peer.
               ret (tv_startup task = av_startup_id caller \<and>
                    tv_assignee task \<noteq> Some (av_agent_id caller) \<and> is_peer)))
        (\<lambda>is_peer_review.
      thenE (guardE (is_manager \<or> is_peer_review)
        (HErr ''no_permission'' ''task_request_changes requires manager or peer-reviewer role''))
      (case tv_assignee task of
         None \<Rightarrow> throw (HErr ''no_assignee'' ''task has no assignee'')
       | Some assignee \<Rightarrow>
           if MAX_REVIEW_ROUNDS \<le> tv_review_round task
           then escalate_task env caller task_id task feedback
           else bounce_task env caller task_id task feedback
             (if is_manager then ''manager'' else ''peer'') assignee))))))))"

text \<open>The front half the two decisions on a proposal share.\<close>

definition load_proposal :: "avatar \<Rightarrow> ident \<Rightarrow> string \<Rightarrow> task_view handler" where
  "load_proposal caller task_id tool =
     bindE (load_task task_id) (\<lambda>task.
     thenE (same_startup task caller)
     (case tv_parent task of
        None \<Rightarrow> throw (HErr ''bad_args'' (tool @ '' requires a subtask''))
      | Some parent_id \<Rightarrow> bindE (caller_manages_parent caller parent_id) (\<lambda>ok.
          thenE (guardE ok (HErr ''no_permission'' (tool @ '' is manager-only''))) (ret task))))"

definition handle_accept_proposal :: "avatar \<Rightarrow> json \<Rightarrow> json handler" where
  "handle_accept_proposal caller args =
     bindE (require_str args ''task_id'') (\<lambda>task_id.
     bindE (require_str args ''assignee_agent_id'') (\<lambda>assignee.
     let required_room = get_str ''required_room'' args in
     bindE (load_proposal caller task_id ''accept_proposal'') (\<lambda>task.
     thenE (require_own_agent caller assignee)
     (bindE (next_or_illegal (tv_status task) (AcceptProposal Manager)) (\<lambda>new_status.
      thenE (sqlH (sql_checked (\<lambda>d. fk (agent_row d assignee \<noteq> None \<or> task_row d task_id = None))
        (\<lambda>s. upd_task task_id (\<lambda>t. t\<lparr>t_status := status_to_str new_status,
          t_assignee := Some assignee, t_required_room := required_room,
          t_updated_at := now_secs s\<rparr>) (db s))))
      (thenE (ignoreE (append_audit task_id (agent_audit ''manager'' ''accept_proposal'' caller)))
      (ret (status_reply task_id new_status))))))))"

definition handle_reject_proposal :: "avatar \<Rightarrow> json \<Rightarrow> json handler" where
  "handle_reject_proposal caller args =
     bindE (require_str args ''task_id'') (\<lambda>task_id.
     let reason = str_or [] (get_str ''reason'' args) in
     bindE (load_proposal caller task_id ''reject_proposal'') (\<lambda>task.
     bindE (next_or_illegal (tv_status task) (RejectProposal Manager)) (\<lambda>new_status.
     thenE (set_status task_id new_status)
     (thenE (ignoreE (append_audit task_id (JObj [(''actor'', JStr ''manager''),
         (''kind'', JStr ''reject_proposal''), (''agent_id'', JStr (av_agent_id caller)),
         (''reason'', JStr reason)])))
     (ret (status_reply task_id new_status))))))"

end
