(* ===== verification/Commands.thy ===== *)
theory Commands
  imports Sandbox
begin

text \<open>
  The command runner of \<open>agent_tools.rs\<close>: the lossy decoding of the tail of a stream, with
  \<open>String::from_utf8_lossy\<close> of the standard library written out, and \<open>run_command\<close> over the times at
  which the operating system lets the process end and its two streams close (the record \<open>process\<close> of \<open>World\<close>).
\<close>

section \<open>UTF-8\<close>

text \<open>What follows a lead byte: the range of the second byte, and how many more bytes continue it.\<close>

definition lead :: "nat \<Rightarrow> (nat \<times> nat \<times> nat) option" where
  "lead b = (if 194 \<le> b \<and> b \<le> 223 then Some (128, 191, 0)
     else if b = 224 then Some (160, 191, 1)
     else if 225 \<le> b \<and> b \<le> 236 \<or> b = 238 \<or> b = 239 then Some (128, 191, 1)
     else if b = 237 then Some (128, 159, 1)
     else if b = 240 then Some (144, 191, 2)
     else if 241 \<le> b \<and> b \<le> 243 then Some (128, 191, 2)
     else if b = 244 then Some (128, 143, 2)
     else None)"

definition byte_of :: "char \<Rightarrow> nat" where
  "byte_of c = of_char c"

text \<open>
  The first piece of a non-empty byte sequence: whether it is a code point, and its length; a piece
  that is none is the longest beginning of a code point, or one byte.
\<close>

fun piece :: "string \<Rightarrow> bool \<times> nat" where
  "piece [] = (True, 0)"
| "piece (a # r) =
     (if byte_of a < 128 then (True, 1)
      else case lead (byte_of a) of
        None \<Rightarrow> (False, 1)
      | Some (lo, hi, n) \<Rightarrow>
          if r = [] \<or> \<not> (lo \<le> byte_of (hd r) \<and> byte_of (hd r) \<le> hi) then (False, 1)
          else let k = length (takeWhile is_cont (take n (tl r))) in (k = n, 2 + k))"

lemma piece_pos: "b \<noteq> [] \<Longrightarrow> 0 < snd (piece b)"
  by (cases b) (auto simp: Let_def split: option.split)

lemma piece_length: "snd (piece b) \<le> length b"
proof (cases b)
  case (Cons a r)
  have "length (takeWhile is_cont (take n (tl r))) \<le> length r - 1" for n
    using length_takeWhile_le [of is_cont "take n (tl r)"] by simp
  then show ?thesis
    unfolding Cons by (cases r) (auto simp: Let_def split: option.split)
qed simp

text \<open>\<open>char::REPLACEMENT_CHARACTER\<close>, three bytes.\<close>

definition replacement :: string where
  "replacement = [CHR 0xEF, CHR 0xBF, CHR 0xBD]"

function from_utf8_lossy :: "string \<Rightarrow> string" where
  "from_utf8_lossy b = (if b = [] then [] else case piece b of (ok, n) \<Rightarrow>
     (if ok then take n b else replacement) @ from_utf8_lossy (drop n b))"
  by pat_completeness auto
termination
  by (relation "measure length") (auto dest!: piece_pos simp: prod_eq_iff intro!: diff_less)

declare from_utf8_lossy.simps [simp del]

text \<open>A valid sequence has no replaced piece.\<close>

function utf8 :: "string \<Rightarrow> bool" where
  "utf8 b = (if b = [] then True else case piece b of (ok, n) \<Rightarrow> ok \<and> utf8 (drop n b))"
  by pat_completeness auto
termination
  by (relation "measure length") (auto dest!: piece_pos simp: prod_eq_iff intro!: diff_less)

declare utf8.simps [simp del]

lemma utf8_step: "b \<noteq> [] \<Longrightarrow> piece b = (ok, n) \<Longrightarrow> utf8 b \<longleftrightarrow> ok \<and> utf8 (drop n b)"
  by (subst utf8.simps) simp

lemma lossy_step: "b \<noteq> [] \<Longrightarrow> piece b = (ok, n) \<Longrightarrow>
    from_utf8_lossy b = (if ok then take n b else replacement) @ from_utf8_lossy (drop n b)"
  by (subst from_utf8_lossy.simps) simp

lemma empty_text [simp]: "utf8 []" "from_utf8_lossy [] = []"
  by (simp_all add: utf8.simps from_utf8_lossy.simps)

lemma lossy_valid: "utf8 b \<Longrightarrow> from_utf8_lossy b = b"
proof (induction b rule: utf8.induct)
  case (1 b)
  show ?case
  proof (cases "b = []")
    case False
    obtain ok n where p: "piece b = (ok, n)" by (cases "piece b")
    with 1 False utf8_step [OF False p] lossy_step [OF False p] show ?thesis by simp
  qed simp
qed

text \<open>A code point is a lead byte followed by continuation bytes, whatever comes after it.\<close>

lemma lead_range: "lead b = Some (lo, hi, n) \<Longrightarrow> 128 \<le> lo \<and> hi \<le> 191 \<and> 192 \<le> b"
  by (auto simp: lead_def split: if_splits)

lemma is_cont_range: "is_cont c \<longleftrightarrow> 128 \<le> byte_of c \<and> byte_of c \<le> 191"
  by (auto simp: is_cont_def byte_of_def)

lemma take_cont: "length (takeWhile is_cont (take n xs)) = n \<Longrightarrow>
    \<exists>u w. xs = u @ w \<and> length u = n \<and> (\<forall>c \<in> set u. is_cont c)"
proof -
  assume l: "length (takeWhile is_cont (take n xs)) = n"
  then have "length (take n xs) = n"
    using length_takeWhile_le [of is_cont "take n xs"] by (simp add: min_def split: if_splits)
  with l have "takeWhile is_cont (take n xs) = take n xs"
    by (metis takeWhile_eq_take take_all order_refl)
  then have "\<forall>c \<in> set (take n xs). is_cont c" by (metis set_takeWhileD)
  with \<open>length (take n xs) = n\<close> show ?thesis by (metis append_take_drop_id)
qed

lemma piece_TrueE:
  assumes "piece b = (True, n)" and "b \<noteq> []"
  obtains a u w where "b = a # u @ w" "n = Suc (length u)" "\<not> is_cont a" "\<forall>c \<in> set u. is_cont c"
    "\<And>x. piece (a # u @ x) = (True, n)"
proof -
  obtain a r where b: "b = a # r" using assms(2) by (cases b) auto
  show thesis
  proof (cases "byte_of a < 128")
    case True
    with assms b show thesis by (intro that [of a "[]" r]) (auto simp: is_cont_range)
  next
    case False
    with assms b obtain lo hi m where l: "lead (byte_of a) = Some (lo, hi, m)" "r \<noteq> []"
      "lo \<le> byte_of (hd r)" "byte_of (hd r) \<le> hi" "length (takeWhile is_cont (take m (tl r))) = m" "n = 2 + m"
      by (auto simp: Let_def split: option.splits if_splits)
    obtain d q where r: "r = d # q" using l(2) by (cases r) auto
    obtain u w where u: "q = u @ w" "length u = m" "\<forall>c \<in> set u. is_cont c"
      using take_cont [of m q] l(5) r by auto
    have all: "takeWhile is_cont (take m (u @ x)) = u" for x
      using u(2,3) by (simp add: takeWhile_eq_all_conv)
    show thesis
      by (rule that [of a "d # u" w])
         (use False b r l u all lead_range [OF l(1)] in \<open>auto simp: is_cont_range Let_def\<close>)
  qed
qed

lemma utf8_append: "utf8 b \<Longrightarrow> utf8 (b @ x) = utf8 x"
proof (induction b rule: utf8.induct)
  case (1 b)
  show ?case
  proof (cases "b = []")
    case False
    obtain ok n where "piece b = (ok, n)" by (cases "piece b")
    with "1.prems" utf8_step [OF False this] have n: "piece b = (True, n)" "utf8 (drop n b)" by simp_all
    from n(1) False obtain a u w where b: "b = a # u @ w" "n = Suc (length u)"
      "\<And>x. piece (a # u @ x) = (True, n)" using piece_TrueE [OF n(1) False] by metis
    have "utf8 (w @ x) = utf8 x" using "1.IH" [OF False n(1) [symmetric]] n(2) b by simp
    then show ?thesis using b utf8_step [OF _ b(3), of "w @ x"] by simp
  qed simp
qed

lemma replacement_utf8: "utf8 replacement"
  using utf8_step [of replacement True 3]
  by (simp add: replacement_def byte_of_def lead_def is_cont_def Let_def)

lemma lossy_is_utf8: "utf8 (from_utf8_lossy b)"
proof (induction b rule: from_utf8_lossy.induct)
  case (1 b)
  show ?case
  proof (cases "b = []")
    case False
    obtain ok n where p: "piece b = (ok, n)" by (cases "piece b")
    have "utf8 (take n b)" if ok
    proof -
      from p that have "piece b = (True, n)" by simp
      from piece_TrueE [OF this False] obtain a u w where b: "b = a # u @ w" "n = Suc (length u)"
        "\<And>x. piece (a # u @ x) = (True, n)" by metis
      show ?thesis using b(1,2) utf8_step [OF _ b(3) [of "[]"]] by simp
    qed
    with 1 False p lossy_step [OF False p] show ?thesis by (auto simp: utf8_append replacement_utf8)
  qed simp
qed

lemma utf8_suffix: "utf8 (p @ r) \<Longrightarrow> r = [] \<or> \<not> is_cont (hd r) \<Longrightarrow> utf8 r"
proof (induction "p @ r" arbitrary: p rule: utf8.induct)
  case 1
  show ?case
  proof (cases "p = []")
    case False
    then have ne: "p @ r \<noteq> []" by simp
    obtain ok n where "piece (p @ r) = (ok, n)" by (cases "piece (p @ r)")
    with "1.prems"(1) utf8_step [OF ne this] have n: "piece (p @ r) = (True, n)" "utf8 (drop n (p @ r))"
      by simp_all
    obtain a u w where b: "p @ r = a # u @ w" "n = Suc (length u)" "\<forall>c \<in> set u. is_cont c"
      using piece_TrueE [OF n(1) ne] by metis
    have long: "n \<le> length p \<or> r = []"
    proof (rule ccontr)
      assume c: "\<not> (n \<le> length p \<or> r = [])"
      then have "hd r = (p @ r) ! length p" by (cases r) (auto simp: nth_append)
      also have "\<dots> = u ! (length p - 1)"
        using b False c by (cases "length p") (auto simp: nth_append)
      also have "\<dots> \<in> set u" using b False c by (cases "length p") auto
      finally show False using b(3) c "1.prems"(2) by auto
    qed
    show ?thesis
    proof (cases "r = []")
      case r: False
      with long have "drop n (p @ r) = drop n p @ r" by simp
      with "1.hyps" [OF ne n(1) [symmetric]] n(2) "1.prems"(2) show ?thesis by simp
    qed simp
  qed (use "1.prems" in simp)
qed

section \<open>The tail of a stream\<close>

definition tail_to_string :: "string \<Rightarrow> string" where
  "tail_to_string bytes = from_utf8_lossy (tail_bytes bytes)"

text \<open>Of a valid text nothing is corrupted: the tail is its last part, cut between two characters.\<close>

lemma tail_of_text:
  assumes "utf8 b"
  shows "tail_to_string b = tail_bytes b"
proof -
  obtain pre where b: "b = pre @ tail_bytes b" using tail_bytes_suffix by blast
  have "utf8 (tail_bytes b)"
    by (rule utf8_suffix [of pre]) (use assms b tail_bytes_boundary [of b] in auto)
  then show ?thesis by (simp add: tail_to_string_def lossy_valid)
qed

section \<open>Running a command\<close>

datatype tool_error = Spawn string | Io string

fun tool_error_text :: "tool_error \<Rightarrow> string" where
  "tool_error_text (Spawn s) = ''spawn: '' @ s"
| "tool_error_text (Io e) = ''io: '' @ e"

text \<open>
  The reader tasks are awaited after the time limit and before \<open>child\<close> is dropped, so a stream that is
  never closed is awaited for ever: then the call has no result (\<open>None\<close>).
\<close>

definition collect_streams :: "process \<Rightarrow> nat \<Rightarrow> int option \<Rightarrow> bool \<Rightarrow> (tool_error + command_outcome) option" where
  "collect_streams p waited exit_code timed_out = (case (pr_stdout p, pr_stderr p) of
      ((o_bytes, Some t_out), (e_bytes, Some t_err)) \<Rightarrow> Some (Inr \<lparr> co_exit_code = exit_code,
        co_stdout_tail = tail_to_string o_bytes, co_stderr_tail = tail_to_string e_bytes,
        co_timed_out = timed_out, co_elapsed_ms = int (max waited (max t_out t_err)) \<rparr>)
    | _ \<Rightarrow> None)"

definition run_command :: "process \<Rightarrow> nat \<Rightarrow> (tool_error + command_outcome) option" where
  "run_command p timeout_secs = (case pr_spawn_error p of
      Some e \<Rightarrow> Some (Inl (Spawn e))
    | None \<Rightarrow> (case pr_wait p of
        Some (t, r) \<Rightarrow>
          if t \<le> 1000 * timeout_secs then (case r of
              Inl e \<Rightarrow> Some (Inl (Io e)) | Inr code \<Rightarrow> collect_streams p t code False)
          else collect_streams p (1000 * timeout_secs) None True
      | None \<Rightarrow> collect_streams p (1000 * timeout_secs) None True))"

text \<open>A child that is started closes its streams in the end; then the call returns.\<close>

definition ends :: "process \<Rightarrow> bool" where
  "ends p \<longleftrightarrow> pr_spawn_error p \<noteq> None \<or> snd (pr_stdout p) \<noteq> None \<and> snd (pr_stderr p) \<noteq> None"

lemma run_command_ends: "ends p \<Longrightarrow> run_command p n \<noteq> None"
  by (cases "pr_stdout p"; cases "pr_stderr p")
     (auto simp: ends_def run_command_def collect_streams_def split: option.splits sum.splits)

definition runs_until :: "process \<Rightarrow> nat \<Rightarrow> bool" where
  "runs_until p t \<longleftrightarrow> pr_spawn_error p = None \<and> (case pr_wait p of None \<Rightarrow> True | Some (u, r) \<Rightarrow> t < u) \<and>
     (case snd (pr_stdout p) of None \<Rightarrow> True | Some u \<Rightarrow> t < u)"

text \<open>C40: the time limit does not bound the call. A command that still runs, and writes, after its time
  limit is neither stopped nor abandoned: the call ends only when the command's streams do, late by as much as
  they are, and it does not end at all when one of them is never closed, whatever the limit was.\<close>
theorem time_limit_does_not_bound_the_call:
  assumes "runs_until p (1000 * limit)"
  shows "run_command p limit = Some r \<longleftrightarrow> (\<exists>b1 t1 b2 t2. pr_stdout p = (b1, Some t1) \<and>
      pr_stderr p = (b2, Some t2) \<and> r = Inr \<lparr> co_exit_code = None, co_stdout_tail = tail_to_string b1,
        co_stderr_tail = tail_to_string b2, co_timed_out = True, co_elapsed_ms = int (max t1 t2) \<rparr> \<and>
      1000 * limit < t1)"
proof -
  have run: "run_command p limit = collect_streams p (1000 * limit) None True"
    using assms by (auto simp: run_command_def runs_until_def split: option.splits)
  obtain b1 c1 b2 c2 where st: "pr_stdout p = (b1, c1)" "pr_stderr p = (b2, c2)"
    by (meson surj_pair)
  have late: "c1 = Some u \<Longrightarrow> 1000 * limit < u" for u
    using assms st by (auto simp: runs_until_def)
  show ?thesis
  proof (cases "c1 = None \<or> c2 = None")
    case True
    then show ?thesis by (cases c1; cases c2) (auto simp: run collect_streams_def st)
  next
    case False
    then obtain t1 t2 where c: "c1 = Some t1" "c2 = Some t2" by auto
    have "max (1000 * limit) (max t1 t2) = max t1 t2" using late [OF c(1)] by simp
    then show ?thesis using late [OF c(1)] by (auto simp: run collect_streams_def st c)
  qed
qed

definition busy_loop :: process where
  "busy_loop = \<lparr> pr_spawn_error = None, pr_wait = None, pr_stdout = (''tick'', None), pr_stderr = ([], None) \<rparr>"

definition slow_command :: process where
  "slow_command = \<lparr> pr_spawn_error = None, pr_wait = Some (5000, Inr (Some 0)),
     pr_stdout = ([], Some 5000), pr_stderr = ([], Some 5000) \<rparr>"

theorem time_limit_does_not_bound_the_call_witness:
  "run_command slow_command 1 = Some (Inr \<lparr> co_exit_code = None, co_stdout_tail = [], co_stderr_tail = [],
      co_timed_out = True, co_elapsed_ms = 5000 \<rparr>) \<and> (\<forall>r. run_command busy_loop 1 \<noteq> Some r)"
proof -
  have empty: "tail_to_string [] = []" by (simp add: tail_to_string_def tail_bytes_def)
  have "runs_until slow_command (1000 * 1)" "runs_until busy_loop (1000 * 1)"
    by (simp_all add: runs_until_def slow_command_def busy_loop_def)
  note both = this [THEN time_limit_does_not_bound_the_call]
  show ?thesis unfolding both by (simp add: slow_command_def busy_loop_def empty)
qed

text \<open>A command that ends in time, and its streams with it, is reported in time and as it ended.\<close>

lemma finished_command_reported:
  assumes "pr_spawn_error p = None" and "pr_wait p = Some (t, Inr code)" and "t \<le> 1000 * limit"
    and "pr_stdout p = (b1, Some t1)" and "pr_stderr p = (b2, Some t2)" and "t1 \<le> t" and "t2 \<le> t"
  shows "\<exists>o'. run_command p limit = Some (Inr o') \<and> co_exit_code o' = code \<and> \<not> co_timed_out o' \<and>
    co_elapsed_ms o' \<le> 1000 * int limit \<and> utf8 (co_stdout_tail o') \<and>
    (utf8 b1 \<longrightarrow> length (co_stdout_tail o') \<le> TAIL_CAP_BYTES \<and> (\<exists>pre. b1 = pre @ co_stdout_tail o'))"
proof -
  have "utf8 (tail_to_string b1)" by (simp add: tail_to_string_def lossy_is_utf8)
  then show ?thesis
    using assms tail_bytes_bound [of b1] tail_bytes_suffix [of b1]
    by (simp add: run_command_def collect_streams_def tail_of_text)
qed

end
