(* ===== verification/McpTools.thy ===== *)
theory McpTools
  imports McpTasks Commands
begin

text \<open>
  The other task tools of \<open>mcp_dispatch.rs\<close>: the epistemic log, verification and artifact access,
  observation, routing and blocking of tasks, work stealing, and the tools that run a command in the
  task's work directory.
\<close>

section \<open>Logs, verification and observation\<close>

definition handle_epistemic_append :: "avatar \<Rightarrow> json \<Rightarrow> string \<Rightarrow> json handler" where
  "handle_epistemic_append caller args kind =
     bindE (require_str args ''task_id'') (\<lambda>task_id.
     bindE (load_task task_id) (\<lambda>task.
     thenE (same_startup task caller)
     (thenE (guardE (tv_assignee task = Some (av_agent_id caller))
       (HErr ''no_permission'' ''epistemic append requires assignee''))
     (case args of
        JObj kvs \<Rightarrow>
          thenE (sqlH (append_epistemic task_id (JObj (obj_insert ''agent_id'' (JStr (av_agent_id caller))
              (obj_insert ''kind'' (JStr kind) kvs)))))
            (ret (JObj [(''task_id'', JStr task_id), (''kind'', JStr kind)]))
      | _ \<Rightarrow> throw (HErr ''bad_args'' ''args must be an object'')))))"

text \<open>Reading a file of the caller's workspace through the sandbox.\<close>

definition read_in_workspace :: "env \<Rightarrow> avatar \<Rightarrow> string \<Rightarrow> string handler" where
  "read_in_workspace env caller path =
     (case resolve env (workspace_root (av_startup_id caller)) path of
        Inl e \<Rightarrow> throw (HErr ''sandbox_violation'' e)
      | Inr resolved \<Rightarrow> (case e_read env resolved of
            None \<Rightarrow> throw (HErr ''read_failed'' [])
          | Some content \<Rightarrow>
              (if e_is_utf8 env content then ret content else throw (HErr ''read_failed'' []))))"

definition observed :: "(string \<times> json) list \<Rightarrow> json" where
  "observed kvs = JObj [(''observed'', JObj kvs)]"

definition handle_verify :: "env \<Rightarrow> avatar \<Rightarrow> json \<Rightarrow> json handler" where
  "handle_verify env caller args =
     bindE (require_str args ''method'') (\<lambda>meth.
     let params = (case jget ''params'' args of None \<Rightarrow> JNull | Some p \<Rightarrow> p) in
     if meth = ''read_assert'' then
       (case get_str ''path'' params of
          None \<Rightarrow> throw (HErr ''bad_args'' ''params.path required'')
        | Some path \<Rightarrow> bindE (read_in_workspace env caller path) (\<lambda>content.
            ret (observed [(''ok'', JBool (case get_str ''contains'' params of
                None \<Rightarrow> True | Some needle \<Rightarrow> contains_sub needle content)),
              (''len'', JInt (int (length content)))])))
     else if meth = ''lint_json'' then
       (case get_str ''path'' params of
          None \<Rightarrow> throw (HErr ''bad_args'' ''params.path required'')
        | Some path \<Rightarrow> bindE (read_in_workspace env caller path) (\<lambda>content.
            ret (case e_parse_json env content of
                Some _ \<Rightarrow> observed [(''ok'', JBool True)]
              | None \<Rightarrow> observed [(''ok'', JBool False), (''error'', JStr [])])))
     else if meth = ''lint_markdown'' \<or> meth = ''lint_typescript'' then
       ret (observed [(''ok'', JBool True), (''deferred'', JBool True), (''method'', JStr meth)])
     else throw (HErr ''bad_args'' (''unknown verify method: '' @ meth)))"

definition handle_ask_peer :: "json \<Rightarrow> json handler" where
  "handle_ask_peer args = ret (JObj [(''response'', JNull)])"

definition handle_observe_world :: "avatar \<Rightarrow> json \<Rightarrow> json handler" where
  "handle_observe_world caller args =
     bindE (require_str args ''query'') (\<lambda>query.
     if query = ''peers_in_room'' then
       bindE (asksE (\<lambda>s. filter (\<lambda>(_, a). av_room_id a = av_room_id caller \<and>
           av_agent_id a \<noteq> av_agent_id caller \<and> av_startup_id a = av_startup_id caller) (avatars s)))
         (\<lambda>peers. ret (JObj [(''peers'', JArr (map (\<lambda>(_, a).
            JObj [(''agent_id'', JStr (av_agent_id a)), (''role'', JStr (av_role a))]) peers))]))
     else if query = ''my_position'' then
       ret (JObj [(''room_id'', JStr (av_room_id caller)), (''tile'', tile_json (av_current_pos caller))])
     else if query = ''budget_remaining'' then
       bindE (sqlH (sql_query (\<lambda>d. startup_row d (av_startup_id caller)))) (\<lambda>row. case row of
          None \<Rightarrow> throw (HErr ''unknown_startup'' ''startup not found'')
        | Some su \<Rightarrow> ret (JObj [(''spent_usd'', JReal (su_spent su)), (''cap_usd'', JReal (su_cap su)),
            (''remaining_usd'', JReal (max (su_cap su - su_spent su) 0))]))
     else throw (HErr ''bad_args'' (''unknown query: '' @ query)))"

definition handle_read_artifact :: "env \<Rightarrow> avatar \<Rightarrow> json \<Rightarrow> json handler" where
  "handle_read_artifact env caller args =
     bindE (require_str args ''path'') (\<lambda>path.
     bindE (read_in_workspace env caller path) (\<lambda>content.
     ret (JObj [(''path'', JStr path), (''content'', JStr content)])))"

section \<open>Routing, blocking and stealing\<close>

text \<open>An absent key is no change; \<open>null\<close>, or a value of another type, clears the column.\<close>

definition str_change :: "string \<Rightarrow> json \<Rightarrow> string option option" where
  "str_change k args = map_option as_str (jget k args)"

definition int_change :: "string \<Rightarrow> json \<Rightarrow> int option option" where
  "int_change k args = map_option as_i64 (jget k args)"

definition flat :: "'a option option \<Rightarrow> 'a option" where
  "flat x = (case x of None \<Rightarrow> None | Some y \<Rightarrow> y)"

definition manager_or_assignee :: "avatar \<Rightarrow> task_view \<Rightarrow> string \<Rightarrow> unit handler" where
  "manager_or_assignee caller task tool =
     bindE (caller_is_manager_of_task caller task) (\<lambda>is_manager.
     guardE (is_manager \<or> tv_assignee task = Some (av_agent_id caller))
       (HErr ''no_permission'' (tool @ '': caller must be manager or assignee'')))"

definition handle_task_set_preference :: "env \<Rightarrow> avatar \<Rightarrow> json \<Rightarrow> json handler" where
  "handle_task_set_preference env caller args =
     bindE (require_str args ''task_id'') (\<lambda>task_id.
     let backend_change = str_change ''preferred_backend'' args;
         model_change = str_change ''preferred_model'' args;
         pref = [(''preferred_backend'', jopt (flat backend_change)),
           (''preferred_model'', jopt (flat model_change))] in
     thenE (guardE (backend_change \<noteq> None \<or> model_change \<noteq> None)
       (HErr ''bad_args'' ''at least one of preferred_backend or preferred_model required''))
     (bindE (load_task task_id) (\<lambda>task.
     thenE (same_startup task caller)
     (thenE (manager_or_assignee caller task ''task_set_preference'')
     (thenE (transactE HSql (thenE
       (case backend_change of None \<Rightarrow> ret ()
        | Some b \<Rightarrow> sqlH (sql_exec (\<lambda>s. upd_task task_id
            (\<lambda>t. t\<lparr>t_preferred_backend := b, t_updated_at := now_secs s\<rparr>) (db s))))
       (case model_change of None \<Rightarrow> ret ()
        | Some m \<Rightarrow> sqlH (sql_exec (\<lambda>s. upd_task task_id
            (\<lambda>t. t\<lparr>t_preferred_model := m, t_updated_at := now_secs s\<rparr>) (db s))))))
     (thenE (ignoreE (append_audit task_id (JObj ([(''actor'', JStr ''agent''),
         (''kind'', JStr ''task_set_preference''), (''agent_id'', JStr (av_agent_id caller))] @ pref))))
     (thenE (ignoreE (emit_system_event env (Some (av_startup_id caller)) ''task_routing_changed''
         (JObj ([(''task_id'', JStr task_id), (''set_by'', JStr (av_agent_id caller))] @ pref)) ''info''))
     (ret (JObj ((''task_id'', JStr task_id) # pref))))))))))"

text \<open>A change of the deadline clears the stamp of the last overdue event.\<close>

definition handle_task_set_blocking :: "env \<Rightarrow> avatar \<Rightarrow> json \<Rightarrow> json handler" where
  "handle_task_set_blocking env caller args =
     bindE (require_str args ''task_id'') (\<lambda>task_id.
     let blocked_change = str_change ''blocked_on'' args;
         deadline_change = int_change ''deadline_at'' args;
         change = [(''blocked_on'', jopt (flat blocked_change)),
           (''deadline_at'', jopt_int (flat deadline_change))] in
     thenE (guardE (blocked_change \<noteq> None \<or> deadline_change \<noteq> None)
       (HErr ''bad_args'' ''at least one of blocked_on or deadline_at required''))
     (bindE (load_task task_id) (\<lambda>task.
     thenE (same_startup task caller)
     (thenE (manager_or_assignee caller task ''task_set_blocking'')
     (thenE (guardE (blocked_change \<noteq> Some (Some task_id))
       (HErr ''self_blocking'' ''a task cannot block on itself''))
     (thenE (transactE HSql (thenE
       (case blocked_change of None \<Rightarrow> ret ()
        | Some b \<Rightarrow> sqlH (sql_checked (\<lambda>d. fk (refs (task_row d) b)) (\<lambda>s. upd_task task_id
            (\<lambda>t. t\<lparr>t_blocked_on := b, t_updated_at := now_secs s\<rparr>) (db s))))
       (case deadline_change of None \<Rightarrow> ret ()
        | Some dl \<Rightarrow> sqlH (sql_exec (\<lambda>s. upd_task task_id
            (\<lambda>t. t\<lparr>t_deadline_at := dl, t_deadline_notified_at := None,
               t_updated_at := now_secs s\<rparr>) (db s))))))
     (thenE (ignoreE (append_audit task_id (JObj ([(''actor'', JStr ''agent''),
         (''kind'', JStr ''task_set_blocking''), (''agent_id'', JStr (av_agent_id caller))] @ change))))
     (thenE (ignoreE (emit_system_event env (Some (av_startup_id caller)) ''task_blocking_changed''
         (JObj ((''task_id'', JStr task_id) # change)) ''info''))
     (ret (JObj ((''task_id'', JStr task_id) # change)))))))))))"

text \<open>
  The reassignment of a queued task, shared by \<open>task_steal\<close> and the scheduler's pass: the
  \<open>WHERE\<close> clause re-reads the row, and the count of rows it hit is the answer.
\<close>

definition steal_row :: "ident \<Rightarrow> ident \<Rightarrow> ident \<Rightarrow> (sys, sql_error, nat) sem" where
  "steal_row task_id old_assignee new_assignee = sql_stmt (\<lambda>s.
     let hit = (\<lambda>t. t_id t = task_id \<and> t_status t = ''queued'' \<and> t_assignee t = Some old_assignee);
         n = length (filter hit (d_tasks (db s))) in
     if n > 0 \<and> agent_row (db s) new_assignee = None then Inl ForeignKeyViolation
     else Inr (n, upd_tasks hit
       (\<lambda>t. t\<lparr>t_assignee := Some new_assignee, t_updated_at := now_secs s\<rparr>) (db s)))"

definition handle_task_steal :: "env \<Rightarrow> avatar \<Rightarrow> json \<Rightarrow> json handler" where
  "handle_task_steal env caller args =
     bindE (require_str args ''task_id'') (\<lambda>task_id.
     thenE (guardE (av_status caller = ''idle'')
       (HErr ''not_idle'' (''caller must be idle to steal (status='' @ av_status caller @ '')'')))
     (bindE (load_task task_id) (\<lambda>task.
     thenE (same_startup task caller)
     (thenE (guardE (tv_status task = Queued) (HErr ''not_stealable''
         (''only queued tasks can be stolen (status='' @ status_to_str (tv_status task) @ '')'')))
     (case tv_assignee task of
        None \<Rightarrow> throw (HErr ''not_stealable'' ''task has no assignee'')
      | Some current_assignee \<Rightarrow>
          thenE (guardE (current_assignee \<noteq> av_agent_id caller)
            (HErr ''self_steal'' ''caller is already the assignee''))
          (bindE (sqlH (sql_query (\<lambda>d. map_option ag_role (agent_row d current_assignee))))
            (\<lambda>r. case r of
              None \<Rightarrow> throw (HErr ''unknown_assignee'' ''assignee row missing'')
            | Some assignee_role \<Rightarrow>
                thenE (guardE (assignee_role = av_role caller) (HErr ''role_mismatch''
                  (''assignee role '' @ assignee_role @ '' != stealer role '' @ av_role caller)))
                (bindE (sqlH (steal_row task_id current_assignee (av_agent_id caller))) (\<lambda>n.
                 thenE (guardE (n \<noteq> 0) (HErr ''lost_race'' ''task state changed before steal landed''))
                 (thenE (ignoreE (append_audit task_id (JObj [(''actor'', JStr ''stealer''),
                     (''kind'', JStr ''task_steal''), (''agent_id'', JStr (av_agent_id caller)),
                     (''previous_assignee'', JStr current_assignee)])))
                 (thenE (ignoreE (emit_system_event env (Some (av_startup_id caller)) ''task_stolen''
                     (JObj [(''task_id'', JStr task_id), (''new_assignee'', JStr (av_agent_id caller)),
                       (''previous_assignee'', JStr current_assignee), (''mode'', JStr ''manual'')])
                     ''info''))
                 (ret (JObj [(''task_id'', JStr task_id), (''new_assignee'', JStr (av_agent_id caller)),
                     (''previous_assignee'', JStr current_assignee)])))))))))))))"

section \<open>Tools that act in the work directory\<close>

definition check_summary :: "check_result \<Rightarrow> json" where
  "check_summary c = must_fix_json c"

definition handle_self_review :: "env \<Rightarrow> avatar \<Rightarrow> json \<Rightarrow> json handler" where
  "handle_self_review env caller args =
     bindE (require_str args ''task_id'') (\<lambda>task_id.
     bindE (require_str args ''artifact_path'') (\<lambda>artifact_path.
     bindE (load_task task_id) (\<lambda>task.
     thenE (same_startup task caller)
     (thenE (guardE (tv_assignee task = Some (av_agent_id caller))
       (HErr ''no_permission'' ''self_review requires assignee''))
     (let outcome = self_review_run env (av_startup_id caller) task_id artifact_path in
      thenE (ignoreE (self_review_record task_id (av_agent_id caller) outcome))
      (ret (JObj [(''task_id'', JStr task_id), (''ok'', JBool (sro_ok outcome)),
        (''must_fix'', JArr (map check_summary (sro_must_fix outcome)))])))))))"

definition require_task_workdir :: "avatar \<Rightarrow> ident \<Rightarrow> fs_path handler" where
  "require_task_workdir caller task_id =
     bindE (load_task task_id) (\<lambda>task.
     thenE (same_startup task caller)
     (thenE (guardE (tv_assignee task = Some (av_agent_id caller))
       (HErr ''no_permission'' ''tool requires task assignee''))
     (ret (task_workdir (av_startup_id caller) task_id))))"

definition outcome_json :: "command_outcome \<Rightarrow> json" where
  "outcome_json r = JObj [(''exit_code'', jopt_int (co_exit_code r)),
     (''stdout_tail'', JStr (co_stdout_tail r)), (''stderr_tail'', JStr (co_stderr_tail r)),
     (''timed_out'', JBool (co_timed_out r)), (''elapsed_ms'', JInt (co_elapsed_ms r))]"

text \<open>A command that never returns keeps the handler, and the loop that runs it, waiting for ever.\<close>

definition run_or_fail :: "(tool_error + command_outcome) option \<Rightarrow> command_outcome handler" where
  "run_or_fail r = (case r of
      None \<Rightarrow> throw (HPanic Hangs)
    | Some (Inl e) \<Rightarrow> throw (HErr ''run_failed'' (tool_error_text e))
    | Some (Inr o') \<Rightarrow> ret o')"

fun show_path :: "fs_path \<Rightarrow> string" where
  "show_path [] = []"
| "show_path [c] = c"
| "show_path (c # cs) = c @ ''/'' @ show_path cs"

definition handle_run_tests :: "env \<Rightarrow> avatar \<Rightarrow> json \<Rightarrow> json handler" where
  "handle_run_tests env caller args =
     bindE (require_str args ''task_id'') (\<lambda>task_id.
     bindE (require_task_workdir caller task_id) (\<lambda>workdir.
     thenE (guardE (e_exists env workdir) (HErr ''no_workdir''
       (''expected per-task workdir at '' @ show_path workdir)))
     (let timeout_secs = (case get_u64 ''timeout_secs'' args of
            None \<Rightarrow> DEFAULT_TIMEOUT_SECS
          | Some n \<Rightarrow> if 1 \<le> n \<and> n \<le> 600 then n else DEFAULT_TIMEOUT_SECS);
          outcome = (case get_str ''command'' args of
            Some cmd \<Rightarrow> run_command (e_process env ''sh'' [''-c'', cmd] workdir) (nat timeout_secs)
          | None \<Rightarrow> (case sniff_test_command env workdir of
              (prog, as) \<Rightarrow> run_command (e_process env prog as workdir) (nat timeout_secs))) in
      bindE (run_or_fail outcome) (\<lambda>r.
      thenE (ignoreE (append_audit task_id (JObj [(''actor'', JStr ''engineer''),
          (''kind'', JStr ''run_tests''), (''agent_id'', JStr (av_agent_id caller)),
          (''exit_code'', jopt_int (co_exit_code r)), (''timed_out'', JBool (co_timed_out r)),
          (''elapsed_ms'', JInt (co_elapsed_ms r))])))
      (ret (outcome_json r))))))"

definition handle_lint_artifact :: "env \<Rightarrow> avatar \<Rightarrow> json \<Rightarrow> json handler" where
  "handle_lint_artifact env caller args =
     bindE (require_str args ''task_id'') (\<lambda>task_id.
     bindE (require_str args ''artifact_path'') (\<lambda>artifact_path.
     bindE (require_task_workdir caller task_id) (\<lambda>workdir.
     let ext = str_or [] (extension artifact_path);
         run = (\<lambda>prog as.
           bindE (run_or_fail (run_command (e_process env prog as workdir) (nat DEFAULT_TIMEOUT_SECS))) (\<lambda>r.
           thenE (ignoreE (append_audit task_id (JObj [(''actor'', JStr ''engineer''),
               (''kind'', JStr ''lint_artifact''), (''agent_id'', JStr (av_agent_id caller)),
               (''ext'', JStr ext), (''exit_code'', jopt_int (co_exit_code r)),
               (''timed_out'', JBool (co_timed_out r))])))
           (ret (outcome_json r)))) in
     if ext = ''ts'' \<or> ext = ''tsx'' then run ''npx'' [''tsc'', ''--noEmit'', artifact_path]
     else if ext = ''rs'' then run ''cargo'' [''check'', ''--message-format=short'']
     else if ext = ''md'' \<or> ext = ''json'' then
       handle_verify env caller (JObj [(''method'', JStr (if ext = ''json'' then ''lint_json'' else ''lint_markdown'')),
         (''params'', JObj [(''path'', JStr artifact_path)])])
     else throw (HErr ''unsupported_extension'' (''.'' @ ext @ '' has no registered linter'')))))"

definition handle_read_artifact_diff :: "env \<Rightarrow> avatar \<Rightarrow> json \<Rightarrow> json handler" where
  "handle_read_artifact_diff env caller args =
     bindE (require_str args ''task_id'') (\<lambda>task_id.
     bindE (require_str args ''artifact_path'') (\<lambda>artifact_path.
     let base_ref = str_or ''HEAD'' (get_str ''base_ref'' args) in
     bindE (require_task_workdir caller task_id) (\<lambda>workdir.
     bindE (run_or_fail (run_command (e_process env ''git'' [''diff'', base_ref, ''--'', artifact_path] workdir)
         (nat DEFAULT_TIMEOUT_SECS))) (\<lambda>r.
     thenE (ignoreE (append_audit task_id (JObj [(''actor'', JStr ''engineer''),
         (''kind'', JStr ''read_artifact_diff''), (''agent_id'', JStr (av_agent_id caller)),
         (''base_ref'', JStr base_ref), (''exit_code'', jopt_int (co_exit_code r))])))
     (ret (outcome_json r))))))"

end
