(* ===== verification/TaskInv.thy ===== *)
theory TaskInv
  imports McpTools
begin

text \<open>
  What the task tools keep. The locale \<open>plain_invariant\<close> collects the assertions on the state that
  reads, sends, log entries and updates of secondary columns cannot disturb, and proves once that the
  building blocks and the secondary tools preserve them; \<open>kept c\<close> (the invariant of the tables and
  the evolution of the tasks since the database \<open>c\<close>) and \<open>sees\<close> (what \<open>load_task\<close> reads) are
  instances. The tools that write a status or an assignee are proved on top of it.
\<close>

section \<open>Preservation\<close>

definition leads :: "('s \<Rightarrow> bool) \<Rightarrow> ('s \<Rightarrow> bool) \<Rightarrow> ('s, 'e, 'a) sem \<Rightarrow> bool" where
  "leads P I m \<longleftrightarrow> (\<forall>s. P s \<longrightarrow> wpE m (\<lambda>_. I) (\<lambda>_. I) s)"

abbreviation pres :: "('s \<Rightarrow> bool) \<Rightarrow> ('s, 'e, 'a) sem \<Rightarrow> bool" where
  "pres I \<equiv> leads I I"

named_theorems pres "computations that preserve an invariant"

lemma leadsD: "leads P I m \<Longrightarrow> P s \<Longrightarrow> wpE m (\<lambda>_. I) (\<lambda>_. I) s"
  by (simp add: leads_def)

lemma leads_weaken: "leads P I m \<Longrightarrow> (\<And>s. Q s \<Longrightarrow> P s) \<Longrightarrow> leads Q I m"
  by (simp add: leads_def)

lemma pres_bind [pres]: "leads P I m \<Longrightarrow> (\<And>a. pres I (f a)) \<Longrightarrow> leads P I (bindE m f)"
  unfolding leads_def wp_bind by (blast intro: wp_mono)

lemma pres_then [pres]: "leads P I m \<Longrightarrow> pres I n \<Longrightarrow> leads P I (thenE m n)"
  unfolding leads_def wp_then by (blast intro: wp_mono)

text \<open>Reading on while the stronger assertion \<open>P\<close> still holds.\<close>

lemma leads_bind:
  assumes "pres P m" and "\<And>a. leads P I (f a)" and "\<And>s. P s \<Longrightarrow> I s"
  shows "leads P I (bindE m f)"
  unfolding leads_def wp_bind
proof (intro allI impI)
  fix s
  assume "P s"
  show "wpE m (\<lambda>a. wpE (f a) (\<lambda>_. I) (\<lambda>_. I)) (\<lambda>_. I) s"
    by (rule wp_mono [OF leadsD [OF assms(1) \<open>P s\<close>]]) (use assms(2,3) in \<open>auto simp: leads_def\<close>)
qed

lemma leads_then:
  assumes "pres P m" and "leads P I n" and "\<And>s. P s \<Longrightarrow> I s"
  shows "leads P I (thenE m n)"
  using leads_bind [OF assms(1), of I "\<lambda>_. n"] assms(2,3) by (simp add: thenE_def)

lemma leads_guard:
  assumes "b \<Longrightarrow> leads P I n" and "\<And>s. P s \<Longrightarrow> I s"
  shows "leads P I (thenE (guardE b e) n)"
  using assms by (simp add: leads_def wp)

lemma leads_throw: "(\<And>s. P s \<Longrightarrow> I s) \<Longrightarrow> leads P I (throw e)"
  by (simp add: leads_def wp)

lemma leads_ret: "(\<And>s. P s \<Longrightarrow> I s) \<Longrightarrow> leads P I (ret a)"
  by (simp add: leads_def wp)

lemma pres_basic [pres]: "pres I (ret a)" "pres I (throw e)" "pres I (guardE b e)" "pres I (liftE r)"
  "pres I (asksE f)"
  by (simp_all add: leads_def wp split: sum.split)

lemma pres_wrap [pres]: "leads P I m \<Longrightarrow> leads P I (ignoreE m)" "leads P I m \<Longrightarrow> leads P I (mapErr g m)"
  "leads P I m \<Longrightarrow> leads P I (tryE m)" "leads P I m \<Longrightarrow> leads P I (orDefault d m)"
  "leads P I' m' \<Longrightarrow> leads P I' (sqlH m')"
  by (simp_all add: leads_def wp)

lemma pres_for [pres]: "(\<And>x. pres I (body x)) \<Longrightarrow> pres I (forE xs body)"
  by (simp add: leads_def) (blast intro: wp_forE)

lemma pres_count [pres]: "(\<And>x. pres I (body x)) \<Longrightarrow> pres I (countE xs body)"
  by (simp add: leads_def) (blast intro: wp_countE)

lemma pres_cases [pres]:
  "(b \<Longrightarrow> leads P I m) \<Longrightarrow> (\<not> b \<Longrightarrow> leads P I n) \<Longrightarrow> leads P I (if b then m else n)"
  "leads P I m \<Longrightarrow> (\<And>y. x = Some y \<Longrightarrow> leads P I (k y)) \<Longrightarrow>
     leads P I (case x of None \<Rightarrow> m | Some y \<Rightarrow> k y)"
  "(\<And>a b. p = (a, b) \<Longrightarrow> leads P I (g a b)) \<Longrightarrow> leads P I (case p of (a, b) \<Rightarrow> g a b)"
  "(\<And>a. x' = Inl a \<Longrightarrow> leads P I (ml a)) \<Longrightarrow> (\<And>b. x' = Inr b \<Longrightarrow> leads P I (mr b)) \<Longrightarrow>
     leads P I (case x' of Inl a \<Rightarrow> ml a | Inr b \<Rightarrow> mr b)"
  by (auto split: option.split prod.split sum.split)

lemma pres_data_cases [pres]:
  "leads P I a1 \<Longrightarrow> leads P I a2 \<Longrightarrow> leads P I a3 \<Longrightarrow> leads P I a4 \<Longrightarrow>
     leads P I (case r of MoveOk \<Rightarrow> a1 | NoPath \<Rightarrow> a2 | PermissionDenied \<Rightarrow> a3 | NoSuchAgent \<Rightarrow> a4)"
  "(\<And>kvs. leads P I (ob kvs)) \<Longrightarrow> leads P I n \<Longrightarrow>
     leads P I (case j of JNull \<Rightarrow> n | JBool b \<Rightarrow> n | JInt i \<Rightarrow> n | JReal x \<Rightarrow> n | JStr str \<Rightarrow> n
       | JArr xs \<Rightarrow> n | JObj kvs \<Rightarrow> ob kvs)"
  by (auto split: start_move_result.split json.split)

section \<open>Assertions that secondary steps cannot disturb\<close>

text \<open>The identity of the avatars: their keys, agents, startups and roles.\<close>

definition avatar_ids :: "sys \<Rightarrow> (ident \<times> ident \<times> ident \<times> string) list" where
  "avatar_ids s = map (\<lambda>(k, a). (k, av_agent_id a, av_startup_id a, av_role a)) (avatars s)"

text \<open>A column update that the task rules do not look at.\<close>

definition plain :: "(task \<Rightarrow> task) \<Rightarrow> bool" where
  "plain f \<longleftrightarrow> (\<forall>t. t_id (f t) = t_id t \<and> t_startup (f t) = t_startup t \<and>
     t_status (f t) = t_status t \<and> t_review_round (f t) = t_review_round t \<and>
     t_assignee (f t) = t_assignee t \<and> t_parent (f t) = t_parent t)"

definition same_core :: "database \<Rightarrow> database \<Rightarrow> bool" where
  "same_core d d' \<longleftrightarrow> d_tasks d' = d_tasks d \<and> d_agents d' = d_agents d"

lemma avatar_ids_simps [simp]:
  "avatar_ids (sql_pop s) = avatar_ids s" "avatar_ids (s\<lparr>db := d\<rparr>) = avatar_ids s"
  "avatar_ids (s\<lparr>uuid_ctr := n\<rparr>) = avatar_ids s" "avatar_ids (s\<lparr>frames := fr\<rparr>) = avatar_ids s"
  "avatar_ids (s\<lparr>out_bus := b\<rparr>) = avatar_ids s" "avatar_ids (s\<lparr>paths := p\<rparr>) = avatar_ids s"
  by (simp_all add: avatar_ids_def)

lemma same_core_refl [simp]: "same_core d d" "same_core d (d\<lparr>d_messages := m\<rparr>)"
  "same_core d (d\<lparr>d_system_events := e\<rparr>)" "same_core d (d\<lparr>d_budget_events := b\<rparr>)"
  "same_core d (upd_startup i g d)" "same_core d (d\<lparr>d_locks := l\<rparr>)"
  by (simp_all add: same_core_def upd_startup_def)

lemma avatar_ids_upd:
  "(\<And>a. av_agent_id (f a) = av_agent_id a \<and> av_startup_id (f a) = av_startup_id a \<and>
      av_role (f a) = av_role a) \<Longrightarrow>
   avatar_ids (s\<lparr>avatars := amap_upd k f (avatars s)\<rparr>) = avatar_ids s"
  by (auto simp: avatar_ids_def amap_upd_def)

locale plain_invariant =
  fixes I :: "sys \<Rightarrow> bool"
  assumes core: "I s \<Longrightarrow> same_core (db s) (db s') \<Longrightarrow> avatar_ids s' = avatar_ids s \<Longrightarrow> I s'"
    and plain_upd: "I s \<Longrightarrow> plain f \<Longrightarrow> db s' = upd_task i f (db s) \<Longrightarrow>
      avatar_ids s' = avatar_ids s \<Longrightarrow> I s'"
begin

lemma I_simps:
  "I s \<Longrightarrow> I (sql_pop s)" "I s \<Longrightarrow> I (s\<lparr>uuid_ctr := n\<rparr>)" "I s \<Longrightarrow> I (s\<lparr>frames := fr\<rparr>)"
  "I s \<Longrightarrow> I (s\<lparr>out_bus := b\<rparr>)" "I s \<Longrightarrow> I (s\<lparr>paths := p\<rparr>)"
  "I s \<Longrightarrow> same_core (db s) d \<Longrightarrow> I (s\<lparr>db := d\<rparr>)"
  "I s \<Longrightarrow> same_core (db s) d \<Longrightarrow> I (sql_pop s\<lparr>db := d\<rparr>)"
  "I s \<Longrightarrow> avatar_ids t = avatar_ids s \<Longrightarrow> I (t\<lparr>db := db s\<rparr>)"
  "I s \<Longrightarrow> avatar_ids t = avatar_ids s \<Longrightarrow> I (sql_pop t\<lparr>db := db s\<rparr>)"
  by (erule core; simp)+

lemma I_avatars:
  "I s \<Longrightarrow> I (s\<lparr>avatars := amap_upd i (\<lambda>a. a\<lparr>av_status := st\<rparr>) (avatars s)\<rparr>)"
  by (erule core) (simp_all add: avatar_ids_upd)

lemma I_plain: "I s \<Longrightarrow> plain f \<Longrightarrow> I (sql_pop s\<lparr>db := upd_task i f (db s)\<rparr>)"
  by (erule plain_upd) simp_all

lemma pres_steps [pres]:
  "pres I (sql_query f)" "pres I (fresh_uuid env)" "pres I (send_to i p)" "pres I (broadcast fr)"
  "pres I (set_avatar_status i st)" "pres I (insert_system_event i su k pl sv)"
  "pres I (insert_message i sid r a b k)"
  by (simp_all add: leads_def wp insert_system_event_def insert_message_def I_simps I_avatars
      split: option.split)

lemma pres_upd [pres]:
  assumes "\<And>s. plain (f s)"
  shows "pres I (sql_exec (\<lambda>s. upd_task i (f s) (db s)))"
    "pres I (sql_checked chk (\<lambda>s. upd_task i (f s) (db s)))"
  using assms by (simp_all add: leads_def wp I_simps I_plain split: option.split)

lemma leads_transact:
  assumes "leads P I m" and "\<And>x. pres (\<lambda>s. avatar_ids s = x) m"
    and "\<And>s. P s \<Longrightarrow> P (sql_pop s)" and "\<And>s. P s \<Longrightarrow> I s"
  shows "leads P I (transactE w m)"
proof -
  have "wpE m (\<lambda>a t. if sql_fails t then I (sql_pop t\<lparr>db := db s\<rparr>) else I (sql_pop t))
      (\<lambda>e t. I (t\<lparr>db := db s\<rparr>)) (sql_pop s)" if "P s" for s
  proof (rule wp_mono [OF wp_conj [OF leadsD [OF assms(1), of "sql_pop s"]
        leadsD [OF assms(2), of "sql_pop s"]]])
    show "P (sql_pop s)" using that by (rule assms(3))
    show "avatar_ids (sql_pop s) = avatar_ids s" by simp
  qed (use assms(4) [OF that] in \<open>auto intro: I_simps\<close>)
  then show ?thesis by (simp add: leads_def wp I_simps assms(4))
qed

lemma pres_transact_ids:
  "pres I m \<Longrightarrow> (\<And>x. pres (\<lambda>s. avatar_ids s = x) m) \<Longrightarrow> pres I (transactE w m)"
  by (erule leads_transact) (simp_all add: I_simps)

lemma pres_audit [pres]: "pres I (append_audit i e)" "pres I (append_epistemic i e)"
  unfolding append_audit_def append_epistemic_def by (intro pres_upd; simp add: plain_def)+

lemma pres_emit [pres]: "pres I (emit_system_event env su k pl sv)"
  unfolding emit_system_event_def by (intro pres)

lemma pres_helpers [pres]:
  "pres I (require_str args k)" "pres I (check_body_length f b)"
  "pres I (load_task i)" "pres I (assignee_of i)"
  "pres I (caller_is_manager_of_task caller task)"
  "pres I (caller_manages_parent caller p)" "pres I (next_or_illegal st tr)"
  "pres I (same_startup task caller)" "pres I (require_own_agent caller a)"
  "pres I (is_peer_reviewer caller)" "pres I (manager_or_assignee caller task tool)"
  "pres I (require_task_workdir caller i)" "pres I (run_or_fail r)"
  "pres I (read_in_workspace env caller path)" "pres I (notify_parent task i path)"
  unfolding require_str_def check_body_length_def load_task_def assignee_of_def
    caller_is_manager_of_task_def caller_manages_parent_def next_or_illegal_def same_startup_def
    require_own_agent_def startup_of_agent_row_def is_peer_reviewer_def manager_or_assignee_def
    require_task_workdir_def run_or_fail_def read_in_workspace_def notify_parent_def
  by (intro pres)+

lemma pres_self_review [pres]: "pres I (self_review_record i a outcome)"
  unfolding self_review_record_def by (intro pres) (simp_all add: plain_def)

lemma pres_gate [pres]: "pres I (auto_check_gate env caller i path args)"
  unfolding auto_check_gate_def Let_def by (intro pres)

lemma pres_start_move [pres]: "pres I (do_start_move env a room t)"
proof -
  have "avatar_ids (s\<lparr>avatars := avs, paths := ps\<rparr>) = avatar_ids s"
    if m: "start_move ar at' l g a room t (avatars s) (paths s) = Inr (r, avs, ps)" for ar at' l g r avs ps s
  proof (cases "r = MoveOk")
    case True
    with m show ?thesis
      by (auto elim!: start_move_granted simp: avatar_ids_def amap_upd_def)
  next
    case False
    with start_move_refused [OF m] show ?thesis by (simp add: avatar_ids_def)
  qed
  then show ?thesis
    by (auto simp: leads_def wpE_def do_start_move_def same_core_def split: sum.split prod.split intro: core)
qed

text \<open>The tools that touch no status and no assignee, in full.\<close>

lemma pres_move_intent [pres]: "pres I (handle_move_intent env caller args)"
  unfolding handle_move_intent_def move_target_def tile_arg_def by (intro pres)

lemma pres_speak [pres]: "pres I (handle_speak env caller args)"
  unfolding handle_speak_def deliver_chat_def deliver_directive_def check_directive_def Let_def
  by (intro pres)

lemma pres_epistemic [pres]: "pres I (handle_epistemic_append caller args kind)"
  unfolding handle_epistemic_append_def by (intro pres)

lemma pres_verify [pres]: "pres I (handle_verify env caller args)"
  unfolding handle_verify_def Let_def by (intro pres)

lemma pres_observers [pres]:
  "pres I (handle_ask_peer args)" "pres I (handle_observe_world caller args)"
  "pres I (handle_read_artifact env caller args)"
  unfolding handle_ask_peer_def handle_observe_world_def handle_read_artifact_def Let_def
  by (intro pres)+

lemma pres_workdir_tools [pres]:
  "pres I (handle_self_review env caller args)" "pres I (handle_run_tests env caller args)"
  "pres I (handle_lint_artifact env caller args)" "pres I (handle_read_artifact_diff env caller args)"
  unfolding handle_self_review_def handle_run_tests_def handle_lint_artifact_def
    handle_read_artifact_diff_def Let_def
  by (intro pres)+

end

interpretation ids: plain_invariant "\<lambda>s. avatar_ids s = x" for x
  by unfold_locales auto

context plain_invariant begin

lemma pres_preference [pres]: "pres I (handle_task_set_preference env caller args)"
  unfolding handle_task_set_preference_def Let_def
  by (intro pres pres_transact_ids ids.pres_upd) (simp_all add: plain_def)

lemma pres_blocking [pres]: "pres I (handle_task_set_blocking env caller args)"
  unfolding handle_task_set_blocking_def Let_def
  by (intro pres pres_transact_ids ids.pres_upd) (simp_all add: plain_def)

end

end
