(* ===== verification/TaskKept.thy ===== *)
theory TaskKept
  imports TaskInv
begin

text \<open>
  The task tools that write a status or an assignee keep the invariant of the tables and move tasks
  only along the state machine; together with \<open>TaskInv\<close> this covers every task tool, on every branch
  and with every pattern of SQL failures.
\<close>

section \<open>The invariant and what a handler has seen\<close>

text \<open>
  The avatars are keyed by their agents and have the startups of the agents' rows; only the operator's
  avatar \<open>__operator__\<close> stands for no row.
\<close>

definition avatars_ok :: "sys \<Rightarrow> bool" where
  "avatars_ok s \<longleftrightarrow> distinct (map fst (avatar_ids s)) \<and>
     startup_of_agent (db s) ''__operator__'' = None \<and>
     (\<forall>(k, a, sid, role) \<in> set (avatar_ids s). a = k \<and>
        (k = ''__operator__'' \<or> startup_of_agent (db s) k = Some sid))"

definition kept :: "database \<Rightarrow> sys \<Rightarrow> bool" where
  "kept c s \<longleftrightarrow> db_inv (db s) \<and> tasks_evolve task_step c (db s) \<and> avatars_ok s"

definition sees :: "ident \<Rightarrow> task_view \<Rightarrow> sys \<Rightarrow> bool" where
  "sees i v s \<longleftrightarrow> (\<exists>t. task_row (db s) i = Some t \<and> parse_status (t_status t) = Some (tv_status v) \<and>
     t_startup t = tv_startup v \<and> t_parent t = tv_parent v \<and> t_assignee t = tv_assignee v \<and>
     t_review_round t = tv_review_round v)"

text \<open>\<open>x\<close> is an agent of the startup \<open>sid\<close>.\<close>

definition agent_of :: "ident \<Rightarrow> ident \<Rightarrow> sys \<Rightarrow> bool" where
  "agent_of x sid s \<longleftrightarrow> startup_of_agent (db s) x = Some sid"

definition task_in :: "ident \<Rightarrow> ident \<Rightarrow> sys \<Rightarrow> bool" where
  "task_in p sid s \<longleftrightarrow> startup_of_task (db s) p = Some sid"

text \<open>An avatar that stands for an agent has the startup of the agent's row.\<close>

definition caller_ok :: "avatar \<Rightarrow> sys \<Rightarrow> bool" where
  "caller_ok a s \<longleftrightarrow> (\<forall>x. startup_of_agent (db s) (av_agent_id a) = Some x \<longrightarrow> x = av_startup_id a)"

lemma same_core_lookups:
  assumes "same_core d d'"
  shows "startup_of_agent d' = startup_of_agent d" "startup_of_task d' = startup_of_task d"
    "task_row d' = task_row d" "db_inv d' = db_inv d" "tasks_evolve R c d' = tasks_evolve R c d"
  using assms
  by (simp_all add: same_core_def db_inv_def tasks_evolve_def startup_of_agent_def [abs_def]
      startup_of_task_def [abs_def] agent_row_def [abs_def] task_row_def [abs_def])

lemma plain_lookups:
  assumes "plain f"
  shows "startup_of_agent (upd_task i f d) = startup_of_agent d"
    "startup_of_task (upd_task i f d) = startup_of_task d"
    "db_inv d \<Longrightarrow> db_inv (upd_task i f d)" "tasks_evolve R c d \<Longrightarrow> tasks_evolve R c (upd_task i f d)"
  using assms by (simp_all add: plain_def startup_of_upd_task db_inv_upd_plain tasks_evolve_upd_plain)

interpretation kept: plain_invariant "kept c" for c
  by unfold_locales
     (auto simp: kept_def avatars_ok_def same_core_lookups plain_lookups)

lemma plain_invariant_conj:
  "plain_invariant I \<Longrightarrow> plain_invariant J \<Longrightarrow> plain_invariant (\<lambda>s. I s \<and> J s)"
  unfolding plain_invariant_def by blast

lemma plain_sees: "plain_invariant (sees i v)"
proof
  fix s s' :: sys
  assume "sees i v s" "same_core (db s) (db s')"
  then show "sees i v s'" by (simp add: sees_def same_core_lookups)
next
  fix s s' :: sys and f j
  assume h: "sees i v s" "plain f" "db s' = upd_task j f (db s)"
  then have "task_row (db s') i = (if j = i then map_option f (task_row (db s) i) else task_row (db s) i)"
    by (simp add: task_row_upd plain_def)
  with h show "sees i v s'" by (auto simp: sees_def plain_def)
qed

lemma plain_agent_of: "plain_invariant (agent_of x sid)"
  and plain_task_in: "plain_invariant (task_in p sid)"
  and plain_caller_ok: "plain_invariant (caller_ok a)"
  by (unfold_locales; auto simp: agent_of_def task_in_def caller_ok_def same_core_lookups plain_lookups)+

definition kept_sees :: "database \<Rightarrow> avatar \<Rightarrow> ident \<Rightarrow> task_view \<Rightarrow> sys \<Rightarrow> bool" where
  "kept_sees c a i v s \<longleftrightarrow> kept c s \<and> caller_ok a s \<and> sees i v s"

interpretation seen: plain_invariant "kept_sees c a i v" for c a i v
  unfolding kept_sees_def
  by (intro plain_invariant_conj plain_caller_ok plain_sees kept.plain_invariant_axioms)

interpretation seen_own: plain_invariant "\<lambda>s. kept_sees c a i v s \<and> agent_of x sid s" for c a i v x sid
  by (intro plain_invariant_conj plain_agent_of seen.plain_invariant_axioms)

lemma kept_seesD: "kept_sees c a i v s \<Longrightarrow> kept c s"
  by (simp add: kept_sees_def)

section \<open>Reading a task, writing a status\<close>

lemma leads_load:
  assumes "\<And>v. leads (kept_sees c a i v) (kept c) (f v)"
  shows "leads (\<lambda>s. kept c s \<and> caller_ok a s) (kept c) (bindE (load_task i) f)"
proof -
  have "kept_sees c a i \<lparr> tv_status = st, tv_startup = t_startup t, tv_parent = t_parent t,
      tv_assignee = t_assignee t, tv_review_round = as_u32 (t_review_round t),
      tv_artifact = t_artifact t \<rparr> (sql_pop s)"
    if "kept c s" "caller_ok a s" "task_row (db s) i = Some t" "parse_status (t_status t) = Some st"
    for s t st
  proof -
    have "0 \<le> t_review_round t \<and> t_review_round t \<le> 3"
      using db_inv_row [OF _ that(3)] that(1) by (simp add: kept_def task_ok_def MAX_REVIEW_ROUNDS_def)
    with that show ?thesis by (simp add: kept_sees_def sees_def kept.I_simps caller_ok_def)
  qed
  with assms show ?thesis
    by (simp add: leads_def wp load_task_def kept.I_simps split: option.split)
qed

lemma leads_same_startup:
  assumes "tv_startup v = av_startup_id a \<Longrightarrow> leads P I n" and "\<And>s. P s \<Longrightarrow> I s"
  shows "leads P I (thenE (same_startup v a) n)"
  unfolding same_startup_def using assms by (rule leads_guard)

lemma leads_next:
  assumes "\<And>b. next_status st tr = Inr b \<Longrightarrow> leads P I (f b)" and "\<And>s. P s \<Longrightarrow> I s"
  shows "leads P I (bindE (next_or_illegal st tr) f)"
  using assms by (auto simp: leads_def wp next_or_illegal_def split: sum.split)

text \<open>
  A write on the row the handler has seen: the state machine grants the step, the assignee stays or
  becomes an agent of the startup, the round stays within its bound.
\<close>

lemma kept_write:
  assumes "kept_sees c a i v s" and "next_status (tv_status v) tr = Inr b" and "\<not> is_create tr"
    and "\<And>t. t_id (f t) = t_id t \<and> t_startup (f t) = t_startup t \<and> t_parent (f t) = t_parent t \<and>
      t_status (f t) = status_to_str b"
    and "\<And>t. t_review_round t = tv_review_round v \<Longrightarrow> 0 \<le> t_review_round t \<Longrightarrow>
      t_review_round t \<le> MAX_REVIEW_ROUNDS \<Longrightarrow>
      0 \<le> t_review_round (f t) \<and> t_review_round (f t) \<le> MAX_REVIEW_ROUNDS"
    and "\<And>t. t_assignee t = tv_assignee v \<Longrightarrow> t_assignee (f t) = tv_assignee v \<or>
      (\<exists>x. t_assignee (f t) = Some x \<and> agent_of x (tv_startup v) s)"
    and "has_worker (status_to_str b) \<Longrightarrow> tv_assignee v \<noteq> None"
    and "db s' = upd_task i f (db s)" "avatar_ids s' = avatar_ids s"
  shows "kept c s'"
proof -
  have inv: "db_inv (db s)" and ev: "tasks_evolve task_step c (db s)" and av: "avatars_ok s"
    using assms(1) by (simp_all add: kept_sees_def kept_def)
  from assms(1) obtain t where t: "task_row (db s) i = Some t" "parse_status (t_status t) = Some (tv_status v)"
    "t_startup t = tv_startup v" "t_assignee t = tv_assignee v" "t_review_round t = tv_review_round v"
    by (auto simp: kept_sees_def sees_def)
  have ok: "task_ok (startup_of_agent (db s)) (startup_of_task (db s)) t"
    using db_inv_row [OF inv t(1)] by blast
  have keep: "t_id (f u) = t_id u \<and> t_startup (f u) = t_startup u" for u using assms(4) by blast
  have "task_ok (startup_of_agent (db s)) (startup_of_task (db s)) (f t)"
    using ok assms(4) [of t] assms(5) [of t] assms(6) [of t] assms(7) t
    by (auto simp: task_ok_def agent_of_def)
  then have "db_inv (upd_task i f (db s))"
    by (intro db_inv_upd_task [OF inv]) (use keep t(1) in auto)
  moreover have "tasks_evolve task_step c (upd_task i f (db s))"
    by (rule tasks_evolve_step [OF ev inv t(1,2) assms(2,3,4)])
  moreover have "avatars_ok s'"
    using av assms(8,9) by (simp add: avatars_ok_def)
  ultimately show ?thesis using assms(8) by (simp add: kept_def)
qed

lemma leads_write:
  assumes "next_status (tv_status v) tr = Inr b" and "\<not> is_create tr"
    and "\<And>s t. t_id (f s t) = t_id t \<and> t_startup (f s t) = t_startup t \<and> t_parent (f s t) = t_parent t \<and>
      t_status (f s t) = status_to_str b"
    and "\<And>s t. t_assignee (f s t) = t_assignee t"
    and "\<And>s t. t_review_round t = tv_review_round v \<Longrightarrow> 0 \<le> t_review_round t \<Longrightarrow>
      t_review_round t \<le> MAX_REVIEW_ROUNDS \<Longrightarrow>
      0 \<le> t_review_round (f s t) \<and> t_review_round (f s t) \<le> MAX_REVIEW_ROUNDS"
    and "has_worker (status_to_str b) \<Longrightarrow> tv_assignee v \<noteq> None"
  shows "leads (kept_sees c a i v) (kept c) (sql_exec (\<lambda>s. upd_task i (f s) (db s)))"
proof -
  have "kept c (sql_pop s\<lparr>db := upd_task i (f s) (db s)\<rparr>)" if "kept_sees c a i v s" for s
    by (rule kept_write [OF that assms(1,2), of "f s"]) (simp_all add: assms)
  then show ?thesis by (simp add: leads_def wp kept.I_simps kept_seesD)
qed

lemma leads_set_status:
  assumes "next_status (tv_status v) tr = Inr b" and "\<not> is_create tr"
    and "has_worker (status_to_str b) \<Longrightarrow> tv_assignee v \<noteq> None"
  shows "leads (kept_sees c a i v) (kept c) (set_status i b)"
  unfolding set_status_def by (intro pres leads_write [OF assms(1,2)]) (use assms(3) in simp_all)

lemma leads_require:
  assumes "\<And>v. leads P I (f v)" and "\<And>s. P s \<Longrightarrow> I s"
  shows "leads P I (bindE (require_str args k) f)"
  using assms by (simp add: leads_def wp split: option.split)

lemmas task_rules = leads_require leads_load leads_same_startup leads_guard leads_next

text \<open>What a status names as worker.\<close>

lemma has_worker_next:
  assumes "next_status st tr = Inr b" and "has_worker (status_to_str b)"
  shows "tr = AssignFromQueued \<or> tr = TaskDoneMcp \<or> tr = RequestChanges"
  using assms by (cases tr) (auto simp: next_status_Inr has_worker_def split: if_splits)

lemma seen_worker:
  assumes "kept_sees c a i v s" and "has_worker (status_to_str (tv_status v))"
  shows "tv_assignee v \<noteq> None"
proof -
  from assms(1) obtain t where t: "task_row (db s) i = Some t"
    "parse_status (t_status t) = Some (tv_status v)" "t_assignee t = tv_assignee v"
    by (auto simp: kept_sees_def sees_def)
  moreover have "db_inv (db s)" using assms(1) by (simp add: kept_sees_def kept_def)
  ultimately show ?thesis
    using db_inv_row [of "db s" i t] assms(2) parse_status_Some [OF t(2)] by (auto simp: task_ok_def)
qed

section \<open>The tools\<close>

abbreviation from_caller :: "database \<Rightarrow> avatar \<Rightarrow> sys \<Rightarrow> bool" where
  "from_caller c a \<equiv> \<lambda>s. kept c s \<and> caller_ok a s"

interpretation from_caller: plain_invariant "from_caller c a" for c a
  by (intro plain_invariant_conj plain_caller_ok kept.plain_invariant_axioms)

lemma kept_task_failed: "leads (from_caller c a) (kept c) (handle_task_failed a args)"
  unfolding handle_task_failed_def Let_def
  by (intro task_rules pres_then leads_set_status)
     (auto dest: kept_seesD has_worker_next intro: pres)

lemma kept_task_accept: "leads (from_caller c a) (kept c) (handle_task_accept a args)"
  unfolding handle_task_accept_def
  by (intro task_rules leads_bind seen.pres_helpers pres_then leads_set_status)
     (auto dest: kept_seesD has_worker_next intro: pres)

lemma kept_task_done: "leads (from_caller c a) (kept c) (handle_task_done env a args)"
proof -
  have wr: "leads (kept_sees c a i v) (kept c)
      (sqlH (sql_exec (\<lambda>s. upd_task i (\<lambda>t. t\<lparr>t_status := status_to_str b, t_artifact := Some p,
        t_updated_at := now_secs s\<rparr>) (db s))))"
    if "next_status (tv_status v) TaskDoneMcp = Inr b" "tv_assignee v = Some x" for i v b p x
    by (intro pres leads_write [OF that(1)]) (use that(2) in simp_all)
  show ?thesis
    unfolding handle_task_done_def Let_def
    by (intro task_rules leads_then [OF pres_cases(4)] leads_then [OF seen.pres_gate] pres_then wr)
       (auto dest: kept_seesD intro: pres)
qed

lemma kept_escalate:
  "leads (kept_sees c a i v) (kept c) (escalate_task env a i v feedback)"
  unfolding escalate_task_def
  by (intro task_rules pres_then leads_set_status)
     (auto dest: kept_seesD has_worker_next intro: pres)

text \<open>The round grows only while it is below the bound; the transaction is all or nothing.\<close>

lemma kept_bounce:
  assumes "\<not> MAX_REVIEW_ROUNDS \<le> tv_review_round v" and "tv_assignee v = Some x"
  shows "leads (kept_sees c a i v) (kept c) (bounce_task env a i v feedback k x)"
proof -
  have body: "leads (kept_sees c a i v) (kept c) (transactE HSql
       (thenE (sqlH (sql_exec (\<lambda>s. upd_task i (\<lambda>t. t\<lparr>t_status := status_to_str b,
            t_review_round := t_review_round t + 1, t_self_reviewed_at := None,
            t_updated_at := now_secs s\<rparr>) (db s))))
          (sqlH (insert_message d sid None au fb ''directive''))))" (is "leads _ _ (transactE HSql ?m)")
    if "next_status (tv_status v) RequestChanges = Inr b" for b d sid au fb
  proof -
    have "leads (kept_sees c a i v) (kept c) ?m"
      by (intro pres leads_write [OF that]) (use assms in simp_all)
    then show ?thesis
      by (rule kept.leads_transact)
         (auto simp: leads_def wp insert_message_def seen.I_simps dest: kept_seesD split: option.split)
  qed
  show ?thesis
    unfolding bounce_task_def
    by (intro leads_next leads_bind [OF seen.pres_steps(2)] pres_then body)
       (auto dest: kept_seesD intro: pres)
qed

lemma kept_request_changes:
  "leads (from_caller c a) (kept c) (handle_task_request_changes env a args)"
proof -
  have peer: "pres (kept_sees c a i v) (if m then ret False
      else bindE (is_peer_reviewer a) (\<lambda>p. ret (tv_startup v = av_startup_id a \<and>
        tv_assignee v \<noteq> Some (av_agent_id a) \<and> p)))" for i v m
    by (intro pres)
  show ?thesis
    unfolding handle_task_request_changes_def
    by (intro task_rules leads_then [OF from_caller.pres_helpers(2)]
        leads_bind [OF seen.pres_helpers(5)] leads_bind [OF peer] pres_cases kept_escalate kept_bounce)
       (auto dest: kept_seesD intro: leads_throw)
qed

section \<open>Proposals\<close>

lemma leads_proposal:
  assumes "\<And>v. tv_startup v = av_startup_id a \<Longrightarrow> leads (kept_sees c a i v) (kept c) (f v)"
  shows "leads (from_caller c a) (kept c) (bindE (load_proposal a i tool) f)"
proof -
  have "leads (from_caller c a) (kept c) (bindE (load_task i) (\<lambda>v. thenE (same_startup v a)
      (bindE (case tv_parent v of None \<Rightarrow> throw (HErr ''bad_args'' (tool @ '' requires a subtask''))
        | Some p \<Rightarrow> bindE (caller_manages_parent a p) (\<lambda>ok.
            thenE (guardE ok (HErr ''no_permission'' (tool @ '' is manager-only''))) (ret v))) f)))"
  proof (intro leads_load leads_same_startup)
    fix v :: task_view
    assume st: "tv_startup v = av_startup_id a"
    show "leads (kept_sees c a i v) (kept c)
      (bindE (case tv_parent v of None \<Rightarrow> throw (HErr ''bad_args'' (tool @ '' requires a subtask''))
        | Some p \<Rightarrow> bindE (caller_manages_parent a p) (\<lambda>ok.
            thenE (guardE ok (HErr ''no_permission'' (tool @ '' is manager-only''))) (ret v))) f)"
    proof (cases "tv_parent v")
      case None
      then show ?thesis by (simp add: leads_def wp kept_seesD)
    next
      case (Some p)
      have "wpE (caller_manages_parent a p)
          (\<lambda>ok. wpE (thenE (guardE ok (HErr ''no_permission'' (tool @ '' is manager-only''))) (ret v))
             (\<lambda>u. wpE (f u) (\<lambda>_. kept c) (\<lambda>_. kept c)) (\<lambda>_. kept c)) (\<lambda>_. kept c) s"
        if s: "kept_sees c a i v s" for s
        by (rule wp_mono [OF leadsD [OF seen.pres_helpers(6) s]])
           (use assms [OF st] in \<open>auto simp: wp leads_def kept_seesD\<close>)
      with Some show ?thesis by (simp add: leads_def wp)
    qed
  qed (auto dest: kept_seesD)
  then show ?thesis
    by (simp add: load_proposal_def leads_def wp)
qed

lemma kept_reject_proposal: "leads (from_caller c a) (kept c) (handle_reject_proposal a args)"
  unfolding handle_reject_proposal_def Let_def
  by (intro task_rules leads_proposal pres_then leads_set_status)
     (auto dest: kept_seesD has_worker_next intro: pres)

text \<open>After \<open>require_own_agent\<close> the named agent is known to belong to the caller's startup.\<close>

lemma leads_own_agent:
  assumes "leads (\<lambda>s. P s \<and> agent_of x (av_startup_id a) s) I n" and "\<And>s. P s \<Longrightarrow> P (sql_pop s)"
    and "\<And>s. P s \<Longrightarrow> I s"
  shows "leads P I (thenE (require_own_agent a x) n)"
  using assms
  by (auto simp: leads_def wp require_own_agent_def startup_of_agent_row_def agent_of_def
      startup_of_agent_def split: option.split)

lemma kept_accept_proposal: "leads (from_caller c a) (kept c) (handle_accept_proposal a args)"
proof -
  have wr: "leads (\<lambda>s. kept_sees c a i v s \<and> agent_of x (av_startup_id a) s) (kept c)
      (sqlH (sql_checked chk (\<lambda>s. upd_task i (\<lambda>t. t\<lparr>t_status := status_to_str b, t_assignee := Some x,
        t_required_room := r, t_updated_at := now_secs s\<rparr>) (db s))))"
    if st: "tv_startup v = av_startup_id a" and nx: "next_status (tv_status v) (AcceptProposal Manager) = Inr b"
    for i v x b r chk
  proof -
    have "kept c (sql_pop s\<lparr>db := upd_task i (\<lambda>t. t\<lparr>t_status := status_to_str b, t_assignee := Some x,
        t_required_room := r, t_updated_at := now_secs s\<rparr>) (db s)\<rparr>)"
      if s: "kept_sees c a i v s" "agent_of x (av_startup_id a) s" for s
      by (rule kept_write [OF s(1) nx]) (use s st nx in \<open>auto simp: next_status_Inr has_worker_def\<close>)
    then show ?thesis
      by (auto simp: leads_def wp kept.I_simps kept_seesD split: option.split)
  qed
  show ?thesis
    unfolding handle_accept_proposal_def Let_def
    by (intro task_rules leads_proposal leads_own_agent pres_then wr)
       (auto dest: kept_seesD intro: pres seen.I_simps)
qed

section \<open>New tasks and stolen tasks\<close>

lemma db_inv_insert:
  assumes "db_inv d" and "task_row d (t_id t) = None"
    and "task_ok (startup_of_agent d) (startup_of_task d) t"
  shows "db_inv (d\<lparr>d_tasks := d_tasks d @ [t]\<rparr>)"
proof -
  let ?d = "d\<lparr>d_tasks := d_tasks d @ [t]\<rparr>"
  have ag: "startup_of_agent ?d = startup_of_agent d"
    by (simp add: startup_of_agent_def [abs_def])
  have ts: "startup_of_task d p = Some x \<Longrightarrow> startup_of_task ?d p = Some x" for p x
    by (auto simp: startup_of_task_def task_row_def find_row_append)
  have mono: "task_ok (startup_of_agent d) (startup_of_task d) u \<Longrightarrow>
      task_ok (startup_of_agent d) (startup_of_task ?d) u" for u
    using ts by (auto simp: task_ok_def)
  have "t_id t \<notin> t_id ` set (d_tasks d)"
    using assms(2) by (simp add: task_row_def find_row_None)
  with assms(1,3) mono show ?thesis by (auto simp: db_inv_def ag)
qed

definition kept_parent :: "database \<Rightarrow> avatar \<Rightarrow> ident \<Rightarrow> sys \<Rightarrow> bool" where
  "kept_parent c a p s \<longleftrightarrow> (kept c s \<and> caller_ok a s) \<and> task_in p (av_startup_id a) s"

interpretation parent: plain_invariant "kept_parent c a p" for c a p
  unfolding kept_parent_def
  by (intro plain_invariant_conj plain_task_in from_caller.plain_invariant_axioms)

lemma kept_parentD: "kept_parent c a p s \<Longrightarrow> kept c s"
  by (simp add: kept_parent_def)

lemma kept_insert:
  assumes "kept_parent c a p s" and "st = Proposed \<or> st = Queued"
    and "\<And>x. asg = Some x \<Longrightarrow> agent_of x (av_startup_id a) s"
    and "task_row (db s) i = None"
  shows "kept c (sql_pop s\<lparr>db := (db s)\<lparr>d_tasks := d_tasks (db s) @
    [new_task i (av_startup_id a) (Some p) ti de (status_to_str st) asg room t0]\<rparr>\<rparr>)"
proof -
  let ?t = "new_task i (av_startup_id a) (Some p) ti de (status_to_str st) asg room t0"
  have "task_ok (startup_of_agent (db s)) (startup_of_task (db s)) ?t"
    using assms by (auto simp: task_ok_def new_task_def MAX_REVIEW_ROUNDS_def has_worker_def
        kept_parent_def task_in_def agent_of_def)
  moreover have "task_row (db s) (t_id ?t) = None" using assms(4) by (simp add: new_task_def)
  moreover have "kept c s" using assms(1) by (rule kept_parentD)
  moreover have "startup_of_agent ((db s)\<lparr>d_tasks := u\<rparr>) = startup_of_agent (db s)" for u
    by (simp add: startup_of_agent_def [abs_def])
  ultimately show ?thesis
    by (auto simp: kept_def avatars_ok_def intro: db_inv_insert tasks_evolve_append)
qed

lemma kept_subtask_create: "leads (from_caller c a) (kept c) (handle_subtask_create env a args)"
proof -
  let ?own = "\<lambda>p x s. kept_parent c a p s \<and> (\<forall>y. x = Some y \<longrightarrow> agent_of y (av_startup_id a) s)"
  have own: "plain_invariant (?own p x)" for p x
    using parent.plain_invariant_axioms plain_agent_of
    by (cases x) (auto intro: plain_invariant_conj)
  have ins: "leads (?own p x) (kept c) (sqlH (insert_task (new_task i (av_startup_id a) (Some p) ti de
      (status_to_str st) x room t0)))" if "st = Proposed \<or> st = Queued" for p x i ti de st room t0
    using kept_insert [OF _ that]
    by (auto simp: leads_def wp insert_task_def kept.I_simps new_task_def dest: kept_parentD split: option.split)
  have tail: "leads (?own p x) (kept c) (bindE (fresh_uuid env) (\<lambda>i. bindE (asksE now_secs) (\<lambda>t0.
      thenE (sqlH (insert_task (new_task i (av_startup_id a) (Some p) ti de (status_to_str st) x room t0)))
        (rest i))))"
    if "st = Proposed \<or> st = Queued" "\<And>i. pres (kept c) (rest i)" for p x ti de st room rest
    by (intro leads_bind [OF plain_invariant.pres_steps(2) [OF own]] leads_bind [OF pres_basic(5)]
        pres_then ins that) (auto dest: kept_parentD)
  have gate: "leads (kept_parent c a p) (kept c)
      (thenE (case x of None \<Rightarrow> ret () | Some y \<Rightarrow> require_own_agent a y) n)"
    if "leads (?own p x) (kept c) n" for p x n
  proof (cases x)
    case None
    with that show ?thesis by (simp add: leads_def wp)
  next
    case (Some y)
    with that show ?thesis
      by (auto intro!: leads_own_agent parent.I_simps dest: kept_parentD)
  qed
  have row: "leads (from_caller c a) (kept c) (bindE (sqlH (sql_query (\<lambda>d. task_row d p)))
      (\<lambda>r. case r of None \<Rightarrow> throw e | Some t \<Rightarrow> thenE (guardE (t_startup t = av_startup_id a) e') (f t)))"
    if "\<And>t. leads (kept_parent c a p) (kept c) (f t)" for p e e' f
    using that
    by (auto simp: leads_def wp kept.I_simps kept_parent_def task_in_def startup_of_task_def caller_ok_def
        split: option.split)
  show ?thesis
    unfolding handle_subtask_create_def Let_def
    by (intro leads_require row leads_next gate tail)
       (auto simp: next_status_Inr split: if_splits dest: kept_parentD intro: pres)
qed

text \<open>A steal hits the row the thief has seen, and the thief is an agent of its startup.\<close>

lemma upd_tasks_seen:
  assumes "db_inv d" and "task_row d i = Some t" and "q t"
  shows "upd_tasks (\<lambda>u. t_id u = i \<and> q u) f d = upd_task i f d"
proof -
  have "(t_id u = i \<and> q u) = (t_id u = i)" if "u \<in> set (d_tasks d)" for u
    using db_inv_unique [OF assms(1) that] assms(2,3) by auto
  then show ?thesis by (auto simp: upd_task_def upd_tasks_def update_rows_def)
qed

lemma steal_hit:
  assumes "0 < length (filter (\<lambda>t. t_id t = i \<and> t_status t = ''queued'' \<and> t_assignee t = Some old) (d_tasks d))"
    and "db_inv d"
  obtains t where "task_row d i = Some t" "t_status t = ''queued''" "t_assignee t = Some old"
proof -
  from assms(1) obtain t where "t \<in> set (d_tasks d)" "t_id t = i" "t_status t = ''queued''" "t_assignee t = Some old"
    by (auto simp: filter_empty_conv)
  with db_inv_unique [OF assms(2)] show thesis by (auto intro: that)
qed

lemma kept_steal_row:
  assumes "kept c s" and "\<And>t. task_row (db s) i = Some t \<Longrightarrow> agent_row (db s) new \<noteq> None \<Longrightarrow>
      agent_of new (t_startup t) s"
  shows "wpE (steal_row i old new) (\<lambda>_. kept c) (\<lambda>_. kept c) s"
proof -
  let ?hit = "\<lambda>t. t_id t = i \<and> t_status t = ''queued'' \<and> t_assignee t = Some old"
  let ?f = "\<lambda>t. t\<lparr>t_assignee := Some new, t_updated_at := now_secs s\<rparr>"
  have inv: "db_inv (db s)" using assms(1) by (simp add: kept_def)
  have "kept c (sql_pop s\<lparr>db := upd_tasks ?hit ?f (db s)\<rparr>)"
    if "filter ?hit (d_tasks (db s)) = [] \<or> agent_row (db s) new \<noteq> None"
  proof (cases "filter ?hit (d_tasks (db s)) = []")
    case True
    then have "map (\<lambda>t. if ?hit t then ?f t else t) (d_tasks (db s)) = d_tasks (db s)"
      by (intro map_idI) (auto simp: filter_empty_conv)
    then have "upd_tasks ?hit ?f (db s) = db s" by (simp add: upd_tasks_def update_rows_def)
    with assms(1) show ?thesis by (simp add: kept.I_simps)
  next
    case False
    with that have ag: "agent_row (db s) new \<noteq> None" by simp
    obtain t where t: "task_row (db s) i = Some t" "t_status t = ''queued''" "t_assignee t = Some old"
      by (rule steal_hit [OF _ inv, of i old]) (use False in auto)
    have u: "upd_tasks ?hit ?f (db s) = upd_task i ?f (db s)"
      using upd_tasks_seen [OF inv t(1), of "\<lambda>t. t_status t = ''queued'' \<and> t_assignee t = Some old"] t
      by simp
    have "task_ok (startup_of_agent (db s)) (startup_of_task (db s)) (?f t)"
      using db_inv_row [OF inv t(1)] assms(2) [OF t(1) ag] by (auto simp: task_ok_def agent_of_def)
    then have "db_inv (upd_task i ?f (db s))"
      by (intro db_inv_upd_task [OF inv]) (use t(1) in auto)
    moreover have "tasks_evolve task_step c (upd_task i ?f (db s))"
      using assms(1) by (intro tasks_evolve_upd_plain) (auto simp: kept_def)
    ultimately show ?thesis using assms(1) by (simp add: kept_def avatars_ok_def u)
  qed
  then show ?thesis
    using assms(1)
    by (auto simp: wp steal_row_def Let_def kept.I_simps)
qed

lemma kept_task_steal: "leads (from_caller c a) (kept c) (handle_task_steal env a args)"
proof -
  have st: "leads (kept_sees c a i v) (kept c) (sqlH (steal_row i old (av_agent_id a)))"
    if "tv_startup v = av_startup_id a" for i v old
  proof -
    have "wpE (steal_row i old (av_agent_id a)) (\<lambda>_. kept c) (\<lambda>_. kept c) s" if s: "kept_sees c a i v s" for s
    proof (rule kept_steal_row)
      show "kept c s" using s by (rule kept_seesD)
      fix t
      assume "task_row (db s) i = Some t" "agent_row (db s) (av_agent_id a) \<noteq> None"
      with s \<open>tv_startup v = av_startup_id a\<close> show "agent_of (av_agent_id a) (t_startup t) s"
        by (auto simp: kept_sees_def sees_def caller_ok_def agent_of_def startup_of_agent_def)
    qed
    then show ?thesis by (simp add: leads_def wp)
  qed
  show ?thesis
    unfolding handle_task_steal_def
    by (intro task_rules leads_bind [OF pres_wrap(5) [OF seen.pres_steps(1)]] pres_cases(2) pres_bind st)
       (auto dest: kept_seesD intro: leads_throw pres)
qed

end
