(* ===== verification/Scheduler.thy ===== *)
theory Scheduler
  imports TaskKept
begin

text \<open>
  The scheduler, \<open>scheduler.rs\<close>: one tick dispatches the queued tasks of idle agents, reports overdue
  deadlines, and runs the auto-steal and auto-recovery passes. The per-task worker mode hands the
  dispatch to a process supervisor, here a function that says whether the spawn succeeded.
\<close>

section \<open>Dispatch\<close>

record queued_task =
  q_id :: ident
  q_title :: string
  q_description :: string
  q_assignee :: ident
  q_required_room :: "ident option"
  q_parent :: "ident option"
  q_preferred_backend :: "string option"
  q_preferred_model :: "string option"
  q_startup :: ident
  q_agent_backend :: string
  q_workspace :: string
  q_blocked_on :: "ident option"

record spawn_config =
  sc_agent :: ident
  sc_startup :: ident
  sc_workspace :: string
  sc_backend :: string
  sc_task :: ident
  sc_prompt :: string
  sc_preferred_backend :: "string option"
  sc_preferred_model :: "string option"

type_synonym spawner = "(spawn_config \<Rightarrow> bool) option"

text \<open>The inner joins of the query leave out tasks without an assignee, its row or the startup.\<close>

definition queued_row :: "database \<Rightarrow> task \<Rightarrow> queued_task option" where
  "queued_row d t =
     (if t_status t = ''queued'' then
       (case t_assignee t of
          None \<Rightarrow> None
        | Some a \<Rightarrow> (case (agent_row d a, startup_row d (t_startup t)) of
            (Some ag, Some su) \<Rightarrow> Some \<lparr> q_id = t_id t, q_title = t_title t,
               q_description = t_description t, q_assignee = a, q_required_room = t_required_room t,
               q_parent = t_parent t, q_preferred_backend = t_preferred_backend t,
               q_preferred_model = t_preferred_model t, q_startup = t_startup t,
               q_agent_backend = ag_backend ag, q_workspace = su_workspace su,
               q_blocked_on = t_blocked_on t \<rparr>
          | _ \<Rightarrow> None))
      else None)"

definition queued_rows :: "database \<Rightarrow> queued_task list" where
  "queued_rows d = List.map_filter (queued_row d) (d_tasks d)"

lemma queued_row_Some:
  assumes "queued_row d t = Some q"
  shows "q_id q = t_id t" "t_status t = ''queued''" "t_assignee t = Some (q_assignee q)"
    "q_startup q = t_startup t" "q_blocked_on q = t_blocked_on t"
    "q_required_room q = t_required_room t"
  using assms by (auto simp: queued_row_def split: if_splits option.splits)

definition pick_room_center :: "town_layout \<Rightarrow> ident \<Rightarrow> tile option" where
  "pick_room_center l room = map_option room_center (layout_room l room)"

definition is_terminal :: "string \<Rightarrow> bool" where
  "is_terminal st \<longleftrightarrow> st = ''done'' \<or> st = ''failed'' \<or> st = ''escalated''"

text \<open>The blocking gate: whether the dispatch may go on.\<close>

definition blocking_gate :: "env \<Rightarrow> queued_task \<Rightarrow> bool handler" where
  "blocking_gate env q = (case q_blocked_on q of
      None \<Rightarrow> ret True
    | Some blocker \<Rightarrow>
        bindE (tryE (sql_query (\<lambda>d. map_option t_status (task_row d blocker)))) (\<lambda>r. case r of
          Inl _ \<Rightarrow> ret False
        | Inr st \<Rightarrow>
            (if (case st of None \<Rightarrow> True | Some x \<Rightarrow> is_terminal x) then
               thenE (ignoreE (sql_exec (\<lambda>s. upd_task (q_id q) (\<lambda>t. t\<lparr>t_blocked_on := None\<rparr>) (db s))))
               (thenE (ignoreE (emit_system_event env (Some (q_startup q)) ''task_unblocked''
                   (JObj [(''task_id'', JStr (q_id q)), (''blocker_id'', JStr blocker)]) ''info''))
               (ret True))
             else ret False)))"

text \<open>The room gate: an agent elsewhere is sent on its way, unless it is already walking.\<close>

definition room_gate :: "env \<Rightarrow> queued_task \<Rightarrow> ident \<Rightarrow> bool handler" where
  "room_gate env q avatar_room = (case q_required_room q of
      None \<Rightarrow> ret True
    | Some room \<Rightarrow>
        if avatar_room = room then ret True
        else bindE (asksE (\<lambda>s. map_of (paths s) (q_assignee q) \<noteq> None)) (\<lambda>walking.
          if walking then ret False
          else bindE (asksE (\<lambda>s. pick_room_center (layout s) room)) (\<lambda>ctr. case ctr of
              None \<Rightarrow> ret False
            | Some c \<Rightarrow> bindE (mapErr HPanic (do_start_move env (q_assignee q) room c)) (\<lambda>_. ret False))))"

text \<open>The budget gate; a failed or empty query lets the dispatch pass.\<close>

definition budget_gate :: "queued_task \<Rightarrow> bool handler" where
  "budget_gate q =
     bindE (tryE (sql_query (\<lambda>d. Option.bind (agent_row d (q_assignee q)) (\<lambda>ag. startup_row d (ag_startup ag)))))
       (\<lambda>r. ret (case r of
          Inr (Some su) \<Rightarrow> \<not> (su_cap su > 0 \<and> su_spent su / su_cap su \<ge> 95 / 100)
        | _ \<Rightarrow> True))"

definition task_assigned_json :: "queued_task \<Rightarrow> json" where
  "task_assigned_json q = JObj [(''type'', JStr ''task_assigned''), (''v'', JInt 1),
     (''task_id'', JStr (q_id q)), (''title'', JStr (q_title q)),
     (''description'', JStr (q_description q)), (''required_room'', jopt (q_required_room q)),
     (''parent_id'', jopt (q_parent q)), (''preferred_backend'', jopt (q_preferred_backend q)),
     (''preferred_model'', jopt (q_preferred_model q))]"

definition spawn_prompt :: "queued_task \<Rightarrow> string" where
  "spawn_prompt q = ''You are agent '' @ q_assignee q @ '' in startup '' @ q_startup q @
     ''. Implement task '' @ [CHR 0x27] @ q_title q @ [CHR 0x27] @ '':'' @ [CHR 0x0A, CHR 0x0A] @
     q_description q @ [CHR 0x0A, CHR 0x0A] @
     ''When complete, call the `task_done` MCP tool with artifact_path '' @ [CHR 0x22] @
     canonical_artifact_path (q_startup q) (q_id q) @ [CHR 0x22] @
     ''. Save your output to that path first.''"

definition spawn_config_of :: "queued_task \<Rightarrow> spawn_config" where
  "spawn_config_of q = \<lparr> sc_agent = q_assignee q, sc_startup = q_startup q,
     sc_workspace = q_workspace q, sc_backend = q_agent_backend q, sc_task = q_id q,
     sc_prompt = spawn_prompt q, sc_preferred_backend = q_preferred_backend q,
     sc_preferred_model = q_preferred_model q \<rparr>"

text \<open>\<open>try_send\<close> with its outcome; a missing entry counts as a closed channel.\<close>

definition send_checked :: "ident \<Rightarrow> json \<Rightarrow> send_result handler" where
  "send_checked i payload = (\<lambda>s. (Inr (case map_of (out_bus s) i of
       None \<Rightarrow> SendClosed | Some c \<Rightarrow> fst (try_send payload c)),
     s\<lparr>out_bus := bus_send i payload (out_bus s)\<rparr>))"

definition hand_over :: "spawner \<Rightarrow> queued_task \<Rightarrow> bool handler" where
  "hand_over spw q = (case spw of
      Some spawn \<Rightarrow> ret (spawn (spawn_config_of q))
    | None \<Rightarrow> bindE (send_checked (q_assignee q) (task_assigned_json q)) (\<lambda>r. ret (r = SendOk)))"

text \<open>The liveness gate has opposite polarity in the two modes.\<close>

definition live_gate :: "spawner \<Rightarrow> queued_task \<Rightarrow> bool handler" where
  "live_gate spw q = asksE (\<lambda>s. case spw of
      Some _ \<Rightarrow> map_of (out_bus s) (q_assignee q) = None
    | None \<Rightarrow> map_of (out_bus s) (q_assignee q) \<noteq> None)"

text \<open>Once the row says \<open>in_progress\<close>: the hand-over, with the roll-back of a failed one.\<close>

definition start_work :: "spawner \<Rightarrow> queued_task \<Rightarrow> nat handler" where
  "start_work spw q =
     thenE (set_avatar_status (q_assignee q) ''working'')
     (thenE (ignoreE (append_audit (q_id q) (JObj [(''actor'', JStr ''scheduler''),
         (''kind'', JStr ''task_assigned''), (''agent_id'', JStr (q_assignee q)),
         (''required_room'', jopt (q_required_room q))])))
     (bindE (hand_over spw q) (\<lambda>ok.
      if ok then ret 1
      else
        thenE (ignoreE (sql_exec (\<lambda>s. upd_task (q_id q) (\<lambda>t. t\<lparr>t_status := ''queued'',
            t_updated_at := now_secs s\<rparr>) (db s))))
        (thenE (set_avatar_status (q_assignee q) ''idle'')
        (ret 0)))))"

definition assign_task :: "spawner \<Rightarrow> queued_task \<Rightarrow> nat handler" where
  "assign_task spw q =
     bindE (tryE (sql_exec (\<lambda>s. upd_task (q_id q) (\<lambda>t. t\<lparr>t_status := ''in_progress'',
         t_updated_at := now_secs s\<rparr>) (db s)))) (\<lambda>r. case r of
       Inl _ \<Rightarrow> ret 0
     | Inr _ \<Rightarrow> start_work spw q)"

definition when_gate :: "bool handler \<Rightarrow> nat handler \<Rightarrow> nat handler" where
  "when_gate gate m = bindE gate (\<lambda>ok. if ok then m else ret 0)"

text \<open>The body of the dispatch loop; every \<open>continue\<close> counts nothing.\<close>

definition dispatch_one :: "env \<Rightarrow> spawner \<Rightarrow> queued_task \<Rightarrow> nat handler" where
  "dispatch_one env spw q =
     bindE (asksE (\<lambda>s. map_of (avatars s) (q_assignee q))) (\<lambda>av. case av of
       None \<Rightarrow> ret 0
     | Some a \<Rightarrow>
         if av_status a \<noteq> ''idle'' then ret 0
         else when_gate (blocking_gate env q)
           (when_gate (room_gate env q (av_room_id a))
           (when_gate (budget_gate q)
           (when_gate (live_gate spw q)
             (assign_task spw q)))))"

section \<open>Deadlines\<close>

definition overdue_rows :: "int \<Rightarrow> database \<Rightarrow> (ident \<times> ident \<times> int) list" where
  "overdue_rows now d = List.map_filter (\<lambda>t. case t_deadline_at t of
      None \<Rightarrow> None
    | Some dl \<Rightarrow> if dl < now \<and> \<not> is_terminal (t_status t) \<and>
          (case t_deadline_notified_at t of None \<Rightarrow> True | Some n \<Rightarrow> n < dl)
        then Some (t_id t, t_startup t, dl) else None) (d_tasks d)"

definition deadline_scan :: "env \<Rightarrow> unit handler" where
  "deadline_scan env =
     bindE (asksE now_secs) (\<lambda>now.
     bindE (orDefault [] (sql_query (overdue_rows now))) (\<lambda>overdue.
     forE overdue (\<lambda>(task_id, startup_id, deadline_at).
       thenE (ignoreE (emit_system_event env (Some startup_id) ''task_overdue''
           (JObj [(''task_id'', JStr task_id), (''deadline_at'', JInt deadline_at),
             (''overdue_by_secs'', JInt (now - deadline_at))]) ''warn''))
         (ignoreE (sql_exec (\<lambda>s. upd_task task_id
           (\<lambda>t. t\<lparr>t_deadline_notified_at := Some now\<rparr>) (db s)))))))"

section \<open>Auto-steal and auto-recovery\<close>

definition idle_peer :: "ident \<Rightarrow> string \<Rightarrow> ident \<Rightarrow> avatars \<Rightarrow> ident option" where
  "idle_peer startup_id role current avs = map_option fst (find (\<lambda>(i, a).
     av_startup_id a = startup_id \<and> av_role a = role \<and> av_status a = ''idle'' \<and> i \<noteq> current) avs)"

definition role_of :: "ident \<Rightarrow> string option handler" where
  "role_of i = orDefault None (sql_query (\<lambda>d. map_option ag_role (agent_row d i)))"

definition steal_one :: "env \<Rightarrow> ident \<Rightarrow> ident \<times> ident \<Rightarrow> unit handler" where
  "steal_one env startup_id = (\<lambda>(task_id, current).
     bindE (asksE (\<lambda>s. map_option av_status (map_of (avatars s) current))) (\<lambda>st.
     if st = Some ''idle'' then ret ()
     else bindE (role_of current) (\<lambda>r. case r of
        None \<Rightarrow> ret ()
      | Some role \<Rightarrow> bindE (asksE (\<lambda>s. idle_peer startup_id role current (avatars s))) (\<lambda>p. case p of
          None \<Rightarrow> ret ()
        | Some peer \<Rightarrow> bindE (tryE (steal_row task_id current peer)) (\<lambda>res. case res of
            Inl _ \<Rightarrow> ret ()
          | Inr n \<Rightarrow>
              if n = 0 then ret ()
              else
                thenE (ignoreE (append_audit task_id (JObj [(''actor'', JStr ''stealer''),
                    (''kind'', JStr ''task_steal''), (''agent_id'', JStr peer),
                    (''previous_assignee'', JStr current), (''mode'', JStr ''auto'')])))
                (ignoreE (emit_system_event env (Some startup_id) ''task_stolen''
                    (JObj [(''task_id'', JStr task_id), (''new_assignee'', JStr peer),
                      (''previous_assignee'', JStr current), (''mode'', JStr ''auto'')]) ''info'')))))))"

definition stale_rows :: "ident \<Rightarrow> int \<Rightarrow> database \<Rightarrow> (ident \<times> ident) list" where
  "stale_rows startup_id cutoff d = List.map_filter (\<lambda>t.
     if t_startup t = startup_id \<and> t_status t = ''queued'' \<and> t_updated_at t < cutoff
     then map_option (\<lambda>a. (t_id t, a)) (t_assignee t) else None) (d_tasks d)"

definition auto_steal_pass :: "env \<Rightarrow> unit handler" where
  "auto_steal_pass env =
     bindE (asksE now_secs) (\<lambda>now.
     bindE (orDefault [] (sql_query (\<lambda>d. map (\<lambda>su. (su_id su, su_auto_steal_after_secs su))
         (filter (\<lambda>su. su_auto_steal_enabled su = 1) (d_startups d))))) (\<lambda>startups.
     forE startups (\<lambda>(startup_id, after_secs).
       bindE (orDefault [] (sql_query (stale_rows startup_id (now - max after_secs 1)))) (\<lambda>stale.
       forE stale (steal_one env startup_id)))))"

text \<open>The guarded reassignment of a bounced task, back to \<open>queued\<close> with a fresh round count.\<close>

definition recover_row :: "ident \<Rightarrow> ident \<Rightarrow> ident \<Rightarrow> (sys, sql_error, nat) sem" where
  "recover_row task_id old_assignee new_assignee = sql_stmt (\<lambda>s.
     let hit = (\<lambda>t. t_id t = task_id \<and> t_status t = ''changes_requested'' \<and> t_assignee t = Some old_assignee);
         n = length (filter hit (d_tasks (db s))) in
     if n > 0 \<and> agent_row (db s) new_assignee = None then Inl ForeignKeyViolation
     else Inr (n, upd_tasks hit (\<lambda>t. t\<lparr>t_assignee := Some new_assignee, t_status := ''queued'',
       t_review_round := 0, t_updated_at := now_secs s\<rparr>) (db s)))"

definition recover_one :: "env \<Rightarrow> ident \<Rightarrow> ident \<times> ident \<times> int \<Rightarrow> unit handler" where
  "recover_one env startup_id = (\<lambda>(task_id, current, rnd).
     bindE (role_of current) (\<lambda>r. case r of
        None \<Rightarrow> ret ()
      | Some role \<Rightarrow> bindE (asksE (\<lambda>s. idle_peer startup_id role current (avatars s))) (\<lambda>p. case p of
          None \<Rightarrow> ret ()
        | Some peer \<Rightarrow> bindE (tryE (recover_row task_id current peer)) (\<lambda>res. case res of
            Inl _ \<Rightarrow> ret ()
          | Inr n \<Rightarrow>
              if n = 0 then ret ()
              else
                (let what = [(''strategy'', JStr ''peer_reassign''), (''from_agent_id'', JStr current),
                    (''to_agent_id'', JStr peer), (''review_round_at_recovery'', JInt rnd)] in
                thenE (ignoreE (append_audit task_id (JObj ([(''actor'', JStr ''scheduler''),
                    (''kind'', JStr ''task_recovered'')] @ what))))
                (ignoreE (emit_system_event env (Some startup_id) ''task_recovered''
                    (JObj ((''task_id'', JStr task_id) # what)) ''info'')))))))"

definition recovery_rows :: "ident \<Rightarrow> int \<Rightarrow> database \<Rightarrow> (ident \<times> ident \<times> int) list" where
  "recovery_rows startup_id max_attempts d = List.map_filter (\<lambda>t.
     if t_startup t = startup_id \<and> t_status t = ''changes_requested'' \<and> max_attempts \<le> t_review_round t
     then map_option (\<lambda>a. (t_id t, a, t_review_round t)) (t_assignee t) else None) (d_tasks d)"

definition auto_recovery_pass :: "env \<Rightarrow> unit handler" where
  "auto_recovery_pass env =
     bindE (orDefault [] (sql_query (\<lambda>d. map (\<lambda>su. (su_id su, su_auto_recovery_max_attempts su))
         (filter (\<lambda>su. su_auto_recovery_enabled su = 1) (d_startups d))))) (\<lambda>startups.
     forE startups (\<lambda>(startup_id, max_attempts).
       bindE (orDefault [] (sql_query (recovery_rows startup_id max_attempts))) (\<lambda>candidates.
       forE candidates (recover_one env startup_id))))"

definition tick :: "env \<Rightarrow> spawner \<Rightarrow> nat handler" where
  "tick env spw =
     bindE (tryE (sql_query queued_rows)) (\<lambda>r. case r of
       Inl _ \<Rightarrow> ret 0
     | Inr queued \<Rightarrow>
         bindE (countE queued (dispatch_one env spw)) (\<lambda>dispatched.
         thenE (deadline_scan env)
         (thenE (auto_steal_pass env)
         (thenE (auto_recovery_pass env)
         (ret dispatched)))))"

end
