(* ===== verification/SchedulerInv.thy ===== *)
theory SchedulerInv
  imports Scheduler
begin

text \<open>
  What a tick keeps. The scheduler moves tasks along the state machine, and in two ways the state
  machine does not know: the roll-back of a failed hand-over and the recovery of a bounced task
  (\<open>sched_move\<close>). A tick keeps the invariant of the tables, and no task changes its startup.
\<close>

section \<open>Moves and the invariant of a tick\<close>

definition sched_move :: "task_status \<Rightarrow> task_status \<Rightarrow> bool" where
  "sched_move a b \<longleftrightarrow> task_step a b \<or> ((a = InProgress \<or> a = ChangesRequested) \<and> b = Queued)"

definition sched_kept :: "database \<Rightarrow> sys \<Rightarrow> bool" where
  "sched_kept c s \<longleftrightarrow> db_inv (db s) \<and> tasks_evolve sched_move c (db s) \<and> avatars_ok s \<and>
     startup_of_task (db s) = startup_of_task c"

interpretation sched: plain_invariant "sched_kept c" for c
  by unfold_locales (auto simp: sched_kept_def avatars_ok_def same_core_lookups plain_lookups)

definition row_is :: "ident \<Rightarrow> task_status \<Rightarrow> ident \<Rightarrow> sys \<Rightarrow> bool" where
  "row_is i st a s \<longleftrightarrow> (\<exists>t. task_row (db s) i = Some t \<and> t_status t = status_to_str st \<and> t_assignee t = Some a)"

lemma plain_row_is: "plain_invariant (row_is i st a)"
proof
  fix s s' :: sys
  assume "row_is i st a s" "same_core (db s) (db s')"
  then show "row_is i st a s'" by (simp add: row_is_def same_core_lookups)
next
  fix s s' :: sys and f j
  assume h: "row_is i st a s" "plain f" "db s' = upd_task j f (db s)"
  then have "task_row (db s') i = (if j = i then map_option f (task_row (db s) i) else task_row (db s) i)"
    by (simp add: task_row_upd plain_def)
  with h show "row_is i st a s'" by (auto simp: row_is_def plain_def)
qed

text \<open>A write on a known row.\<close>

lemma sched_write:
  assumes "sched_kept c s" and "task_row (db s) i = Some t" and "parse_status (t_status t) = Some a"
    and "a = b \<or> sched_move a b"
    and "\<And>u. t_id (f u) = t_id u \<and> t_startup (f u) = t_startup u \<and> t_parent (f u) = t_parent u"
    and "t_status (f t) = status_to_str b"
    and "task_ok (startup_of_agent (db s)) (startup_of_task (db s)) (f t)"
    and "db s' = upd_task i f (db s)" and "avatar_ids s' = avatar_ids s"
  shows "sched_kept c s'"
proof -
  have inv: "db_inv (db s)" and ev: "tasks_evolve sched_move c (db s)"
    using assms(1) by (simp_all add: sched_kept_def)
  have keep: "t_id (f u) = t_id u \<and> t_startup (f u) = t_startup u" for u using assms(5) by blast
  have "db_inv (upd_task i f (db s))"
    by (intro db_inv_upd_task [OF inv]) (use keep assms(2,7) in auto)
  moreover have "tasks_evolve sched_move c (upd_task i f (db s))"
  proof (rule tasks_evolve_upd [OF ev])
    fix u
    assume "u \<in> set (d_tasks (db s))" "t_id u = i"
    with db_inv_unique [OF inv] assms(2) have "u = t" by fastforce
    then show "task_evolves sched_move u (f u)"
      using assms(3-6) parse_status_Some [OF assms(3)] by (auto simp: task_evolves_def)
  qed
  moreover have "startup_of_task (upd_task i f (db s)) = startup_of_task (db s)"
    by (rule startup_of_upd_task) (rule keep)
  ultimately show ?thesis
    using assms(1,8,9) by (simp add: sched_kept_def avatars_ok_def)
qed

lemma row_is_write:
  assumes "row_is j st x s" and "j \<noteq> i" and "\<And>t. t_id (f t) = t_id t" and "db s' = upd_task i f (db s)"
  shows "row_is j st x s'"
  using assms by (simp add: row_is_def task_row_upd)

section \<open>The dispatch loop\<close>

lemma other_id: "r \<in> set qs \<Longrightarrow> q_id q \<notin> q_id ` set qs \<Longrightarrow> q_id r \<noteq> q_id q"
  by (metis image_eqI)

definition pending :: "database \<Rightarrow> queued_task list \<Rightarrow> sys \<Rightarrow> bool" where
  "pending c qs s \<longleftrightarrow> sched_kept c s \<and> distinct (map q_id qs) \<and>
     (\<forall>q \<in> set qs. row_is (q_id q) Queued (q_assignee q) s)"

interpretation pending: plain_invariant "pending c qs" for c qs
  using plain_row_is sched.plain_invariant_axioms
  unfolding plain_invariant_def pending_def by blast

definition running :: "database \<Rightarrow> queued_task \<Rightarrow> queued_task list \<Rightarrow> sys \<Rightarrow> bool" where
  "running c q qs s \<longleftrightarrow> pending c qs s \<and> row_is (q_id q) InProgress (q_assignee q) s"

interpretation running: plain_invariant "running c q qs" for c q qs
  unfolding running_def
  by (intro plain_invariant_conj plain_row_is pending.plain_invariant_axioms)

lemma pending_less: "pending c (q # qs) s \<Longrightarrow> pending c qs s"
  and pending_kept: "pending c qs s \<Longrightarrow> sched_kept c s"
  and running_less: "running c q qs s \<Longrightarrow> pending c qs s"
  by (simp_all add: pending_def running_def)

lemma leads_countE:
  assumes "\<And>x xs. leads (P (x # xs)) (P xs) (body x)" and "\<And>xs s. P xs s \<Longrightarrow> P [] s"
  shows "leads (P xs) (P []) (countE xs body)"
proof (induction xs)
  case Nil
  show ?case by (simp add: leads_def wp)
next
  case (Cons x xs)
  have "wpE (body x) (\<lambda>n. wpE (bindE (countE xs body) (\<lambda>k. ret (n + k))) (\<lambda>_. P []) (\<lambda>_. P [])) (\<lambda>_. P []) s"
    if "P (x # xs) s" for s
    by (rule wp_mono [OF leadsD [OF assms(1) that]]) (use Cons assms(2) in \<open>auto simp: wp leads_def\<close>)
  then show ?case by (simp add: leads_def wp)
qed

lemma pending_start:
  assumes "pending c (q # qs) s"
  shows "running c q qs (sql_pop s\<lparr>db := upd_task (q_id q) (\<lambda>t. t\<lparr>t_status := ''in_progress'',
      t_updated_at := now_secs s\<rparr>) (db s)\<rparr>)" (is "running c q qs ?s")
proof -
  let ?f = "\<lambda>t. t\<lparr>t_status := ''in_progress'', t_updated_at := now_secs s\<rparr>"
  from assms have k: "sched_kept c s" and d: "q_id q \<notin> q_id ` set qs" "distinct (map q_id qs)"
    and rest: "\<forall>r \<in> set qs. row_is (q_id r) Queued (q_assignee r) s"
    and q: "row_is (q_id q) Queued (q_assignee q) s" by (simp_all add: pending_def)
  from q obtain t where t: "task_row (db s) (q_id q) = Some t" "t_status t = ''queued''"
    "t_assignee t = Some (q_assignee q)" by (auto simp: row_is_def)
  have "task_ok (startup_of_agent (db s)) (startup_of_task (db s)) t"
    using k db_inv_row [OF _ t(1)] by (simp add: sched_kept_def)
  then have ok: "task_ok (startup_of_agent (db s)) (startup_of_task (db s)) (?f t)"
    using t by (simp add: task_ok_def)
  have "sched_kept c ?s"
    by (rule sched_write [OF k t(1), of Queued InProgress ?f])
       (use t ok in \<open>simp_all add: sched_move_def task_step_iff\<close>)
  moreover have "row_is (q_id r) Queued (q_assignee r) ?s" if "r \<in> set qs" for r
    by (rule row_is_write [of _ _ _ s "q_id q" ?f]) (use that rest other_id [OF that d(1)] in auto)
  moreover have "row_is (q_id q) InProgress (q_assignee q) ?s"
    using t by (simp add: row_is_def task_row_upd)
  ultimately show ?thesis using d by (simp add: running_def pending_def)
qed

lemma running_rollback:
  assumes "running c q qs s" and "q_id q \<notin> q_id ` set qs"
  shows "pending c qs (sql_pop s\<lparr>db := upd_task (q_id q) (\<lambda>t. t\<lparr>t_status := ''queued'',
      t_updated_at := now_secs s\<rparr>) (db s)\<rparr>)" (is "pending c qs ?s")
proof -
  let ?f = "\<lambda>t. t\<lparr>t_status := ''queued'', t_updated_at := now_secs s\<rparr>"
  from assms have k: "sched_kept c s" and d: "distinct (map q_id qs)"
    and rest: "\<forall>r \<in> set qs. row_is (q_id r) Queued (q_assignee r) s"
    and q: "row_is (q_id q) InProgress (q_assignee q) s" by (simp_all add: running_def pending_def)
  from q obtain t where t: "task_row (db s) (q_id q) = Some t" "t_status t = ''in_progress''"
    "t_assignee t = Some (q_assignee q)" by (auto simp: row_is_def)
  have "task_ok (startup_of_agent (db s)) (startup_of_task (db s)) t"
    using k db_inv_row [OF _ t(1)] by (simp add: sched_kept_def)
  then have ok: "task_ok (startup_of_agent (db s)) (startup_of_task (db s)) (?f t)"
    using t by (simp add: task_ok_def)
  have "sched_kept c ?s"
    by (rule sched_write [OF k t(1), of InProgress Queued ?f])
       (use t ok in \<open>simp_all add: sched_move_def task_step_iff\<close>)
  moreover have "row_is (q_id r) Queued (q_assignee r) ?s" if "r \<in> set qs" for r
    by (rule row_is_write [of _ _ _ s "q_id q" ?f]) (use that rest other_id [OF that assms(2)] in auto)
  ultimately show ?thesis using d by (simp add: pending_def)
qed

lemma pres_send_checked: "plain_invariant I \<Longrightarrow> pres I (send_checked i p)"
  by (auto simp: leads_def wpE_def send_checked_def intro: plain_invariant.I_simps)

lemma pres_hand_over: "plain_invariant I \<Longrightarrow> pres I (hand_over spw q)"
  unfolding hand_over_def by (auto intro: pres pres_send_checked split: option.split)

lemma leads_tryE:
  assumes "\<And>s. P s \<Longrightarrow> wpE m (\<lambda>a. wpE (f (Inr a)) (\<lambda>_. I) (\<lambda>_. I)) (\<lambda>e. wpE (f (Inl e)) (\<lambda>_. I) (\<lambda>_. I)) s"
  shows "leads P I (bindE (tryE m) f)"
  using assms by (simp add: leads_def wp)

lemma leads_assign:
  assumes "q_id q \<notin> q_id ` set qs"
  shows "leads (pending c (q # qs)) (pending c qs) (assign_task spw q)"
proof -
  have bk: "leads (running c q qs) (pending c qs) (sql_exec (\<lambda>s. upd_task (q_id q)
      (\<lambda>t. t\<lparr>t_status := ''queued'', t_updated_at := now_secs s\<rparr>) (db s)))"
    using running_rollback [OF _ assms]
    by (simp add: leads_def wp running_less pending.I_simps)
  have tail: "leads (running c q qs) (pending c qs) (start_work spw q)"
    unfolding start_work_def
    by (intro leads_then [OF running.pres_steps(5)] leads_then [OF pres_wrap(1) [OF running.pres_audit(1)]]
        leads_bind [OF pres_hand_over [OF running.plain_invariant_axioms]] pres_cases(1) leads_ret
        pres_then pres_wrap(1) bk)
       (auto dest: running_less intro: pres)
  show ?thesis
    unfolding assign_task_def
  proof (rule leads_tryE)
    fix s
    assume p: "pending c (q # qs) s"
    have "wpE (start_work spw q) (\<lambda>_. pending c qs) (\<lambda>_. pending c qs)
        (sql_pop s\<lparr>db := upd_task (q_id q) (\<lambda>t. t\<lparr>t_status := ''in_progress'',
          t_updated_at := now_secs s\<rparr>) (db s)\<rparr>)"
      by (rule leadsD [OF tail]) (rule pending_start [OF p])
    with pending.I_simps(1) [OF pending_less [OF p]]
    show "wpE (sql_exec (\<lambda>s. upd_task (q_id q) (\<lambda>t. t\<lparr>t_status := ''in_progress'',
        t_updated_at := now_secs s\<rparr>) (db s)))
      (\<lambda>a. wpE (case Inr a of Inl _ \<Rightarrow> ret 0 | Inr _ \<Rightarrow> start_work spw q) (\<lambda>_. pending c qs) (\<lambda>_. pending c qs))
      (\<lambda>e. wpE (case Inl e of Inl _ \<Rightarrow> ret 0 | Inr _ \<Rightarrow> start_work spw q) (\<lambda>_. pending c qs) (\<lambda>_. pending c qs)) s"
      by (simp add: wp_sql_exec wp_ret)
  qed
qed

lemma leads_when:
  assumes "pres P gate" and "leads P I m" and "\<And>s. P s \<Longrightarrow> I s"
  shows "leads P I (when_gate gate m)"
  unfolding when_gate_def using assms by (intro leads_bind pres_cases leads_ret) auto

context plain_invariant begin

lemma pres_gates [pres]:
  "pres I (blocking_gate env q)" "pres I (room_gate env q r)" "pres I (budget_gate q)"
  "pres I (live_gate spw q)"
  unfolding blocking_gate_def room_gate_def budget_gate_def live_gate_def
  by (intro pres | simp add: plain_def)+

lemma pres_deadline_scan [pres]: "pres I (deadline_scan env)"
  unfolding deadline_scan_def by (intro pres) (simp_all add: plain_def)

lemma pres_role_of [pres]: "pres I (role_of i)"
  unfolding role_of_def by (intro pres)

end

lemma leads_dispatch: "leads (pending c (q # qs)) (pending c qs) (dispatch_one env spw q)"
proof (cases "q_id q \<in> q_id ` set qs")
  case True
  then have "\<not> pending c (q # qs) s" for s by (auto simp: pending_def)
  then show ?thesis by (simp add: leads_def)
next
  case False
  show ?thesis
    unfolding dispatch_one_def
    by (intro leads_bind [OF pres_basic(5)] pres_cases leads_ret leads_when pending.pres_gates
        leads_assign False) (auto dest: pending_less)
qed

text \<open>The rows the query hands to the loop are queued, with their assignee, and distinct.\<close>

lemma queued_rows_pending:
  assumes "sched_kept c s"
  shows "pending c (queued_rows (db s)) s"
proof -
  have inv: "db_inv (db s)" using assms by (simp add: sched_kept_def)
  have row: "\<exists>t \<in> set (d_tasks (db s)). q_id q = t_id t \<and> t_status t = ''queued'' \<and> t_assignee t = Some (q_assignee q)"
    if "q \<in> set (queued_rows (db s))" for q
    using that by (auto simp: queued_rows_def in_map_filter dest: queued_row_Some)
  have "row_is (q_id q) Queued (q_assignee q) s" if "q \<in> set (queued_rows (db s))" for q
    using row [OF that] db_inv_unique [OF inv] by (auto simp: row_is_def)
  moreover have "distinct (map q_id (queued_rows (db s)))"
    unfolding queued_rows_def
    by (rule distinct_map_filter [of _ _ t_id]) (use inv in \<open>auto simp: db_inv_def dest: queued_row_Some\<close>)
  ultimately show ?thesis using assms by (simp add: pending_def)
qed

section \<open>The auto-steal and auto-recovery passes\<close>

lemma leads_asks:
  assumes "\<And>a. leads (\<lambda>s. P s \<and> f s = a) I (g a)"
  shows "leads P I (bindE (asksE f) g)"
  using assms by (simp add: leads_def wp)

lemma leads_for:
  assumes "\<And>x. x \<in> set xs \<Longrightarrow> pres I (body x)"
  shows "pres I (forE xs body)"
  unfolding leads_def
proof (intro allI impI)
  fix s
  assume "I s"
  then show "wpE (forE xs body) (\<lambda>_. I) (\<lambda>_. I) s"
    by (intro wp_forE) (use assms in \<open>auto simp: leads_def\<close>)
qed

text \<open>A guarded update hits at most one row, and the new assignee is an agent of its startup.\<close>

lemma sched_hit:
  assumes k: "sched_kept c s"
    and hit: "hit = (\<lambda>t. t_id t = i \<and> t_status t = status_to_str a \<and> t_assignee t = Some old)"
    and move: "a = b \<or> sched_move a b" "\<not> has_worker (status_to_str b)"
    and f: "\<And>u. t_id (f u) = t_id u \<and> t_startup (f u) = t_startup u \<and> t_parent (f u) = t_parent u \<and>
      t_assignee (f u) = Some new \<and> (t_review_round (f u) = 0 \<or> t_review_round (f u) = t_review_round u) \<and>
      (t_status u = status_to_str a \<longrightarrow> t_status (f u) = status_to_str b)"
    and fk_ok: "filter hit (d_tasks (db s)) \<noteq> [] \<Longrightarrow> agent_of new sid s"
    and sid: "startup_of_task c i = Some sid"
  shows "sched_kept c (sql_pop s\<lparr>db := upd_tasks hit f (db s)\<rparr>)"
proof (cases "filter hit (d_tasks (db s)) = []")
  case True
  then have "map (\<lambda>t. if hit t then f t else t) (d_tasks (db s)) = d_tasks (db s)"
    by (intro map_idI) (auto simp: filter_empty_conv)
  then have "upd_tasks hit f (db s) = db s" by (simp add: upd_tasks_def update_rows_def)
  with k show ?thesis by (simp add: sched.I_simps)
next
  case False
  have inv: "db_inv (db s)" using k by (simp add: sched_kept_def)
  from False obtain t where "t \<in> set (d_tasks (db s))" "hit t" by (auto simp: filter_empty_conv)
  with db_inv_unique [OF inv] have t: "task_row (db s) i = Some t" "t_status t = status_to_str a"
    "t_assignee t = Some old" by (auto simp: hit)
  have u: "upd_tasks hit f (db s) = upd_task i f (db s)"
    unfolding hit
    using upd_tasks_seen [OF inv t(1), of "\<lambda>t. t_status t = status_to_str a \<and> t_assignee t = Some old"] t
    by simp
  have "startup_of_task (db s) i = Some (t_startup t)" using t(1) by (simp add: startup_of_task_def)
  then have "t_startup t = sid" using k sid by (simp add: sched_kept_def)
  then have "agent_of new (t_startup t) s" using fk_ok False by simp
  moreover have "task_ok (startup_of_agent (db s)) (startup_of_task (db s)) t"
    using db_inv_row [OF inv t(1)] by blast
  moreover have "t_status (f t) = status_to_str b" using f [of t] t(2) by blast
  ultimately have "task_ok (startup_of_agent (db s)) (startup_of_task (db s)) (f t)"
    using f [of t] move(2) by (auto simp: task_ok_def agent_of_def MAX_REVIEW_ROUNDS_def)
  moreover have "t_id (f v) = t_id v \<and> t_startup (f v) = t_startup v \<and> t_parent (f v) = t_parent v" for v
    using f by blast
  ultimately show ?thesis
    unfolding u using t(2) \<open>t_status (f t) = status_to_str b\<close>
    by (intro sched_write [OF k t(1) _ move(1), of f]) simp_all
qed

definition peer_known :: "ident \<Rightarrow> ident \<Rightarrow> sys \<Rightarrow> bool" where
  "peer_known p sid s \<longleftrightarrow> (\<exists>r. (p, p, sid, r) \<in> set (avatar_ids s))"

lemma idle_peer_known:
  assumes "idle_peer sid role current (avatars s) = Some p" and "sched_kept c s"
  shows "peer_known p sid s"
proof -
  from assms(1) obtain a where "(p, a) \<in> set (avatars s)" "av_startup_id a = sid"
    by (auto simp: idle_peer_def dest: find_SomeD)
  then have "(p, av_agent_id a, sid, av_role a) \<in> set (avatar_ids s)"
    by (force simp: avatar_ids_def)
  moreover from this assms(2) have "av_agent_id a = p" by (auto simp: sched_kept_def avatars_ok_def)
  ultimately show ?thesis by (auto simp: peer_known_def)
qed

lemma peer_agent:
  assumes "peer_known p sid s" and "sched_kept c s" and "agent_row (db s) p \<noteq> None"
  shows "agent_of p sid s"
  using assms by (auto simp: peer_known_def sched_kept_def avatars_ok_def agent_of_def startup_of_agent_def)

lemma sched_steal_row:
  assumes "startup_of_task c i = Some sid"
  shows "leads (\<lambda>s. sched_kept c s \<and> peer_known new sid s) (sched_kept c) (steal_row i old new)"
proof -
  let ?hit = "\<lambda>t. t_id t = i \<and> t_status t = status_to_str Queued \<and> t_assignee t = Some old"
  have "sched_kept c (sql_pop s\<lparr>db := upd_tasks ?hit
      (\<lambda>t. t\<lparr>t_assignee := Some new, t_updated_at := now_secs s\<rparr>) (db s)\<rparr>)"
    if "sched_kept c s" "peer_known new sid s" "filter ?hit (d_tasks (db s)) = [] \<or> agent_row (db s) new \<noteq> None"
    for s
    by (rule sched_hit [OF that(1) refl, where b = Queued and new = new and sid = sid])
       (use that assms peer_agent in \<open>auto simp: has_worker_def\<close>)
  then show ?thesis
    by (auto simp: leads_def wp steal_row_def Let_def sched.I_simps)
qed

lemma sched_recover_row:
  assumes "startup_of_task c i = Some sid"
  shows "leads (\<lambda>s. sched_kept c s \<and> peer_known new sid s) (sched_kept c) (recover_row i old new)"
proof -
  let ?hit = "\<lambda>t. t_id t = i \<and> t_status t = status_to_str ChangesRequested \<and> t_assignee t = Some old"
  have "sched_kept c (sql_pop s\<lparr>db := upd_tasks ?hit
      (\<lambda>t. t\<lparr>t_assignee := Some new, t_status := ''queued'', t_review_round := 0,
         t_updated_at := now_secs s\<rparr>) (db s)\<rparr>)"
    if "sched_kept c s" "peer_known new sid s" "filter ?hit (d_tasks (db s)) = [] \<or> agent_row (db s) new \<noteq> None"
    for s
    by (rule sched_hit [OF that(1) refl, where b = Queued and new = new and sid = sid])
       (use that assms peer_agent in \<open>auto simp: has_worker_def sched_move_def\<close>)
  then show ?thesis
    by (auto simp: leads_def wp recover_row_def Let_def sched.I_simps)
qed

lemma sched_peer:
  assumes "\<And>new. leads (\<lambda>s. sched_kept c s \<and> peer_known new sid s) (sched_kept c) (upd new)"
    and "\<And>new n. pres (sched_kept c) (rest new n)"
  shows "pres (sched_kept c) (bindE (asksE (\<lambda>s. idle_peer sid role current (avatars s))) (\<lambda>p. case p of
      None \<Rightarrow> ret () | Some peer \<Rightarrow> bindE (tryE (upd peer)) (\<lambda>res. case res of
         Inl _ \<Rightarrow> ret () | Inr n \<Rightarrow> rest peer n)))"
proof (rule leads_asks)
  fix p
  have "leads (\<lambda>s. sched_kept c s \<and> idle_peer sid role current (avatars s) = Some x) (sched_kept c)
      (tryE (upd x))" for x
    by (rule leads_weaken [OF pres_wrap(3) [OF assms(1)]]) (auto dest: idle_peer_known)
  then show "leads (\<lambda>s. sched_kept c s \<and> idle_peer sid role current (avatars s) = p) (sched_kept c)
      (case p of None \<Rightarrow> ret () | Some peer \<Rightarrow> bindE (tryE (upd peer)) (\<lambda>res. case res of
         Inl _ \<Rightarrow> ret () | Inr n \<Rightarrow> rest peer n))"
    by (cases p) (auto intro!: pres_bind pres_cases(4) assms(2) intro: leads_ret)
qed

lemma sched_steal_one:
  assumes "startup_of_task c i = Some sid"
  shows "pres (sched_kept c) (steal_one env sid (i, current))"
  unfolding steal_one_def prod.case
  by (intro sched_peer [OF sched_steal_row [OF assms]] pres)

lemma sched_recover_one:
  assumes "startup_of_task c i = Some sid"
  shows "pres (sched_kept c) (recover_one env sid (i, current, rnd))"
  unfolding recover_one_def prod.case Let_def
  by (intro sched_peer [OF sched_recover_row [OF assms]] pres)

text \<open>The rows of a pass belong to the startup it runs for.\<close>

lemma leads_rows:
  assumes "\<And>s x. sched_kept c s \<Longrightarrow> x \<in> set (rows (db s)) \<Longrightarrow> pres (sched_kept c) (body x)"
  shows "pres (sched_kept c) (bindE (orDefault [] (sql_query rows)) (\<lambda>xs. forE xs body))"
proof -
  have "wpE (forE (rows (db s)) body) (\<lambda>_. sched_kept c) (\<lambda>_. sched_kept c) (sql_pop s)"
    if s: "sched_kept c s" for s
  proof (rule leadsD)
    show "pres (sched_kept c) (forE (rows (db s)) body)"
      by (rule leads_for) (rule assms [OF s])
  qed (rule sched.I_simps(1) [OF s])
  then show ?thesis by (simp add: leads_def wp sched.I_simps)
qed

lemma kept_row_startup:
  assumes "sched_kept c s" and "t \<in> set (d_tasks (db s))"
  shows "startup_of_task c (t_id t) = Some (t_startup t)"
proof -
  have r: "task_row (db s) (t_id t) = Some t"
    using assms db_inv_unique by (simp add: sched_kept_def)
  have "startup_of_task (db s) (t_id t) = Some (t_startup t)"
    by (simp add: startup_of_task_def r)
  with assms(1) show ?thesis by (simp add: sched_kept_def)
qed

lemma sched_auto_steal: "pres (sched_kept c) (auto_steal_pass env)"
proof -
  have "pres (sched_kept c) (steal_one env sid x)"
    if "sched_kept c s" "x \<in> set (stale_rows sid cut (db s))" for s x sid cut
    using that kept_row_startup [OF that(1)]
    by (auto simp: stale_rows_def in_map_filter split: if_splits intro!: sched_steal_one)
  then show ?thesis
    unfolding auto_steal_pass_def by (intro pres_bind pres leads_rows)
qed

lemma sched_auto_recovery: "pres (sched_kept c) (auto_recovery_pass env)"
proof -
  have "pres (sched_kept c) (recover_one env sid x)"
    if "sched_kept c s" "x \<in> set (recovery_rows sid m (db s))" for s x sid m
    using that kept_row_startup [OF that(1)]
    by (auto simp: recovery_rows_def in_map_filter split: if_splits intro!: sched_recover_one)
  then show ?thesis
    unfolding auto_recovery_pass_def by (intro pres_bind pres leads_rows)
qed

lemma sched_tick: "pres (sched_kept c) (tick env spw)"
proof -
  have loop: "leads (pending c qs) (sched_kept c) (countE qs (dispatch_one env spw))" for qs
    by (rule leads_weaken [where P = "pending c qs"], unfold leads_def, intro allI impI,
        rule wp_mono [OF leadsD [OF leads_countE [of "pending c", OF leads_dispatch]]])
       (auto simp: pending_def)
  have "wpE (bindE (countE (queued_rows (db s)) (dispatch_one env spw)) (\<lambda>dispatched.
      thenE (deadline_scan env) (thenE (auto_steal_pass env) (thenE (auto_recovery_pass env) (ret dispatched)))))
      (\<lambda>_. sched_kept c) (\<lambda>_. sched_kept c) (sql_pop s)" if s: "sched_kept c s" for s
  proof (rule leadsD)
    show "leads (pending c (queued_rows (db s))) (sched_kept c)
      (bindE (countE (queued_rows (db s)) (dispatch_one env spw)) (\<lambda>dispatched. thenE (deadline_scan env)
        (thenE (auto_steal_pass env) (thenE (auto_recovery_pass env) (ret dispatched)))))"
      by (intro pres_bind [OF loop] pres_then sched_auto_steal sched_auto_recovery
          sched.pres_deadline_scan pres_basic)
    show "pending c (queued_rows (db s)) (sql_pop s)"
      using queued_rows_pending [OF s] by (rule pending.I_simps)
  qed
  then show ?thesis by (simp add: tick_def leads_def wp sched.I_simps)
qed

end
