(* ===== verification/Sample.thy ===== *)
theory Sample
  imports McpTools
begin

text \<open>
  A small concrete world on which the properties are exercised: startup \<open>s1\<close> with a founder \<open>m1\<close> and
  two engineers, its suite, a parent task with one subtask in progress and one queued, and no pending
  SQL failure.
\<close>

definition sample_task :: "ident \<Rightarrow> ident option \<Rightarrow> ident \<Rightarrow> string \<Rightarrow> task" where
  "sample_task i parent assignee status =
     (new_task i ''s1'' parent ''title'' ''text'' status (Some assignee) None 100)"

definition sample_agent :: "ident \<Rightarrow> string \<Rightarrow> ident option \<Rightarrow> int \<Rightarrow> agent" where
  "sample_agent i role manager peer = \<lparr> ag_id = i, ag_startup = ''s1'', ag_name = i, ag_role = role,
     ag_backend = ''claude_code'', ag_model = ''gpt-4o'', ag_position = [], ag_home_room = ''suite_1'',
     ag_manager = manager, ag_is_peer_reviewer = peer \<rparr>"

definition sample_startup :: startup where
  "sample_startup = \<lparr> su_id = ''s1'', su_name = ''one'', su_cap = 10, su_spent = 7,
     su_workspace = ''/ws'', su_status = ''active'', su_auto_steal_enabled = 1,
     su_auto_steal_after_secs = 60, su_auto_recovery_enabled = 1, su_auto_recovery_max_attempts = 2,
     su_goal = ''goal'', su_town = ''town_default'', su_created_at = 0 \<rparr>"

definition sample_operator :: operator_row where
  "sample_operator = \<lparr> op_id = ''o1'', op_name = ''Ada'', op_token = None, op_token_hash = Some ''h1'',
     op_role = ''admin'', op_created_at = 0 \<rparr>"

definition sample_db :: database where
  "sample_db = \<lparr>
     d_tasks = [sample_task ''p1'' None ''m1'' ''in_progress'',
       sample_task ''t1'' (Some ''p1'') ''e1'' ''in_progress'',
       sample_task ''t2'' (Some ''p1'') ''e2'' ''queued'',
       sample_task ''t3'' (Some ''p1'') ''e1'' ''awaiting_review'',
       sample_task ''t4'' (Some ''p1'') ''e1'' ''proposed''],
     d_agents = [sample_agent ''m1'' ''founder'' None 0, sample_agent ''e1'' ''engineer'' (Some ''m1'') 0,
       sample_agent ''e2'' ''engineer'' (Some ''m1'') 1],
     d_startups = [sample_startup],
     d_messages = [], d_budget_events = [], d_fs_audit = [], d_system_events = [],
     d_operators = [sample_operator],
     d_locks = [], d_skills = [], d_agent_skills = [], d_skill_files = [], d_skill_revisions = [],
     d_towns = [], d_rooms = [], d_doors = [] \<rparr>"

definition sample_avatar :: "ident \<Rightarrow> string \<Rightarrow> string \<Rightarrow> avatar" where
  "sample_avatar i role status = \<lparr> av_agent_id = i, av_startup_id = ''s1'', av_role = role,
     av_backend = ''claude_code'', av_current_pos = (3, 3), av_target_pos = None, av_room_id = ''suite_1'',
     av_status = status, av_last_seen_at = None, av_health = Offline \<rparr>"

definition sample_sys :: sys where
  "sample_sys = \<lparr> tick_seq = 0, catalog = [],
     avatars = [(''m1'', sample_avatar ''m1'' ''founder'' ''working''),
       (''e1'', sample_avatar ''e1'' ''engineer'' ''working''),
       (''e2'', sample_avatar ''e2'' ''engineer'' ''idle'')],
     paths = [], layout = default_town,
     out_bus = [(''m1'', \<lparr> ch_queue = [], ch_is_open = True \<rparr>), (''e2'', \<lparr> ch_queue = [], ch_is_open = True \<rparr>)],
     db = sample_db, frames = [], now_ms = 1000000, uuid_ctr = 0, faults = [] \<rparr>"

lemmas sample_defs = sample_sys_def sample_db_def sample_startup_def sample_operator_def
  sample_task_def sample_agent_def sample_avatar_def
  new_task_def

lemma sample_fields [simp]:
  "db sample_sys = sample_db" "faults sample_sys = []" "now_ms sample_sys = 1000000"
  "uuid_ctr sample_sys = 0" "paths sample_sys = []" "layout sample_sys = default_town"
  "frames sample_sys = []" "d_locks sample_db = []" "d_operators sample_db = [sample_operator]"
  "d_skills sample_db = []" "d_agent_skills sample_db = []" "d_skill_files sample_db = []"
  "d_skill_revisions sample_db = []" "d_startups sample_db = [sample_startup]"
  by (simp_all add: sample_sys_def sample_db_def)

lemma sample_rows:
  "startup_row sample_db ''s1'' = Some sample_startup"
  "agent_row sample_db ''m1'' = Some (sample_agent ''m1'' ''founder'' None 0)"
  "agent_row sample_db ''e1'' = Some (sample_agent ''e1'' ''engineer'' (Some ''m1'') 0)"
  "agent_row sample_db ''e2'' = Some (sample_agent ''e2'' ''engineer'' (Some ''m1'') 1)"
  "task_row sample_db ''p1'' = Some (sample_task ''p1'' None ''m1'' ''in_progress'')"
  "task_row sample_db ''t1'' = Some (sample_task ''t1'' (Some ''p1'') ''e1'' ''in_progress'')"
  "task_row sample_db ''t2'' = Some (sample_task ''t2'' (Some ''p1'') ''e2'' ''queued'')"
  "task_row sample_db ''t3'' = Some (sample_task ''t3'' (Some ''p1'') ''e1'' ''awaiting_review'')"
  "task_row sample_db ''t4'' = Some (sample_task ''t4'' (Some ''p1'') ''e1'' ''proposed'')"
  by (simp_all add: sample_sys_def sample_db_def sample_startup_def sample_task_def sample_agent_def
      new_task_def startup_row_def agent_row_def task_row_def)

definition sample_env :: env where
  "sample_env = tiny_env\<lparr>e_astar_room := dfs_astar 8, e_astar_tile := dfs_astar 30,
     e_graph := graph_from_layout default_town\<rparr>"

lemma sample_env_contract:
  "astar_contract (e_astar_room sample_env)" "astar_contract (e_astar_tile sample_env)"
  by (simp_all add: sample_env_def dfs_astar_contract)

end
