(* ===== verification/Budget.thy ===== *)
theory Budget
  imports TaskInv Sample
begin

text \<open>
  Budget accounting, \<open>budget.rs\<close>: prices, the threshold a report newly crosses, the booking of a
  report and the frames a tripped threshold sends. Amounts are \<open>f64\<close> in the code and \<open>real\<close> here: a
  JSON number is finite, and rounding is not modelled.
\<close>

section \<open>Prices and thresholds\<close>

definition price_per_mtok :: "string \<Rightarrow> (real \<times> real) option" where
  "price_per_mtok m =
     (if m = ''claude-3-5-sonnet'' \<or> m = ''claude-3-5-sonnet-20241022'' then Some (3, 15)
      else if m = ''claude-3-5-haiku'' \<or> m = ''claude-3-5-haiku-20241022'' then Some (1, 5)
      else if m = ''claude-3-opus'' \<or> m = ''claude-3-opus-20240229'' then Some (15, 75)
      else if m = ''gpt-4o'' \<or> m = ''gpt-4o-2024-08-06'' then Some (5 / 2, 10)
      else if m = ''gpt-4o-mini'' then Some (15 / 100, 60 / 100)
      else if m = ''gpt-5-chatgpt'' then Some (125 / 100, 10)
      else if m = ''opencode-default'' then Some (1, 5)
      else None)"

definition cost_usd :: "string \<Rightarrow> int \<Rightarrow> int \<Rightarrow> real" where
  "cost_usd m in_tokens out_tokens =
     (let (in_p, out_p) = (case price_per_mtok m of Some p \<Rightarrow> p | None \<Rightarrow> (0, 0)) in
      (of_int in_tokens / 1000000) * in_p + (of_int out_tokens / 1000000) * out_p)"

datatype threshold = Warn80 | Warn95 | Pause100

definition newly_crossed :: "real \<Rightarrow> real \<Rightarrow> real \<Rightarrow> threshold option" where
  "newly_crossed prev_spent new_spent cap =
     (if cap \<le> 0 then None
      else let was = prev_spent / cap; now = new_spent / cap in
        (if was < 1 \<and> now \<ge> 1 then Some Pause100
         else if was < 95 / 100 \<and> now \<ge> 95 / 100 then Some Warn95
         else if was < 80 / 100 \<and> now \<ge> 80 / 100 then Some Warn80
         else None))"

section \<open>Booking a report\<close>

text \<open>The cast \<open>as i64\<close> of a \<open>u64\<close>.\<close>

definition cast_i64 :: "int \<Rightarrow> int" where
  "cast_i64 i = (i + 2 ^ 63) mod 2 ^ 64 - 2 ^ 63"

definition report_cost :: "string \<Rightarrow> int \<Rightarrow> int \<Rightarrow> real option \<Rightarrow> real" where
  "report_cost m in_tokens out_tokens cost_override =
     (case cost_override of
        Some c \<Rightarrow> if c \<ge> 0 then c else cost_usd m in_tokens out_tokens
      | None \<Rightarrow> cost_usd m in_tokens out_tokens)"

definition apply_report :: "env \<Rightarrow> ident \<Rightarrow> ident \<Rightarrow> ident option \<Rightarrow> string \<Rightarrow> int \<Rightarrow> int \<Rightarrow>
    real option \<Rightarrow> (sys, sql_error, real \<times> real \<times> threshold option) sem" where
  "apply_report env startup_id agent_id task_id m in_tokens out_tokens cost_override =
     (let cost = report_cost m in_tokens out_tokens cost_override in
      bindE (sql_query (\<lambda>d. map_option (\<lambda>su. (su_spent su, su_cap su)) (startup_row d startup_id)))
        (\<lambda>row. case row of
          None \<Rightarrow> ret (0, 0, None)
        | Some (prev_spent, cap) \<Rightarrow>
            let new_spent = prev_spent + cost in
            thenE (sql_exec (\<lambda>s. upd_startup startup_id (\<lambda>su. su\<lparr>su_spent := new_spent\<rparr>) (db s)))
            (thenE (ignoreE (record_budget_event env startup_id agent_id task_id (cast_i64 in_tokens)
                (cast_i64 out_tokens) cost m))
            (ret (new_spent, cap, newly_crossed prev_spent new_spent cap)))))"

section \<open>Frames and events of a tripped threshold\<close>

text \<open>The loop \<open>pause_startup\<close> and \<open>warn_startup\<close> share: every worker of the startup with a channel.\<close>

definition send_startup :: "json \<Rightarrow> ident \<Rightarrow> (sys, 'e, nat) sem" where
  "send_startup payload startup_id =
     bindE (asksE avatars) (\<lambda>avs.
     countE avs (\<lambda>(agent_id, av).
       if av_startup_id av \<noteq> startup_id then ret 0
       else bindE (asksE (\<lambda>s. map_of (out_bus s) agent_id \<noteq> None)) (\<lambda>present.
         if present then thenE (send_to agent_id payload) (ret 1) else ret 0)))"

definition pause_json :: json where
  "pause_json = JObj [(''type'', JStr ''pause''), (''v'', JInt 1), (''reason'', JStr ''budget_exhausted'')]"

definition pause_startup :: "ident \<Rightarrow> (sys, 'e, nat) sem" where
  "pause_startup startup_id = send_startup pause_json startup_id"

definition warn_json :: "real \<Rightarrow> int \<Rightarrow> json" where
  "warn_json remaining_usd percent_used = JObj [(''type'', JStr ''budget_warning''), (''v'', JInt 1),
     (''remaining_usd'', JReal remaining_usd), (''percent_used'', JInt percent_used)]"

definition warn_startup :: "ident \<Rightarrow> real \<Rightarrow> int \<Rightarrow> (sys, 'e, nat) sem" where
  "warn_startup startup_id remaining_usd percent_used =
     send_startup (warn_json remaining_usd percent_used) startup_id"

fun threshold_event :: "threshold \<Rightarrow> string \<times> string" where
  "threshold_event Warn80 = (''warn'', ''budget_warn_80'')"
| "threshold_event Warn95 = (''warn'', ''budget_warn_95'')"
| "threshold_event Pause100 = (''alert'', ''budget_pause_100'')"

definition record_threshold_event :: "env \<Rightarrow> ident \<Rightarrow> threshold \<Rightarrow> real \<Rightarrow> real \<Rightarrow>
    (sys, 'e, unit) sem" where
  "record_threshold_event env startup_id t spent cap =
     (case threshold_event t of (severity, kind) \<Rightarrow>
        ignoreE (emit_system_event env (Some startup_id) kind
          (JObj [(''startup_id'', JStr startup_id), (''spent_usd'', JReal spent), (''cap_usd'', JReal cap)])
          severity))"

section \<open>What the booking keeps\<close>

context plain_invariant begin

lemma pres_upd_startup [pres]: "pres I (sql_exec (\<lambda>s. upd_startup i f (db s)))"
  by (simp add: leads_def wp I_simps)

lemma pres_apply_report [pres]: "pres I (apply_report env sid a t m i out c)"
  unfolding apply_report_def Let_def
  by (intro pres) (simp_all add: leads_def wp record_budget_event_def I_simps split: option.split)

lemma pres_threshold [pres]:
  "pres I (send_startup p sid)" "pres I (record_threshold_event env sid t x y)"
  unfolding send_startup_def record_threshold_event_def by (intro pres)+

lemma pres_threshold_frames [pres]: "pres I (pause_startup sid)" "pres I (warn_startup sid x n)"
  unfolding pause_startup_def warn_startup_def by (intro pres)+

end

section \<open>Thresholds and costs\<close>

lemma newly_crossed_pause:
  "newly_crossed p n cap = Some Pause100 \<longleftrightarrow> 0 < cap \<and> p < cap \<and> cap \<le> n"
  by (auto simp: newly_crossed_def Let_def divide_less_eq le_divide_eq not_le)

lemma cost_usd_nonneg: "0 \<le> i \<Longrightarrow> 0 \<le> out \<Longrightarrow> 0 \<le> cost_usd m i out"
  by (simp add: cost_usd_def price_per_mtok_def split: if_splits)

lemma report_cost_nonneg: "0 \<le> i \<Longrightarrow> 0 \<le> out \<Longrightarrow> 0 \<le> report_cost m i out c"
  by (simp add: report_cost_def cost_usd_nonneg split: option.split)

text \<open>Without SQL failures a report on a known startup adds its cost to the spend and returns the new
  spend, the cap and the threshold it newly crosses; an event row is appended exactly when the agent
  exists and the task, if the report names one, exists too.\<close>

lemma report_is_booked:
  assumes "faults s = []" and "startup_row (db s) sid = Some su"
    and "apply_report env sid a t m i out c s = (r, s')"
  shows "r = Inr (su_spent su + report_cost m i out c, su_cap su,
      newly_crossed (su_spent su) (su_spent su + report_cost m i out c) (su_cap su)) \<and>
    startup_row (db s') sid = Some (su\<lparr>su_spent := su_spent su + report_cost m i out c\<rparr>) \<and>
    length (d_budget_events (db s')) = length (d_budget_events (db s)) +
      (if agent_row (db s) a \<noteq> None \<and> refs (task_row (db s)) t then 1 else 0)"
proof -
  have row: "startup_row (upd_startup sid f d) sid = map_option f (startup_row d sid)"
    if "\<And>x. su_id (f x) = su_id x" for f d
    using that by (simp add: startup_row_def upd_startup_def find_row_update)
  have keep: "startup_row (d\<lparr>d_budget_events := b\<rparr>) = startup_row d"
    "agent_row (upd_startup sid f d) = agent_row d"
    "d_budget_events (upd_startup sid f d) = d_budget_events d" for d b f
    by (simp_all add: startup_row_def [abs_def] agent_row_def [abs_def] upd_startup_def)
  let ?Q = "\<lambda>v s'. v = (su_spent su + report_cost m i out c, su_cap su,
      newly_crossed (su_spent su) (su_spent su + report_cost m i out c) (su_cap su)) \<and>
    startup_row (db s') sid = Some (su\<lparr>su_spent := su_spent su + report_cost m i out c\<rparr>) \<and>
    length (d_budget_events (db s')) = length (d_budget_events (db s)) +
      (if agent_row (db s) a \<noteq> None \<and> refs (task_row (db s)) t then 1 else 0)"
  have "wpE (apply_report env sid a t m i out c) ?Q (\<lambda>_ _. False) s"
    using assms(1,2)
    by (simp add: apply_report_def Let_def wp record_budget_event_def row keep)
  from wpE_run [OF this assms(3)] show ?thesis by blast
qed

end
