(* ===== verification/Locks.thy ===== *)
theory Locks
  imports TaskInv Sample
begin

text \<open>
  Soft locks on destructive operator actions, \<open>action_locks.rs\<close>. The uniqueness of \<open>lock_key\<close> is the
  test-and-set; an expired row is swept before the insert and by a periodic collection.
\<close>

definition DEFAULT_TTL_SECS :: int where
  "DEFAULT_TTL_SECS = 30"

text \<open>\<open>LockInfo\<close> and \<open>LockConflict\<close> have the same fields.\<close>

record lock_info =
  li_key :: string
  li_operator :: ident
  li_operator_name :: string
  li_expires_at :: int

datatype acquire_error = Conflict lock_info | ASql sql_error

definition lock_row :: "database \<Rightarrow> string \<Rightarrow> action_lock option" where
  "lock_row d k = find_row al_key k (d_locks d)"

definition upd_locks :: "(action_lock list \<Rightarrow> action_lock list) \<Rightarrow> database \<Rightarrow> database" where
  "upd_locks f d = d\<lparr>d_locks := f (d_locks d)\<rparr>"

text \<open>\<open>COALESCE(o.name, l.operator_id)\<close> over the left join.\<close>

definition operator_name_or_id :: "database \<Rightarrow> ident \<Rightarrow> string" where
  "operator_name_or_id d i = (case operator_row_of d i of Some r \<Rightarrow> op_name r | None \<Rightarrow> i)"

definition lock_info_of :: "database \<Rightarrow> action_lock \<Rightarrow> lock_info" where
  "lock_info_of d l = \<lparr> li_key = al_key l, li_operator = al_operator l,
     li_operator_name = operator_name_or_id d (al_operator l), li_expires_at = al_expires_at l \<rparr>"

definition insert_lock :: "ident \<Rightarrow> string \<Rightarrow> ident \<Rightarrow> int \<Rightarrow> int \<Rightarrow> (sys, sql_error, unit) sem" where
  "insert_lock i k operator_id now expires_at = sql_checked
     (\<lambda>d. if find_row al_id i (d_locks d) \<noteq> None \<or> lock_row d k \<noteq> None then Some UniqueViolation
          else fk (operator_row_of d operator_id \<noteq> None))
     (\<lambda>s. upd_locks (\<lambda>ls. ls @ [\<lparr> al_id = i, al_key = k, al_operator = operator_id,
        al_acquired_at = now, al_expires_at = expires_at \<rparr>]) (db s))"

definition try_acquire :: "env \<Rightarrow> string \<Rightarrow> ident \<Rightarrow> int \<Rightarrow> (sys, acquire_error, lock_info) sem" where
  "try_acquire env k operator_id ttl_secs =
     bindE (asksE now_secs) (\<lambda>now.
     let expires_at = now + ttl_secs in
     thenE (mapErr ASql (sql_exec (\<lambda>s.
         upd_locks (delete_rows (\<lambda>l. al_key l = k \<and> al_expires_at l < now)) (db s))))
     (bindE (fresh_uuid env) (\<lambda>i.
      bindE (tryE (insert_lock i k operator_id now expires_at)) (\<lambda>r. case r of
        Inr _ \<Rightarrow>
          bindE (mapErr ASql (sql_query (\<lambda>d. operator_name_or_id d operator_id))) (\<lambda>name.
          ret \<lparr> li_key = k, li_operator = operator_id, li_operator_name = name,
            li_expires_at = expires_at \<rparr>)
      | Inl e \<Rightarrow>
          (if e = UniqueViolation then
             bindE (mapErr ASql (sql_query (\<lambda>d. map_option (lock_info_of d) (lock_row d k)))) (\<lambda>row.
             throw (Conflict (case row of
                 Some li \<Rightarrow> li\<lparr>li_key := k\<rparr>
               | None \<Rightarrow> \<lparr> li_key = k, li_operator = ''?'', li_operator_name = ''?'', li_expires_at = 0 \<rparr>)))
           else throw (ASql e))))))"

definition release :: "string \<Rightarrow> (sys, sql_error, bool) sem" where
  "release k = sql_stmt (\<lambda>s. Inr (lock_row (db s) k \<noteq> None,
     upd_locks (delete_rows (\<lambda>l. al_key l = k)) (db s)))"

definition gc_expired :: "int \<Rightarrow> (sys, sql_error, string list) sem" where
  "gc_expired now =
     bindE (sql_query (\<lambda>d. map al_key (filter (\<lambda>l. al_expires_at l < now) (d_locks d)))) (\<lambda>stale.
     if stale = [] then ret []
     else thenE (sql_exec (\<lambda>s. upd_locks (delete_rows (\<lambda>l. al_expires_at l < now)) (db s))) (ret stale))"

definition list_active :: "int \<Rightarrow> (sys, sql_error, lock_info list) sem" where
  "list_active now = sql_query (\<lambda>d.
     map (lock_info_of d) (filter (\<lambda>l. al_expires_at l \<ge> now) (d_locks d)))"

text \<open>The body of the collection task of \<open>loop_.rs\<close>.\<close>

definition lock_gc_tick :: "(sys, 'e, unit) sem" where
  "lock_gc_tick =
     bindE (asksE now_secs) (\<lambda>now.
     bindE (tryE (gc_expired now)) (\<lambda>r. case r of
       Inl _ \<Rightarrow> ret ()
     | Inr ks \<Rightarrow> forE ks (\<lambda>k. broadcast (FActionUnlocked k))))"

section \<open>The invariant of the lock table\<close>

definition lock_inv :: "database \<Rightarrow> bool" where
  "lock_inv d \<longleftrightarrow> distinct (map al_key (d_locks d))"

lemma lock_row_upd_locks: "lock_row (upd_locks f d) k = find_row al_key k (f (d_locks d))"
  by (simp add: lock_row_def upd_locks_def)

lemma d_locks_upd_locks: "d_locks (upd_locks f d) = f (d_locks d)"
  by (simp add: upd_locks_def)

lemma operator_row_upd_locks [simp]:
  "operator_row_of (upd_locks f d) = operator_row_of d" "operator_name_or_id (upd_locks f d) = operator_name_or_id d"
  by (simp_all add: operator_row_of_def [abs_def] operator_name_or_id_def [abs_def] upd_locks_def)

lemma same_core_locks [simp]: "same_core d (upd_locks f d)"
  by (simp add: same_core_def upd_locks_def)

lemma lock_inv_delete: "lock_inv d \<Longrightarrow> lock_inv (upd_locks (delete_rows p) d)"
  by (auto simp: lock_inv_def upd_locks_def delete_rows_def distinct_map inj_on_def)

lemma lock_inv_insert:
  "lock_inv d \<Longrightarrow> lock_row d (al_key l) = None \<Longrightarrow> lock_inv (upd_locks (\<lambda>ls. ls @ [l]) d)"
  by (auto simp: lock_inv_def upd_locks_def lock_row_def find_row_None)

lemma find_row_delete_live:
  "distinct (map al_key ls) \<Longrightarrow> find_row al_key k ls = Some l \<Longrightarrow> \<not> p l \<Longrightarrow>
     find_row al_key k (delete_rows p ls) = Some l"
  by (induction ls) (auto simp: delete_rows_def split: if_splits)

context plain_invariant begin

lemma pres_lock_table [pres]:
  "pres I (sql_exec (\<lambda>s. upd_locks (f s) (db s)))"
  "pres I (sql_stmt (\<lambda>s. Inr (g s, upd_locks (f s) (db s))))"
  "pres I (insert_lock i k o' n e)"
  by (simp_all add: leads_def wp I_simps insert_lock_def split: option.split)

lemma pres_locks [pres]: "pres I (try_acquire env k o' ttl)" "pres I (release k)" "pres I (gc_expired n)"
    "pres I (list_active n)"
  unfolding try_acquire_def release_def gc_expired_def list_active_def Let_def
  by (intro pres)+

lemma pres_lock_gc [pres]: "pres I lock_gc_tick"
  unfolding lock_gc_tick_def by (intro pres)

end

lemma try_acquire_inv:
  "lock_inv (db s) \<Longrightarrow> wpE (try_acquire env k o' ttl) (\<lambda>_ s'. lock_inv (db s')) (\<lambda>_ s'. lock_inv (db s')) s"
  by (auto simp: try_acquire_def wp Let_def insert_lock_def lock_inv_delete lock_inv_insert
      split: option.split)

text \<open>While a lock has not expired every other acquisition of its action is refused without touching
  the holder's row: it ends in a conflict that names the holder and the expiry, or in an SQL failure.\<close>

lemma live_lock_excludes_others:
  assumes "lock_inv (db s)" and "lock_row (db s) k = Some l" and "now_secs s \<le> al_expires_at l"
  shows "lock_row (db (snd (try_acquire env k op ttl s))) k = Some l \<and>
    (fst (try_acquire env k op ttl s) = Inl (Conflict (lock_info_of (db s) l)) \<or>
     fst (try_acquire env k op ttl s) = Inl (ASql SqlFault))"
proof -
  have k: "al_key l = k" using assms(2) by (auto simp: lock_row_def dest: find_row_Some)
  have live: "find_row al_key k (delete_rows (\<lambda>l. al_key l = k \<and> al_expires_at l < now_secs s) (d_locks (db s))) = Some l"
    using assms by (intro find_row_delete_live) (auto simp: lock_inv_def lock_row_def)
  have info: "lock_info_of (upd_locks f d) l = lock_info_of d l" for f d by (simp add: lock_info_of_def)
  have self: "lock_info_of d l\<lparr>li_key := k\<rparr> = lock_info_of d l" for d by (simp add: lock_info_of_def k)
  have "wpE (try_acquire env k op ttl) (\<lambda>_ _. False) (\<lambda>e s'. lock_row (db s') k = Some l \<and>
      (e = Conflict (lock_info_of (db s) l) \<or> e = ASql SqlFault)) s"
    using live assms(2)
    by (simp add: try_acquire_def wp Let_def insert_lock_def lock_row_upd_locks info self)
  then show ?thesis by (auto simp: wpE_def split: prod.splits sum.splits)
qed

section \<open>Lock operations of concurrent operators\<close>

text \<open>The steps of the lock table between which the keys of \<open>K\<close> are not released: any operator tries
  to acquire any key for any time, releases a key outside \<open>K\<close>, the collection runs, time passes.\<close>

inductive lock_step :: "env \<Rightarrow> string set \<Rightarrow> sys \<Rightarrow> sys \<Rightarrow> bool" for env K where
  acquire: "lock_step env K s (snd (try_acquire env k operator_id ttl s))"
| release: "k \<notin> K \<Longrightarrow> lock_step env K s (snd (release k s))"
| collect: "lock_step env K s (snd ((lock_gc_tick :: (sys, sql_error, unit) sem) s))"
| clock: "now_ms s \<le> n \<Longrightarrow> lock_step env K s (s\<lparr>now_ms := n\<rparr>)"

lemma lock_step_inv:
  assumes "lock_inv (db s)" and "lock_step env K s s'"
  shows "lock_inv (db s')"
  using assms(2)
proof cases
  case (acquire k operator_id ttl)
  with try_acquire_inv [OF assms(1), of env k operator_id ttl] show ?thesis by (simp add: wp_snd)
next
  case (release k)
  have "wpE (release k) (\<lambda>_ s'. lock_inv (db s')) (\<lambda>_ s'. lock_inv (db s')) s"
    using assms(1) by (simp add: release_def wp lock_inv_delete)
  with release show ?thesis by (simp add: wp_snd)
next
  case collect
  have "wpE lock_gc_tick (\<lambda>_ s'. lock_inv (db s')) (\<lambda>(_ :: sql_error) s'. lock_inv (db s')) s"
    unfolding lock_gc_tick_def gc_expired_def
    by (simp add: wp lock_inv_delete assms(1)) (auto intro!: wp_forE simp: wp assms(1) lock_inv_delete)
  with collect show ?thesis by (simp add: wp_snd)
next
  case (clock n)
  with assms(1) show ?thesis by simp
qed

text \<open>A row that has not expired survives every step that does not release its key.\<close>

definition held :: "string \<Rightarrow> action_lock \<Rightarrow> sys \<Rightarrow> bool" where
  "held k l s \<longleftrightarrow> lock_inv (db s) \<and> (now_secs s \<le> al_expires_at l \<longrightarrow> lock_row (db s) k = Some l)"

lemma live_row_kept:
  assumes "lock_inv (db s)" and "lock_row (db s) k = Some l" and "\<not> p l"
  shows "lock_row (upd_locks (delete_rows p) (db s)) k = Some l"
  using assms find_row_delete_live [of "d_locks (db s)" k l p]
  by (simp add: lock_inv_def lock_row_upd_locks) (simp add: lock_row_def)

lemma live_kept_by_acquire:
  assumes "lock_inv (db s)" and "lock_row (db s) k = Some l" and "now_secs s \<le> al_expires_at l"
  shows "lock_row (db (snd (try_acquire env k' op' ttl s))) k = Some l \<and>
    now_ms (snd (try_acquire env k' op' ttl s)) = now_ms s"
proof -
  have live: "find_row al_key k (delete_rows (\<lambda>l. al_key l = k' \<and> al_expires_at l < now_secs s) (d_locks (db s))) = Some l"
    using assms by (intro find_row_delete_live) (auto simp: lock_inv_def lock_row_def)
  have "wpE (try_acquire env k' op' ttl) (\<lambda>_ t. lock_row (db t) k = Some l \<and> now_ms t = now_ms s)
      (\<lambda>_ t. lock_row (db t) k = Some l \<and> now_ms t = now_ms s) s"
    using live assms(2)
    by (simp add: try_acquire_def wp Let_def insert_lock_def lock_row_upd_locks d_locks_upd_locks find_row_append
        split: option.split)
  then show ?thesis by (simp add: wp_snd)
qed

lemma live_kept_by_release:
  assumes "lock_inv (db s)" and "lock_row (db s) k = Some l" and "k' \<noteq> k"
  shows "lock_row (db (snd (release k' s))) k = Some l \<and> now_ms (snd (release k' s)) = now_ms s"
proof -
  have "al_key l = k" using assms(2) by (auto simp: lock_row_def dest: find_row_Some)
  then have "lock_row (upd_locks (delete_rows (\<lambda>l. al_key l = k')) (db s)) k = Some l"
    using assms by (intro live_row_kept) auto
  then have "wpE (release k') (\<lambda>_ t. lock_row (db t) k = Some l \<and> now_ms t = now_ms s)
      (\<lambda>_ t. lock_row (db t) k = Some l \<and> now_ms t = now_ms s) s"
    using assms(2) by (simp add: release_def wp)
  then show ?thesis by (simp add: wp_snd)
qed

lemma live_kept_by_collect:
  assumes "lock_inv (db s)" and "lock_row (db s) k = Some l" and "now_secs s \<le> al_expires_at l"
  shows "lock_row (db (snd ((lock_gc_tick :: (sys, sql_error, unit) sem) s))) k = Some l \<and>
    now_ms (snd ((lock_gc_tick :: (sys, sql_error, unit) sem) s)) = now_ms s"
proof -
  let ?I = "\<lambda>t. lock_row (db t) k = Some l \<and> now_ms t = now_ms s"
  have live: "lock_row (upd_locks (delete_rows (\<lambda>l. al_expires_at l < now_secs s)) (db s)) k = Some l"
    using assms by (intro live_row_kept) auto
  have "wpE lock_gc_tick (\<lambda>_. ?I) (\<lambda>(_ :: sql_error). ?I) s"
    unfolding lock_gc_tick_def gc_expired_def
    by (simp add: wp live assms(2)) (auto intro!: wp_forE simp: wp assms(2) live)
  then show ?thesis by (simp add: wp_snd)
qed

lemma held_step:
  assumes "held k l s" and "lock_step env {k} s t"
  shows "held k l t"
proof -
  have inv: "lock_inv (db s)" and row: "now_secs s \<le> al_expires_at l \<Longrightarrow> lock_row (db s) k = Some l"
    using assms(1) by (auto simp: held_def)
  have "lock_inv (db t)" using inv assms(2) by (rule lock_step_inv)
  moreover have "lock_row (db t) k = Some l" if "now_secs t \<le> al_expires_at l"
    using assms(2)
  proof cases
    case (acquire k' o' ttl)
    show ?thesis
    proof (cases "now_secs s \<le> al_expires_at l")
      case True
      then show ?thesis using live_kept_by_acquire [OF inv row [OF True] True, of env k' o' ttl] acquire by simp
    next
      case False
      have "wpE (try_acquire env k' o' ttl) (\<lambda>_ t. now_ms t = now_ms s) (\<lambda>_ t. now_ms t = now_ms s) s"
        by (simp add: try_acquire_def wp Let_def insert_lock_def split: option.split)
      with False that acquire show ?thesis by (simp add: wp_snd now_secs_def)
    qed
  next
    case (release k')
    have "wpE (release k') (\<lambda>_ t. now_ms t = now_ms s) (\<lambda>_ t. now_ms t = now_ms s) s"
      by (simp add: release_def wp)
    then have "now_secs s \<le> al_expires_at l" using that release by (simp add: wp_snd now_secs_def)
    then show ?thesis using live_kept_by_release [OF inv row, of k'] release by simp
  next
    case collect
    have "wpE lock_gc_tick (\<lambda>_ t. now_ms t = now_ms s) (\<lambda>(_ :: sql_error) t. now_ms t = now_ms s) s"
      unfolding lock_gc_tick_def gc_expired_def by (simp add: wp) (auto intro!: wp_forE simp: wp)
    then have le: "now_secs s \<le> al_expires_at l" using that collect by (simp add: wp_snd now_secs_def)
    then show ?thesis using live_kept_by_collect [OF inv row [OF le] le] collect by simp
  next
    case (clock n)
    then have "now_secs s \<le> now_secs t" by (simp add: now_secs_def zdiv_mono1)
    with that row clock show ?thesis by simp
  qed
  ultimately show ?thesis by (simp add: held_def)
qed

interpretation locks: invariant_system "\<lambda>s. d_locks (db s) = []" "lock_step env K" "\<lambda>s. lock_inv (db s)" for env K
proof
  show "lock_inv (db s)" if "d_locks (db s) = []" for s using that by (simp add: lock_inv_def)
qed (rule lock_step_inv)

interpretation holding: invariant_system "\<lambda>s. lock_inv (db s) \<and> lock_row (db s) k = Some l"
    "lock_step env {k}" "held k l" for env k l
proof
  show "held k l s" if "lock_inv (db s) \<and> lock_row (db s) k = Some l" for s
    using that by (simp add: held_def)
qed (rule held_step)

text \<open>In every state that lock operations and the passing of time can reach from an empty lock table, no
  action key is held twice: the uniqueness of the column, kept by every operation.\<close>

lemma one_holder_per_action:
  assumes "reach (\<lambda>s. d_locks (db s) = []) (lock_step env K) s"
  shows "distinct (map al_key (d_locks (db s)))"
  using locks.reach_inv [OF assms] by (simp add: lock_inv_def)

definition sample_lock :: action_lock where
  "sample_lock = \<lparr> al_id = ''l1'', al_key = ''task:t1:force_fail'', al_operator = ''o1'',
     al_acquired_at = 990, al_expires_at = 1020 \<rparr>"

definition sample_locked :: sys where
  "sample_locked = sample_sys\<lparr>db := sample_db\<lparr>d_locks := [sample_lock]\<rparr>\<rparr>"

lemma sample_locked_facts:
  "lock_inv (db (sample_locked\<lparr>now_ms := n\<rparr>))"
  "lock_row (db (sample_locked\<lparr>now_ms := n\<rparr>)) ''task:t1:force_fail'' = Some sample_lock"
  "operator_row_of (db (sample_locked\<lparr>now_ms := n\<rparr>)) ''o1'' = Some sample_operator"
  "now_secs (sample_locked\<lparr>now_ms := n\<rparr>) = n div 1000" "faults (sample_locked\<lparr>now_ms := n\<rparr>) = []"
  "find_row al_id (e_uuid sample_env (uuid_ctr (sample_locked\<lparr>now_ms := n\<rparr>)))
     (d_locks (db (sample_locked\<lparr>now_ms := n\<rparr>))) = None"
  by (simp_all add: sample_locked_def sample_lock_def lock_inv_def lock_row_def operator_row_of_def
      sample_operator_def now_secs_def sample_env_def tiny_env_def show_nat.simps)

text \<open>Without SQL failures an operator on record acquires an action whose lock is free or expired: the
  reply and the new row name that operator and run for the requested time.\<close>

lemma free_or_expired_lock_is_acquired:
  assumes "faults s = []" and "lock_inv (db s)" and "operator_row_of (db s) op = Some r"
    and "\<And>l. lock_row (db s) k = Some l \<Longrightarrow> al_expires_at l < now_secs s"
    and "find_row al_id (e_uuid env (uuid_ctr s)) (d_locks (db s)) = None"
  shows "\<exists>s'. try_acquire env k op ttl s = (Inr \<lparr> li_key = k, li_operator = op, li_operator_name = op_name r,
      li_expires_at = now_secs s + ttl \<rparr>, s') \<and>
    map_option (\<lambda>l. (al_operator l, al_expires_at l)) (lock_row (db s') k) = Some (op, now_secs s + ttl)"
proof -
  let ?ls = "delete_rows (\<lambda>l. al_key l = k \<and> al_expires_at l < now_secs s) (d_locks (db s))"
  have "al_key x \<noteq> k" if "x \<in> set ?ls" for x
  proof
    assume "al_key x = k"
    with that assms(2) have "lock_row (db s) k = Some x"
      by (auto simp: lock_row_def lock_inv_def dest: find_row_distinct)
    with assms(4) that \<open>al_key x = k\<close> show False by auto
  qed
  then have free: "find_row al_key k ?ls = None" by (auto simp: find_row_None)
  have fresh: "find_row al_id (e_uuid env (uuid_ctr s)) ?ls = None"
    using assms(5) by (auto simp: find_row_None)
  have "wpE (try_acquire env k op ttl) (\<lambda>v s'. v = \<lparr> li_key = k, li_operator = op, li_operator_name = op_name r,
      li_expires_at = now_secs s + ttl \<rparr> \<and>
    map_option (\<lambda>l. (al_operator l, al_expires_at l)) (lock_row (db s') k) = Some (op, now_secs s + ttl))
    (\<lambda>_ _. False) s"
    using assms(1,3) free fresh
    by (simp add: try_acquire_def wp Let_def insert_lock_def lock_row_upd_locks operator_name_or_id_def find_row_append)
       (simp add: upd_locks_def find_row_append)
  then show ?thesis by (auto simp: wpE_def split: prod.splits sum.splits)
qed

section \<open>Properties\<close>

text \<open>C21: A lock is its holder's until it expires or is released: whatever acquisitions (of this or any
  other key, by any operator, for any time to live), releases of other keys, collections and passing of
  time follow, as long as the expiry has not passed the row stands unchanged, and every further
  acquisition of the key is refused, with a conflict that names the holder and the expiry or with an SQL
  failure, and leaves the row in place. The state the steps start from has distinct keys, which every
  lock operation keeps.\<close>
theorem a_lock_stands_until_it_ends:
  assumes "lock_inv (db s)" and "lock_row (db s) k = Some l"
    and "(lock_step env {k})\<^sup>*\<^sup>* s t" and "now_secs t \<le> al_expires_at l"
  shows "lock_row (db t) k = Some l \<and>
    lock_row (db (snd (try_acquire env k operator_id ttl t))) k = Some l \<and>
    (fst (try_acquire env k operator_id ttl t) = Inl (Conflict (lock_info_of (db t) l)) \<or>
     fst (try_acquire env k operator_id ttl t) = Inl (ASql SqlFault))"
proof -
  have "held k l t" using assms(1,2) by (intro holding.steps_inv [OF assms(3)]) (simp add: held_def)
  then show ?thesis using assms(4) live_lock_excludes_others by (auto simp: held_def)
qed

theorem a_lock_stands_until_it_ends_witness:
  "fst (try_acquire sample_env ''task:t1:force_fail'' ''o2'' 30
      ((snd (try_acquire sample_env ''task:t1:force_fail'' ''o2'' 30 sample_locked))\<lparr>now_ms := 1020000\<rparr>))
    \<in> {Inl (Conflict (lock_info_of (db ((snd (try_acquire sample_env ''task:t1:force_fail'' ''o2'' 30
        sample_locked))\<lparr>now_ms := 1020000\<rparr>)) sample_lock)), Inl (ASql SqlFault)}"
proof -
  let ?k = "''task:t1:force_fail''"
  let ?m = "snd (try_acquire sample_env ?k ''o2'' 30 sample_locked)"
  have start: "lock_inv (db sample_locked)" "lock_row (db sample_locked) ?k = Some sample_lock"
    "now_secs sample_locked \<le> al_expires_at sample_lock" "now_ms sample_locked = 1000000"
    by (simp_all add: sample_locked_def sample_lock_def lock_inv_def lock_row_def now_secs_def)
  have ms: "now_ms ?m = 1000000" using live_kept_by_acquire [OF start(1-3)] start(4) by simp
  have "(lock_step sample_env {?k})\<^sup>*\<^sup>* sample_locked (?m\<lparr>now_ms := 1020000\<rparr>)"
    using lock_step.acquire [of sample_env "{?k}" sample_locked ?k "''o2''" 30]
      lock_step.clock [of ?m 1020000 sample_env "{?k}"] ms
    by (simp add: converse_rtranclp_into_rtranclp r_into_rtranclp)
  from a_lock_stands_until_it_ends [OF start(1,2) this, of "''o2''" 30]
  show ?thesis by (simp add: now_secs_def sample_lock_def)
qed

end
