(* ===== verification/Presence.thy ===== *)
theory Presence
  imports Prelude
begin

text \<open>
  The registry of connected operators, \<open>presence.rs\<close>: entries keyed by operator, refreshed by
  heartbeats, dropped on disconnect and when silent for longer than the time to live.
\<close>

definition PRESENCE_TTL_SECS :: int where
  "PRESENCE_TTL_SECS = 90"

record presence_entry =
  pe_operator_id :: ident
  pe_operator_name :: string
  pe_role :: string
  pe_focused :: "ident option"
  pe_last_seen_at :: int

type_synonym registry = "(ident \<times> presence_entry) list"

definition snapshot :: "registry \<Rightarrow> presence_entry list" where
  "snapshot reg = map snd reg"

text \<open>The flag says whether the list of presences has to be sent again.\<close>

definition upsert :: "registry \<Rightarrow> ident \<Rightarrow> string \<Rightarrow> string \<Rightarrow> ident option \<Rightarrow> int \<Rightarrow> bool \<times> registry" where
  "upsert reg operator_id operator_name role focused now =
     (case map_of reg operator_id of
        Some existing \<Rightarrow>
          (pe_focused existing \<noteq> focused,
           amap_upd operator_id (\<lambda>e. e\<lparr>pe_last_seen_at := now, pe_focused := focused\<rparr>) reg)
      | None \<Rightarrow>
          (True, AList.update operator_id
             \<lparr> pe_operator_id = operator_id, pe_operator_name = operator_name, pe_role = role,
               pe_focused = focused, pe_last_seen_at = now \<rparr> reg))"

definition drop_entry :: "registry \<Rightarrow> ident \<Rightarrow> bool \<times> registry" where
  "drop_entry reg operator_id = (map_of reg operator_id \<noteq> None, AList.delete operator_id reg)"

definition gc :: "registry \<Rightarrow> int \<Rightarrow> nat \<times> registry" where
  "gc reg now =
     (let cutoff = now - PRESENCE_TTL_SECS;
          kept = filter (\<lambda>(_, e). pe_last_seen_at e \<ge> cutoff) reg in
      (length reg - length kept, kept))"

section \<open>Runs of the registry\<close>

datatype presence_op = Beat ident string string "ident option" | Leave ident | Collect

text \<open>Operations with the time at which each happens.\<close>

fun presence_run :: "registry \<Rightarrow> (int \<times> presence_op) list \<Rightarrow> registry" where
  "presence_run reg [] = reg"
| "presence_run reg ((now, Beat i name role f) # ops) = presence_run (snd (upsert reg i name role f now)) ops"
| "presence_run reg ((now, Leave i) # ops) = presence_run (snd (drop_entry reg i)) ops"
| "presence_run reg ((now, Collect) # ops) = presence_run (snd (gc reg now)) ops"

text \<open>What happens to one operator: the time of the last beat, as long as the entry lives.\<close>

fun seen_after :: "ident \<Rightarrow> int option \<Rightarrow> (int \<times> presence_op) list \<Rightarrow> int option" where
  "seen_after i seen [] = seen"
| "seen_after i seen ((now, Beat j name role f) # ops) = seen_after i (if j = i then Some now else seen) ops"
| "seen_after i seen ((now, Leave j) # ops) = seen_after i (if j = i then None else seen) ops"
| "seen_after i seen ((now, Collect) # ops) =
     seen_after i (case seen of Some t \<Rightarrow> if now - t \<le> 90 then Some t else None | None \<Rightarrow> None) ops"

lemma map_of_upsert:
  "map_of (snd (upsert reg i name role f now)) j =
     (if j = i then Some (case map_of reg i of
          Some e \<Rightarrow> e\<lparr>pe_last_seen_at := now, pe_focused := f\<rparr>
        | None \<Rightarrow> \<lparr> pe_operator_id = i, pe_operator_name = name, pe_role = role, pe_focused = f,
            pe_last_seen_at = now \<rparr>)
      else map_of reg j)"
  by (simp add: upsert_def map_of_amap_upd update_conv' split: option.split)

lemma map_of_drop: "map_of (snd (drop_entry reg i)) j = (if j = i then None else map_of reg j)"
  by (simp add: drop_entry_def delete_conv')

lemma map_of_gc:
  assumes "distinct (map fst reg)"
  shows "map_of (snd (gc reg now)) j = (case map_of reg j of
    Some e \<Rightarrow> if now - pe_last_seen_at e \<le> 90 then Some e else None | None \<Rightarrow> None)"
  using assms
  by (induction reg) (auto simp: gc_def PRESENCE_TTL_SECS_def Let_def map_of_eq_None_iff split: option.split)

lemma distinct_registry:
  assumes "distinct (map fst reg)"
  shows "distinct (map fst (snd (upsert reg i name role f now)))" "distinct (map fst (snd (drop_entry reg i)))"
    "distinct (map fst (snd (gc reg now)))"
proof -
  show "distinct (map fst (snd (upsert reg i name role f now)))"
    using assms by (simp add: upsert_def distinct_update split: option.split)
  show "distinct (map fst (snd (drop_entry reg i)))"
    using assms by (simp add: drop_entry_def distinct_delete)
  show "distinct (map fst (snd (gc reg now)))"
    using assms by (auto simp: gc_def Let_def distinct_map inj_on_def)
qed

section \<open>Properties\<close>

text \<open>The shared registry is, for every operator, exactly its own timer: whatever the others do, an
  operator is listed with the time of its last heartbeat until it disconnects or a collection finds that
  heartbeat more than 90 seconds old.\<close>

lemma registry_is_one_timer_per_operator:
  assumes "distinct (map fst reg)"
  shows "map_option pe_last_seen_at (map_of (presence_run reg ops) i) =
    seen_after i (map_option pe_last_seen_at (map_of reg i)) ops"
  using assms
proof (induction reg ops rule: presence_run.induct)
  case (2 reg now j name role f ops)
  then show ?case
    by (simp add: distinct_registry map_of_upsert) (auto split: option.split)
next
  case (4 reg now ops)
  then show ?case
    by (simp add: distinct_registry map_of_gc) (auto split: option.split intro: arg_cong)
qed (simp_all add: distinct_registry map_of_drop)

text \<open>A heartbeat asks for a new broadcast exactly when the operator was not listed or changed its focus;
  it never touches another operator's entry.\<close>

lemma heartbeat_broadcasts_changes:
  "(fst (upsert reg i name role f now) \<longleftrightarrow> map_option pe_focused (map_of reg i) \<noteq> Some f) \<and>
   (\<exists>e. map_of (snd (upsert reg i name role f now)) = (map_of reg)(i \<mapsto> e) \<and>
      pe_focused e = f \<and> pe_last_seen_at e = now)"
proof
  show "fst (upsert reg i name role f now) \<longleftrightarrow> map_option pe_focused (map_of reg i) \<noteq> Some f"
    by (auto simp: upsert_def split: option.splits)
qed (auto simp: fun_eq_iff map_of_upsert split: option.split)

end
