(* ===== verification/View.thy ===== *)
theory View
  imports World
begin

text \<open>
  Snapshots for a worker and their chunked transport, \<open>view.rs\<close>. The serialized snapshot is a Rust
  \<open>String\<close>, so its bytes are valid UTF-8 (\<open>utf8\<close>); the receiver's parser is an argument.
\<close>

definition CHUNK_THRESHOLD :: nat where
  "CHUNK_THRESHOLD = 256 * 1024"

definition CHUNK_SIZE :: nat where
  "CHUNK_SIZE = 64 * 1024"

definition PEER_CAP :: nat where
  "PEER_CAP = 16"

definition MESSAGE_CAP :: nat where
  "MESSAGE_CAP = 20"

section \<open>The snapshot of one worker\<close>

record message_stub =
  mb_id :: ident
  mb_author :: ident
  mb_body :: string
  mb_kind :: string
  mb_ts :: int

record worker_snapshot =
  ws_agent :: ident
  ws_startup :: ident
  ws_own_avatar :: "avatar option"
  ws_peers :: "avatar list"
  ws_messages :: "message_stub list"
  ws_catalog :: "(string \<times> json) list"
  ws_current_task :: "ident option"

definition build_worker_snapshot :: "avatars \<Rightarrow> (string \<times> json) list \<Rightarrow> ident \<Rightarrow> ident \<Rightarrow>
    message_stub list \<Rightarrow> ident option \<Rightarrow> worker_snapshot" where
  "build_worker_snapshot avs cat agent_id startup_id recent current_task =
     (let own = map_of avs agent_id in
      \<lparr> ws_agent = agent_id, ws_startup = startup_id, ws_own_avatar = own,
        ws_peers = (case map_option av_room_id own of
            None \<Rightarrow> []
          | Some room \<Rightarrow> take PEER_CAP
              (filter (\<lambda>a. av_agent_id a \<noteq> agent_id \<and> av_room_id a = room) (map snd avs))),
        ws_messages = (if length recent > MESSAGE_CAP then rev (take MESSAGE_CAP (rev recent)) else recent),
        ws_catalog = cat, ws_current_task = current_task \<rparr>)"

section \<open>UTF-8\<close>

definition byte_in :: "nat \<Rightarrow> nat \<Rightarrow> char \<Rightarrow> bool" where
  "byte_in lo hi c \<longleftrightarrow> lo \<le> of_char c \<and> of_char c \<le> hi"

text \<open>The well-formed byte sequences of one code point.\<close>

definition code_point :: "string \<Rightarrow> bool" where
  "code_point cs = (case cs of
      [a] \<Rightarrow> byte_in 0 127 a
    | [a, b] \<Rightarrow> byte_in 194 223 a \<and> byte_in 128 191 b
    | [a, b, c] \<Rightarrow> byte_in 128 191 c \<and>
        (byte_in 224 224 a \<and> byte_in 160 191 b \<or> byte_in 225 236 a \<and> byte_in 128 191 b \<or>
         byte_in 237 237 a \<and> byte_in 128 159 b \<or> byte_in 238 239 a \<and> byte_in 128 191 b)
    | [a, b, c, d] \<Rightarrow> byte_in 128 191 c \<and> byte_in 128 191 d \<and>
        (byte_in 240 240 a \<and> byte_in 144 191 b \<or> byte_in 241 243 a \<and> byte_in 128 191 b \<or>
         byte_in 244 244 a \<and> byte_in 128 143 b)
    | _ \<Rightarrow> False)"

text \<open>How many bytes the code point that starts with this byte has.\<close>

definition seq_len :: "char \<Rightarrow> nat" where
  "seq_len c = (let n = of_char c :: nat in if n < 128 then 1 else if n < 224 then 2 else if n < 240 then 3 else 4)"

function utf8 :: "string \<Rightarrow> bool" where
  "utf8 [] = True"
| "utf8 (c # cs) = (code_point (take (seq_len c) (c # cs)) \<and> utf8 (drop (seq_len c) (c # cs)))"
  by pat_completeness auto
termination
  by (relation "measure length") (auto simp: seq_len_def Let_def)

section \<open>Chunks\<close>

record chunk_frame =
  cf_seq :: nat
  cf_total :: nat
  cf_payload :: string

datatype chunk_error = BadUtf8 | Underflow

text \<open>\<open>while end < len && is_continuation(bytes[end]) \<open>{\<close> end -= 1 \<open>}\<close>\<close>, on what is left to send.\<close>

fun back_off :: "string \<Rightarrow> nat \<Rightarrow> nat" where
  "back_off rest e = (if e < length rest \<and> is_cont (rest ! e) \<and> e > 0 then back_off rest (e - 1) else e)"

declare back_off.simps [simp del]

function chunk_payloads :: "nat \<Rightarrow> string \<Rightarrow> chunk_error + string list" where
  "chunk_payloads sz rest =
     (if rest = [] then Inr []
      else let e = back_off rest (min sz (length rest)) in
        (if e = 0 then Inl Underflow
         else if \<not> utf8 (take e rest) then Inl BadUtf8
         else case chunk_payloads sz (drop e rest) of
             Inl err \<Rightarrow> Inl err
           | Inr ps \<Rightarrow> Inr (take e rest # ps)))"
  by pat_completeness auto
termination
  by (relation "measure (length \<circ> snd)") auto

declare chunk_payloads.simps [simp del]

definition frames_of :: "string list \<Rightarrow> chunk_frame list" where
  "frames_of ps = map (\<lambda>(i, p). \<lparr> cf_seq = i, cf_total = length ps, cf_payload = p \<rparr>) (enumerate 0 ps)"

definition chunk_snapshot :: "string \<Rightarrow> chunk_error + chunk_frame list" where
  "chunk_snapshot json =
     (if length json \<le> CHUNK_THRESHOLD then Inr [\<lparr> cf_seq = 0, cf_total = 1, cf_payload = json \<rparr>]
      else map_sum id frames_of (chunk_payloads CHUNK_SIZE json))"

datatype reassemble_error = EmptyFrames | CountMismatch nat nat | ParseFailed

definition reassemble :: "(string \<Rightarrow> 'v option) \<Rightarrow> chunk_frame list \<Rightarrow> reassemble_error + 'v" where
  "reassemble parse fr = (case fr of
      [] \<Rightarrow> Inl EmptyFrames
    | f # _ \<Rightarrow>
        (if length fr \<noteq> cf_total f then Inl (CountMismatch (length fr) (cf_total f))
         else case parse (concat (map cf_payload fr)) of
             None \<Rightarrow> Inl ParseFailed | Some v \<Rightarrow> Inr v))"

section \<open>Boundaries of code points\<close>

lemma is_cont_byte: "is_cont c \<longleftrightarrow> byte_in 128 191 c"
proof -
  have "n div 64 = 2 \<longleftrightarrow> 128 \<le> n \<and> n \<le> 191" for n :: nat
    using div_mult_mod_eq [of n 64] mod_less_divisor [of 64 n] by (auto intro: div_nat_eqI)
  then show ?thesis by (simp add: is_cont_def byte_in_def)
qed

lemma seq_len_bounds [simp]: "0 < seq_len c" "seq_len c \<le> 4"
  by (simp_all add: seq_len_def Let_def)

text \<open>A code point is a byte that starts one, followed by continuation bytes.\<close>

lemma code_point_shape:
  assumes "code_point (take (seq_len c) (c # cs))"
  shows "seq_len c \<le> Suc (length cs) \<and> \<not> is_cont c \<and> (\<forall>i. Suc i < seq_len c \<longrightarrow> is_cont (cs ! i))"
proof -
  let ?n = "of_char c :: nat"
  consider "seq_len c = 1" "?n < 128" | "seq_len c = 2" "128 \<le> ?n" | "seq_len c = 3" "224 \<le> ?n" | "seq_len c = 4" "240 \<le> ?n"
    unfolding seq_len_def Let_def by (metis not_le)
  then show ?thesis
  proof cases
    case 1
    then show ?thesis by (simp add: is_cont_byte byte_in_def)
  next
    case 2
    with assms show ?thesis
      by (cases cs) (auto simp: code_point_def is_cont_byte byte_in_def less_Suc_eq)
  next
    case 3
    consider "cs = []" | a where "cs = [a]" | a b r where "cs = a # b # r" by (metis list.exhaust)
    then show ?thesis
    proof cases
      case (3 a b r)
      have "(\<forall>i. Suc i < 3 \<longrightarrow> is_cont (cs ! i)) \<longleftrightarrow> is_cont (cs ! 0) \<and> is_cont (cs ! 1)"
        by (auto simp: less_Suc_eq numeral_3_eq_3)
      with 3 \<open>seq_len c = 3\<close> assms show ?thesis
        by (auto simp: code_point_def is_cont_byte byte_in_def)
    qed (use 3 assms in \<open>simp_all add: code_point_def byte_in_def\<close>)
  next
    case 4
    consider "cs = []" | a where "cs = [a]" | a b where "cs = [a, b]" | a b d r where "cs = a # b # d # r"
      by (metis list.exhaust)
    then show ?thesis
    proof cases
      case (4 a b d r)
      have "(\<forall>i. Suc i < 4 \<longrightarrow> is_cont (cs ! i)) \<longleftrightarrow> is_cont (cs ! 0) \<and> is_cont (cs ! 1) \<and> is_cont (cs ! 2)"
        by (auto simp: less_Suc_eq eval_nat_numeral)
      with 4 \<open>seq_len c = 4\<close> assms show ?thesis
        by (auto simp: code_point_def is_cont_byte byte_in_def)
    qed (use 4 assms in \<open>simp_all add: code_point_def byte_in_def\<close>)
  qed
qed

lemma utf8_block:
  "s \<noteq> [] \<Longrightarrow> utf8 s \<longleftrightarrow> code_point (take (seq_len (hd s)) s) \<and> utf8 (drop (seq_len (hd s)) s)"
  by (cases s) simp_all

lemma utf8_split:
  "utf8 s \<Longrightarrow> e < length s \<Longrightarrow> \<not> is_cont (s ! e) \<Longrightarrow> utf8 (take e s) \<and> utf8 (drop e s)"
proof (induction s arbitrary: e rule: utf8.induct)
  case 1
  then show ?case by simp
next
  case (2 c cs)
  let ?k = "seq_len c" and ?s = "c # cs"
  have cp: "code_point (take ?k ?s)" and r: "utf8 (drop ?k ?s)" using "2.prems" by simp_all
  note sh = code_point_shape [OF cp]
  consider "e = 0" | i where "e = Suc i" "Suc i < ?k" | "?k \<le> e" by (cases e; cases "e < ?k") auto
  then show ?case
  proof cases
    case 1
    with "2.prems" show ?thesis by simp
  next
    case (2 i)
    with sh "2.prems" show ?thesis by auto
  next
    case 3
    with "2.prems" have "e - ?k < length (drop ?k ?s)" "\<not> is_cont (drop ?k ?s ! (e - ?k))" by simp_all
    from "2.IH" [OF r this] have ih: "utf8 (take (e - ?k) (drop ?k ?s))" "utf8 (drop (e - ?k) (drop ?k ?s))" by simp_all
    have "take e ?s \<noteq> []" "hd (take e ?s) = c" using 3 seq_len_bounds(1) [of c] by (cases e; simp)+
    then have "utf8 (take e ?s)"
      using 3 ih(1) cp utf8_block [of "take e ?s"] by (simp only: take_take drop_take min.absorb1 not_False_eq_True simp_thms)
    moreover have "drop e ?s = drop (e - ?k) (drop ?k ?s)" using 3 by simp
    ultimately show ?thesis using ih(2) by simp
  qed
qed

lemma utf8_near_boundary:
  "utf8 s \<Longrightarrow> e < length s \<Longrightarrow> \<exists>d \<le> 3. d \<le> e \<and> \<not> is_cont (s ! (e - d))"
proof (induction s arbitrary: e rule: utf8.induct)
  case 1
  then show ?case by simp
next
  case (2 c cs)
  let ?k = "seq_len c" and ?s = "c # cs"
  have cp: "code_point (take ?k ?s)" and r: "utf8 (drop ?k ?s)" using "2.prems" by simp_all
  note sh = code_point_shape [OF cp]
  show ?case
  proof (cases "e < ?k")
    case True
    with sh seq_len_bounds [of c] show ?thesis by (intro exI [of _ e]) (auto simp del: seq_len_bounds)
  next
    case False
    with "2.prems" have "e - ?k < length (drop ?k ?s)" by simp
    from "2.IH" [OF r this] obtain d where
      "d \<le> 3" "d \<le> e - ?k" "\<not> is_cont (drop ?k ?s ! (e - ?k - d))" by blast
    with False "2.prems" show ?thesis
      by (intro exI [of _ d]) (auto simp: nth_drop)
  qed
qed

lemma back_off_end [simp]: "back_off rest (length rest) = length rest"
  by (subst back_off.simps) simp

lemma back_off_boundary:
  assumes "e < length rest" and "d \<le> e" and "\<not> is_cont (rest ! (e - d))"
  shows "back_off rest e \<le> e \<and> e - d \<le> back_off rest e \<and> \<not> is_cont (rest ! back_off rest e)"
  using assms
proof (induction d arbitrary: e)
  case 0
  then show ?case by (subst (1 2 3) back_off.simps) simp
next
  case (Suc d)
  show ?case
  proof (cases "is_cont (rest ! e)")
    case True
    then have "back_off rest e = back_off rest (e - 1)"
      using Suc.prems by (subst back_off.simps) simp
    moreover obtain e' where "e = Suc e'" using Suc.prems(2) by (cases e) auto
    ultimately show ?thesis using Suc.IH [of e'] Suc.prems by simp
  next
    case False
    then show ?thesis by (subst (1 2 3) back_off.simps) (use Suc.prems in simp)
  qed
qed

text \<open>With windows of at least four bytes every cut lands between two code points.\<close>

lemma back_off_cut:
  assumes "utf8 rest" and "rest \<noteq> []" and "4 \<le> sz" and "e = back_off rest (min sz (length rest))"
  shows "0 < e \<and> e \<le> sz \<and> e \<le> length rest \<and> utf8 (take e rest) \<and> utf8 (drop e rest)"
proof (cases "length rest \<le> sz")
  case True
  with assms show ?thesis by (simp add: min_def)
next
  case False
  then have lt: "sz < length rest" by simp
  with utf8_near_boundary [OF assms(1)] obtain d where
    d: "d \<le> 3" "d \<le> sz" "\<not> is_cont (rest ! (sz - d))" by blast
  have "e = back_off rest sz" using lt assms(4) by (simp add: min_def)
  with back_off_boundary [OF lt d(2,3)] have e: "e \<le> sz" "sz - d \<le> e" "\<not> is_cont (rest ! e)" by simp_all
  with utf8_split [OF assms(1), of e] lt d(1) assms(3) show ?thesis by auto
qed

lemma chunk_payloads_sound:
  assumes "utf8 rest" and "4 \<le> sz"
  shows "\<exists>ps. chunk_payloads sz rest = Inr ps \<and> concat ps = rest \<and>
    (\<forall>p \<in> set ps. p \<noteq> [] \<and> length p \<le> sz \<and> utf8 p)"
  using assms
proof (induction sz rest rule: chunk_payloads.induct)
  case (1 sz rest)
  show ?case
  proof (cases "rest = []")
    case True
    then show ?thesis by (simp add: chunk_payloads.simps [of sz "[]"])
  next
    case False
    define e where "e = back_off rest (min sz (length rest))"
    note cut = back_off_cut [OF "1.prems"(1) False "1.prems"(2) e_def]
    from "1.IH" [OF False e_def] cut "1.prems"(2) obtain ps where
      ps: "chunk_payloads sz (drop e rest) = Inr ps" "concat ps = drop e rest"
        "\<forall>p \<in> set ps. p \<noteq> [] \<and> length p \<le> sz \<and> utf8 p" by auto
    have "chunk_payloads sz rest = Inr (take e rest # ps)"
      using False cut ps(1) by (subst chunk_payloads.simps) (simp add: Let_def e_def [symmetric])
    with ps cut False show ?thesis by (intro exI [of _ "take e rest # ps"]) auto
  qed
qed

lemma frames_of_simps [simp]:
  "map cf_payload (frames_of ps) = ps" "length (frames_of ps) = length ps"
  "i < length ps \<Longrightarrow> frames_of ps ! i = \<lparr> cf_seq = i, cf_total = length ps, cf_payload = ps ! i \<rparr>"
  by (simp_all add: frames_of_def list_eq_iff_nth_eq nth_enumerate_eq)

section \<open>Properties\<close>

text \<open>C23: Chunked transport loses nothing: a serialized snapshot of any size is cut into numbered frames
  that carry the right total, each no larger than the limit and valid UTF-8 by itself, and the receiver
  parses exactly the original text.\<close>
theorem chunks_reassemble:
  assumes "utf8 json"
  shows "\<exists>fr. chunk_snapshot json = Inr fr \<and>
    reassemble parse fr = (case parse json of None \<Rightarrow> Inl ParseFailed | Some v \<Rightarrow> Inr v) \<and>
    map cf_seq fr = [0..<length fr] \<and>
    list_all (\<lambda>f. cf_total f = length fr \<and> length (cf_payload f) \<le> 262144 \<and> utf8 (cf_payload f)) fr"
proof (cases "length json \<le> CHUNK_THRESHOLD")
  case True
  with assms show ?thesis
    by (simp add: chunk_snapshot_def reassemble_def CHUNK_THRESHOLD_def)
next
  case False
  then have ne: "json \<noteq> []" by auto
  obtain ps where ps: "chunk_payloads CHUNK_SIZE json = Inr ps" "concat ps = json"
      "\<forall>p \<in> set ps. p \<noteq> [] \<and> length p \<le> CHUNK_SIZE \<and> utf8 p"
    using chunk_payloads_sound [OF assms, of CHUNK_SIZE] by (auto simp: CHUNK_SIZE_def)
  have small: "length p \<le> 262144 \<and> utf8 p" if "p \<in> set ps" for p
  proof -
    have "length p \<le> CHUNK_SIZE" "utf8 p" using ps(3) that by blast+
    then show ?thesis by (simp add: CHUNK_SIZE_def)
  qed
  from ne ps(2) obtain p qs where "ps = p # qs" by (cases ps) auto
  then obtain f fs where f: "frames_of ps = f # fs" "cf_total f = length ps"
    by (auto simp: frames_of_def)
  have "reassemble parse (frames_of ps) = (case parse (concat (map cf_payload (frames_of ps))) of
      None \<Rightarrow> Inl ParseFailed | Some v \<Rightarrow> Inr v)"
    using f frames_of_simps(2) [of ps] by (simp add: reassemble_def)
  moreover have "map cf_seq (frames_of ps) = [0..<length ps]"
    by (rule nth_equalityI) simp_all
  moreover have "list_all (\<lambda>f. cf_total f = length ps \<and> length (cf_payload f) \<le> 262144 \<and> utf8 (cf_payload f)) (frames_of ps)"
    by (simp add: list_all_length small)
  ultimately show ?thesis using False ps by (simp add: chunk_snapshot_def)
qed

theorem chunks_reassemble_witness:
  "\<exists>fr. chunk_snapshot ''ok'' = Inr fr \<and> reassemble Some fr = Inr ''ok'' \<and>
    map cf_seq fr = [0..<length fr] \<and>
    list_all (\<lambda>f. cf_total f = length fr \<and> length (cf_payload f) \<le> 262144 \<and> utf8 (cf_payload f)) fr"
proof -
  have "utf8 ''ok''" by code_simp
  from chunks_reassemble [OF this, of Some] show ?thesis by simp
qed

text \<open>A worker's snapshot holds at most 16 peers, all of them others in its own room, and the most
  recent messages: at most 20, in order, ending with the last one.\<close>

lemma snapshot_is_bounded:
  "length (ws_peers (build_worker_snapshot avs cat i sid recent cur)) \<le> 16 \<and>
   list_all (\<lambda>p. av_agent_id p \<noteq> i \<and> Some (av_room_id p) = map_option av_room_id (map_of avs i))
     (ws_peers (build_worker_snapshot avs cat i sid recent cur)) \<and>
   ws_messages (build_worker_snapshot avs cat i sid recent cur) = drop (length recent - 20) recent"
proof (intro conjI)
  show "ws_messages (build_worker_snapshot avs cat i sid recent cur) = drop (length recent - 20) recent"
    by (auto simp: build_worker_snapshot_def Let_def MESSAGE_CAP_def rev_take)
  have peers: "list_all P (take n (filter P xs))" for P n and xs :: "avatar list"
    by (auto simp: list_all_iff dest: in_set_takeD)
  show "list_all (\<lambda>p. av_agent_id p \<noteq> i \<and> Some (av_room_id p) = map_option av_room_id (map_of avs i))
     (ws_peers (build_worker_snapshot avs cat i sid recent cur))"
    by (cases "map_of avs i") (simp_all add: build_worker_snapshot_def Let_def peers)
qed (simp add: build_worker_snapshot_def Let_def PEER_CAP_def split: option.split)

end
