(* ===== verification/Skills.thy ===== *)
theory Skills
  imports McpTools "HOL-Library.Char_ord" "HOL-Library.List_Lexorder"
begin

text \<open>
  The skills of a startup, \<open>skills.rs\<close>: markdown documents with attached files, an append-only
  revision log and a many-to-many attachment to agents. Every operation checks that the caller's
  startup owns the skill. The second half states the invariant of the four tables.
\<close>

section \<open>Data\<close>

definition MAX_CONTENT_LEN :: nat where
  "MAX_CONTENT_LEN = 64 * 1024"

definition MAX_NAME_LEN :: nat where
  "MAX_NAME_LEN = 64"

definition is_ascii_alphanumeric :: "char \<Rightarrow> bool" where
  "is_ascii_alphanumeric c = (let n = (of_char c :: nat) in
     48 \<le> n \<and> n \<le> 57 \<or> 65 \<le> n \<and> n \<le> 90 \<or> 97 \<le> n \<and> n \<le> 122)"

definition name_is_valid :: "string \<Rightarrow> bool" where
  "name_is_valid name \<longleftrightarrow> name \<noteq> [] \<and> length name \<le> MAX_NAME_LEN \<and>
     list_all (\<lambda>b. is_ascii_alphanumeric b \<or> b = CHR ''_'' \<or> b = CHR ''-'') name"

text \<open>On UTF-8 bytes: a code point beyond ASCII has only bytes the character test refuses.\<close>

definition file_name_is_valid :: "string \<Rightarrow> bool" where
  "file_name_is_valid name \<longleftrightarrow>
     \<not> (name = [] \<or> 128 < length name) \<and>
     \<not> (name = ''.'' \<or> name = ''..'' \<or> is_prefix ''/'' name \<or> contains_sub ''..'' name \<or>
        contains_sub ''/'' name) \<and>
     list_all (\<lambda>c. is_ascii_alphanumeric c \<or> c \<in> set ''-_.'') name"

record skill_listing =
  sl_id :: ident
  sl_name :: string
  sl_updated_at :: int
  sl_len :: int

record attached_file =
  fl_name :: string
  fl_content :: string

record attached_skill =
  at_name :: string
  at_content :: string
  at_files :: "attached_file list"

record skill_with_attachments =
  swa_id :: ident
  swa_name :: string
  swa_len :: int
  swa_updated_at :: int
  swa_attachments :: "ident list"
  swa_is_global :: bool

datatype skill_error = BadName | OversizeContent | SkNotFound | CrossStartup | SkSql string

datatype author = ByAgent ident | ByOperator ident | ByUnknown

type_synonym 'a skill_op = "(sys, skill_error, 'a) sem"

definition sqlK :: "env \<Rightarrow> (sys, sql_error, 'a) sem \<Rightarrow> 'a skill_op" where
  "sqlK env m = mapErr (\<lambda>e. SkSql (e_sql_text env e)) m"

definition skill_row :: "database \<Rightarrow> ident \<Rightarrow> skill option" where
  "skill_row d i = find_row sk_id i (d_skills d)"

definition upd_skill :: "ident \<Rightarrow> (skill \<Rightarrow> skill) \<Rightarrow> database \<Rightarrow> database" where
  "upd_skill i f d = d\<lparr>d_skills := update_rows (\<lambda>r. sk_id r = i) f (d_skills d)\<rparr>"

text \<open>SQLite's \<open>length\<close> of a text counts code points up to the first NUL.\<close>

definition sql_length :: "string \<Rightarrow> int" where
  "sql_length s = int (char_count (takeWhile (\<lambda>c. of_char c \<noteq> (0 :: nat)) s))"

section \<open>Revisions\<close>

fun max_seq :: "int list \<Rightarrow> int" where
  "max_seq [] = 0"
| "max_seq (x # xs) = fold max xs x"

definition revisions_of :: "database \<Rightarrow> ident \<Rightarrow> skill_revision list" where
  "revisions_of d i = filter (\<lambda>r. sr_skill r = i) (d_skill_revisions d)"

definition revision_ok :: "database \<Rightarrow> skill_revision \<Rightarrow> sql_error option" where
  "revision_ok d r =
     (if find_row sr_id (sr_id r) (d_skill_revisions d) \<noteq> None \<or>
         sr_seq r \<in> sr_seq ` set (revisions_of d (sr_skill r)) then Some UniqueViolation
      else fk (skill_row d (sr_skill r) \<noteq> None \<and> refs (agent_row d) (sr_agent r) \<and>
               refs (operator_row_of d) (sr_operator r)))"

definition append_revision :: "env \<Rightarrow> ident \<Rightarrow> string \<Rightarrow> author \<Rightarrow> unit skill_op" where
  "append_revision env skill_id content_md auth =
     bindE (sqlK env (sql_query (\<lambda>d. max_seq (map sr_seq (revisions_of d skill_id)) + 1))) (\<lambda>next_seq.
     let agent = (case auth of ByAgent i \<Rightarrow> Some i | _ \<Rightarrow> None);
         operator = (case auth of ByOperator i \<Rightarrow> Some i | _ \<Rightarrow> None) in
     bindE (fresh_uuid env) (\<lambda>rev_id.
     bindE (asksE now_secs) (\<lambda>now.
     let row = \<lparr> sr_id = rev_id, sr_skill = skill_id, sr_seq = next_seq, sr_content = content_md,
       sr_created_at = now, sr_agent = agent, sr_operator = operator \<rparr> in
     sqlK env (sql_checked (\<lambda>d. revision_ok d row)
       (\<lambda>s. (db s)\<lparr>d_skill_revisions := d_skill_revisions (db s) @ [row]\<rparr>)))))"

section \<open>Writing skills\<close>

definition set_content :: "env \<Rightarrow> ident \<Rightarrow> string \<Rightarrow> unit skill_op" where
  "set_content env i content_md = sqlK env (sql_exec (\<lambda>s.
     upd_skill i (\<lambda>r. r\<lparr>sk_content := content_md, sk_updated_at := now_secs s\<rparr>) (db s)))"

definition insert_skill :: "env \<Rightarrow> skill \<Rightarrow> unit skill_op" where
  "insert_skill env r = sqlK env (sql_checked
     (\<lambda>d. if skill_row d (sk_id r) \<noteq> None \<or>
           (sk_startup r, sk_name r) \<in> (\<lambda>x. (sk_startup x, sk_name x)) ` set (d_skills d)
          then Some UniqueViolation else fk (startup_row d (sk_startup r) \<noteq> None))
     (\<lambda>s. (db s)\<lparr>d_skills := d_skills (db s) @ [r]\<rparr>))"

definition skill_named :: "ident \<Rightarrow> string \<Rightarrow> database \<Rightarrow> ident option" where
  "skill_named startup_id name d =
     map_option sk_id (find (\<lambda>r. sk_startup r = startup_id \<and> sk_name r = name) (d_skills d))"

definition upsert_with_author :: "env \<Rightarrow> ident \<Rightarrow> string \<Rightarrow> string \<Rightarrow> author \<Rightarrow> (ident \<times> bool) skill_op"
where
  "upsert_with_author env startup_id name content_md auth =
     thenE (guardE (name_is_valid name) BadName)
     (thenE (guardE (length content_md \<le> MAX_CONTENT_LEN) OversizeContent)
     (bindE (sqlK env (sql_query (skill_named startup_id name))) (\<lambda>existing.
      bindE (case existing of
          Some i \<Rightarrow> thenE (set_content env i content_md) (ret (i, False))
        | None \<Rightarrow>
            bindE (fresh_uuid env) (\<lambda>i.
            bindE (asksE now_secs) (\<lambda>now.
            thenE (insert_skill env \<lparr> sk_id = i, sk_startup = startup_id, sk_name = name,
              sk_content = content_md, sk_created_at = now, sk_updated_at = now, sk_is_global = 0 \<rparr>)
            (ret (i, True)))))
       (\<lambda>(i, is_new).
        thenE (ignoreE (append_revision env i content_md auth)) (ret (i, is_new))))))"

definition skills_upsert :: "env \<Rightarrow> ident \<Rightarrow> string \<Rightarrow> string \<Rightarrow> (ident \<times> bool) skill_op" where
  "skills_upsert env startup_id name content_md =
     upsert_with_author env startup_id name content_md ByUnknown"

text \<open>The ownership checks, written out in front of every operation of the source.\<close>

definition owned_by :: "ident \<Rightarrow> ident option \<Rightarrow> unit skill_op" where
  "owned_by startup_id owner = (case owner of
      None \<Rightarrow> throw SkNotFound
    | Some sid \<Rightarrow> guardE (sid = startup_id) CrossStartup)"

definition require_skill :: "env \<Rightarrow> ident \<Rightarrow> ident \<Rightarrow> unit skill_op" where
  "require_skill env startup_id skill_id =
     bindE (sqlK env (sql_query (\<lambda>d. map_option sk_startup (skill_row d skill_id)))) (owned_by startup_id)"

definition require_agent :: "env \<Rightarrow> ident \<Rightarrow> ident \<Rightarrow> unit skill_op" where
  "require_agent env startup_id agent_id =
     bindE (sqlK env (sql_query (\<lambda>d. map_option ag_startup (agent_row d agent_id)))) (owned_by startup_id)"

definition revert_to_revision :: "env \<Rightarrow> ident \<Rightarrow> ident \<Rightarrow> int \<Rightarrow> author \<Rightarrow> string skill_op" where
  "revert_to_revision env startup_id skill_id rev_seq auth =
     thenE (require_skill env startup_id skill_id)
     (bindE (sqlK env (sql_query (\<lambda>d. map_option sr_content
         (find (\<lambda>r. sr_seq r = rev_seq) (revisions_of d skill_id))))) (\<lambda>rev. case rev of
        None \<Rightarrow> throw SkNotFound
      | Some content_md \<Rightarrow>
          thenE (set_content env skill_id content_md)
          (thenE (ignoreE (append_revision env skill_id content_md auth)) (ret content_md))))"

definition list_revisions :: "env \<Rightarrow> ident \<Rightarrow> ident \<Rightarrow> skill_revision list skill_op" where
  "list_revisions env startup_id skill_id =
     thenE (require_skill env startup_id skill_id)
       (sqlK env (sql_query (\<lambda>d. sort_key (\<lambda>r. - sr_seq r) (revisions_of d skill_id))))"

definition skills_list :: "env \<Rightarrow> ident \<Rightarrow> skill_listing list skill_op" where
  "skills_list env startup_id = sqlK env (sql_query (\<lambda>d.
     map (\<lambda>r. \<lparr> sl_id = sk_id r, sl_name = sk_name r, sl_updated_at = sk_updated_at r,
                sl_len = sql_length (sk_content r) \<rparr>)
       (sort_key sk_name (filter (\<lambda>r. sk_startup r = startup_id) (d_skills d)))))"

definition skills_get :: "env \<Rightarrow> ident \<Rightarrow> skill option skill_op" where
  "skills_get env i = sqlK env (sql_query (\<lambda>d. skill_row d i))"

section \<open>Attachments\<close>

text \<open>\<open>ON CONFLICT DO NOTHING\<close> makes attaching idempotent.\<close>

definition attach :: "env \<Rightarrow> ident \<Rightarrow> ident \<Rightarrow> ident \<Rightarrow> unit skill_op" where
  "attach env caller_startup_id agent_id skill_id =
     thenE (require_skill env caller_startup_id skill_id)
     (thenE (require_agent env caller_startup_id agent_id)
       (sqlK env (sql_checked
         (\<lambda>d. fk (agent_row d agent_id \<noteq> None \<and> skill_row d skill_id \<noteq> None))
         (\<lambda>s. let rows = d_agent_skills (db s) in
           (db s)\<lparr>d_agent_skills :=
             (if (agent_id, skill_id) \<in> (\<lambda>x. (as_agent x, as_skill x)) ` set rows then rows
              else rows @ [\<lparr> as_agent = agent_id, as_skill = skill_id, as_attached_at = now_secs s \<rparr>])\<rparr>))))"

definition detach :: "env \<Rightarrow> ident \<Rightarrow> ident \<Rightarrow> ident \<Rightarrow> unit skill_op" where
  "detach env caller_startup_id agent_id skill_id =
     thenE (require_skill env caller_startup_id skill_id)
     (thenE (require_agent env caller_startup_id agent_id)
       (sqlK env (sql_exec (\<lambda>s. (db s)\<lparr>d_agent_skills :=
          delete_rows (\<lambda>x. as_agent x = agent_id \<and> as_skill x = skill_id) (d_agent_skills (db s))\<rparr>))))"

text \<open>\<open>DELETE FROM skills\<close> with its three cascades.\<close>

definition drop_skill :: "ident \<Rightarrow> database \<Rightarrow> database" where
  "drop_skill i d = d\<lparr>
     d_skills := delete_rows (\<lambda>r. sk_id r = i) (d_skills d),
     d_agent_skills := delete_rows (\<lambda>r. as_skill r = i) (d_agent_skills d),
     d_skill_files := delete_rows (\<lambda>r. sf_skill r = i) (d_skill_files d),
     d_skill_revisions := delete_rows (\<lambda>r. sr_skill r = i) (d_skill_revisions d)\<rparr>"

definition skills_delete :: "env \<Rightarrow> ident \<Rightarrow> ident \<Rightarrow> unit skill_op" where
  "skills_delete env caller_startup_id skill_id =
     thenE (require_skill env caller_startup_id skill_id)
       (sqlK env (sql_exec (\<lambda>s. drop_skill skill_id (db s))))"

definition list_files :: "env \<Rightarrow> ident \<Rightarrow> attached_file list skill_op" where
  "list_files env skill_id = sqlK env (sql_query (\<lambda>d.
     map (\<lambda>r. \<lparr> fl_name = sf_name r, fl_content = sf_content r \<rparr>)
       (sort_key sf_name (filter (\<lambda>r. sf_skill r = skill_id) (d_skill_files d)))))"

text \<open>What an agent's worker receives: the attached skills and the global ones, each with its files.\<close>

definition visible_to :: "ident \<Rightarrow> database \<Rightarrow> skill \<Rightarrow> bool" where
  "visible_to agent_id d r \<longleftrightarrow>
     (\<exists>x \<in> set (d_agent_skills d). as_skill x = sk_id r \<and> as_agent x = agent_id) \<or> sk_is_global r = 1"

fun collectE :: "'a list \<Rightarrow> ('a \<Rightarrow> ('s, 'e, 'b) sem) \<Rightarrow> ('s, 'e, 'b list) sem" where
  "collectE [] f = ret []"
| "collectE (x # xs) f = bindE (f x) (\<lambda>y. bindE (collectE xs f) (\<lambda>ys. ret (y # ys)))"

definition for_agent :: "env \<Rightarrow> ident \<Rightarrow> attached_skill list skill_op" where
  "for_agent env agent_id =
     bindE (sqlK env (sql_query (\<lambda>d. sort_key sk_name (filter (visible_to agent_id d) (d_skills d)))))
       (\<lambda>rows. collectE rows (\<lambda>r.
          bindE (orDefault [] (list_files env (sk_id r))) (\<lambda>fs.
          ret \<lparr> at_name = sk_name r, at_content = sk_content r, at_files = fs \<rparr>)))"

definition set_global :: "env \<Rightarrow> ident \<Rightarrow> bool \<Rightarrow> unit skill_op" where
  "set_global env skill_id is_global =
     bindE (sqlK env (sql_stmt (\<lambda>s. Inr (length (filter (\<lambda>r. sk_id r = skill_id) (d_skills (db s))),
        upd_skill skill_id (\<lambda>r. r\<lparr>sk_is_global := (if is_global then 1 else 0),
          sk_updated_at := now_secs s\<rparr>) (db s)))))
       (\<lambda>n. guardE (n \<noteq> 0) SkNotFound)"

section \<open>Files\<close>

definition file_named :: "ident \<Rightarrow> string \<Rightarrow> database \<Rightarrow> ident option" where
  "file_named skill_id name d =
     map_option sf_id (find (\<lambda>r. sf_skill r = skill_id \<and> sf_name r = name) (d_skill_files d))"

definition insert_file :: "env \<Rightarrow> skill_file \<Rightarrow> unit skill_op" where
  "insert_file env r = sqlK env (sql_checked
     (\<lambda>d. if find_row sf_id (sf_id r) (d_skill_files d) \<noteq> None \<or>
           (sf_skill r, sf_name r) \<in> (\<lambda>x. (sf_skill x, sf_name x)) ` set (d_skill_files d)
          then Some UniqueViolation else fk (skill_row d (sf_skill r) \<noteq> None))
     (\<lambda>s. (db s)\<lparr>d_skill_files := d_skill_files (db s) @ [r]\<rparr>))"

definition upsert_file :: "env \<Rightarrow> ident \<Rightarrow> ident \<Rightarrow> string \<Rightarrow> string \<Rightarrow> ident skill_op" where
  "upsert_file env startup_id skill_id name content =
     thenE (guardE (file_name_is_valid name) BadName)
     (thenE (guardE (length content \<le> MAX_CONTENT_LEN) OversizeContent)
     (thenE (require_skill env startup_id skill_id)
     (bindE (sqlK env (sql_query (file_named skill_id name))) (\<lambda>existing. case existing of
        Some i \<Rightarrow>
          thenE (sqlK env (sql_exec (\<lambda>s. (db s)\<lparr>d_skill_files := update_rows (\<lambda>r. sf_id r = i)
            (\<lambda>r. r\<lparr>sf_content := content, sf_updated_at := now_secs s\<rparr>) (d_skill_files (db s))\<rparr>)))
            (ret i)
      | None \<Rightarrow>
          bindE (fresh_uuid env) (\<lambda>i.
          bindE (asksE now_secs) (\<lambda>now.
          thenE (insert_file env \<lparr> sf_id = i, sf_skill = skill_id, sf_name = name,
            sf_content = content, sf_created_at = now, sf_updated_at = now \<rparr>)
          (ret i)))))))"

definition delete_file :: "env \<Rightarrow> ident \<Rightarrow> ident \<Rightarrow> string \<Rightarrow> unit skill_op" where
  "delete_file env startup_id skill_id name =
     thenE (require_skill env startup_id skill_id)
     (bindE (sqlK env (sql_stmt (\<lambda>s.
        let hit = (\<lambda>r. sf_skill r = skill_id \<and> sf_name r = name) in
        Inr (length (filter hit (d_skill_files (db s))),
          (db s)\<lparr>d_skill_files := delete_rows hit (d_skill_files (db s))\<rparr>))))
       (\<lambda>n. guardE (n \<noteq> 0) SkNotFound))"

section \<open>Listings with attachments\<close>

definition list_with_attachments :: "env \<Rightarrow> ident \<Rightarrow> skill_with_attachments list skill_op" where
  "list_with_attachments env startup_id =
     bindE (sqlK env (sql_query (\<lambda>d.
        sort_key sk_name (filter (\<lambda>r. sk_startup r = startup_id) (d_skills d)))))
       (\<lambda>rows. collectE rows (\<lambda>r.
          bindE (sqlK env (sql_query (\<lambda>d.
            sort (map as_agent (filter (\<lambda>x. as_skill x = sk_id r) (d_agent_skills d)))))) (\<lambda>ags.
          ret \<lparr> swa_id = sk_id r, swa_name = sk_name r, swa_len = sql_length (sk_content r),
            swa_updated_at = sk_updated_at r, swa_attachments = ags,
            swa_is_global = (sk_is_global r \<noteq> 0) \<rparr>)))"

text \<open>The map of the console snapshot, as an association list.\<close>

definition list_all_with_attachments :: "env \<Rightarrow> (ident \<times> skill_with_attachments list) list skill_op"
where
  "list_all_with_attachments env =
     bindE (sqlK env (sql_query (\<lambda>d. remdups (map sk_startup (d_skills d))))) (\<lambda>sids.
       collectE sids (\<lambda>sid. bindE (list_with_attachments env sid) (\<lambda>v. ret (sid, v))))"

definition skill_with_attachments_to_json :: "skill_with_attachments \<Rightarrow> json" where
  "skill_with_attachments_to_json r = JObj [(''id'', JStr (swa_id r)), (''name'', JStr (swa_name r)),
     (''len'', JInt (swa_len r)), (''updated_at'', JInt (swa_updated_at r)),
     (''attachments'', JArr (map JStr (swa_attachments r))), (''is_global'', JBool (swa_is_global r))]"

end
