(* ===== verification/SkillsInv.thy ===== *)
theory SkillsInv
  imports Skills TaskInv Sample
begin

text \<open>
  The invariant of the four skill tables and its preservation by every operation of \<open>skills.rs\<close>, on
  every branch and with every pattern of SQL failures; what a write and a revert leave behind when no
  statement fails.
\<close>

section \<open>The invariant\<close>

definition skill_owner :: "database \<Rightarrow> ident \<Rightarrow> ident option" where
  "skill_owner d i = map_option sk_startup (skill_row d i)"

definition skills_ok :: "skill list \<Rightarrow> bool" where
  "skills_ok rows \<longleftrightarrow> distinct (map sk_id rows) \<and>
     distinct (map (\<lambda>r. (sk_startup r, sk_name r)) rows) \<and>
     (\<forall>r \<in> set rows. name_is_valid (sk_name r) \<and> length (sk_content r) \<le> MAX_CONTENT_LEN)"

definition links_ok :: "(ident \<Rightarrow> ident option) \<Rightarrow> (ident \<Rightarrow> ident option) \<Rightarrow> agent_skill list \<Rightarrow> bool"
where
  "links_ok owner agents rows \<longleftrightarrow> distinct (map (\<lambda>x. (as_agent x, as_skill x)) rows) \<and>
     (\<forall>x \<in> set rows. owner (as_skill x) \<noteq> None \<and> agents (as_agent x) = owner (as_skill x))"

definition files_ok :: "(ident \<Rightarrow> ident option) \<Rightarrow> skill_file list \<Rightarrow> bool" where
  "files_ok owner rows \<longleftrightarrow> distinct (map (\<lambda>r. (sf_skill r, sf_name r)) rows) \<and>
     (\<forall>r \<in> set rows. owner (sf_skill r) \<noteq> None \<and> file_name_is_valid (sf_name r) \<and>
        length (sf_content r) \<le> MAX_CONTENT_LEN)"

text \<open>The revisions of a skill are numbered from one without a gap.\<close>

definition numbered :: "skill_revision list \<Rightarrow> bool" where
  "numbered rows \<longleftrightarrow> map sr_seq rows = map int [1..<Suc (length rows)]"

definition log_ok :: "(ident \<Rightarrow> ident option) \<Rightarrow> skill_revision list \<Rightarrow> bool" where
  "log_ok owner rows \<longleftrightarrow> (\<forall>i. numbered (filter (\<lambda>r. sr_skill r = i) rows)) \<and>
     (\<forall>r \<in> set rows. owner (sr_skill r) \<noteq> None \<and> length (sr_content r) \<le> MAX_CONTENT_LEN)"

definition skill_inv :: "database \<Rightarrow> bool" where
  "skill_inv d \<longleftrightarrow> skills_ok (d_skills d) \<and>
     links_ok (skill_owner d) (startup_of_agent d) (d_agent_skills d) \<and>
     files_ok (skill_owner d) (d_skill_files d) \<and> log_ok (skill_owner d) (d_skill_revisions d)"

section \<open>Table updates\<close>

lemma owner_simps [simp]:
  "skill_owner (d\<lparr>d_agent_skills := a\<rparr>) = skill_owner d" "skill_owner (d\<lparr>d_skill_files := fs\<rparr>) = skill_owner d"
  "skill_owner (d\<lparr>d_skill_revisions := rs\<rparr>) = skill_owner d"
  "startup_of_agent (d\<lparr>d_agent_skills := a\<rparr>) = startup_of_agent d"
  "startup_of_agent (d\<lparr>d_skill_files := fs\<rparr>) = startup_of_agent d"
  "startup_of_agent (d\<lparr>d_skill_revisions := rs\<rparr>) = startup_of_agent d"
  "startup_of_agent (d\<lparr>d_skills := ss\<rparr>) = startup_of_agent d"
  by (simp_all add: fun_eq_iff skill_owner_def skill_row_def startup_of_agent_def agent_row_def)

lemma owner_upd [simp]:
  assumes "\<And>r. sk_id (f r) = sk_id r \<and> sk_startup (f r) = sk_startup r"
  shows "skill_owner (upd_skill i f d) = skill_owner d"
  using assms
  by (auto simp: fun_eq_iff skill_owner_def skill_row_def upd_skill_def find_row_update option.map_comp o_def)

lemma owner_mono:
  "owner \<subseteq>\<^sub>m owner' \<Longrightarrow> links_ok owner ags ls \<Longrightarrow> links_ok owner' ags ls"
  "owner \<subseteq>\<^sub>m owner' \<Longrightarrow> files_ok owner fs \<Longrightarrow> files_ok owner' fs"
  "owner \<subseteq>\<^sub>m owner' \<Longrightarrow> log_ok owner rs \<Longrightarrow> log_ok owner' rs"
  by (fastforce simp: links_ok_def files_ok_def log_ok_def map_le_def dom_def)+

lemma skill_inv_upd:
  assumes "skill_inv d"
    and f: "\<And>r. sk_id (f r) = sk_id r \<and> sk_startup (f r) = sk_startup r \<and> sk_name (f r) = sk_name r"
    and "\<And>r. length (sk_content r) \<le> MAX_CONTENT_LEN \<Longrightarrow> length (sk_content (f r)) \<le> MAX_CONTENT_LEN"
  shows "skill_inv (upd_skill i f d)"
proof -
  have "skill_owner (upd_skill i f d) = skill_owner d" using f by simp
  moreover have "skills_ok (d_skills (upd_skill i f d))"
    using assms keys_update_rows [of sk_id f] keys_update_rows [of "\<lambda>r. (sk_startup r, sk_name r)" f]
    by (auto simp: skill_inv_def skills_ok_def upd_skill_def dest!: in_update_rows)
  moreover have "startup_of_agent (upd_skill i f d) = startup_of_agent d"
    by (simp add: upd_skill_def)
  ultimately show ?thesis using assms(1) by (simp add: skill_inv_def) (simp add: upd_skill_def)
qed

lemma skill_inv_insert:
  assumes "skill_inv d" and "skill_row d (sk_id r) = None"
    and "(sk_startup r, sk_name r) \<notin> (\<lambda>x. (sk_startup x, sk_name x)) ` set (d_skills d)"
    and "name_is_valid (sk_name r)" and "length (sk_content r) \<le> MAX_CONTENT_LEN"
  shows "skill_inv (d\<lparr>d_skills := d_skills d @ [r]\<rparr>)"
proof -
  have "skill_owner d \<subseteq>\<^sub>m skill_owner (d\<lparr>d_skills := d_skills d @ [r]\<rparr>)"
    by (auto simp: map_le_def skill_owner_def skill_row_def find_row_append)
  then show ?thesis
    using assms
    by (auto simp: skill_inv_def skills_ok_def skill_row_def find_row_None intro: owner_mono)
qed

lemma max_seq_Max: "max_seq xs = (if xs = [] then 0 else Max (set xs))"
  by (cases xs) (simp_all add: Max.set_eq_fold [symmetric])

lemma max_seq_numbered:
  assumes "numbered rows"
  shows "max_seq (map sr_seq rows) = int (length rows)"
proof (cases "rows = []")
  case False
  have "Max (set (map sr_seq rows)) = int (length rows)"
    using False by (subst assms [unfolded numbered_def], intro Max_eqI) (auto simp: Suc_le_eq)
  with False show ?thesis by (simp add: max_seq_Max)
qed simp

lemma skill_inv_append:
  assumes "skill_inv d" and "skill_owner d (sr_skill r) \<noteq> None"
    and "sr_seq r = max_seq (map sr_seq (revisions_of d (sr_skill r))) + 1"
    and "length (sr_content r) \<le> MAX_CONTENT_LEN"
  shows "skill_inv (d\<lparr>d_skill_revisions := d_skill_revisions d @ [r]\<rparr>)"
proof -
  have "numbered (revisions_of d (sr_skill r))"
    using assms(1) by (simp add: skill_inv_def log_ok_def revisions_of_def)
  moreover from this have "sr_seq r = int (length (revisions_of d (sr_skill r))) + 1"
    by (simp add: assms(3) max_seq_numbered)
  ultimately have "numbered (revisions_of d (sr_skill r) @ [r])"
    by (simp add: numbered_def)
  then show ?thesis
    using assms by (auto simp: skill_inv_def log_ok_def revisions_of_def)
qed

lemma filter_two: "filter P (filter Q xs) = filter (\<lambda>x. Q x \<and> P x) xs"
  by (induction xs) auto

lemma skill_inv_drop:
  assumes "skill_inv d"
  shows "skill_inv (drop_skill i d)"
proof -
  have o: "skill_owner (drop_skill i d) = (skill_owner d)(i := None)"
    by (auto simp: fun_eq_iff skill_owner_def skill_row_def drop_skill_def find_row_delete)
  have ag: "startup_of_agent (drop_skill i d) = startup_of_agent d"
    by (simp add: fun_eq_iff drop_skill_def startup_of_agent_def agent_row_def)
  have "numbered (filter (\<lambda>r. sr_skill r \<noteq> i \<and> sr_skill r = j) (d_skill_revisions d))" for j
    using assms by (cases "j = i") (simp_all add: skill_inv_def log_ok_def numbered_def conj_commute cong: conj_cong)
  then show ?thesis
    using assms unfolding skill_inv_def o ag
    by (auto simp: drop_skill_def skills_ok_def links_ok_def files_ok_def log_ok_def delete_rows_def
        distinct_map inj_on_def filter_two)
qed

lemma skill_inv_links:
  "skill_inv d \<Longrightarrow> links_ok (skill_owner d) (startup_of_agent d) ls \<Longrightarrow> skill_inv (d\<lparr>d_agent_skills := ls\<rparr>)"
  by (simp add: skill_inv_def)

lemma skill_inv_files:
  "skill_inv d \<Longrightarrow> files_ok (skill_owner d) fs \<Longrightarrow> skill_inv (d\<lparr>d_skill_files := fs\<rparr>)"
  by (simp add: skill_inv_def)

section \<open>The operations\<close>

lemma wp_sqlK [wp]: "wpE (sqlK env m) Q E = wpE m Q (\<lambda>e. E (SkSql (e_sql_text env e)))"
  by (simp add: sqlK_def wp)

lemma wp_owned_by [wp]:
  "wpE (owned_by sid owner) Q E = (\<lambda>s. case owner of None \<Rightarrow> E SkNotFound s
     | Some x \<Rightarrow> if x = sid then Q () s else E CrossStartup s)"
  by (simp add: owned_by_def wp fun_eq_iff split: option.split)

lemma wp_require_skill [wp]:
  "wpE (require_skill env sid i) Q E = (\<lambda>s.
     if sql_fails s then E (SkSql (e_sql_text env SqlFault)) (sql_pop s)
     else case skill_owner (db s) i of None \<Rightarrow> E SkNotFound (sql_pop s)
     | Some x \<Rightarrow> if x = sid then Q () (sql_pop s) else E CrossStartup (sql_pop s))"
  by (simp add: require_skill_def wp skill_owner_def cong: if_cong)

lemma wp_require_agent [wp]:
  "wpE (require_agent env sid i) Q E = (\<lambda>s.
     if sql_fails s then E (SkSql (e_sql_text env SqlFault)) (sql_pop s)
     else case startup_of_agent (db s) i of None \<Rightarrow> E SkNotFound (sql_pop s)
     | Some x \<Rightarrow> if x = sid then Q () (sql_pop s) else E CrossStartup (sql_pop s))"
  by (simp add: require_agent_def wp startup_of_agent_def cong: if_cong)

lemma owner_row: "skill_owner d i = Some x \<Longrightarrow> skill_row d i \<noteq> None"
  by (auto simp: skill_owner_def)

definition skill_safe :: "(sys, 'e, 'a) sem \<Rightarrow> bool" where
  "skill_safe m \<longleftrightarrow> (\<forall>s. skill_inv (db s) \<longrightarrow>
     wpE m (\<lambda>_ t. skill_inv (db t)) (\<lambda>_ t. skill_inv (db t)) s)"

named_theorems safe "operations that keep the skill tables sound"

lemma safe_bind [safe]: "skill_safe m \<Longrightarrow> (\<And>a. skill_safe (f a)) \<Longrightarrow> skill_safe (bindE m f)"
  unfolding skill_safe_def wp_bind by (blast intro: wp_mono)

lemma safe_then [safe]: "skill_safe m \<Longrightarrow> skill_safe n \<Longrightarrow> skill_safe (thenE m n)"
  unfolding skill_safe_def wp_then by (blast intro: wp_mono)

lemma safe_basic [safe]: "skill_safe (ret a)" "skill_safe (throw e)" "skill_safe (guardE b e)"
  "skill_safe (asksE f)" "skill_safe (fresh_uuid env)" "skill_safe (sql_query g)"
  "skill_safe (require_skill env sid i)" "skill_safe (require_agent env sid i)"
  by (auto simp: skill_safe_def wp split: option.split)

lemma safe_wrap [safe]: "skill_safe m \<Longrightarrow> skill_safe (ignoreE m)" "skill_safe m \<Longrightarrow> skill_safe (orDefault d m)"
  "skill_safe m \<Longrightarrow> skill_safe (mapErr g m)" "skill_safe q \<Longrightarrow> skill_safe (sqlK env q)"
  by (simp_all add: skill_safe_def wp)

lemma safe_cases [safe]:
  "skill_safe m \<Longrightarrow> (\<And>y. skill_safe (k y)) \<Longrightarrow> skill_safe (case x of None \<Rightarrow> m | Some y \<Rightarrow> k y)"
  "(\<And>a b. skill_safe (g a b)) \<Longrightarrow> skill_safe (case p of (a, b) \<Rightarrow> g a b)"
  by (auto split: option.split prod.split)

lemma safe_collect [safe]: "(\<And>x. skill_safe (f x)) \<Longrightarrow> skill_safe (collectE xs f)"
  by (induction xs) (auto intro: safe)

lemma safe_append_revision [safe]:
  assumes "length content \<le> MAX_CONTENT_LEN"
  shows "skill_safe (append_revision env i content a)"
  using assms
  by (auto simp: skill_safe_def append_revision_def Let_def wp revision_ok_def skill_owner_def
      split: option.split intro: skill_inv_append)

lemma safe_set_content [safe]:
  "length content \<le> MAX_CONTENT_LEN \<Longrightarrow> skill_safe (set_content env i content)"
  by (auto simp: skill_safe_def set_content_def wp intro: skill_inv_upd)

lemma safe_insert_skill [safe]:
  "name_is_valid (sk_name r) \<Longrightarrow> length (sk_content r) \<le> MAX_CONTENT_LEN \<Longrightarrow> skill_safe (insert_skill env r)"
  by (auto simp: skill_safe_def insert_skill_def wp split: option.split intro: skill_inv_insert)

lemma safe_guard: "(b \<Longrightarrow> skill_safe m) \<Longrightarrow> skill_safe (thenE (guardE b e) m)"
  by (simp add: skill_safe_def wp)

lemma safe_upsert [safe]: "skill_safe (upsert_with_author env sid name content a)"
  unfolding upsert_with_author_def by (intro safe_guard safe) simp_all

lemma revision_content:
  "skill_inv d \<Longrightarrow> find p (revisions_of d i) = Some r \<Longrightarrow> length (sr_content r) \<le> MAX_CONTENT_LEN"
  by (auto simp: skill_inv_def log_ok_def revisions_of_def dest!: find_SomeD)

text \<open>What a query returns is known of the database it ran on.\<close>

lemma safe_query:
  assumes "\<And>d. skill_inv d \<Longrightarrow> skill_safe (f (g d))"
  shows "skill_safe (bindE (sqlK env (sql_query g)) f)"
  using assms by (simp add: skill_safe_def wp)

lemma safe_revert [safe]: "skill_safe (revert_to_revision env sid i n a)"
proof -
  have "skill_safe (case map_option sr_content (find p (revisions_of d i)) of
      None \<Rightarrow> throw SkNotFound
    | Some c \<Rightarrow> thenE (set_content env i c) (thenE (ignoreE (append_revision env i c a)) (ret c)))"
    if "skill_inv d" for d p
    using revision_content [OF that, of p i] by (cases "find p (revisions_of d i)") (auto intro!: safe)
  then show ?thesis
    unfolding revert_to_revision_def by (intro safe_then safe_basic safe_query)
qed

lemma links_add:
  "links_ok owner ags ls \<Longrightarrow> (a, i) \<notin> (\<lambda>x. (as_agent x, as_skill x)) ` set ls \<Longrightarrow>
   owner i = Some sid \<Longrightarrow> ags a = Some sid \<Longrightarrow>
   links_ok owner ags (ls @ [\<lparr> as_agent = a, as_skill = i, as_attached_at = n \<rparr>])"
  by (auto simp: links_ok_def)

lemma links_delete: "links_ok owner ags ls \<Longrightarrow> links_ok owner ags (delete_rows p ls)"
  by (auto simp: links_ok_def delete_rows_def distinct_map inj_on_def)

lemma safe_attach [safe]: "skill_safe (attach env sid a i)"
  by (auto simp: skill_safe_def attach_def wp Let_def skill_inv_def intro: links_add
      split: option.split)

lemma safe_detach [safe]: "skill_safe (detach env sid a i)"
  by (auto simp: skill_safe_def detach_def wp skill_inv_def intro: links_delete split: option.split)

lemma safe_delete [safe]: "skill_safe (skills_delete env sid i)"
  by (auto simp: skill_safe_def skills_delete_def wp intro: skill_inv_drop split: option.split)

lemma safe_set_global [safe]: "skill_safe (set_global env i g)"
  by (auto simp: skill_safe_def set_global_def wp intro!: skill_inv_upd)

lemma files_add:
  "files_ok owner fs \<Longrightarrow> (sf_skill r, sf_name r) \<notin> (\<lambda>x. (sf_skill x, sf_name x)) ` set fs \<Longrightarrow>
   owner (sf_skill r) \<noteq> None \<Longrightarrow> file_name_is_valid (sf_name r) \<Longrightarrow>
   length (sf_content r) \<le> MAX_CONTENT_LEN \<Longrightarrow> files_ok owner (fs @ [r])"
  by (auto simp: files_ok_def)

lemma files_update:
  assumes "files_ok owner fs" and "length c \<le> MAX_CONTENT_LEN"
  shows "files_ok owner (update_rows p (\<lambda>r. r\<lparr>sf_content := c, sf_updated_at := n\<rparr>) fs)"
  using assms keys_update_rows [of "\<lambda>r. (sf_skill r, sf_name r)" "\<lambda>r. r\<lparr>sf_content := c, sf_updated_at := n\<rparr>" p fs]
  by (auto simp: files_ok_def dest!: in_update_rows)

lemma files_delete: "files_ok owner fs \<Longrightarrow> files_ok owner (delete_rows p fs)"
  by (auto simp: files_ok_def delete_rows_def distinct_map inj_on_def)

lemma safe_insert_file [safe]:
  "file_name_is_valid (sf_name r) \<Longrightarrow> length (sf_content r) \<le> MAX_CONTENT_LEN \<Longrightarrow> skill_safe (insert_file env r)"
  by (auto simp: skill_safe_def insert_file_def wp skill_inv_def skill_owner_def split: option.split
      intro: files_add)

lemma safe_update_file [safe]:
  "length c \<le> MAX_CONTENT_LEN \<Longrightarrow> skill_safe (sql_exec (\<lambda>s. (db s)\<lparr>d_skill_files :=
     update_rows p (\<lambda>r. r\<lparr>sf_content := c, sf_updated_at := now_secs s\<rparr>) (d_skill_files (db s))\<rparr>))"
  by (auto simp: skill_safe_def wp skill_inv_def intro: files_update)

lemma safe_upsert_file [safe]: "skill_safe (upsert_file env sid i name c)"
  unfolding upsert_file_def by (intro safe_guard safe) simp_all

lemma safe_delete_file [safe]: "skill_safe (delete_file env sid i name)"
  by (auto simp: skill_safe_def delete_file_def wp Let_def skill_inv_def intro: files_delete
      split: option.split)

lemma safe_readers [safe]:
  "skill_safe (list_revisions env sid i)" "skill_safe (skills_list env sid)" "skill_safe (skills_get env i)"
  "skill_safe (list_files env i)" "skill_safe (for_agent env a)"
  "skill_safe (list_with_attachments env sid)" "skill_safe (list_all_with_attachments env)"
  unfolding list_revisions_def skills_list_def skills_get_def list_files_def for_agent_def
    list_with_attachments_def list_all_with_attachments_def
  by (intro safe)+

section \<open>Any sequence of skill operations\<close>

inductive skill_step :: "env \<Rightarrow> sys \<Rightarrow> sys \<Rightarrow> bool" for env where
  upsert: "skill_step env s (snd (upsert_with_author env sid name content a s))"
| revert: "skill_step env s (snd (revert_to_revision env sid i n a s))"
| attach: "skill_step env s (snd (attach env sid ag i s))"
| detach: "skill_step env s (snd (detach env sid ag i s))"
| delete: "skill_step env s (snd (skills_delete env sid i s))"
| globl: "skill_step env s (snd (set_global env i g s))"
| upsert_file: "skill_step env s (snd (upsert_file env sid i name content s))"
| delete_file: "skill_step env s (snd (delete_file env sid i name s))"

inductive_cases skill_stepE: "skill_step env s t"

lemma safe_run: "skill_safe m \<Longrightarrow> skill_inv (db s) \<Longrightarrow> skill_inv (db (snd (m s)))"
  unfolding skill_safe_def using wp_snd [of m "\<lambda>t. skill_inv (db t)" s] by blast

lemma skill_step_inv: "skill_inv (db s) \<Longrightarrow> skill_step env s t \<Longrightarrow> skill_inv (db t)"
  by (erule skill_stepE) (auto intro: safe_run safe)

interpretation skill_system: invariant_system "\<lambda>s. skill_inv (db s)" "skill_step env" "\<lambda>s. skill_inv (db s)"
  for env
  by unfold_locales (auto intro: skill_step_inv)

section \<open>What a write leaves behind\<close>

lemma skill_tables_simps [simp]:
  "agent_row (d\<lparr>d_skills := ss\<rparr>) = agent_row d" "agent_row (upd_skill i f d) = agent_row d"
  "operator_row_of (d\<lparr>d_skills := ss\<rparr>) = operator_row_of d"
  "operator_row_of (upd_skill i f d) = operator_row_of d"
  "revisions_of (d\<lparr>d_skills := ss\<rparr>) j = revisions_of d j" "revisions_of (upd_skill i f d) j = revisions_of d j"
  "d_skill_revisions (upd_skill i f d) = d_skill_revisions d"
  "skill_row (d\<lparr>d_skill_revisions := rs\<rparr>) = skill_row d"
  by (simp_all add: fun_eq_iff agent_row_def operator_row_of_def revisions_of_def upd_skill_def skill_row_def)

lemma no_fault_pop [simp]: "faults s = [] \<Longrightarrow> sql_pop s = s"
  by (cases s) (simp add: sql_pop_def)

lemma skill_row_upd:
  "(\<And>r. sk_id (f r) = sk_id r) \<Longrightarrow>
   skill_row (upd_skill i f d) j = (if i = j then map_option f (skill_row d j) else skill_row d j)"
  by (simp add: skill_row_def upd_skill_def find_row_update)

text \<open>The author of a revision has a row, and the identifiers to come are not those of old revisions.\<close>

definition author_known :: "database \<Rightarrow> author \<Rightarrow> bool" where
  "author_known d a = (case a of ByAgent x \<Rightarrow> agent_row d x \<noteq> None
     | ByOperator x \<Rightarrow> operator_row_of d x \<noteq> None | ByUnknown \<Rightarrow> True)"

definition fresh_revisions :: "env \<Rightarrow> database \<Rightarrow> bool" where
  "fresh_revisions env d \<longleftrightarrow> (\<forall>n. e_uuid env n \<notin> sr_id ` set (d_skill_revisions d))"

text \<open>The new revision: the next number, the content and the author.\<close>

definition logged :: "database \<Rightarrow> database \<Rightarrow> ident \<Rightarrow> string \<Rightarrow> author \<Rightarrow> bool" where
  "logged d d' i content a \<longleftrightarrow>
     (\<exists>r. skill_row d' i = Some r \<and> sk_content r = content) \<and>
     (\<exists>v. revisions_of d' i = revisions_of d i @ [v] \<and> sr_content v = content \<and>
        sr_seq v = int (length (revisions_of d i)) + 1 \<and>
        sr_agent v = (case a of ByAgent x \<Rightarrow> Some x | _ \<Rightarrow> None) \<and>
        sr_operator v = (case a of ByOperator x \<Rightarrow> Some x | _ \<Rightarrow> None))"

lemma wp_append_revision:
  assumes "faults s = []" and "fresh_revisions env (db s)" and "author_known (db s) a"
    and "skill_row (db s) i = Some r" and "sk_content r = content"
    and n: "numbered (revisions_of (db s) i)"
  shows "wpE (append_revision env i content a) (\<lambda>_ t. logged (db s) (db t) i content a) (\<lambda>_ _. False) s"
proof -
  have "int (length (revisions_of (db s) i)) + 1 \<notin> sr_seq ` set (revisions_of (db s) i)"
  proof -
    have "sr_seq ` set (revisions_of (db s) i) = set (map sr_seq (revisions_of (db s) i))" by simp
    also have "\<dots> = int ` {1..length (revisions_of (db s) i)}"
      by (subst n [unfolded numbered_def]) auto
    finally show ?thesis by auto
  qed
  then show ?thesis
    using assms
    by (auto simp: append_revision_def Let_def wp revision_ok_def max_seq_numbered logged_def
        fresh_revisions_def author_known_def find_row_None revisions_of_def split: author.split)
qed

lemma upsert_logs:
  assumes inv: "skill_inv (db s)" and "faults s = []" and "fresh_revisions env (db s)"
    and "author_known (db s) a"
  shows "wpE (upsert_with_author env sid name content a)
     (\<lambda>(i, _) t. logged (db s) (db t) i content a) (\<lambda>_ _. True) s"
proof -
  have num: "numbered (revisions_of (db s) i)" for i
    using inv by (simp add: skill_inv_def log_ok_def revisions_of_def)
  have tail: "wpE (append_revision env i content a) (\<lambda>_ t. logged (db s) (db t) i content a)
      (\<lambda>_ t. logged (db s) (db t) i content a) t"
    if "faults t = []" "d_skill_revisions (db t) = d_skill_revisions (db s)"
      "author_known (db t) a" "skill_row (db t) i = Some r" "sk_content r = content" for i t r
  proof -
    have "revisions_of (db t) = revisions_of (db s)" using that(2) by (simp add: fun_eq_iff revisions_of_def)
    with wp_append_revision [of t env a i r content] that num assms(3) show ?thesis
      by (auto simp: logged_def fresh_revisions_def elim!: wp_mono)
  qed
  have row: "\<exists>r. skill_row (db s) i = Some r" if "skill_named sid name (db s) = Some i" for i
    using that find_row_None [of sk_id i "d_skills (db s)"]
    by (auto simp: skill_named_def skill_row_def dest!: find_SomeD)
  have ak: "author_known d a = author_known (db s) a"
    if "agent_row d = agent_row (db s)" "operator_row_of d = operator_row_of (db s)" for d
    using that by (simp add: author_known_def split: author.split)
  show ?thesis
  proof (cases "skill_named sid name (db s)")
    case (Some i)
    then obtain r where r: "skill_row (db s) i = Some r" using row by blast
    have "wpE (append_revision env i content a) (\<lambda>_ t. logged (db s) (db t) i content a)
       (\<lambda>_ t. logged (db s) (db t) i content a)
       (s\<lparr>db := upd_skill i (\<lambda>r. r\<lparr>sk_content := content, sk_updated_at := now_secs s\<rparr>) (db s)\<rparr>)"
      by (rule tail [where r = "r\<lparr>sk_content := content, sk_updated_at := now_secs s\<rparr>"])
         (simp_all add: ak assms skill_row_upd r)
    with Some assms(2) show ?thesis
      by (simp add: upsert_with_author_def wp set_content_def)
  next
    case None
    let ?row = "\<lambda>i n. \<lparr> sk_id = i, sk_startup = sid, sk_name = name, sk_content = content,
      sk_created_at = n, sk_updated_at = n, sk_is_global = 0 \<rparr>"
    have "wpE (append_revision env i content a) (\<lambda>_ t. logged (db s) (db t) i content a)
       (\<lambda>_ t. logged (db s) (db t) i content a)
       (s\<lparr>uuid_ctr := k, db := (db s)\<lparr>d_skills := d_skills (db s) @ [?row i n]\<rparr>\<rparr>)"
      if "skill_row (db s) i = None" for i k n
      using that by (intro tail [where r = "?row i n"]) (simp_all add: ak assms skill_row_def find_row_append)
    with None assms(2) show ?thesis
      by (simp add: upsert_with_author_def wp insert_skill_def)
  qed
qed

lemma revert_logs:
  assumes inv: "skill_inv (db s)" and "faults s = []" and "fresh_revisions env (db s)"
    and "author_known (db s) a"
  shows "wpE (revert_to_revision env sid i n a)
     (\<lambda>c t. logged (db s) (db t) i c a \<and>
        (\<exists>v \<in> set (revisions_of (db s) i). sr_seq v = n \<and> sr_content v = c)) (\<lambda>_ _. True) s"
proof -
  have num: "numbered (revisions_of (db s) i)"
    using inv by (simp add: skill_inv_def log_ok_def revisions_of_def)
  have tail: "wpE (append_revision env i (sr_content v) a)
      (\<lambda>_ t. logged (db s) (db t) i (sr_content v) a \<and>
        (\<exists>w \<in> set (revisions_of (db s) i). sr_seq w = n \<and> sr_content w = sr_content v))
      (\<lambda>_ t. logged (db s) (db t) i (sr_content v) a \<and>
        (\<exists>w \<in> set (revisions_of (db s) i). sr_seq w = n \<and> sr_content w = sr_content v)) t"
    if "find (\<lambda>r. sr_seq r = n) (revisions_of (db s) i) = Some v" "skill_row (db s) i = Some x"
      "faults t = []" "db t = upd_skill i (\<lambda>r. r\<lparr>sk_content := sr_content v, sk_updated_at := k\<rparr>) (db s)"
    for v t x k
  proof -
    have v: "v \<in> set (revisions_of (db s) i)" "sr_seq v = n" using find_SomeD [OF that(1)] by auto
    have "wpE (append_revision env i (sr_content v) a)
        (\<lambda>_ u. logged (db t) (db u) i (sr_content v) a) (\<lambda>_ _. False) t"
      by (rule wp_append_revision)
         (use that num assms(3,4) in \<open>auto simp: skill_row_upd fresh_revisions_def author_known_def split: author.split\<close>)
    then show ?thesis using v that(4) by (auto simp: logged_def elim!: wp_mono)
  qed
  show ?thesis
    using assms
    by (auto simp: revert_to_revision_def wp set_content_def skill_owner_def split: option.split intro!: tail)
qed

section \<open>What an agent receives\<close>

lemma collect_run:
  assumes "\<And>x s. x \<in> set xs \<Longrightarrow> faults s = [] \<Longrightarrow> f x s = (Inr (g (db s) x), s)"
    and "faults s = []"
  shows "collectE xs f s = (Inr (map (g (db s)) xs), s)"
  using assms(1) by (induction xs) (simp_all add: ret_def bindE_def assms(2))

definition bundle_of :: "database \<Rightarrow> skill \<Rightarrow> attached_skill" where
  "bundle_of d r = \<lparr> at_name = sk_name r, at_content = sk_content r,
     at_files = map (\<lambda>f. \<lparr> fl_name = sf_name f, fl_content = sf_content f \<rparr>)
       (sort_key sf_name (filter (\<lambda>f. sf_skill f = sk_id r) (d_skill_files d))) \<rparr>"

lemma sqlK_query_run: "faults s = [] \<Longrightarrow> sqlK env (sql_query g) s = (Inr (g (db s)), s)"
  by (simp add: sqlK_def mapErr_def sql_query_def sql_stmt_def)

lemma for_agent_run:
  assumes "faults s = []"
  shows "for_agent env a s =
    (Inr (map (bundle_of (db s)) (sort_key sk_name (filter (visible_to a (db s)) (d_skills (db s))))), s)"
proof -
  have f: "bindE (orDefault [] (list_files env (sk_id r)))
      (\<lambda>fs. ret \<lparr> at_name = sk_name r, at_content = sk_content r, at_files = fs \<rparr>) t = (Inr (bundle_of (db t) r), t)"
    if "faults t = []" for r t
    using that by (simp add: bindE_def orDefault_def list_files_def sqlK_query_run ret_def bundle_of_def)
  show ?thesis
    unfolding for_agent_def
    by (simp only: bindE_def [of "sqlK env q" for q] sqlK_query_run [OF assms] prod.case sum.case)
       (rule collect_run [OF f assms])
qed

lemma valid_file_name:
  assumes "file_name_is_valid name"
  shows "CHR ''/'' \<notin> set name \<and> name \<noteq> [] \<and> name \<noteq> ''.'' \<and> name \<noteq> ''..''"
  using assms by (auto simp: file_name_is_valid_def list_all_iff is_ascii_alphanumeric_def Let_def)

lemma valid_name:
  assumes "name_is_valid name"
  shows "CHR ''/'' \<notin> set name \<and> name \<noteq> [] \<and> name \<noteq> ''.'' \<and> name \<noteq> ''..''"
  using assms by (auto simp: name_is_valid_def list_all_iff is_ascii_alphanumeric_def Let_def)

section \<open>Properties\<close>

text \<open>Whatever the sequence of skill operations, by whichever callers and with whichever SQL
  failures, an attached skill always belongs to the startup of the agent it is attached to, and the
  revisions of every skill stay numbered from one without a gap.\<close>

lemma attachments_stay_in_the_startup:
  assumes "skill_inv (db s)" and "(skill_step env)\<^sup>*\<^sup>* s t" and "x \<in> set (d_agent_skills (db t))"
  shows "skill_owner (db t) (as_skill x) \<noteq> None \<and>
    startup_of_agent (db t) (as_agent x) = skill_owner (db t) (as_skill x) \<and>
    numbered (revisions_of (db t) i)"
  using skill_system.steps_inv [OF assms(2,1)] assms(3)
  by (simp add: skill_inv_def links_ok_def log_ok_def revisions_of_def)

text \<open>A write of a skill is logged: when no statement fails, the live content is the one given and
  the revision log grows by exactly one entry, with the next number, that content and the author.\<close>

lemma skill_write_is_logged:
  assumes "skill_inv (db s)" and "faults s = []" and "fresh_revisions env (db s)"
    and "author_known (db s) a" and "upsert_with_author env sid name content a s = (Inr (i, new), t)"
  shows "logged (db s) (db t) i content a"
  using wpE_Inr [OF upsert_logs [OF assms(1-4)] assms(5)] by simp

lemma log_only_grows:
  "wpE (append_revision env i c a)
     (\<lambda>_ t. d_skills (db t) = d_skills (db s) \<and>
        (\<exists>new. d_skill_revisions (db t) = d_skill_revisions (db s) @ new \<and> length new \<le> 1 \<and>
           (\<forall>v \<in> set new. sr_skill v = i \<and> sr_content v = c)) \<and> author_known (db s) a)
     (\<lambda>_ t. db t = db s) s"
proof -
  have one: "\<exists>new. xs @ [v] = xs @ new \<and> length new \<le> 1 \<and> (\<forall>w \<in> set new. sr_skill w = i \<and> sr_content w = c)"
    if "sr_skill v = i" "sr_content v = c" for xs v
    using that by (intro exI [of _ "[v]"]) simp
  show ?thesis
    by (auto simp: append_revision_def Let_def wp revision_ok_def fk_def refs_def author_known_def
        split: option.split author.split intro!: one)
qed

lemma revert_restores:
  "wpE (revert_to_revision env sid i n a)
     (\<lambda>c t. (\<exists>v \<in> set (revisions_of (db s) i). sr_seq v = n \<and> sr_content v = c) \<and>
        (\<exists>r. skill_row (db t) i = Some r \<and> sk_content r = c) \<and>
        (\<exists>new. d_skill_revisions (db t) = d_skill_revisions (db s) @ new \<and> length new \<le> 1 \<and>
          (\<forall>v \<in> set new. sr_skill v = i \<and> sr_content v = c)) \<and>
        (author_known (db s) a \<or> d_skill_revisions (db t) = d_skill_revisions (db s))) (\<lambda>_ _. True) s"
proof -
  have tail: "wpE (append_revision env i c a)
      (\<lambda>_ t. (\<exists>r. skill_row (db t) i = Some r \<and> sk_content r = c) \<and>
        (\<exists>new. d_skill_revisions (db t) = d_skill_revisions (db s) @ new \<and> length new \<le> 1 \<and>
          (\<forall>v \<in> set new. sr_skill v = i \<and> sr_content v = c)) \<and>
        (author_known (db s) a \<or> d_skill_revisions (db t) = d_skill_revisions (db s)))
      (\<lambda>_ t. (\<exists>r. skill_row (db t) i = Some r \<and> sk_content r = c) \<and>
        (\<exists>new. d_skill_revisions (db t) = d_skill_revisions (db s) @ new \<and> length new \<le> 1 \<and>
          (\<forall>v \<in> set new. sr_skill v = i \<and> sr_content v = c)) \<and>
        (author_known (db s) a \<or> d_skill_revisions (db t) = d_skill_revisions (db s))) u"
    if "skill_row (db s) i = Some x" "db u = upd_skill i (\<lambda>r. r\<lparr>sk_content := c, sk_updated_at := k\<rparr>) (db s)" for u x k c
  proof -
    have now: "\<exists>r. skill_row (db u) i = Some r \<and> sk_content r = c"
      using that by (simp add: skill_row_upd)
    have same: "d_skill_revisions (db u) = d_skill_revisions (db s)" "author_known (db u) a = author_known (db s) a"
      by (auto simp: that(2) upd_skill_def author_known_def agent_row_def operator_row_of_def split: author.split)
    show ?thesis
    proof (rule wp_mono [OF log_only_grows [of env i c a u]])
    fix t
    assume "d_skills (db t) = d_skills (db u) \<and>
        (\<exists>new. d_skill_revisions (db t) = d_skill_revisions (db u) @ new \<and> length new \<le> 1 \<and>
           (\<forall>v \<in> set new. sr_skill v = i \<and> sr_content v = c)) \<and> author_known (db u) a"
    then show "(\<exists>r. skill_row (db t) i = Some r \<and> sk_content r = c) \<and>
        (\<exists>new. d_skill_revisions (db t) = d_skill_revisions (db s) @ new \<and> length new \<le> 1 \<and>
          (\<forall>v \<in> set new. sr_skill v = i \<and> sr_content v = c)) \<and>
        (author_known (db s) a \<or> d_skill_revisions (db t) = d_skill_revisions (db s))"
      using now by (auto simp: same skill_row_def)
  next
    fix t assume e: "db t = db u"
    show "(\<exists>r. skill_row (db t) i = Some r \<and> sk_content r = c) \<and>
        (\<exists>new. d_skill_revisions (db t) = d_skill_revisions (db s) @ new \<and> length new \<le> 1 \<and>
          (\<forall>v \<in> set new. sr_skill v = i \<and> sr_content v = c)) \<and>
        (author_known (db s) a \<or> d_skill_revisions (db t) = d_skill_revisions (db s))"
      using now by (simp add: same e)
    qed
  qed
  show ?thesis
    by (auto simp: revert_to_revision_def require_skill_def owned_by_def wp set_content_def dest!: find_SomeD
        split: option.split intro!: wp_mono [OF tail])
qed

text \<open>C22: A revert that succeeds brings a revision back, whatever fails and whoever asks: the live content is
  that of the revision named, and the log is never cut back but keeps all its rows and gains at most one,
  a copy of that content. It gains it, under the next number and with the author, when the tables are
  sound, no statement fails, the new identifier is fresh and the author is on record; for an author who is
  not (the administrator of the environment has no row) it stays as it was.\<close>
theorem revert_restores_the_revision:
  assumes "revert_to_revision env sid i n a s = (Inr c, t)"
  shows "(\<exists>v \<in> set (revisions_of (db s) i). sr_seq v = n \<and> sr_content v = c) \<and>
    (\<exists>r. skill_row (db t) i = Some r \<and> sk_content r = c) \<and>
    (\<exists>new. d_skill_revisions (db t) = d_skill_revisions (db s) @ new \<and> length new \<le> 1 \<and>
      (\<forall>v \<in> set new. sr_skill v = i \<and> sr_content v = c)) \<and>
    (skill_inv (db s) \<and> faults s = [] \<and> fresh_revisions env (db s) \<and> author_known (db s) a \<longrightarrow>
      logged (db s) (db t) i c a) \<and>
    (\<not> author_known (db s) a \<longrightarrow> d_skill_revisions (db t) = d_skill_revisions (db s))"
proof -
  have "logged (db s) (db t) i c a"
    if "skill_inv (db s) \<and> faults s = [] \<and> fresh_revisions env (db s) \<and> author_known (db s) a"
    using wpE_Inr [OF revert_logs assms] that by blast
  then show ?thesis using wpE_Inr [OF revert_restores assms] by blast
qed

text \<open>An agent's worker receives exactly the skills attached to the agent and the global ones, in the
  order of their names and with their files, and no skill or file name in the bundle can leave the
  directory it is written to.\<close>

lemma agent_receives_its_skills:
  assumes "skill_inv (db s)" and "faults s = []" and "for_agent env a s = (Inr out, t)"
  shows "out = map (bundle_of (db s)) (sort_key sk_name (filter (visible_to a (db s)) (d_skills (db s)))) \<and>
    (\<forall>b \<in> set out. \<forall>n \<in> insert (at_name b) (fl_name ` set (at_files b)).
       CHR ''/'' \<notin> set n \<and> n \<noteq> [] \<and> n \<noteq> ''.'' \<and> n \<noteq> ''..'')"
proof -
  have out: "out = map (bundle_of (db s)) (sort_key sk_name (filter (visible_to a (db s)) (d_skills (db s))))"
    using for_agent_run [OF assms(2), of env a] assms(3) by simp
  have "name_is_valid (sk_name r)" if "r \<in> set (d_skills (db s))" for r
    using assms(1) that by (simp add: skill_inv_def skills_ok_def)
  moreover have "file_name_is_valid (sf_name f)" if "f \<in> set (d_skill_files (db s))" for f
    using assms(1) that by (simp add: skill_inv_def files_ok_def)
  ultimately show ?thesis
    unfolding out by (auto simp: bundle_of_def dest!: valid_name valid_file_name)
qed

section \<open>The properties on the sample world\<close>

definition sample_skill :: skill where
  "sample_skill = \<lparr> sk_id = ''k1'', sk_startup = ''s1'', sk_name = ''deploy'', sk_content = ''one'',
     sk_created_at = 0, sk_updated_at = 0, sk_is_global = 0 \<rparr>"

definition sample_revision :: skill_revision where
  "sample_revision = \<lparr> sr_id = ''r1'', sr_skill = ''k1'', sr_seq = 1, sr_content = ''zero'',
     sr_created_at = 0, sr_agent = Some ''e1'', sr_operator = None \<rparr>"

definition sample_file :: skill_file where
  "sample_file = \<lparr> sf_id = ''f1'', sf_skill = ''k1'', sf_name = ''a.json'', sf_content = ''{}'',
     sf_created_at = 0, sf_updated_at = 0 \<rparr>"

definition sample_link :: agent_skill where
  "sample_link = \<lparr> as_agent = ''e1'', as_skill = ''k1'', as_attached_at = 1000 \<rparr>"

definition skilled_db :: "agent_skill list \<Rightarrow> database" where
  "skilled_db ls = sample_db\<lparr>d_skills := [sample_skill], d_agent_skills := ls,
     d_skill_files := [sample_file], d_skill_revisions := [sample_revision]\<rparr>"

lemmas skill_samples = sample_skill_def sample_revision_def sample_file_def sample_link_def skilled_db_def

lemma skilled_fields [simp]:
  "d_skills (skilled_db ls) = [sample_skill]" "d_agent_skills (skilled_db ls) = ls"
  "d_skill_files (skilled_db ls) = [sample_file]" "d_skill_revisions (skilled_db ls) = [sample_revision]"
  "agent_row (skilled_db ls) = agent_row sample_db"
  by (simp_all add: skilled_db_def agent_row_def [abs_def])

lemma skilled_rows [simp]:
  "skill_row (skilled_db ls) i = (if i = ''k1'' then Some sample_skill else None)"
  "startup_of_agent (skilled_db ls) ''e1'' = Some ''s1''"
  "revisions_of (skilled_db ls) ''k1'' = [sample_revision]"
  by (simp_all add: skill_row_def startup_of_agent_def sample_rows revisions_of_def) 
     (simp_all add: skill_samples sample_agent_def)

lemma skilled_inv: "skill_inv (skilled_db [])" "skill_inv (skilled_db [sample_link])"
proof -
  have "name_is_valid ''deploy''" "file_name_is_valid ''a.json''" by code_simp+
  then show "skill_inv (skilled_db [])" "skill_inv (skilled_db [sample_link])"
    by (auto simp: skill_inv_def skills_ok_def links_ok_def files_ok_def log_ok_def skill_owner_def
        numbered_def MAX_CONTENT_LEN_def sample_skill_def sample_file_def sample_revision_def
        sample_link_def)
qed

lemma attach_run:
  "attach sample_env ''s1'' ''e1'' ''k1'' (sample_sys\<lparr>db := skilled_db []\<rparr>) =
     (Inr (), sample_sys\<lparr>db := skilled_db [sample_link]\<rparr>)"
proof -
  have "startup_of_agent (skilled_db []) ''e1'' = Some ''s1''" by simp
  then obtain r where r: "agent_row sample_db ''e1'' = Some r" "ag_startup r = ''s1''"
    by (auto simp: startup_of_agent_def)
  have "sample_sys\<lparr>db := skilled_db [], faults := []\<rparr> = sample_sys\<lparr>db := skilled_db []\<rparr>"
    by (simp add: sample_sys_def)
  moreover have "sk_startup sample_skill = ''s1''" by (simp add: sample_skill_def)
  ultimately show ?thesis
    using r by (simp add: attach_def require_skill_def require_agent_def owned_by_def sqlK_def mapErr_def
        thenE_def bindE_def guardE_def ret_def sql_query_def sql_checked_def sql_stmt_def Let_def now_secs_def)
      (simp add: sample_sys_def skilled_db_def sample_link_def)
qed

lemma skilled_author:
  "fresh_revisions sample_env (skilled_db ls)" "author_known (skilled_db ls) (ByAgent ''e1'')"
  by (simp_all add: fresh_revisions_def author_known_def sample_env_def tiny_env_def sample_revision_def
      sample_rows)

theorem revert_restores_the_revision_witness:
  "\<exists>t. revert_to_revision sample_env ''s1'' ''k1'' 1 (ByAgent ''e1'')
       (sample_sys\<lparr>db := skilled_db []\<rparr>) = (Inr ''zero'', t) \<and>
     logged (skilled_db []) (db t) ''k1'' ''zero'' (ByAgent ''e1'')"
proof -
  let ?s = "sample_sys\<lparr>db := skilled_db []\<rparr>"
  have "sk_startup sample_skill = ''s1''" "sr_seq sample_revision = 1" "sr_content sample_revision = ''zero''"
    by (simp_all add: skill_samples)
  then obtain t
    where run: "revert_to_revision sample_env ''s1'' ''k1'' 1 (ByAgent ''e1'') ?s = (Inr ''zero'', t)"
    by (auto simp: revert_to_revision_def require_skill_def owned_by_def sqlK_def mapErr_def thenE_def
        bindE_def guardE_def ret_def sql_query_def sql_stmt_def set_content_def sql_exec_def ignoreE_def)
  have "logged (db ?s) (db t) ''k1'' ''zero'' (ByAgent ''e1'')"
    using revert_restores_the_revision [OF run] by (simp add: skilled_inv skilled_author)
  with run show ?thesis by auto
qed

end
