(* ===== verification/McpSkills.thy ===== *)
theory McpSkills
  imports Skills
begin

text \<open>
  The skill tools of \<open>mcp_dispatch.rs\<close> and its entry point \<open>dispatch\<close>: the table of the thirty-two
  tools, the envelope of a reply and of an error.
\<close>

section \<open>Skill tools\<close>

text \<open>The derived \<open>Debug\<close> text of a \<open>SkillError\<close>.\<close>

definition skill_error_debug :: "env \<Rightarrow> skill_error \<Rightarrow> string" where
  "skill_error_debug env e = (case e of BadName \<Rightarrow> ''BadName'' | OversizeContent \<Rightarrow> ''OversizeContent''
     | SkNotFound \<Rightarrow> ''NotFound'' | CrossStartup \<Rightarrow> ''CrossStartup''
     | SkSql t \<Rightarrow> ''Sql('' @ e_debug env t @ '')'')"

definition skill_changed :: "avatar \<Rightarrow> string \<Rightarrow> ident \<Rightarrow> ident option \<Rightarrow> unit handler" where
  "skill_changed caller kind skill_id agent_id =
     broadcast (FSkillChanged (av_startup_id caller) kind skill_id agent_id None)"

definition upsert_error :: "env \<Rightarrow> string \<Rightarrow> skill_error \<Rightarrow> handler_error" where
  "upsert_error env name e = (case e of
      BadName \<Rightarrow> HErr ''bad_skill_name''
        (''name must match [A-Za-z0-9_-]{1,64}; got '' @ e_debug env name)
    | OversizeContent \<Rightarrow> HErr ''skill_content_too_long''
        (''content_md exceeds '' @ show_nat MAX_CONTENT_LEN @ '' bytes'')
    | SkNotFound \<Rightarrow> HErr ''not_found'' ''skill row vanished mid-upsert''
    | CrossStartup \<Rightarrow> HErr ''cross_startup'' ''caller can't author skill in another startup''
    | SkSql t \<Rightarrow> HErr ''sql'' t)"

definition handle_skill_upsert :: "env \<Rightarrow> avatar \<Rightarrow> json \<Rightarrow> json handler" where
  "handle_skill_upsert env caller args =
     bindE (require_str args ''name'') (\<lambda>name.
     bindE (require_str args ''content_md'') (\<lambda>content_md.
     bindE (mapErr (upsert_error env name) (upsert_with_author env (av_startup_id caller) name content_md
         (ByAgent (av_agent_id caller)))) (\<lambda>(i, created).
     bindE (tryE (list_with_attachments env (av_startup_id caller))) (\<lambda>r.
     thenE (case r of
         Inl _ \<Rightarrow> ret ()
       | Inr rows \<Rightarrow> broadcast (FSkillChanged (av_startup_id caller) ''upsert'' i None
           (map_option skill_with_attachments_to_json (find (\<lambda>x. swa_id x = i) rows))))
     (ret (JObj [(''id'', JStr i), (''created'', JBool created)]))))))"

definition list_error :: "skill_error \<Rightarrow> handler_error" where
  "list_error e = (case e of SkSql t \<Rightarrow> HErr ''sql'' t | _ \<Rightarrow> HErr ''sql'' ''unexpected error'')"

definition handle_skill_list :: "env \<Rightarrow> avatar \<Rightarrow> json \<Rightarrow> json handler" where
  "handle_skill_list env caller args =
     bindE (mapErr list_error (skills_list env (av_startup_id caller))) (\<lambda>items.
     ret (JObj [(''skills'', JArr (map (\<lambda>x. JObj [(''id'', JStr (sl_id x)), (''name'', JStr (sl_name x)),
       (''updated_at'', JInt (sl_updated_at x)), (''len'', JInt (sl_len x))]) items))]))"

definition attach_error :: "skill_error \<Rightarrow> handler_error" where
  "attach_error e = (case e of
      SkNotFound \<Rightarrow> HErr ''not_found'' ''agent or skill not found''
    | CrossStartup \<Rightarrow> HErr ''cross_startup'' ''agent or skill belongs to another startup''
    | SkSql t \<Rightarrow> HErr ''sql'' t
    | _ \<Rightarrow> HErr ''sql'' ''unexpected error'')"

definition handle_skill_attach :: "env \<Rightarrow> avatar \<Rightarrow> json \<Rightarrow> json handler" where
  "handle_skill_attach env caller args =
     bindE (require_str args ''agent_id'') (\<lambda>agent_id.
     bindE (require_str args ''skill_id'') (\<lambda>skill_id.
     thenE (mapErr attach_error (attach env (av_startup_id caller) agent_id skill_id))
     (thenE (skill_changed caller ''attach'' skill_id (Some agent_id))
     (ret (JObj [(''ok'', JBool True)])))))"

definition handle_skill_detach :: "env \<Rightarrow> avatar \<Rightarrow> json \<Rightarrow> json handler" where
  "handle_skill_detach env caller args =
     bindE (require_str args ''agent_id'') (\<lambda>agent_id.
     bindE (require_str args ''skill_id'') (\<lambda>skill_id.
     thenE (mapErr attach_error (detach env (av_startup_id caller) agent_id skill_id))
     (thenE (skill_changed caller ''detach'' skill_id (Some agent_id))
     (ret (JObj [(''ok'', JBool True)])))))"

definition delete_error :: "ident \<Rightarrow> skill_error \<Rightarrow> handler_error" where
  "delete_error skill_id e = (case e of
      SkNotFound \<Rightarrow> HErr ''not_found'' (''no skill: '' @ skill_id)
    | CrossStartup \<Rightarrow> HErr ''cross_startup'' ''skill belongs to another startup''
    | SkSql t \<Rightarrow> HErr ''sql'' t
    | _ \<Rightarrow> HErr ''sql'' ''unexpected error'')"

definition handle_skill_delete :: "env \<Rightarrow> avatar \<Rightarrow> json \<Rightarrow> json handler" where
  "handle_skill_delete env caller args =
     bindE (require_str args ''skill_id'') (\<lambda>skill_id.
     thenE (mapErr (delete_error skill_id) (skills_delete env (av_startup_id caller) skill_id))
     (thenE (skill_changed caller ''delete'' skill_id None)
     (ret (JObj [(''ok'', JBool True)]))))"

definition file_upsert_error :: "env \<Rightarrow> skill_error \<Rightarrow> handler_error" where
  "file_upsert_error env e = (case e of
      SkNotFound \<Rightarrow> HErr ''not_found'' ''skill not found''
    | CrossStartup \<Rightarrow> HErr ''cross_startup'' ''skill belongs to another startup''
    | BadName \<Rightarrow> HErr ''bad_name'' ''file name contains invalid characters''
    | OversizeContent \<Rightarrow> HErr ''content_too_large'' ''file content exceeds limit''
    | SkSql _ \<Rightarrow> HErr ''sql'' (skill_error_debug env e))"

definition handle_skill_file_upsert :: "env \<Rightarrow> avatar \<Rightarrow> json \<Rightarrow> json handler" where
  "handle_skill_file_upsert env caller args =
     bindE (require_str args ''skill_id'') (\<lambda>skill_id.
     bindE (require_str args ''name'') (\<lambda>name.
     bindE (require_str args ''content'') (\<lambda>content.
     bindE (mapErr (file_upsert_error env) (upsert_file env (av_startup_id caller) skill_id name content))
       (\<lambda>i.
     thenE (skill_changed caller ''file_upsert'' skill_id None)
     (ret (JObj [(''file_id'', JStr i), (''skill_id'', JStr skill_id), (''name'', JStr name)]))))))"

definition owned_error :: "env \<Rightarrow> string \<Rightarrow> skill_error \<Rightarrow> handler_error" where
  "owned_error env what e = (case e of
      SkNotFound \<Rightarrow> HErr ''not_found'' (what @ '' not found'')
    | CrossStartup \<Rightarrow> HErr ''cross_startup'' ''skill belongs to another startup''
    | _ \<Rightarrow> HErr ''sql'' (skill_error_debug env e))"

definition handle_skill_file_delete :: "env \<Rightarrow> avatar \<Rightarrow> json \<Rightarrow> json handler" where
  "handle_skill_file_delete env caller args =
     bindE (require_str args ''skill_id'') (\<lambda>skill_id.
     bindE (require_str args ''name'') (\<lambda>name.
     thenE (mapErr (owned_error env ''skill or file'')
         (delete_file env (av_startup_id caller) skill_id name))
     (thenE (skill_changed caller ''file_delete'' skill_id None)
     (ret (JObj [(''ok'', JBool True), (''skill_id'', JStr skill_id), (''name'', JStr name)])))))"

definition revision_json :: "skill_revision \<Rightarrow> json" where
  "revision_json r = JObj [(''id'', JStr (sr_id r)), (''skill_id'', JStr (sr_skill r)),
     (''rev_seq'', JInt (sr_seq r)), (''content_md'', JStr (sr_content r)),
     (''created_at'', JInt (sr_created_at r)), (''created_by_agent_id'', jopt (sr_agent r)),
     (''created_by_operator_id'', jopt (sr_operator r))]"

definition handle_skill_list_revisions :: "env \<Rightarrow> avatar \<Rightarrow> json \<Rightarrow> json handler" where
  "handle_skill_list_revisions env caller args =
     bindE (require_str args ''skill_id'') (\<lambda>skill_id.
     let limit = nat (min (case get_u64 ''limit'' args of None \<Rightarrow> 20 | Some n \<Rightarrow> n) 100) in
     bindE (mapErr (owned_error env ''skill'') (list_revisions env (av_startup_id caller) skill_id))
       (\<lambda>rows.
     ret (JObj [(''skill_id'', JStr skill_id), (''revisions'', JArr (map revision_json (take limit rows)))])))"

definition handle_skill_revert :: "env \<Rightarrow> avatar \<Rightarrow> json \<Rightarrow> json handler" where
  "handle_skill_revert env caller args =
     bindE (require_str args ''skill_id'') (\<lambda>skill_id.
     bindE (case get_i64 ''rev_seq'' args of
         None \<Rightarrow> throw (HErr ''bad_args'' ''rev_seq required'') | Some n \<Rightarrow> ret n) (\<lambda>rev_seq.
     bindE (mapErr (owned_error env ''skill or revision'') (revert_to_revision env (av_startup_id caller)
         skill_id rev_seq (ByAgent (av_agent_id caller)))) (\<lambda>content_md.
     thenE (skill_changed caller ''revert'' skill_id None)
     (ret (JObj [(''skill_id'', JStr skill_id), (''rev_seq'', JInt rev_seq),
       (''len'', JInt (int (length content_md)))])))))"

section \<open>Dispatch\<close>

text \<open>The table of tools, by name.\<close>

definition run_tool :: "env \<Rightarrow> string \<Rightarrow> avatar \<Rightarrow> json \<Rightarrow> json handler" where
  "run_tool env tool caller args =
     (if tool = ''move_intent'' then handle_move_intent env caller args
      else if tool = ''speak'' then handle_speak env caller args
      else if tool = ''task_done'' then handle_task_done env caller args
      else if tool = ''task_failed'' then handle_task_failed caller args
      else if tool = ''subtask_create'' then handle_subtask_create env caller args
      else if tool = ''task_accept'' then handle_task_accept caller args
      else if tool = ''task_request_changes'' then handle_task_request_changes env caller args
      else if tool = ''accept_proposal'' then handle_accept_proposal caller args
      else if tool = ''reject_proposal'' then handle_reject_proposal caller args
      else if tool = ''hypothesis_state'' then handle_epistemic_append caller args ''hypothesis_state''
      else if tool = ''test_record'' then handle_epistemic_append caller args ''test_record''
      else if tool = ''hypothesis_resolve'' then handle_epistemic_append caller args ''hypothesis_resolve''
      else if tool = ''verify'' then handle_verify env caller args
      else if tool = ''ask_peer'' then handle_ask_peer args
      else if tool = ''observe_world'' then handle_observe_world caller args
      else if tool = ''read_artifact'' then handle_read_artifact env caller args
      else if tool = ''skill_upsert'' then handle_skill_upsert env caller args
      else if tool = ''skill_list'' then handle_skill_list env caller args
      else if tool = ''skill_attach'' then handle_skill_attach env caller args
      else if tool = ''skill_detach'' then handle_skill_detach env caller args
      else if tool = ''skill_delete'' then handle_skill_delete env caller args
      else if tool = ''task_set_preference'' then handle_task_set_preference env caller args
      else if tool = ''skill_file_upsert'' then handle_skill_file_upsert env caller args
      else if tool = ''skill_file_delete'' then handle_skill_file_delete env caller args
      else if tool = ''skill_list_revisions'' then handle_skill_list_revisions env caller args
      else if tool = ''skill_revert'' then handle_skill_revert env caller args
      else if tool = ''task_set_blocking'' then handle_task_set_blocking env caller args
      else if tool = ''task_steal'' then handle_task_steal env caller args
      else if tool = ''self_review'' then handle_self_review env caller args
      else if tool = ''run_tests'' then handle_run_tests env caller args
      else if tool = ''lint_artifact'' then handle_lint_artifact env caller args
      else if tool = ''read_artifact_diff'' then handle_read_artifact_diff env caller args
      else throw (HErr ''unknown_tool'' (''no handler for tool: '' @ tool)))"

definition mcp_err :: "string \<Rightarrow> string \<Rightarrow> string \<Rightarrow> json" where
  "mcp_err corr_id code message = JObj [(''type'', JStr ''mcp_error''), (''v'', JInt 1),
     (''corr_id'', JStr corr_id), (''code'', JStr code), (''message'', JStr message)]"

definition mcp_reply :: "string \<Rightarrow> json \<Rightarrow> json" where
  "mcp_reply corr_id v = JObj [(''type'', JStr ''mcp_reply''), (''v'', JInt 1),
     (''corr_id'', JStr corr_id), (''result'', v)]"

text \<open>
  A handler's error becomes an envelope; a panic unwinds through \<open>dispatch\<close>. The remaining error type
  of \<open>dispatch\<close> is therefore \<open>panic\<close>.
\<close>

definition mcp_dispatch :: "env \<Rightarrow> ident \<Rightarrow> json \<Rightarrow> (sys, panic, json) sem" where
  "mcp_dispatch env agent_id msg =
     (let tool = str_or [] (get_str ''tool'' msg);
          args = (case jget ''args'' msg of None \<Rightarrow> JNull | Some a \<Rightarrow> a);
          corr_id = str_or [] (get_str ''corr_id'' msg) in
      bindE (asksE (\<lambda>s. map_of (avatars s) agent_id)) (\<lambda>found. case found of
         None \<Rightarrow> ret (mcp_err corr_id ''unknown_agent'' ''agent not found in world'')
       | Some caller \<Rightarrow> bindE (tryE (run_tool env tool caller args)) (\<lambda>r. case r of
            Inr v \<Rightarrow> ret (mcp_reply corr_id v)
          | Inl (HErr code message) \<Rightarrow> ret (mcp_err corr_id code message)
          | Inl (HSql e) \<Rightarrow> ret (mcp_err corr_id ''sql'' (e_sql_text env e))
          | Inl (HPanic p) \<Rightarrow> throw p)))"

end
