(* ===== verification/DispatchInv.thy ===== *)
theory DispatchInv
  imports McpSkills TaskKept SkillsInv
begin

text \<open>
  Every tool of the dispatcher, whatever its arguments and whatever SQL fails, keeps the invariant of
  the tables and moves tasks along the state machine; every tool keeps the skill tables sound.
\<close>

section \<open>The skill tools touch no task\<close>

lemma same_core_skills [simp]: "same_core d (d\<lparr>d_skills := a\<rparr>)" "same_core d (d\<lparr>d_agent_skills := b\<rparr>)"
  "same_core d (d\<lparr>d_skill_files := c\<rparr>)" "same_core d (d\<lparr>d_skill_revisions := e\<rparr>)"
  "same_core d (upd_skill i f d)" "same_core d (drop_skill i d)"
  by (simp_all add: same_core_def upd_skill_def drop_skill_def)

lemma pres_collect [pres]: "(\<And>x. pres I (f x)) \<Longrightarrow> pres I (collectE xs f)"
  by (induction xs) (auto intro: pres)

context plain_invariant begin

lemma pres_core [pres]:
  "(\<And>s. same_core (db s) (g s)) \<Longrightarrow> pres I (sql_exec g)"
  "(\<And>s. same_core (db s) (g s)) \<Longrightarrow> pres I (sql_checked chk g)"
  "(\<And>s. same_core (db s) (g s)) \<Longrightarrow> pres I (sql_stmt (\<lambda>s. Inr (h s, g s)))"
  by (simp_all add: leads_def wp I_simps split: option.split)

lemma pres_sqlK [pres]: "pres I m \<Longrightarrow> pres I (sqlK env m)"
  unfolding sqlK_def by (intro pres)

lemma pres_owned [pres]: "pres I (require_skill env sid i)" "pres I (require_agent env sid i)"
  unfolding require_skill_def require_agent_def owned_by_def by (intro pres)+

lemma pres_skill_writes [pres]: "pres I (append_revision env i c a)" "pres I (set_content env i c)"
  "pres I (insert_skill env r)" "pres I (insert_file env f)"
  unfolding append_revision_def set_content_def insert_skill_def insert_file_def Let_def
  by (intro pres; simp)+

lemma pres_skill_ops [pres]: "pres I (upsert_with_author env sid n c a)"
  "pres I (revert_to_revision env sid i k a)" "pres I (list_revisions env sid i)"
  "pres I (skills_list env sid)" "pres I (attach env sid ag i)" "pres I (detach env sid ag i)"
  "pres I (skills_delete env sid i)" "pres I (set_global env i b)"
  "pres I (upsert_file env sid i n c)" "pres I (delete_file env sid i n)"
  "pres I (list_with_attachments env sid)"
  unfolding upsert_with_author_def revert_to_revision_def list_revisions_def skills_list_def attach_def
    detach_def skills_delete_def set_global_def upsert_file_def delete_file_def
    list_with_attachments_def Let_def
  by (intro pres; simp)+

lemma pres_skill_tools [pres]: "pres I (handle_skill_upsert env a args)"
  "pres I (handle_skill_list env a args)" "pres I (handle_skill_attach env a args)"
  "pres I (handle_skill_detach env a args)" "pres I (handle_skill_delete env a args)"
  "pres I (handle_skill_file_upsert env a args)" "pres I (handle_skill_file_delete env a args)"
  "pres I (handle_skill_list_revisions env a args)" "pres I (handle_skill_revert env a args)"
  unfolding handle_skill_upsert_def handle_skill_list_def handle_skill_attach_def
    handle_skill_detach_def handle_skill_delete_def handle_skill_file_upsert_def
    handle_skill_file_delete_def handle_skill_list_revisions_def handle_skill_revert_def
    skill_changed_def Let_def
  by (intro pres)+

end

section \<open>Every tool\<close>

lemmas kept_tools = kept_task_done kept_task_failed kept_subtask_create kept_task_accept
  kept_request_changes kept_accept_proposal kept_reject_proposal kept_task_steal

lemma leads_if: "leads P I m \<Longrightarrow> leads P I n \<Longrightarrow> leads P I (if b then m else n)"
  by simp

lemma kept_plain: "pres (kept c) m \<Longrightarrow> leads (from_caller c a) (kept c) m"
  by (simp add: leads_def)

lemma kept_run_tool: "leads (from_caller c a) (kept c) (run_tool env tool a args)"
  unfolding run_tool_def by (intro leads_if kept_tools kept_plain pres kept.pres_move_intent)

end
