(* ===== verification/CmdWorker.thy ===== *)
theory CmdWorker
  imports Budget McpSkills
begin

text \<open>
  The worker-side dispatcher, \<open>cmd_worker.rs\<close>: MCP calls are handed on, budget reports are booked and
  their thresholds acted on, direct moves are started; the other messages are acknowledged. The
  deserializer derived for \<open>WorkerInbound\<close> is an argument.
\<close>

datatype worker_inbound =
    WHello int ident ident string
  | WMcpCall int string string json
  | WReportBudget int int int string "ident option" "real option"
  | WReportFsOp int string string int bool "string option"
  | WCliSessionStarted int "ident option" string
  | WCliSessionEnded int "ident option" int "string option"
  | WTaskProgress int ident string
  | WMoveIntent int ident int int

type_synonym worker_decoder = "json \<Rightarrow> string + worker_inbound"

definition ok_kind :: "string \<Rightarrow> json" where
  "ok_kind kind = JObj [(''type'', JStr ''ok''), (''kind'', JStr kind)]"

definition err_reason :: "string \<Rightarrow> json" where
  "err_reason reason = JObj [(''type'', JStr ''error''), (''reason'', JStr reason)]"

definition err_detail :: "string \<Rightarrow> string \<Rightarrow> json" where
  "err_detail reason detail =
     JObj [(''type'', JStr ''error''), (''reason'', JStr reason), (''detail'', JStr detail)]"

section \<open>Budget reports\<close>

text \<open>\<open>f64::round\<close> rounds half away from zero; \<open>as u32\<close> of an \<open>f64\<close> truncates and saturates.\<close>

definition round_away :: "real \<Rightarrow> real" where
  "round_away x = (if 0 \<le> x then of_int \<lfloor>x + 1 / 2\<rfloor> else - of_int \<lfloor>- x + 1 / 2\<rfloor>)"

definition f64_as_u32 :: "real \<Rightarrow> int" where
  "f64_as_u32 x = (if x < 0 then 0 else min \<lfloor>x\<rfloor> (2 ^ 32 - 1))"

text \<open>Cost variance: the report is at least half off the task's estimate.\<close>

definition delta_pct :: "real \<Rightarrow> real \<Rightarrow> real" where
  "delta_pct actual estimate = (actual - estimate) / estimate * 100"

definition report_variance :: "env \<Rightarrow> ident \<Rightarrow> ident option \<Rightarrow> real option \<Rightarrow> (sys, 'e, unit) sem" where
  "report_variance env startup_id task_id cost = (case (task_id, cost) of
      (Some tid, Some actual) \<Rightarrow>
        bindE (tryE (sql_query (\<lambda>d. map_option t_cost_estimate (task_row d tid)))) (\<lambda>r. case r of
          Inr (Some (Some estimate)) \<Rightarrow>
            (if 0 < estimate \<and> 50 \<le> \<bar>delta_pct actual estimate\<bar> then
               ignoreE (emit_system_event env (Some startup_id) ''task_cost_variance''
                 (JObj [(''task_id'', JStr tid), (''estimate_usd'', JReal estimate),
                   (''actual_usd'', JReal actual),
                   (''delta_pct'', JReal (round_away (delta_pct actual estimate * 100) / 100))])
                 (if 0 < delta_pct actual estimate then ''warn'' else ''info''))
             else ret ())
        | _ \<Rightarrow> ret ())
    | _ \<Rightarrow> ret ())"

definition act_on_threshold :: "env \<Rightarrow> ident \<Rightarrow> real \<Rightarrow> real \<Rightarrow> threshold \<Rightarrow> (sys, 'e, unit) sem" where
  "act_on_threshold env startup_id new_spent cap t =
     thenE (record_threshold_event env startup_id t new_spent cap)
       (case t of
          Pause100 \<Rightarrow> ignoreE (pause_startup startup_id :: (sys, 'e, nat) sem)
        | _ \<Rightarrow> ignoreE (warn_startup startup_id (max (cap - new_spent) 0)
            (if 0 < cap then f64_as_u32 (new_spent / cap * 100) else 0) :: (sys, 'e, nat) sem))"

definition handle_report_budget :: "env \<Rightarrow> ident \<Rightarrow> int \<Rightarrow> int \<Rightarrow> string \<Rightarrow> ident option \<Rightarrow> real option \<Rightarrow>
    (sys, 'e, json) sem" where
  "handle_report_budget env agent_id in_tokens out_tokens model_id task_id cost =
     bindE (asksE (\<lambda>s. map_of (avatars s) agent_id)) (\<lambda>found. case found of
        None \<Rightarrow> ret (err_reason ''unknown_agent'')
      | Some a \<Rightarrow>
          bindE (tryE (apply_report env (av_startup_id a) agent_id task_id model_id in_tokens out_tokens
              cost)) (\<lambda>r. case r of
            Inl e \<Rightarrow> ret (err_detail ''sql'' (e_sql_text env e))
          | Inr (new_spent, cap, t) \<Rightarrow>
              thenE (report_variance env (av_startup_id a) task_id cost)
              (thenE (case t of None \<Rightarrow> ret ()
                      | Some th \<Rightarrow> act_on_threshold env (av_startup_id a) new_spent cap th)
              (ret (JObj [(''type'', JStr ''ok''), (''kind'', JStr ''report_budget''),
                (''spent_usd'', JReal new_spent), (''cap_usd'', JReal cap)])))))"

section \<open>Direct moves\<close>

definition move_failed_json :: "string \<Rightarrow> json" where
  "move_failed_json reason =
     JObj [(''type'', JStr ''move_failed''), (''v'', JInt 1), (''reason'', JStr reason)]"

definition handle_worker_move :: "env \<Rightarrow> ident \<Rightarrow> ident \<Rightarrow> tile \<Rightarrow> (sys, panic, json) sem" where
  "handle_worker_move env agent_id room t =
     bindE (do_start_move env agent_id room t) (\<lambda>r. case r of
        MoveOk \<Rightarrow> ret (ok_kind ''move_intent'')
      | NoPath \<Rightarrow> thenE (send_to agent_id (move_failed_json ''no_path'')) (ret (err_reason ''no_path''))
      | PermissionDenied \<Rightarrow>
          thenE (send_to agent_id (move_failed_json ''no_permission'')) (ret (err_reason ''no_permission''))
      | NoSuchAgent \<Rightarrow> ret (err_reason ''unknown_agent''))"

section \<open>Dispatch\<close>

definition worker_dispatch :: "env \<Rightarrow> worker_decoder \<Rightarrow> ident \<Rightarrow> json \<Rightarrow> (sys, panic, json) sem" where
  "worker_dispatch env decode agent_id msg =
     (if jget ''type'' msg = Some (JStr ''mcp_call'') then mcp_dispatch env agent_id msg
      else case decode msg of
          Inl e \<Rightarrow> ret (err_detail ''parse'' e)
        | Inr (WHello _ _ _ _) \<Rightarrow> ret (ok_kind ''hello'')
        | Inr (WReportBudget _ in_tokens out_tokens model_id task_id cost) \<Rightarrow>
            handle_report_budget env agent_id in_tokens out_tokens model_id task_id cost
        | Inr (WMoveIntent _ room x y) \<Rightarrow> handle_worker_move env agent_id room (x, y)
        | Inr _ \<Rightarrow> ret (ok_kind ''stub''))"

end
