(* ===== verification/Auth.thy ===== *)
theory Auth
  imports Store Sample
begin

text \<open>
  Authentication, \<open>auth.rs\<close>: bearer tokens of operators, matched by digest, by legacy plaintext or
  against the environment, and the secrets of agents. Environment variables are arguments: the value
  of \<open>CLIPTOWN_OPERATOR_TOKEN\<close> and, per agent, of \<open>CLIPTOWN_AGENT_SECRET_<id>\<close>. The headers a
  request presents its token in are read here as well.
\<close>

datatype auth_error =
    InvalidOperatorToken
  | UnknownOperatorRole string
  | UnknownAgent
  | InvalidAgentSecret
  | AuthSql sql_error

section \<open>Operators\<close>

definition hash_operator_token :: "env \<Rightarrow> string \<Rightarrow> string" where
  "hash_operator_token env token = e_sha256_hex env token"

definition row_by_hash :: "database \<Rightarrow> string \<Rightarrow> operator_row option" where
  "row_by_hash d h = find (\<lambda>r. op_token_hash r = Some h) (d_operators d)"

definition row_by_plaintext :: "database \<Rightarrow> string \<Rightarrow> operator_row option" where
  "row_by_plaintext d token =
     find (\<lambda>r. op_token r = Some token \<and> op_token_hash r = None) (d_operators d)"

definition identity_from_row :: "operator_row \<Rightarrow> (sys, auth_error, operator_identity) sem" where
  "identity_from_row r = (case role_from_str (op_role r) of
      None \<Rightarrow> throw (UnknownOperatorRole (op_role r))
    | Some role \<Rightarrow> ret \<lparr> oi_id = op_id r, oi_name = op_name r, oi_role = role \<rparr>)"

definition rehash_row :: "ident \<Rightarrow> string \<Rightarrow> database \<Rightarrow> database" where
  "rehash_row i h d = d\<lparr>d_operators := update_rows (\<lambda>r. op_id r = i)
     (\<lambda>r. r\<lparr>op_token_hash := Some h, op_token := None\<rparr>) (d_operators d)\<rparr>"

definition env_operator :: operator_identity where
  "env_operator = \<lparr> oi_id = ''op_env'', oi_name = ''env-admin'', oi_role = RAdmin \<rparr>"

definition env_token_or_default :: "string option \<Rightarrow> string" where
  "env_token_or_default env_token = str_or ''dev-token'' env_token"

definition validate_operator_token :: "env \<Rightarrow> string option \<Rightarrow> string \<Rightarrow>
    (sys, auth_error, operator_identity) sem" where
  "validate_operator_token env env_token token =
     (if token = [] then throw InvalidOperatorToken
      else let h = hash_operator_token env token in
        bindE (mapErr AuthSql (sql_query (\<lambda>d. row_by_hash d h))) (\<lambda>modern. case modern of
          Some r \<Rightarrow> identity_from_row r
        | None \<Rightarrow>
            bindE (mapErr AuthSql (sql_query (\<lambda>d. row_by_plaintext d token))) (\<lambda>legacy. case legacy of
              Some r \<Rightarrow> bindE (identity_from_row r) (\<lambda>idn.
                thenE (ignoreE (sql_exec (\<lambda>s. rehash_row (op_id r) h (db s)))) (ret idn))
            | None \<Rightarrow>
                if token = env_token_or_default env_token then ret env_operator
                else throw InvalidOperatorToken)))"

section \<open>Agents\<close>

definition expected_secret :: "(ident \<Rightarrow> string option) \<Rightarrow> ident \<Rightarrow> string" where
  "expected_secret secrets agent_id = str_or ''dev-secret'' (secrets agent_id)"

definition validate_agent_secret :: "(ident \<Rightarrow> string option) \<Rightarrow> ident \<Rightarrow> string \<Rightarrow>
    (sys, auth_error, ident) sem" where
  "validate_agent_secret secrets agent_id secret =
     bindE (mapErr AuthSql (sql_query (\<lambda>d. map_option ag_startup (agent_row d agent_id)))) (\<lambda>row.
     case row of
       None \<Rightarrow> throw UnknownAgent
     | Some startup_id \<Rightarrow>
         if secret \<noteq> expected_secret secrets agent_id then throw InvalidAgentSecret
         else ret startup_id)"

section \<open>Headers\<close>

text \<open>\<open>HeaderValue::to_str\<close> refuses anything but visible ASCII and tabs.\<close>

definition visible_ascii :: "char \<Rightarrow> bool" where
  "visible_ascii c \<longleftrightarrow> (let n = (of_char c :: nat) in n = 9 \<or> 32 \<le> n \<and> n < 127)"

type_synonym headers = "(string \<times> string) list"

definition header_str :: "string \<Rightarrow> headers \<Rightarrow> string option" where
  "header_str name hs = Option.bind (map_of hs name) (\<lambda>v. if list_all visible_ascii v then Some v else None)"

definition strip_prefix :: "string \<Rightarrow> string \<Rightarrow> string option" where
  "strip_prefix p s = (if take (length p) s = p then Some (drop (length p) s) else None)"

fun split_once :: "char \<Rightarrow> string \<Rightarrow> (string \<times> string) option" where
  "split_once c [] = None"
| "split_once c (x # xs) = (if x = c then Some ([], xs)
     else map_option (\<lambda>(a, b). (x # a, b)) (split_once c xs))"

definition BEARER :: string where
  "BEARER = ''Bearer ''"

definition extract_operator_token :: "headers \<Rightarrow> string" where
  "extract_operator_token hs =
     (case header_str ''authorization'' hs of
        Some v \<Rightarrow> str_or v (strip_prefix BEARER v)
      | None \<Rightarrow> str_or [] (header_str ''x-operator-token'' hs))"

lemma strip_prefix_append [simp]: "strip_prefix p (p @ s) = Some s"
  by (simp add: strip_prefix_def)

lemma strip_prefix_Some: "strip_prefix p s = Some t \<longleftrightarrow> s = p @ t"
  by (auto simp: strip_prefix_def) (metis append_take_drop_id)

lemma split_once_Some: "split_once c s = Some (a, b) \<longleftrightarrow> s = a @ c # b \<and> c \<notin> set a"
proof (induction s arbitrary: a)
  case (Cons x xs)
  then show ?case by (cases a) auto
qed simp

section \<open>Properties\<close>

definition known_operator :: "env \<Rightarrow> database \<Rightarrow> string option \<Rightarrow> string \<Rightarrow> operator_identity \<Rightarrow> bool" where
  "known_operator env d env_token token idn \<longleftrightarrow>
     (\<exists>r \<in> set (d_operators d).
        (op_token_hash r = Some (hash_operator_token env token) \<or>
         op_token r = Some token \<and> op_token_hash r = None) \<and>
        oi_id idn = op_id r \<and> oi_name idn = op_name r \<and> role_from_str (op_role r) = Some (oi_role idn)) \<or>
     token = env_token_or_default env_token \<and> idn = env_operator"

text \<open>C29: A token is accepted only if it is not empty and either an operator on record carries its digest or,
  unhashed, the token itself, and then the identity is that operator's with its recorded role, or it is
  the administrator's token: \<open>CLIPTOWN_OPERATOR_TOKEN\<close> of the environment or, where that is not set,
  \<open>dev-token\<close>.\<close>
theorem only_known_tokens_pass:
  assumes "validate_operator_token env env_token token s = (Inr idn, t)"
  shows "token \<noteq> [] \<and> known_operator env (db s) env_token token idn"
proof -
  have "wpE (validate_operator_token env env_token token)
      (\<lambda>i _. token \<noteq> [] \<and> known_operator env (db s) env_token token i) (\<lambda>_ _. True) s"
    by (auto simp: validate_operator_token_def Let_def wp identity_from_row_def known_operator_def row_by_hash_def
        row_by_plaintext_def split: option.split dest!: find_SomeD)
  then show ?thesis using assms by (simp add: wpE_def)
qed

theorem only_known_tokens_pass_witness:
  "validate_operator_token (sample_env\<lparr>e_sha256_hex := (\<lambda>t. ''h1'')\<rparr>) None ''tok'' sample_sys =
     (Inr \<lparr> oi_id = ''o1'', oi_name = ''Ada'', oi_role = RAdmin \<rparr>, sample_sys) \<and>
   known_operator (sample_env\<lparr>e_sha256_hex := (\<lambda>t. ''h1'')\<rparr>) sample_db None ''tok''
     \<lparr> oi_id = ''o1'', oi_name = ''Ada'', oi_role = RAdmin \<rparr>"
proof -
  have same: "sample_sys\<lparr>faults := []\<rparr> = sample_sys" by (simp add: sample_sys_def)
  have "validate_operator_token (sample_env\<lparr>e_sha256_hex := (\<lambda>t. ''h1'')\<rparr>) None ''tok'' sample_sys =
     (Inr \<lparr> oi_id = ''o1'', oi_name = ''Ada'', oi_role = RAdmin \<rparr>, sample_sys)"
    by (simp add: validate_operator_token_def Let_def bindE_def mapErr_def sql_query_def sql_stmt_def
        row_by_hash_def hash_operator_token_def sample_operator_def identity_from_row_def ret_def same
        role_from_str_def)
  from only_known_tokens_pass [OF this] this show ?thesis by simp
qed

text \<open>The move of a plaintext token to its digest is invisible to its operator: when no statement fails, a
  token accepted from a legacy row is accepted again afterwards, with the same identity, now by its
  digest, and that row no longer holds the token in plaintext.\<close>

lemma rehash_keeps_the_operator:
  assumes "faults s = []" and "distinct (map op_id (d_operators (db s)))"
    and "row_by_hash (db s) (hash_operator_token env token) = None"
    and "row_by_plaintext (db s) token = Some r"
    and "validate_operator_token env env_token token s = (Inr idn, t)"
  shows "validate_operator_token env env_token token t = (Inr idn, t) \<and>
    (\<exists>r' \<in> set (d_operators (db t)). op_id r' = op_id r \<and> op_token r' = None \<and>
       op_token_hash r' = Some (hash_operator_token env token))"
proof -
  let ?h = "hash_operator_token env token" and ?rows = "d_operators (db s)"
  let ?t = "s\<lparr>db := rehash_row (op_id r) ?h (db s)\<rparr>"
  let ?r = "r\<lparr>op_token_hash := Some ?h, op_token := None\<rparr>"
  have same: "u\<lparr>faults := []\<rparr> = u" if "faults u = []" for u :: sys using that by (cases u) simp
  have r: "r \<in> set ?rows" "op_token r = Some token" using assms(4) by (auto simp: row_by_plaintext_def dest: find_SomeD)
  have ne: "token \<noteq> []" using assms(5) by (auto simp: validate_operator_token_def throw_def)
  with assms obtain role where role: "role_from_str (op_role r) = Some role"
    by (auto simp: validate_operator_token_def Let_def bindE_def mapErr_def sql_query_def sql_stmt_def
        identity_from_row_def throw_def split: option.splits)
  then have t: "t = ?t" and idn: "idn = \<lparr> oi_id = op_id r, oi_name = op_name r, oi_role = role \<rparr>"
    using assms ne by (simp_all add: validate_operator_token_def Let_def bindE_def mapErr_def sql_query_def
        sql_exec_def sql_stmt_def identity_from_row_def ignoreE_def thenE_def ret_def same)
  have find_new: "row_by_hash (db ?t) ?h = Some ?r"
  proof -
    have "find (\<lambda>x. op_token_hash x = Some ?h) (update_rows (\<lambda>x. op_id x = op_id r)
        (\<lambda>x. x\<lparr>op_token_hash := Some ?h, op_token := None\<rparr>) rows) = Some ?r"
      if "r \<in> set rows" "distinct (map op_id rows)" "find (\<lambda>x. op_token_hash x = Some ?h) rows = None" for rows
      using that
    proof (induction rows)
      case (Cons x xs)
      show ?case
      proof (cases "x = r")
        case False
        with Cons.prems have "r \<in> set xs" by simp
        with Cons.prems(2) have "op_id x \<noteq> op_id r" by (auto simp: image_iff)
        with Cons False show ?thesis by (auto simp: update_rows_def split: if_splits)
      qed (simp add: update_rows_def)
    qed simp
    from this [OF r(1) assms(2)] assms(3) show ?thesis by (simp add: row_by_hash_def rehash_row_def)
  qed
  then have "?r \<in> set (d_operators (db ?t))" by (auto simp: row_by_hash_def dest: find_SomeD)
  moreover have "validate_operator_token env env_token token ?t = (Inr idn, ?t)"
    using find_new assms(1) role ne
    by (simp add: validate_operator_token_def Let_def bindE_def mapErr_def sql_query_def sql_stmt_def
        identity_from_row_def ret_def idn same)
  ultimately show ?thesis
    unfolding t by (intro conjI bexI [of _ ?r]) simp_all
qed

definition legacy_sys :: sys where
  "legacy_sys = sample_sys\<lparr>db := sample_db\<lparr>d_operators := [sample_operator\<lparr>op_token := Some ''tok'',
     op_token_hash := None\<rparr>]\<rparr>\<rparr>"

text \<open>An agent whose secret is not in the environment is admitted with the built-in one.\<close>

lemma unset_secret_is_public:
  assumes "secrets a = None" and "faults s = []" and "agent_row (db s) a = Some r"
  shows "fst (validate_agent_secret secrets a ''dev-secret'' s) = Inr (ag_startup r)"
  using assms by (simp add: validate_agent_secret_def bindE_def mapErr_def sql_query_def sql_stmt_def
      expected_secret_def str_or_def ret_def)

end
