(* ===== verification/CmdConsole.thy ===== *)
theory CmdConsole
  imports Locks CmdWorker Auth
begin

text \<open>
  The operator-side dispatcher, \<open>cmd_console.rs\<close>: one definition per arm, in the order of the source.
  An early \<open>return json!(..)\<close> is a \<open>throw\<close> of the reply. The identity is the one captured when the
  console connected; the deserializer derived for \<open>ConsoleInbound\<close> is an argument.
\<close>

datatype console_inbound =
    CHello int string
  | COperatorMove int int int
  | COperatorPossess int ident
  | COperatorUnpossess int
  | COperatorDirective int ident string
  | COperatorAcceptProposal int ident ident "ident option"
  | COperatorRejectProposal int ident string
  | COperatorForceAccept int ident
  | COperatorForceFail int ident string
  | COperatorRecheckBackends
  | CSkillAttach int ident ident ident
  | CSkillDetach int ident ident ident
  | CSkillUpsertOperator int ident "ident option" string string
  | CSkillDeleteOperator int ident ident
  | CSkillSetGlobal int ident bool
  | COperatorList int
  | COperatorCreate int string string
  | COperatorRevoke int ident
  | COperatorSetRole int ident string
  | CAgentSetPeerReviewer int ident bool
  | CStartupSetAutoSteal int ident bool "int option"
  | CSkillListRevisionsOperator int ident ident
  | CSkillRevertOperator int ident ident int
  | CStartupSetAutoRecovery int ident bool "int option"
  | CPresenceHeartbeat int "ident option"

type_synonym console_decoder = "json \<Rightarrow> string + console_inbound"

type_synonym 'a console_op = "(sys, json, 'a) sem"

definition OPERATOR_AVATAR_ID :: ident where
  "OPERATOR_AVATAR_ID = ''__operator__''"

definition forbidden :: json where
  "forbidden = err_reason ''forbidden''"

definition require_role :: "operator_identity \<Rightarrow> operator_role \<Rightarrow> unit console_op" where
  "require_role identity r = guardE (at_least (oi_role identity) r) forbidden"

text \<open>The \<open>sql\<close> reply of a failed statement.\<close>

definition sqlC :: "env \<Rightarrow> (sys, sql_error, 'a) sem \<Rightarrow> 'a console_op" where
  "sqlC env m = mapErr (\<lambda>e. err_detail ''sql'' (e_sql_text env e)) m"

definition ok_reply :: "string \<Rightarrow> (string \<times> json) list \<Rightarrow> json" where
  "ok_reply kind kvs = JObj ([(''type'', JStr ''ok''), (''kind'', JStr kind)] @ kvs)"

section \<open>The operator avatar\<close>

definition operator_move :: "tile \<Rightarrow> json console_op" where
  "operator_move t =
     bindE (asksE (\<lambda>s. map_of (avatars s) OPERATOR_AVATAR_ID)) (\<lambda>found.
     if found \<noteq> None then
       thenE (modifyE (\<lambda>s. s\<lparr>avatars := amap_upd OPERATOR_AVATAR_ID (\<lambda>a. a\<lparr>av_target_pos := Some t\<rparr>)
           (avatars s)\<rparr>))
         (ret (ok_kind ''operator_move''))
     else throw (err_reason ''not_possessing''))"

definition operator_avatar :: "ident \<Rightarrow> avatar" where
  "operator_avatar startup_id = \<lparr> av_agent_id = OPERATOR_AVATAR_ID, av_startup_id = startup_id,
     av_role = ''operator'', av_backend = ''operator'', av_current_pos = (20, 5), av_target_pos = None,
     av_room_id = ''lobby'', av_status = ''idle'', av_last_seen_at = None, av_health = Online \<rparr>"

definition operator_possess :: "ident \<Rightarrow> json console_op" where
  "operator_possess startup_id =
     thenE (modifyE (\<lambda>s. s\<lparr>avatars := AList.update OPERATOR_AVATAR_ID (operator_avatar startup_id)
         (avatars s)\<rparr>))
       (ret (ok_reply ''operator_possess'' [(''startup_id'', JStr startup_id)]))"

definition operator_unpossess :: "json console_op" where
  "operator_unpossess =
     thenE (modifyE (\<lambda>s. s\<lparr>avatars := AList.delete OPERATOR_AVATAR_ID (avatars s)\<rparr>))
       (ret (ok_kind ''operator_unpossess''))"

section \<open>Directives and proposals\<close>

definition operator_directive :: "env \<Rightarrow> operator_identity \<Rightarrow> ident \<Rightarrow> string \<Rightarrow> json console_op" where
  "operator_directive env identity to_agent_id body =
     thenE (require_role identity RManager)
     (thenE (guardE (char_count body \<le> MAX_BODY_LENGTH) (err_reason ''body_too_long''))
     (bindE (sqlC env (sql_query (\<lambda>d. map_option ag_startup (agent_row d to_agent_id)))) (\<lambda>row.
      case row of
        None \<Rightarrow> throw (err_reason ''unknown_recipient'')
      | Some recipient_startup_id \<Rightarrow>
          bindE (fresh_uuid env) (\<lambda>i.
          thenE (sqlC env (insert_message i recipient_startup_id None ''operator'' body ''directive''))
          (thenE (send_to to_agent_id (JObj [(''type'', JStr ''directive''), (''v'', JInt 1),
              (''from_agent_id'', JStr ''operator''), (''body'', JStr body), (''message_id'', JStr i)]))
          (bindE (asksE now_ms) (\<lambda>ts.
           thenE (broadcast (FDirective i ts recipient_startup_id ''operator'' (Some (oi_name identity))
               to_agent_id body None))
             (ret (ok_reply ''operator_directive'' [(''message_id'', JStr i)]))))))))) "

text \<open>\<open>fetch_one\<close> of a task's columns: a missing row is an SQL error.\<close>

definition fetch_task :: "env \<Rightarrow> ident \<Rightarrow> task console_op" where
  "fetch_task env task_id = sqlC env (sql_stmt (\<lambda>s. case task_row (db s) task_id of
      None \<Rightarrow> Inl RowNotFound | Some t \<Rightarrow> Inr (t, db s)))"

definition current_status :: "task \<Rightarrow> task_status console_op" where
  "current_status t = (case parse_status (t_status t) of
      None \<Rightarrow> throw (JObj [(''type'', JStr ''error''), (''reason'', JStr ''unknown_status''),
        (''status'', JStr (t_status t))])
    | Some st \<Rightarrow> ret st)"

definition op_audit :: "operator_identity \<Rightarrow> string \<Rightarrow> (string \<times> json) list \<Rightarrow> json" where
  "op_audit identity kind kvs = JObj ([(''actor'', JStr ''operator''),
     (''operator_id'', JStr (oi_id identity)), (''kind'', JStr kind)] @ kvs)"

definition operator_accept_proposal :: "env \<Rightarrow> operator_identity \<Rightarrow> ident \<Rightarrow> ident \<Rightarrow> ident option \<Rightarrow>
    json console_op" where
  "operator_accept_proposal env identity task_id assignee_agent_id required_room =
     thenE (require_role identity RManager)
     (bindE (fetch_task env task_id) (\<lambda>t.
      bindE (current_status t) (\<lambda>current.
      thenE (case next_status current (AcceptProposal Operator) of
          Inl _ \<Rightarrow> throw (err_reason ''illegal_transition'') | Inr _ \<Rightarrow> ret ())
      (bindE (sqlC env (sql_query (\<lambda>d. map_option ag_startup (agent_row d assignee_agent_id)))) (\<lambda>row.
       thenE (case row of
           None \<Rightarrow> throw (err_detail ''unknown_assignee'' ''no such agent'')
         | Some sid \<Rightarrow> guardE (sid = t_startup t)
             (err_detail ''cross_startup'' ''assignee in different startup''))
       (thenE (sqlC env (sql_checked
           (\<lambda>d. fk (agent_row d assignee_agent_id \<noteq> None \<or> task_row d task_id = None))
           (\<lambda>s. upd_task task_id (\<lambda>t. t\<lparr>t_status := ''queued'', t_assignee := Some assignee_agent_id,
              t_required_room := required_room, t_updated_at := now_secs s\<rparr>) (db s))))
       (thenE (ignoreE (append_audit task_id (op_audit identity ''accept_proposal'' [])))
       (ret (ok_reply ''operator_accept_proposal'' [(''task_id'', JStr task_id)])))))))))"

definition apply_status_only_transition :: "env \<Rightarrow> ident \<Rightarrow> transition \<Rightarrow> string \<Rightarrow> json console_op" where
  "apply_status_only_transition env task_id tr audit_kind =
     bindE (fetch_task env task_id) (\<lambda>t.
     bindE (current_status t) (\<lambda>current.
     case next_status current tr of
       Inl reason \<Rightarrow> throw (err_detail ''illegal_transition'' reason)
     | Inr new_status \<Rightarrow>
         thenE (sqlC env (sql_exec (\<lambda>s. upd_task task_id (\<lambda>t. t\<lparr>t_status := status_to_str new_status,
             t_updated_at := now_secs s\<rparr>) (db s))))
           (ret (ok_reply audit_kind [(''task_id'', JStr task_id),
             (''new_status'', JStr (status_to_str new_status))]))))"

definition operator_reject_proposal :: "env \<Rightarrow> operator_identity \<Rightarrow> ident \<Rightarrow> string \<Rightarrow> json console_op" where
  "operator_reject_proposal env identity task_id reason =
     thenE (require_role identity RManager)
     (bindE (apply_status_only_transition env task_id (RejectProposal Operator)
         ''operator_reject_proposal'') (\<lambda>result.
      thenE (ignoreE (append_audit task_id (op_audit identity ''reject_proposal'' [(''reason'', JStr reason)])))
        (ret result)))"

section \<open>Forced transitions under a soft lock\<close>

definition lock_json :: "lock_info \<Rightarrow> json" where
  "lock_json l = JObj [(''lock_key'', JStr (li_key l)), (''operator_id'', JStr (li_operator l)),
     (''operator_name'', JStr (li_operator_name l)), (''expires_at'', JInt (li_expires_at l))]"

definition lock_refusal :: "env \<Rightarrow> acquire_error \<Rightarrow> json" where
  "lock_refusal env e = (case e of
      Conflict c \<Rightarrow> JObj [(''type'', JStr ''error''), (''reason'', JStr ''locked_by''),
        (''lock_key'', JStr (li_key c)), (''operator_name'', JStr (li_operator_name c)),
        (''expires_at'', JInt (li_expires_at c))]
    | ASql q \<Rightarrow> err_detail ''sql'' (e_sql_text env q))"

text \<open>
  The frame the three locked actions share: acquire, announce, act, release whatever the outcome,
  announce, answer.
\<close>

definition with_action_lock :: "env \<Rightarrow> operator_identity \<Rightarrow> string \<Rightarrow> json console_op \<Rightarrow> json console_op" where
  "with_action_lock env identity lock_key act =
     bindE (mapErr (lock_refusal env) (try_acquire env lock_key (oi_id identity) DEFAULT_TTL_SECS)) (\<lambda>l.
     thenE (broadcast (FActionLocked (lock_json l)))
     (bindE (tryE act) (\<lambda>result.
     thenE (ignoreE (release lock_key))
     (thenE (broadcast (FActionUnlocked lock_key))
     (liftE result)))))"

definition forced_transition :: "env \<Rightarrow> ident \<Rightarrow> transition \<Rightarrow> string \<Rightarrow> json \<Rightarrow> json console_op" where
  "forced_transition env task_id tr audit_kind entry =
     bindE (apply_status_only_transition env task_id tr audit_kind) (\<lambda>result.
     thenE (ignoreE (append_audit task_id entry)) (ret result))"

definition operator_force_accept :: "env \<Rightarrow> operator_identity \<Rightarrow> ident \<Rightarrow> json console_op" where
  "operator_force_accept env identity task_id =
     thenE (require_role identity RManager)
       (with_action_lock env identity (''task:'' @ task_id @ '':force_accept'')
         (forced_transition env task_id OperatorForceAccept ''operator_force_accept''
           (op_audit identity ''force_accept'' [])))"

definition operator_force_fail :: "env \<Rightarrow> operator_identity \<Rightarrow> ident \<Rightarrow> string \<Rightarrow> json console_op" where
  "operator_force_fail env identity task_id note =
     thenE (require_role identity RManager)
       (with_action_lock env identity (''task:'' @ task_id @ '':force_fail'')
         (forced_transition env task_id OperatorForceFail ''operator_force_fail''
           (op_audit identity ''force_fail'' [(''note'', JStr note)])))"

section \<open>Skills\<close>

definition console_skill_changed :: "ident \<Rightarrow> string \<Rightarrow> ident \<Rightarrow> ident option \<Rightarrow> unit console_op" where
  "console_skill_changed startup_id kind skill_id agent_id =
     broadcast (FSkillChanged startup_id kind skill_id agent_id None)"

definition skill_reply :: "env \<Rightarrow> skill_error \<Rightarrow> json" where
  "skill_reply env e = (case e of
      SkNotFound \<Rightarrow> err_reason ''not_found''
    | CrossStartup \<Rightarrow> err_reason ''cross_startup''
    | _ \<Rightarrow> err_detail ''sql'' (skill_error_debug env e))"

definition console_skill_attach :: "env \<Rightarrow> operator_identity \<Rightarrow> ident \<Rightarrow> ident \<Rightarrow> ident \<Rightarrow> json console_op"
where
  "console_skill_attach env identity startup_id agent_id skill_id =
     thenE (require_role identity RManager)
     (thenE (mapErr (skill_reply env) (attach env startup_id agent_id skill_id))
     (thenE (console_skill_changed startup_id ''attach'' skill_id (Some agent_id))
     (ret (ok_kind ''skill_attach''))))"

definition console_skill_detach :: "env \<Rightarrow> operator_identity \<Rightarrow> ident \<Rightarrow> ident \<Rightarrow> ident \<Rightarrow> json console_op"
where
  "console_skill_detach env identity startup_id agent_id skill_id =
     thenE (require_role identity RManager)
     (thenE (mapErr (skill_reply env) (detach env startup_id agent_id skill_id))
     (thenE (console_skill_changed startup_id ''detach'' skill_id (Some agent_id))
     (ret (ok_kind ''skill_detach''))))"

definition skill_upsert_reply :: "env \<Rightarrow> skill_error \<Rightarrow> json" where
  "skill_upsert_reply env e = (case e of
      BadName \<Rightarrow> err_reason ''bad_name''
    | OversizeContent \<Rightarrow> err_reason ''oversize_content''
    | CrossStartup \<Rightarrow> err_reason ''cross_startup''
    | _ \<Rightarrow> err_detail ''sql'' (skill_error_debug env e))"

definition skill_upsert_operator :: "env \<Rightarrow> operator_identity \<Rightarrow> ident \<Rightarrow> string \<Rightarrow> string \<Rightarrow> json console_op"
where
  "skill_upsert_operator env identity startup_id name content_md =
     thenE (require_role identity RManager)
     (bindE (mapErr (skill_upsert_reply env) (upsert_with_author env startup_id name content_md
         (ByOperator (oi_id identity)))) (\<lambda>(i, _).
      thenE (console_skill_changed startup_id ''upsert'' i None)
        (ret (ok_reply ''skill_upsert'' [(''skill_id'', JStr i)]))))"

text \<open>The owner for the broadcast is read again, best effort.\<close>

definition skill_set_global :: "env \<Rightarrow> operator_identity \<Rightarrow> ident \<Rightarrow> bool \<Rightarrow> json console_op" where
  "skill_set_global env identity skill_id is_global =
     thenE (require_role identity RAdmin)
     (thenE (mapErr (\<lambda>e. case e of SkNotFound \<Rightarrow> err_reason ''not_found''
         | _ \<Rightarrow> err_detail ''sql'' (skill_error_debug env e)) (set_global env skill_id is_global))
     (bindE (orDefault None (sql_query (\<lambda>d. map_option sk_startup (skill_row d skill_id)))) (\<lambda>owner.
      thenE (console_skill_changed (str_or [] owner) (if is_global then ''set_global'' else ''clear_global'')
          skill_id None)
        (ret (ok_reply ''skill_set_global'' [(''skill_id'', JStr skill_id),
          (''is_global'', JBool is_global)])))))"

definition skill_delete_operator :: "env \<Rightarrow> operator_identity \<Rightarrow> ident \<Rightarrow> ident \<Rightarrow> json console_op" where
  "skill_delete_operator env identity startup_id skill_id =
     thenE (require_role identity RManager)
     (thenE (mapErr (skill_reply env) (skills_delete env startup_id skill_id))
     (thenE (console_skill_changed startup_id ''delete'' skill_id None)
     (ret (ok_kind ''skill_delete''))))"

definition skill_list_revisions_operator :: "env \<Rightarrow> ident \<Rightarrow> ident \<Rightarrow> json console_op" where
  "skill_list_revisions_operator env startup_id skill_id =
     bindE (mapErr (skill_reply env) (list_revisions env startup_id skill_id)) (\<lambda>rows.
     ret (ok_reply ''skill_revisions'' [(''skill_id'', JStr skill_id),
       (''revisions'', JArr (map revision_json rows))]))"

definition skill_revert_operator :: "env \<Rightarrow> operator_identity \<Rightarrow> ident \<Rightarrow> ident \<Rightarrow> int \<Rightarrow> json console_op" where
  "skill_revert_operator env identity startup_id skill_id rev_seq =
     thenE (require_role identity RManager)
     (bindE (mapErr (skill_reply env) (revert_to_revision env startup_id skill_id rev_seq
         (ByOperator (oi_id identity)))) (\<lambda>content_md.
      thenE (console_skill_changed startup_id ''revert'' skill_id None)
        (ret (ok_reply ''skill_reverted'' [(''skill_id'', JStr skill_id), (''rev_seq'', JInt rev_seq),
          (''len'', JInt (int (length content_md)))]))))"

section \<open>Administration\<close>

text \<open>An \<open>UPDATE\<close> or \<open>DELETE\<close> answers how many rows it hit; none is \<open>not_found\<close>.\<close>

definition rows_hit :: "env \<Rightarrow> (database \<Rightarrow> nat) \<Rightarrow> (sys \<Rightarrow> database) \<Rightarrow> unit console_op" where
  "rows_hit env hits f =
     bindE (sqlC env (sql_stmt (\<lambda>s. Inr (hits (db s), f s)))) (\<lambda>n.
       guardE (n \<noteq> 0) (err_reason ''not_found''))"

definition agent_set_peer_reviewer :: "env \<Rightarrow> operator_identity \<Rightarrow> ident \<Rightarrow> bool \<Rightarrow> json console_op" where
  "agent_set_peer_reviewer env identity agent_id flag =
     thenE (require_role identity RAdmin)
     (thenE (rows_hit env (\<lambda>d. length (filter (\<lambda>a. ag_id a = agent_id) (d_agents d)))
        (\<lambda>s. (db s)\<lparr>d_agents := update_rows (\<lambda>a. ag_id a = agent_id)
           (\<lambda>a. a\<lparr>ag_is_peer_reviewer := (if flag then 1 else 0)\<rparr>) (d_agents (db s))\<rparr>))
     (ret (ok_reply ''agent_set_peer_reviewer'' [(''agent_id'', JStr agent_id),
       (''is_peer_reviewer'', JBool flag)])))"

definition operator_list :: "env \<Rightarrow> operator_identity \<Rightarrow> json console_op" where
  "operator_list env identity =
     thenE (require_role identity RAdmin)
     (bindE (sqlC env (sql_query (\<lambda>d. sort_key op_created_at (d_operators d)))) (\<lambda>rows.
      ret (ok_reply ''operator_list'' [(''operators'', JArr (map (\<lambda>r. JObj [(''id'', JStr (op_id r)),
        (''name'', JStr (op_name r)), (''role'', JStr (op_role r)),
        (''created_at'', JInt (op_created_at r))]) rows))])))"

text \<open>\<open>name.trim().is_empty()\<close>: only white space, in UTF-8.\<close>

definition ws1 :: "nat \<Rightarrow> bool" where
  "ws1 a \<longleftrightarrow> 9 \<le> a \<and> a \<le> 13 \<or> a = 32"

definition ws2 :: "nat \<Rightarrow> nat \<Rightarrow> bool" where
  "ws2 a b \<longleftrightarrow> a = 194 \<and> (b = 133 \<or> b = 160)"

definition ws3 :: "nat \<Rightarrow> nat \<Rightarrow> nat \<Rightarrow> bool" where
  "ws3 a b c \<longleftrightarrow> a = 225 \<and> b = 154 \<and> c = 128 \<or>
     a = 226 \<and> b = 128 \<and> (128 \<le> c \<and> c \<le> 138 \<or> c = 168 \<or> c = 169 \<or> c = 175) \<or>
     a = 226 \<and> b = 129 \<and> c = 159 \<or> a = 227 \<and> b = 128 \<and> c = 128"

fun is_blank :: "nat list \<Rightarrow> bool" where
  "is_blank [] = True"
| "is_blank (a # r) = (ws1 a \<and> is_blank r \<or>
     (case r of [] \<Rightarrow> False | b # r2 \<Rightarrow> ws2 a b \<and> is_blank r2 \<or>
        (case r2 of [] \<Rightarrow> False | c # r3 \<Rightarrow> ws3 a b c \<and> is_blank r3)))"

definition fresh_simple :: "env \<Rightarrow> (sys, 'e, string) sem" where
  "fresh_simple env = (\<lambda>s. (Inr (e_uuid_simple env (uuid_ctr s)), s\<lparr>uuid_ctr := Suc (uuid_ctr s)\<rparr>))"

text \<open>A message with \<open>UNIQUE\<close> is a taken name (or identifier); other failures are \<open>sql\<close>.\<close>

definition insert_operator :: "operator_row \<Rightarrow> (sys, sql_error, unit) sem" where
  "insert_operator r = sql_checked
     (\<lambda>d. if operator_row_of d (op_id r) \<noteq> None \<or> op_name r \<in> op_name ` set (d_operators d)
          then Some UniqueViolation else None)
     (\<lambda>s. (db s)\<lparr>d_operators := d_operators (db s) @ [r]\<rparr>)"

definition operator_create :: "env \<Rightarrow> operator_identity \<Rightarrow> string \<Rightarrow> string \<Rightarrow> json console_op" where
  "operator_create env identity name role =
     thenE (require_role identity RAdmin)
     (thenE (guardE (role_from_str role \<noteq> None) (err_detail ''bad_role'' role))
     (thenE (guardE (\<not> is_blank (map of_char name)) (err_reason ''bad_name''))
     (bindE (fresh_simple env) (\<lambda>i.
      bindE (fresh_simple env) (\<lambda>tok.
      let new_id = ''op_'' @ i; new_token = ''opt_'' @ tok in
      bindE (asksE now_secs) (\<lambda>now.
      thenE (mapErr (\<lambda>e. if e = UniqueViolation then err_reason ''name_taken''
           else err_detail ''sql'' (e_sql_text env e))
         (insert_operator \<lparr> op_id = new_id, op_name = name, op_token = None,
            op_token_hash = Some (hash_operator_token env new_token), op_role = role,
            op_created_at = now \<rparr>))
      (ret (ok_reply ''operator_create'' [(''id'', JStr new_id), (''name'', JStr name),
         (''role'', JStr role), (''token'', JStr new_token)]))))))))"

text \<open>\<open>DELETE FROM operators\<close>: locks cascade, revisions forget their author.\<close>

definition drop_operator :: "ident \<Rightarrow> database \<Rightarrow> database" where
  "drop_operator i d = d\<lparr>
     d_operators := delete_rows (\<lambda>r. op_id r = i) (d_operators d),
     d_locks := delete_rows (\<lambda>l. al_operator l = i) (d_locks d),
     d_skill_revisions := update_rows (\<lambda>r. sr_operator r = Some i) (\<lambda>r. r\<lparr>sr_operator := None\<rparr>)
       (d_skill_revisions d)\<rparr>"

definition operator_revoke :: "env \<Rightarrow> operator_identity \<Rightarrow> ident \<Rightarrow> json console_op" where
  "operator_revoke env identity operator_id =
     thenE (require_role identity RAdmin)
     (thenE (guardE (operator_id \<noteq> oi_id identity) (err_reason ''cannot_revoke_self''))
       (with_action_lock env identity (''operator:'' @ operator_id @ '':revoke'')
         (thenE (rows_hit env (\<lambda>d. length (filter (\<lambda>r. op_id r = operator_id) (d_operators d)))
            (\<lambda>s. drop_operator operator_id (db s)))
          (ret (ok_reply ''operator_revoke'' [(''id'', JStr operator_id)])))))"

definition operator_set_role :: "env \<Rightarrow> operator_identity \<Rightarrow> ident \<Rightarrow> string \<Rightarrow> json console_op" where
  "operator_set_role env identity operator_id role =
     thenE (require_role identity RAdmin)
     (thenE (guardE (role_from_str role \<noteq> None) (err_detail ''bad_role'' role))
     (thenE (guardE (\<not> (operator_id = oi_id identity \<and> role \<noteq> role_as_str (oi_role identity)))
        (err_reason ''cannot_demote_self''))
     (thenE (rows_hit env (\<lambda>d. length (filter (\<lambda>r. op_id r = operator_id) (d_operators d)))
        (\<lambda>s. (db s)\<lparr>d_operators := update_rows (\<lambda>r. op_id r = operator_id) (\<lambda>r. r\<lparr>op_role := role\<rparr>)
           (d_operators (db s))\<rparr>))
     (ret (ok_reply ''operator_set_role'' [(''id'', JStr operator_id), (''role'', JStr role)])))))"

definition startup_hits :: "ident \<Rightarrow> database \<Rightarrow> nat" where
  "startup_hits i d = length (filter (\<lambda>r. su_id r = i) (d_startups d))"

definition startup_set_auto_steal :: "env \<Rightarrow> operator_identity \<Rightarrow> ident \<Rightarrow> bool \<Rightarrow> int option \<Rightarrow>
    json console_op" where
  "startup_set_auto_steal env identity startup_id enabled after_secs =
     thenE (require_role identity RAdmin)
     (thenE (guardE (\<forall>n \<in> set_option after_secs. 1 \<le> n) (err_reason ''bad_after_secs''))
     (thenE (rows_hit env (startup_hits startup_id)
        (\<lambda>s. upd_startup startup_id (\<lambda>r. r\<lparr>su_auto_steal_enabled := (if enabled then 1 else 0),
           su_auto_steal_after_secs := (case after_secs of None \<Rightarrow> su_auto_steal_after_secs r
             | Some n \<Rightarrow> n)\<rparr>) (db s)))
     (ret (ok_reply ''startup_set_auto_steal'' [(''startup_id'', JStr startup_id),
       (''enabled'', JBool enabled), (''after_secs'', jopt_int after_secs)]))))"

definition startup_set_auto_recovery :: "env \<Rightarrow> operator_identity \<Rightarrow> ident \<Rightarrow> bool \<Rightarrow> int option \<Rightarrow>
    json console_op" where
  "startup_set_auto_recovery env identity startup_id enabled max_attempts =
     thenE (require_role identity RAdmin)
     (thenE (guardE (\<forall>n \<in> set_option max_attempts. 1 \<le> n) (err_reason ''bad_max_attempts''))
     (thenE (rows_hit env (startup_hits startup_id)
        (\<lambda>s. upd_startup startup_id (\<lambda>r. r\<lparr>su_auto_recovery_enabled := (if enabled then 1 else 0),
           su_auto_recovery_max_attempts := (case max_attempts of
               None \<Rightarrow> su_auto_recovery_max_attempts r | Some n \<Rightarrow> n)\<rparr>) (db s)))
     (ret (ok_reply ''startup_set_auto_recovery'' [(''startup_id'', JStr startup_id),
       (''enabled'', JBool enabled), (''max_attempts'', jopt_int max_attempts)]))))"

section \<open>Dispatch\<close>

fun console_arm :: "env \<Rightarrow> operator_identity \<Rightarrow> console_inbound \<Rightarrow> json console_op" where
  "console_arm env idn (CHello _ _) = ret (ok_kind ''hello'')"
| "console_arm env idn (COperatorMove _ x y) = operator_move (x, y)"
| "console_arm env idn (COperatorPossess _ sid) = operator_possess sid"
| "console_arm env idn (COperatorUnpossess _) = operator_unpossess"
| "console_arm env idn (COperatorDirective _ rid body) = operator_directive env idn rid body"
| "console_arm env idn (COperatorAcceptProposal _ t a room) = operator_accept_proposal env idn t a room"
| "console_arm env idn (COperatorRejectProposal _ t reason) = operator_reject_proposal env idn t reason"
| "console_arm env idn (COperatorForceAccept _ t) = operator_force_accept env idn t"
| "console_arm env idn (COperatorForceFail _ t note) = operator_force_fail env idn t note"
| "console_arm env idn COperatorRecheckBackends = ret (ok_reply ''operator_recheck_backends''
     [(''note'', JStr ''use POST /api/backend-catalog/recheck'')])"
| "console_arm env idn (CSkillAttach _ sid a k) = console_skill_attach env idn sid a k"
| "console_arm env idn (CSkillDetach _ sid a k) = console_skill_detach env idn sid a k"
| "console_arm env idn (CSkillUpsertOperator _ sid _ name c) = skill_upsert_operator env idn sid name c"
| "console_arm env idn (CSkillDeleteOperator _ sid k) = skill_delete_operator env idn sid k"
| "console_arm env idn (CSkillSetGlobal _ k g) = skill_set_global env idn k g"
| "console_arm env idn (COperatorList _) = operator_list env idn"
| "console_arm env idn (COperatorCreate _ name role) = operator_create env idn name role"
| "console_arm env idn (COperatorRevoke _ i) = operator_revoke env idn i"
| "console_arm env idn (COperatorSetRole _ i role) = operator_set_role env idn i role"
| "console_arm env idn (CAgentSetPeerReviewer _ a p) = agent_set_peer_reviewer env idn a p"
| "console_arm env idn (CStartupSetAutoSteal _ sid e n) = startup_set_auto_steal env idn sid e n"
| "console_arm env idn (CSkillListRevisionsOperator _ sid k) = skill_list_revisions_operator env sid k"
| "console_arm env idn (CSkillRevertOperator _ sid k n) = skill_revert_operator env idn sid k n"
| "console_arm env idn (CStartupSetAutoRecovery _ sid e n) = startup_set_auto_recovery env idn sid e n"
| "console_arm env idn (CPresenceHeartbeat _ _) = ret (ok_kind ''presence_heartbeat'')"

text \<open>The reply is what the arm returns, early or not.\<close>

definition replyE :: "json console_op \<Rightarrow> (sys, 'e, json) sem" where
  "replyE m = (\<lambda>s. case m s of (Inl j, s') \<Rightarrow> (Inr j, s') | (Inr j, s') \<Rightarrow> (Inr j, s'))"

definition console_dispatch :: "env \<Rightarrow> console_decoder \<Rightarrow> operator_identity \<Rightarrow> json \<Rightarrow> (sys, 'e, json) sem"
where
  "console_dispatch env decode idn msg = (case decode msg of
      Inl e \<Rightarrow> ret (err_detail ''parse'' e)
    | Inr inbound \<Rightarrow> replyE (console_arm env idn inbound))"

end
