(* ===== verification/WorldLoop.thy ===== *)
theory WorldLoop
  imports Scheduler CmdConsole
begin

text \<open>
  The world loop of \<open>loop_.rs\<close> with the per-tick proximity broadcast of \<open>proximity.rs\<close>: one command is
  taken from the channel at a time and runs to its end. The copies of the view sent to the watch
  channel are the state itself and are left out.
\<close>

section \<open>Proximity\<close>

definition peer_json :: "avatar \<Rightarrow> json" where
  "peer_json a = JObj [(''agent_id'', JStr (av_agent_id a)), (''role'', JStr (av_role a)),
     (''startup_id'', JStr (av_startup_id a))]"

definition proximity_json :: "ident \<Rightarrow> avatar list \<Rightarrow> json" where
  "proximity_json room_id members = JObj [(''type'', JStr ''proximity_tick''), (''v'', JInt 1),
     (''room_id'', JStr room_id), (''peers'', JArr (map peer_json members))]"

text \<open>The avatars by room; the order of a hash map's rooms is that of their first avatar here.\<close>

definition rooms_of :: "avatars \<Rightarrow> (ident \<times> avatar list) list" where
  "rooms_of avs = map (\<lambda>room. (room, filter (\<lambda>a. av_room_id a = room) (map snd avs)))
     (remdups (map (av_room_id \<circ> snd) avs))"

definition compute_and_emit :: "(sys, 'e, unit) sem" where
  "compute_and_emit =
     bindE (asksE (\<lambda>s. rooms_of (avatars s))) (\<lambda>rooms.
     forE rooms (\<lambda>(room_id, members).
       forE members (\<lambda>a. send_to (av_agent_id a) (proximity_json room_id members))))"

section \<open>Commands\<close>

datatype cmd =
    Tick
  | HandleConsoleMsg json operator_identity
  | HandleWorkerMsg ident json
  | RegisterWorker ident chan
  | UnregisterWorker ident
  | BackendCatalogUpdated "(string \<times> json) list"
  | InsertAvatars "avatar list" "(ident \<times> ident) option"
  | ReleaseSuite ident
  | Shutdown

text \<open>What a command leaves to the channel it came with; \<open>Shutdown\<close> leaves the loop.\<close>

datatype outcome = Reply json | NoReply | Stopped

definition move_complete_json :: "ident \<Rightarrow> json" where
  "move_complete_json room_id =
     JObj [(''type'', JStr ''move_complete''), (''v'', JInt 1), (''room_id'', JStr room_id)]"

definition move_avatars :: "(sys, 'e, move_event list) sem" where
  "move_avatars = (\<lambda>s. case step_all (avatars s) (paths s) of
     (avs, ps, events) \<Rightarrow> (Inr events, s\<lparr>avatars := avs, paths := ps\<rparr>))"

fun announce_arrival :: "move_event \<Rightarrow> (sys, 'e, unit) sem" where
  "announce_arrival (Complete agent_id room_id) = send_to agent_id (move_complete_json room_id)"

text \<open>\<open>let _ = scheduler::tick(..)\<close>: only a panic leaves it.\<close>

definition scheduler_pass :: "env \<Rightarrow> spawner \<Rightarrow> (sys, panic, unit) sem" where
  "scheduler_pass env spw = (\<lambda>s. case tick env spw s of
     (Inl (HPanic p), s') \<Rightarrow> (Inl p, s') | (_, s') \<Rightarrow> (Inr (), s'))"

definition refresh_health :: "sys \<Rightarrow> sys" where
  "refresh_health s = s\<lparr>avatars := map (\<lambda>(i, a). (i, a\<lparr>av_health := derive_health (now_secs s)
     (av_last_seen_at a) (map_of (out_bus s) i \<noteq> None) (av_role a = ''operator'')\<rparr>)) (avatars s)\<rparr>"

definition do_tick :: "env \<Rightarrow> spawner \<Rightarrow> (sys, panic, unit) sem" where
  "do_tick env spw =
     thenE (modifyE (\<lambda>s. s\<lparr>tick_seq := tick_seq s + 1\<rparr>))
     (bindE move_avatars (\<lambda>events.
      thenE (forE events announce_arrival)
      (thenE (scheduler_pass env spw)
      (thenE compute_and_emit
      (modifyE refresh_health)))))"

definition touch :: "ident \<Rightarrow> (sys, 'e, unit) sem" where
  "touch agent_id = modifyE (\<lambda>s. s\<lparr>avatars := amap_upd agent_id
     (\<lambda>a. a\<lparr>av_last_seen_at := Some (now_secs s)\<rparr>) (avatars s)\<rparr>)"

definition register_worker :: "ident \<Rightarrow> chan \<Rightarrow> (sys, 'e, unit) sem" where
  "register_worker agent_id tx = modifyE (\<lambda>s. s\<lparr>out_bus := AList.update agent_id tx (out_bus s),
     avatars := amap_upd agent_id (\<lambda>a. a\<lparr>av_last_seen_at := Some (now_secs s),
       av_health := derive_health (now_secs s) (Some (now_secs s)) True (av_role a = ''operator'')\<rparr>)
       (avatars s)\<rparr>)"

definition unregister_worker :: "ident \<Rightarrow> (sys, 'e, unit) sem" where
  "unregister_worker agent_id = modifyE (\<lambda>s. s\<lparr>out_bus := AList.delete agent_id (out_bus s),
     avatars := amap_upd agent_id (\<lambda>a. a\<lparr>av_health := derive_health (now_secs s) (av_last_seen_at a)
       False (av_role a = ''operator'')\<rparr>) (avatars s)\<rparr>)"

definition insert_avatars :: "avatar list \<Rightarrow> avatars \<Rightarrow> avatars" where
  "insert_avatars new avs = fold (\<lambda>a m. AList.update (av_agent_id a) a m) new avs"

definition claim_opt :: "(ident \<times> ident) option \<Rightarrow> town_layout \<Rightarrow> town_layout" where
  "claim_opt claim l = (case claim of None \<Rightarrow> l | Some (suite_id, startup_id) \<Rightarrow>
     claim_suite suite_id startup_id l)"

definition drop_startup_avatars :: "ident \<Rightarrow> avatars \<Rightarrow> avatars" where
  "drop_startup_avatars startup_id avs = filter (\<lambda>(_, a). av_startup_id a \<noteq> startup_id) avs"

record decoders =
  worker_codec :: worker_decoder
  console_codec :: console_decoder

fun loop_cmd :: "env \<Rightarrow> spawner \<Rightarrow> decoders \<Rightarrow> cmd \<Rightarrow> (sys, panic, outcome) sem" where
  "loop_cmd env spw dec Tick = thenE (do_tick env spw) (ret NoReply)"
| "loop_cmd env spw dec (HandleConsoleMsg msg identity) =
     bindE (console_dispatch env (console_codec dec) identity msg) (\<lambda>r. ret (Reply r))"
| "loop_cmd env spw dec (HandleWorkerMsg agent_id msg) =
     thenE (touch agent_id)
       (bindE (worker_dispatch env (worker_codec dec) agent_id msg) (\<lambda>r. ret (Reply r)))"
| "loop_cmd env spw dec (RegisterWorker agent_id tx) = thenE (register_worker agent_id tx) (ret NoReply)"
| "loop_cmd env spw dec (UnregisterWorker agent_id) = thenE (unregister_worker agent_id) (ret NoReply)"
| "loop_cmd env spw dec (BackendCatalogUpdated c) =
     thenE (modifyE (\<lambda>s. s\<lparr>catalog := c\<rparr>)) (ret NoReply)"
| "loop_cmd env spw dec (InsertAvatars new claim) =
     thenE (modifyE (\<lambda>s. s\<lparr>avatars := insert_avatars new (avatars s), layout := claim_opt claim (layout s)\<rparr>))
       (ret NoReply)"
| "loop_cmd env spw dec (ReleaseSuite startup_id) =
     thenE (modifyE (\<lambda>s. s\<lparr>layout := release_suites startup_id (layout s),
         avatars := drop_startup_avatars startup_id (avatars s)\<rparr>))
       (ret NoReply)"
| "loop_cmd env spw dec Shutdown = ret Stopped"

text \<open>The loop over the commands that were sent: it ends at \<open>Shutdown\<close>, at a closed channel or at a panic.\<close>

fun run_loop :: "env \<Rightarrow> spawner \<Rightarrow> decoders \<Rightarrow> cmd list \<Rightarrow> (sys, panic, json list) sem" where
  "run_loop env spw dec [] = ret []"
| "run_loop env spw dec (c # cs) =
     bindE (loop_cmd env spw dec c) (\<lambda>r. case r of
       Stopped \<Rightarrow> ret []
     | Reply j \<Rightarrow> bindE (run_loop env spw dec cs) (\<lambda>js. ret (j # js))
     | NoReply \<Rightarrow> run_loop env spw dec cs)"

end
