(* ===== verification/WorldInv.thy ===== *)
theory WorldInv
  imports WorldLoop SchedulerInv DispatchInv
begin

text \<open>
  The invariant of the world loop: whatever commands arrive, in whatever order, and whatever SQL
  statements fail, the task table stays sound, every task moves along the state machine, and the
  avatars stand for agents of their startups.
\<close>

section \<open>The worker side\<close>

lemma caller_known: "kept c s \<Longrightarrow> map_of (avatars s) i = Some a \<Longrightarrow> caller_ok a s"
  by (fastforce simp: kept_def avatars_ok_def caller_ok_def avatar_ids_def dest: map_of_SomeD)

lemma pres_mcp_dispatch: "pres (kept c) (mcp_dispatch env i msg)"
proof -
  have reply: "pres (kept c) (case r of Inr v \<Rightarrow> ret (mcp_reply cid v)
      | Inl (HErr code m) \<Rightarrow> ret (mcp_err cid code m)
      | Inl (HSql e) \<Rightarrow> ret (mcp_err cid ''sql'' (e_sql_text env e)) | Inl (HPanic p) \<Rightarrow> throw p)" for r cid
    by (auto split: sum.split handler_error.split intro: pres)
  show ?thesis
    unfolding mcp_dispatch_def Let_def
    by (intro leads_asks pres_cases leads_ret pres_bind pres_wrap reply
          leads_weaken [OF kept_run_tool]) (auto intro: caller_known)
qed

context plain_invariant begin

lemma pres_report_budget [pres]: "pres I (handle_report_budget env i x y m t c)"
proof -
  have "pres I (report_variance env sid t c)" for sid
    unfolding report_variance_def by (auto split: option.split sum.split intro!: pres)
  moreover have "pres I (act_on_threshold env sid x y th)" for sid x y th
    unfolding act_on_threshold_def by (auto split: threshold.split intro!: pres)
  ultimately show ?thesis
    unfolding handle_report_budget_def by (intro pres)
qed

lemma pres_worker_move [pres]: "pres I (handle_worker_move env i room t)"
  unfolding handle_worker_move_def by (intro pres)

end

lemma pres_worker_dispatch: "pres (kept c) (worker_dispatch env dec i msg)"
  unfolding worker_dispatch_def
  by (auto split: sum.split worker_inbound.split intro: pres pres_mcp_dispatch)

section \<open>The operator side\<close>

lemma operator_ok: "kept c s \<Longrightarrow> caller_ok (operator_avatar sid) s"
  by (simp add: kept_def avatars_ok_def caller_ok_def operator_avatar_def OPERATOR_AVATAR_ID_def)

lemma sql_pop_same [simp]: "sql_pop s\<lparr>db := db s\<rparr> = sql_pop s"
  by (simp add: sql_pop_def)

lemma leads_fetch:
  assumes "\<And>v t. tv_startup v = t_startup t \<Longrightarrow>
    leads (kept_sees c (operator_avatar []) i v) (kept c) (f t (tv_status v))"
  shows "pres (kept c) (bindE (fetch_task env i) (\<lambda>t. bindE (current_status t) (f t)))"
proof -
  have "wpE (f t st) (\<lambda>_. kept c) (\<lambda>_. kept c) (sql_pop s)"
    if k: "kept c s" and t: "task_row (db s) i = Some t" "parse_status (t_status t) = Some st" for s t st
  proof -
    let ?v = "\<lparr> tv_status = st, tv_startup = t_startup t, tv_parent = t_parent t,
      tv_assignee = t_assignee t, tv_review_round = t_review_round t, tv_artifact = t_artifact t \<rparr>"
    from k t have "kept_sees c (operator_avatar []) i ?v (sql_pop s)"
      using operator_ok [OF kept.I_simps(1) [OF k]] by (simp add: kept_sees_def sees_def kept.I_simps)
    from leadsD [OF assms this] show ?thesis by simp
  qed
  then show ?thesis
    by (auto simp: leads_def wp fetch_task_def sqlC_def current_status_def kept.I_simps split: option.split)
qed

lemma pres_sqlC [pres]: "leads P I m \<Longrightarrow> leads P I (sqlC env m)"
  unfolding sqlC_def by (rule pres_wrap)

lemma pres_status_only:
  assumes "tr = RejectProposal Operator \<or> tr = OperatorForceAccept \<or> tr = OperatorForceFail"
  shows "pres (kept c) (apply_status_only_transition env i tr kind)"
proof -
  have wr: "leads (kept_sees c (operator_avatar []) i v) (kept c)
      (sql_exec (\<lambda>s. upd_task i (\<lambda>t. t\<lparr>t_status := status_to_str b, t_updated_at := now_secs s\<rparr>) (db s)))"
    if "next_status (tv_status v) tr = Inr b" for v b
  proof (rule leads_write [OF that])
    show "\<not> is_create tr" using assms by auto
    show "has_worker (status_to_str b) \<Longrightarrow> tv_assignee v \<noteq> None"
      using has_worker_next [OF that] assms by auto
  qed simp_all
  show ?thesis
    unfolding apply_status_only_transition_def
    by (intro leads_fetch pres_cases pres_then pres_sqlC wr) (auto intro: pres leads_throw dest: kept_seesD)
qed

lemma pres_accept: "pres (kept c) (operator_accept_proposal env idn i x room)"
proof -
  have wr: "leads (\<lambda>s. kept_sees c a i v s \<and> agent_of x (tv_startup v) s) (kept c)
      (sql_checked chk (\<lambda>s. upd_task i (\<lambda>t. t\<lparr>t_status := ''queued'', t_assignee := Some x,
        t_required_room := r, t_updated_at := now_secs s\<rparr>) (db s)))"
    if nx: "next_status (tv_status v) (AcceptProposal Operator) = Inr b" for a v b r chk
  proof -
    have "kept c (sql_pop s\<lparr>db := upd_task i (\<lambda>t. t\<lparr>t_status := ''queued'', t_assignee := Some x,
        t_required_room := r, t_updated_at := now_secs s\<rparr>) (db s)\<rparr>)"
      if s: "kept_sees c a i v s" "agent_of x (tv_startup v) s" for s
      by (rule kept_write [OF s(1) nx]) (use s nx in \<open>auto simp: next_status_Inr has_worker_def\<close>)
    then show ?thesis
      by (auto simp: leads_def wp kept.I_simps kept_seesD split: option.split)
  qed
  have assign: "leads (kept_sees c a i v) (kept c)
      (bindE (sqlC env (sql_query (\<lambda>d. map_option ag_startup (agent_row d x)))) (\<lambda>row.
        thenE (case row of None \<Rightarrow> throw e1 | Some sid \<Rightarrow> guardE (sid = t_startup t) e2) m))"
    if "tv_startup v = t_startup t"
      and m: "leads (\<lambda>s. kept_sees c a i v s \<and> agent_of x (tv_startup v) s) (kept c) m" for a v t m e1 e2
    using leadsD [OF m] that(1)
    by (auto simp: leads_def wp sqlC_def seen.I_simps kept.I_simps kept_seesD agent_of_def
        startup_of_agent_def split: option.split)
  have nx: "leads P I (thenE (case next_status st tr of Inl _ \<Rightarrow> throw e | Inr _ \<Rightarrow> ret ()) n)"
    if "\<And>b. next_status st tr = Inr b \<Longrightarrow> leads P I n" "\<And>s. P s \<Longrightarrow> I s"
    for P I :: "sys \<Rightarrow> bool" and n :: "json console_op" and st tr e
    using that by (auto simp: leads_def wp split: sum.split)
  show ?thesis
    unfolding operator_accept_proposal_def require_role_def
    by (intro pres_then pres_basic leads_fetch nx assign pres_sqlC wr) (auto intro: pres dest: kept_seesD)
qed

lemma same_core_operators [simp]: "same_core d (d\<lparr>d_operators := r\<rparr>)" "same_core d (drop_operator i d)"
  by (simp_all add: same_core_def drop_operator_def)

lemma pres_reply [pres]: "pres I m \<Longrightarrow> pres I (replyE m)"
  by (simp add: leads_def wpE_def replyE_def split: prod.splits sum.splits)

lemma pres_with_lock [pres]:
  "plain_invariant I \<Longrightarrow> pres I act \<Longrightarrow> pres I (with_action_lock env idn k act)"
  unfolding with_action_lock_def
  by (intro pres plain_invariant.pres_locks plain_invariant.pres_steps)

lemma pres_rows_hit [pres]:
  "plain_invariant I \<Longrightarrow> (\<And>s. same_core (db s) (f s)) \<Longrightarrow> pres I (rows_hit env h f)"
  unfolding rows_hit_def sqlC_def by (intro pres plain_invariant.pres_core)

lemma pres_forced:
  assumes "tr = OperatorForceAccept \<or> tr = OperatorForceFail"
  shows "pres (kept c) (forced_transition env i tr kind entry)"
  unfolding forced_transition_def by (intro pres pres_status_only) (use assms in blast)

lemma pres_forced_tools: "pres (kept c) (operator_force_accept env idn i)"
  "pres (kept c) (operator_force_fail env idn i note)" "pres (kept c) (operator_reject_proposal env idn i r)"
  unfolding operator_force_accept_def operator_force_fail_def operator_reject_proposal_def require_role_def
  by (intro pres pres_with_lock pres_forced pres_status_only kept.plain_invariant_axioms; simp)+

context plain_invariant begin

lemma pres_console_skills [pres]:
  "pres I (console_skill_attach env idn sid a k)" "pres I (console_skill_detach env idn sid a k)"
  "pres I (skill_upsert_operator env idn sid n t)" "pres I (skill_set_global env idn k g)"
  "pres I (skill_delete_operator env idn sid k)" "pres I (skill_list_revisions_operator env sid k)"
  "pres I (skill_revert_operator env idn sid k n')"
  unfolding console_skill_attach_def console_skill_detach_def skill_upsert_operator_def
    skill_set_global_def skill_delete_operator_def skill_list_revisions_operator_def
    skill_revert_operator_def console_skill_changed_def require_role_def
  by (intro pres)+

lemma pres_fresh_simple [pres]: "pres I (fresh_simple env)"
  by (auto simp: leads_def wpE_def fresh_simple_def I_simps)

lemma pres_admin [pres]:
  "pres I (operator_list env idn)" "pres I (operator_create env idn name role)"
  "pres I (operator_revoke env idn i)" "pres I (operator_set_role env idn i role)"
  "pres I (startup_set_auto_steal env idn sid e n)" "pres I (startup_set_auto_recovery env idn sid e n)"
  "pres I (operator_directive env idn rid body)"
  unfolding operator_list_def operator_create_def operator_revoke_def operator_set_role_def
    startup_set_auto_steal_def startup_set_auto_recovery_def operator_directive_def require_role_def
    insert_operator_def Let_def
  by (intro pres pres_with_lock pres_rows_hit plain_invariant_axioms; simp)+

lemma pres_operator_move [pres]: "pres I (operator_move t)"
proof -
  have "I (s\<lparr>avatars := amap_upd k (\<lambda>a. a\<lparr>av_target_pos := Some t\<rparr>) (avatars s)\<rparr>)" if "I s" for s k
    by (rule core [OF that]) (simp_all add: avatar_ids_upd)
  then show ?thesis by (simp add: leads_def wp operator_move_def)
qed

end

lemma kept_avatars:
  assumes "kept c s" and "db t = db s" and "distinct (map fst (avatars t))"
    and "\<And>k a. (k, a) \<in> set (avatars t) \<Longrightarrow> (k, a) \<in> set (avatars s) \<or>
      (av_agent_id a = k \<and> (k = ''__operator__'' \<or> startup_of_agent (db s) k = Some (av_startup_id a)))"
  shows "kept c t"
proof -
  have "map fst (avatar_ids t) = map fst (avatars t)" by (simp add: avatar_ids_def case_prod_beta)
  moreover have "av_agent_id a = k \<and> (k = ''__operator__'' \<or> startup_of_agent (db t) k = Some (av_startup_id a))"
    if "(k, a) \<in> set (avatars t)" for k a
    using assms(4) [OF that] assms(1,2) by (fastforce simp: kept_def avatars_ok_def avatar_ids_def)
  ultimately show ?thesis
    using assms(1,2,3) by (auto simp: kept_def avatars_ok_def) (auto simp: avatar_ids_def)
qed

lemma kept_distinct: "kept c s \<Longrightarrow> distinct (map fst (avatars s))"
  by (simp add: kept_def avatars_ok_def avatar_ids_def case_prod_beta comp_def)

lemma alist_update_in: "p \<in> set (AList.update k v m) \<Longrightarrow> p = (k, v) \<or> p \<in> set m"
  by (induction m) (auto split: if_splits)

lemma pres_possession: "pres (kept c) (operator_possess sid)" "pres (kept c) operator_unpossess"
proof -
  have "kept c (s\<lparr>avatars := AList.update OPERATOR_AVATAR_ID (operator_avatar sid) (avatars s)\<rparr>)"
    if k: "kept c s" for s
  proof (rule kept_avatars [OF k])
    fix j a
    assume "(j, a) \<in> set (avatars (s\<lparr>avatars := AList.update OPERATOR_AVATAR_ID (operator_avatar sid) (avatars s)\<rparr>))"
    then have "(j, a) = (OPERATOR_AVATAR_ID, operator_avatar sid) \<or> (j, a) \<in> set (avatars s)"
      by (auto dest: alist_update_in)
    with k show "(j, a) \<in> set (avatars s) \<or>
        (av_agent_id a = j \<and> (j = ''__operator__'' \<or> startup_of_agent (db s) j = Some (av_startup_id a)))"
      by (auto simp: operator_avatar_def kept_def avatars_ok_def OPERATOR_AVATAR_ID_def)
  qed (simp_all add: distinct_update kept_distinct [OF k])
  moreover have "kept c (s\<lparr>avatars := AList.delete OPERATOR_AVATAR_ID (avatars s)\<rparr>)" if k: "kept c s" for s
    by (rule kept_avatars [OF k], simp, simp add: distinct_delete kept_distinct [OF k],
        auto simp: AList.delete_eq)
  ultimately show "pres (kept c) (operator_possess sid)" "pres (kept c) operator_unpossess"
    by (simp_all add: leads_def wp operator_possess_def operator_unpossess_def)
qed

lemma startup_of_peer_upd:
  "startup_of_agent (d\<lparr>d_agents := update_rows p (\<lambda>a. a\<lparr>ag_is_peer_reviewer := n\<rparr>) (d_agents d)\<rparr>) =
     startup_of_agent d"
proof -
  have "map_option ag_startup (find_row ag_id i (update_rows p (\<lambda>a. a\<lparr>ag_is_peer_reviewer := n\<rparr>) rows)) =
      map_option ag_startup (find_row ag_id i rows)" for i rows
    by (induction rows) (auto simp: update_rows_def)
  then show ?thesis by (simp add: fun_eq_iff startup_of_agent_def agent_row_def)
qed

lemma pres_peer_reviewer: "pres (kept c) (agent_set_peer_reviewer env idn a f)"
proof -
  have "kept c (sql_pop s\<lparr>db := (db s)\<lparr>d_agents :=
      update_rows p (\<lambda>a. a\<lparr>ag_is_peer_reviewer := n\<rparr>) (d_agents (db s))\<rparr>\<rparr>)" if "kept c s" for s p n
  proof -
    let ?d = "(db s)\<lparr>d_agents := update_rows p (\<lambda>a. a\<lparr>ag_is_peer_reviewer := n\<rparr>) (d_agents (db s))\<rparr>"
    have "startup_of_agent ?d = startup_of_agent (db s)" by (rule startup_of_peer_upd)
    moreover have "startup_of_task ?d = startup_of_task (db s)"
      by (simp add: fun_eq_iff startup_of_task_def task_row_def)
    ultimately show ?thesis
      using that by (simp add: kept_def db_inv_def tasks_evolve_def avatars_ok_def)
  qed
  then show ?thesis
    by (auto simp: leads_def wp agent_set_peer_reviewer_def require_role_def rows_hit_def sqlC_def kept.I_simps)
qed

lemma pres_console: "pres (kept c) (console_dispatch env dec idn msg)"
proof -
  have "pres (kept c) (console_arm env idn m)" for m
    by (cases m) (simp_all, (intro pres pres_accept pres_forced_tools pres_possession pres_peer_reviewer)+)
  then show ?thesis
    unfolding console_dispatch_def by (intro pres)
qed

section \<open>The loop\<close>

text \<open>\<open>c\<close> is the database at some earlier moment.\<close>

definition world_inv :: "database \<Rightarrow> sys \<Rightarrow> bool" where
  "world_inv c s \<longleftrightarrow> db_inv (db s) \<and> tasks_evolve sched_move c (db s) \<and> avatars_ok s"

lemma world_inv_start: "db_inv (db s) \<Longrightarrow> avatars_ok s \<Longrightarrow> world_inv (db s) s"
  by (simp add: world_inv_def)

lemma world_inv_kept: "world_inv c s \<Longrightarrow> kept (db s) s" "world_inv c s \<Longrightarrow> sched_kept (db s) s"
  by (simp_all add: world_inv_def kept_def sched_kept_def)

lemma world_inv_step:
  assumes "world_inv c s" and "kept (db s) t \<or> sched_kept (db s) t"
  shows "world_inv c t"
proof -
  have "tasks_evolve sched_move (db s) (db t)"
    using assms(2) by (auto simp: kept_def sched_kept_def sched_move_def intro: tasks_evolve_mono)
  with assms show ?thesis
    by (auto simp: world_inv_def kept_def sched_kept_def intro: tasks_evolve_trans)
qed

lemma world_inv_pres:
  assumes "\<And>d. pres (kept d) m \<or> pres (sched_kept d) m"
  shows "pres (world_inv c) m"
  unfolding leads_def
proof (intro allI impI)
  fix s
  assume w: "world_inv c s"
  from assms [of "db s"] show "wpE m (\<lambda>_. world_inv c) (\<lambda>_. world_inv c) s"
  proof
    assume "pres (kept (db s)) m"
    from leadsD [OF this world_inv_kept(1) [OF w]] show ?thesis
      by (rule wp_mono) (auto intro: world_inv_step [OF w])
  next
    assume "pres (sched_kept (db s)) m"
    from leadsD [OF this world_inv_kept(2) [OF w]] show ?thesis
      by (rule wp_mono) (auto intro: world_inv_step [OF w])
  qed
qed

abbreviation identity_of :: "ident \<times> avatar \<Rightarrow> ident \<times> ident \<times> ident \<times> string" where
  "identity_of p \<equiv> (fst p, av_agent_id (snd p), av_startup_id (snd p), av_role (snd p))"

lemma step_all_ids: "map identity_of (fst (step_all avs ps)) = map identity_of avs"
proof (induction ps arbitrary: avs)
  case Nil
  then show ?case by simp
next
  case (Cons p ps)
  obtain i path where p: "p = (i, path)" by (cases p)
  have u: "map identity_of (fst (step_all (amap_upd i f avs) ps)) = map identity_of avs"
    if "\<And>a. av_agent_id (f a) = av_agent_id a \<and> av_startup_id (f a) = av_startup_id a \<and> av_role (f a) = av_role a"
    for f
    by (subst Cons.IH) (use that in \<open>auto simp: amap_upd_def\<close>)
  show ?case
    using u [of clear_target] u [of "\<lambda>a. clear_target (move_onto (hd path) a)"] u [of "move_onto (hd path)"]
    by (cases path; cases "map_of avs i")
       (simp_all add: p Cons.IH prod.case_eq_if clear_target_def move_onto_def)
qed

context plain_invariant begin

lemma pres_move_avatars [pres]: "pres I move_avatars"
proof -
  have "I (s\<lparr>avatars := avs, paths := ps\<rparr>)" if "I s" "step_all (avatars s) (paths s) = (avs, ps, ev)" for s avs ps ev
    by (rule core [OF that(1)]) (use step_all_ids [of "avatars s" "paths s"] that(2) in \<open>simp_all add: avatar_ids_def case_prod_unfold\<close>)
  then show ?thesis by (auto simp: leads_def wpE_def move_avatars_def split: prod.split)
qed

lemma pres_announce [pres]: "pres I (announce_arrival e)"
  by (cases e) (simp add: pres_steps)

lemma pres_proximity [pres]: "pres I compute_and_emit"
  unfolding compute_and_emit_def by (intro pres)

lemma pres_avatar_upd:
  assumes "\<And>s. same_core (db s) (db (g s)) \<and> avatar_ids (g s) = avatar_ids s"
  shows "pres I (modifyE g)"
  using assms by (auto simp: leads_def wp intro: core)

lemma pres_upkeep [pres]: "pres I (modifyE refresh_health)" "pres I (touch i)" "pres I (register_worker i tx)"
  "pres I (unregister_worker i)" "pres I (modifyE (\<lambda>s. s\<lparr>tick_seq := tick_seq s + 1\<rparr>))"
  "pres I (modifyE (\<lambda>s. s\<lparr>catalog := cat\<rparr>))"
  unfolding touch_def register_worker_def unregister_worker_def
  by (rule pres_avatar_upd; auto simp: refresh_health_def avatar_ids_def amap_upd_def)+

end

lemma pres_scheduler_pass: "pres (sched_kept c) (scheduler_pass env spw)"
  using sched_tick [of c env spw]
  by (auto simp: leads_def wpE_def scheduler_pass_def split: prod.splits sum.splits handler_error.splits)

lemma world_tick: "pres (world_inv c) (do_tick env spw)"
  by (rule world_inv_pres, rule disjI2, unfold do_tick_def) (intro pres pres_scheduler_pass)

lemma world_console: "pres (world_inv c) (console_dispatch env dec idn msg)"
  by (rule world_inv_pres) (simp add: pres_console)

lemma world_worker: "pres (world_inv c) (worker_dispatch env dec i msg)"
  by (rule world_inv_pres) (simp add: pres_worker_dispatch)

text \<open>The avatars the API hands over are those of agents it has just written.\<close>

definition known_avatars :: "avatar list \<Rightarrow> sys \<Rightarrow> bool" where
  "known_avatars new s \<longleftrightarrow> (\<forall>a \<in> set new.
     startup_of_agent (db s) (av_agent_id a) = Some (av_startup_id a))"

fun well_sent :: "cmd \<Rightarrow> sys \<Rightarrow> bool" where
  "well_sent (InsertAvatars new claim) s = known_avatars new s"
| "well_sent _ s = True"

lemma insert_avatars_in:
  "p \<in> set (insert_avatars new avs) \<Longrightarrow> (\<exists>a \<in> set new. p = (av_agent_id a, a)) \<or> p \<in> set avs"
  by (induction new arbitrary: avs) (auto simp: insert_avatars_def dest!: alist_update_in)

lemma insert_avatars_distinct:
  "distinct (map fst avs) \<Longrightarrow> distinct (map fst (insert_avatars new avs))"
  by (induction new arbitrary: avs) (simp_all add: insert_avatars_def distinct_update)

lemma kept_new_avatars:
  assumes "kept c s" and "known_avatars new s"
  shows "kept c (s\<lparr>avatars := insert_avatars new (avatars s), layout := l\<rparr>)"
proof (rule kept_avatars [OF assms(1)])
  show "distinct (map fst (avatars (s\<lparr>avatars := insert_avatars new (avatars s), layout := l\<rparr>)))"
    by (simp add: insert_avatars_distinct kept_distinct [OF assms(1)])
qed (use assms(2) in \<open>auto simp: known_avatars_def dest!: insert_avatars_in\<close>)

lemma kept_release:
  assumes "kept c s"
  shows "kept c (s\<lparr>layout := l, avatars := drop_startup_avatars sid (avatars s)\<rparr>)"
proof (rule kept_avatars [OF assms])
  have "distinct (map fst (filter P (avatars s)))" for P
    using kept_distinct [OF assms] by (induction "avatars s") (auto simp: distinct_map inj_on_def)
  then show "distinct (map fst (avatars (s\<lparr>layout := l, avatars := drop_startup_avatars sid (avatars s)\<rparr>)))"
    by (simp add: drop_startup_avatars_def)
qed (auto simp: drop_startup_avatars_def)

lemma world_insert:
  assumes "world_inv c s" and "known_avatars new s"
  shows "world_inv c (s\<lparr>avatars := insert_avatars new (avatars s), layout := l\<rparr>)"
  using world_inv_step [OF assms(1)] kept_new_avatars [OF world_inv_kept(1) [OF assms(1)] assms(2)] by blast

lemma world_release:
  assumes "world_inv c s"
  shows "world_inv c (s\<lparr>layout := l, avatars := drop_startup_avatars sid (avatars s)\<rparr>)"
  using world_inv_step [OF assms] kept_release [OF world_inv_kept(1) [OF assms]] by blast

lemma world_cmd:
  assumes "world_inv c s" and "well_sent k s"
  shows "wpE (loop_cmd env spw dec k) (\<lambda>_. world_inv c) (\<lambda>_. world_inv c) s"
proof -
  have p: "pres (world_inv c) m \<Longrightarrow> wpE (thenE m (ret r)) (\<lambda>_. world_inv c) (\<lambda>_. world_inv c) s"
    for m and r :: outcome
    using leadsD [of "world_inv c" "world_inv c" m s] assms(1) by (simp add: wp)
  have up: "pres (world_inv c) m" if "\<And>d. pres (kept d) m" for m :: "(sys, panic, 'z) sem"
    by (rule world_inv_pres) (use that in simp)
  show ?thesis
  proof (cases k)
    case Tick
    then show ?thesis by (simp add: p world_tick)
  next
    case (HandleConsoleMsg msg idn)
    then show ?thesis using leadsD [OF world_console assms(1)] by (simp add: wp)
  next
    case (HandleWorkerMsg i msg)
    have "pres (world_inv c) (thenE (touch i) (bindE (worker_dispatch env (worker_codec dec) i msg) (\<lambda>r. ret (Reply r))))"
      by (intro pres world_worker up)
    from leadsD [OF this assms(1)] HandleWorkerMsg show ?thesis by simp
  next
    case (InsertAvatars new claim)
    with assms show ?thesis by (simp add: wp world_insert)
  next
    case (ReleaseSuite sid)
    with assms show ?thesis by (simp add: wp world_release)
  next
    case (RegisterWorker i tx)
    then show ?thesis using p [OF up [OF kept.pres_upkeep(3)]] by simp
  next
    case (UnregisterWorker i)
    then show ?thesis using p [OF up [OF kept.pres_upkeep(4)]] by simp
  next
    case (BackendCatalogUpdated cat)
    then show ?thesis using p [OF up [OF kept.pres_upkeep(6)]] by simp
  qed (simp add: wp assms(1))
qed

section \<open>Runs of the world\<close>

text \<open>
  A step of the world: a command of the loop, answered or panicking; the collection of expired locks;
  the clock; a worker reading its channel or closing it; and whichever SQL statements fail next.
\<close>

inductive world_step :: "env \<Rightarrow> spawner \<Rightarrow> decoders \<Rightarrow> sys \<Rightarrow> sys \<Rightarrow> bool" for env spw dec where
  command: "well_sent k s \<Longrightarrow> world_step env spw dec s (snd (loop_cmd env spw dec k s))"
| lock_gc: "world_step env spw dec s (snd ((lock_gc_tick :: (sys, sql_error, unit) sem) s))"
| clock: "now_ms s \<le> n \<Longrightarrow> world_step env spw dec s (s\<lparr>now_ms := n\<rparr>)"
| channels: "world_step env spw dec s (s\<lparr>out_bus := b\<rparr>)"
| failures: "world_step env spw dec s (s\<lparr>faults := fs\<rparr>)"

inductive_cases world_stepE: "world_step env spw dec s t"

inductive_simps world_clock: "world_step env spw dec s (s\<lparr>now_ms := n\<rparr>)"

lemma world_inv_same:
  assumes "world_inv c s" and "same_core (db s) (db t)" and "avatar_ids t = avatar_ids s"
  shows "world_inv c t"
  by (rule world_inv_step [OF assms(1)], rule disjI1,
      rule kept.core [OF world_inv_kept(1) [OF assms(1)] assms(2,3)])

lemma world_step_inv:
  assumes "world_inv c s" and "world_step env spw dec s t"
  shows "world_inv c t"
  using assms(2)
proof cases
  case (command k)
  with world_cmd [OF assms(1), of k env spw dec] show ?thesis by (simp add: wp_snd)
next
  case lock_gc
  have "pres (world_inv c) (lock_gc_tick :: (sys, sql_error, unit) sem)"
    by (rule world_inv_pres) (simp add: plain_invariant.pres_lock_gc [OF kept.plain_invariant_axioms])
  from leadsD [OF this assms(1)] lock_gc show ?thesis by (simp add: wp_snd)
qed (auto intro!: world_inv_same [OF assms(1)] simp: avatar_ids_def)

interpretation world: invariant_system "\<lambda>s. world_inv c s" "world_step env spw dec" "\<lambda>s. world_inv c s"
  for c env spw dec
  by unfold_locales (auto intro: world_step_inv)

lemma world_run:
  assumes "db_inv (db s)" and "avatars_ok s" and "(world_step env spw dec)\<^sup>*\<^sup>* s t"
  shows "db_inv (db t) \<and> avatars_ok t \<and> tasks_evolve sched_move (db s) (db t)"
  using world.steps_inv [OF assms(3) world_inv_start [OF assms(1,2)]] by (simp add: world_inv_def)

lemma tasks_evolve_row:
  assumes "tasks_evolve R d d'" and "distinct (map t_id (d_tasks d'))" and "task_row d i = Some u"
  shows "\<exists>v. task_row d' i = Some v \<and> task_evolves R u v"
proof -
  from assms(1) obtain old new where d: "d_tasks d' = old @ new" "list_all2 (task_evolves R) (d_tasks d) old"
    by (auto simp: tasks_evolve_def)
  have u: "u \<in> set (d_tasks d)" "t_id u = i" using assms(3) by (auto simp: task_row_def dest: find_row_Some)
  then obtain v where v: "v \<in> set old" "task_evolves R u v"
    using d(2) by (fastforce simp: list_all2_conv_all_nth in_set_conv_nth)
  then have "t_id v = i" using u(2) by (simp add: task_evolves_def)
  moreover have "find_row t_id (t_id v) (d_tasks d') = Some v"
    by (rule find_row_distinct [OF assms(2)]) (simp add: d v)
  ultimately show ?thesis using v(2) by (auto simp: task_row_def)
qed

lemma sched_move_final: "sched_move\<^sup>*\<^sup>* a b \<Longrightarrow> a = Done \<or> a = Failed \<Longrightarrow> b = a"
  by (induction rule: rtranclp_induct) (auto simp: sched_move_def)

end
