(* ===== verification/Answers.thy ===== *)
theory Answers
  imports WorldLoop TaskInv
begin

text \<open>
  Every command of the loop is answered: no handler panics, so no message can stop the loop. The
  panics of the model are the two \<open>unwrap\<close>s of the route computation, which \<open>MoveSys\<close> shows never to
  fail, given the contract of the path-finding crate. What can stop the loop is a tool that waits for a
  command which never closes its streams (\<open>Hangs\<close>): \<open>commands_end\<close> says that there is none.
\<close>

section \<open>Handlers that do not panic\<close>

text \<open>No run of the handler ends in a panic outside \<open>C\<close>.\<close>

definition calm :: "panic set \<Rightarrow> 'a handler \<Rightarrow> bool" where
  "calm C m \<longleftrightarrow> (\<forall>s. wpE m (\<lambda>_ _. True) (\<lambda>e _. \<forall>p. e = HPanic p \<longrightarrow> p \<in> C) s)"

named_theorems calm "computations that panic only as allowed"

lemma calm_bind [calm]: "calm C m \<Longrightarrow> (\<And>a. calm C (f a)) \<Longrightarrow> calm C (bindE m f)"
  unfolding calm_def wp_bind by (blast intro: wp_mono)

lemma calm_then [calm]: "calm C m \<Longrightarrow> calm C n \<Longrightarrow> calm C (thenE m n)"
  unfolding calm_def wp_then by (blast intro: wp_mono)

lemma calm_ends [calm]: "calm C (ret a)" "calm C (throw (HErr c m))" "calm C (throw (HSql e))"
  "calm C (guardE b (HErr c m))" "calm C (asksE f)" "calm C (modifyE g)" "calm C (fresh_uuid env)"
  "calm C (send_to i p)" "calm C (broadcast fr)" "calm C (set_avatar_status i st)"
  by (simp_all add: calm_def wp)

lemma wp_errors_true: "wpE m (\<lambda>_ _. True) (\<lambda>_ _. True) s"
  by simp

lemma calm_wraps [calm]: "calm C (sqlH q)" "calm C (ignoreE r)" "calm C (orDefault d r)" "calm C (tryE r)"
  by (simp_all add: calm_def wp)

lemma calm_mapErr: "(\<And>e p. g e \<noteq> HPanic p) \<Longrightarrow> calm C (mapErr g r)"
  by (simp add: calm_def wp)

lemma calm_send_checked [calm]: "calm C (send_checked i p)"
  by (simp add: calm_def wpE_def send_checked_def)

lemma calm_transact [calm]: "calm C m \<Longrightarrow> calm C (transactE HSql m)"
  by (auto simp: calm_def wp elim!: allE intro: wp_mono)

lemma calm_cases [calm]:
  "(b \<Longrightarrow> calm C m) \<Longrightarrow> (\<not> b \<Longrightarrow> calm C n) \<Longrightarrow> calm C (if b then m else n)"
  "calm C m \<Longrightarrow> (\<And>y. calm C (k y)) \<Longrightarrow> calm C (case x of None \<Rightarrow> m | Some y \<Rightarrow> k y)"
  "(\<And>a b. calm C (g a b)) \<Longrightarrow> calm C (case p of (a, b) \<Rightarrow> g a b)"
  "(\<And>a. calm C (ml a)) \<Longrightarrow> (\<And>b. calm C (mr b)) \<Longrightarrow> calm C (case x' of Inl a \<Rightarrow> ml a | Inr b \<Rightarrow> mr b)"
  "calm C a1 \<Longrightarrow> calm C a2 \<Longrightarrow> calm C a3 \<Longrightarrow> calm C a4 \<Longrightarrow>
     calm C (case r of MoveOk \<Rightarrow> a1 | NoPath \<Rightarrow> a2 | PermissionDenied \<Rightarrow> a3 | NoSuchAgent \<Rightarrow> a4)"
  "(\<And>kvs. calm C (ob kvs)) \<Longrightarrow> calm C m \<Longrightarrow>
     calm C (case j of JNull \<Rightarrow> m | JBool b \<Rightarrow> m | JInt i \<Rightarrow> m | JReal z \<Rightarrow> m | JStr str \<Rightarrow> m
       | JArr xs \<Rightarrow> m | JObj kvs \<Rightarrow> ob kvs)"
  by (auto split: option.split prod.split sum.split start_move_result.split json.split)

lemma calm_for [calm]: "(\<And>x. calm C (body x)) \<Longrightarrow> calm C (forE xs body)"
  by (induction xs) (auto intro: calm)

lemma calm_count [calm]: "(\<And>x. calm C (body x)) \<Longrightarrow> calm C (countE xs body)"
  by (induction xs) (auto intro: calm)

section \<open>Moves\<close>

definition path_finding :: "env \<Rightarrow> bool" where
  "path_finding env \<longleftrightarrow> astar_contract (e_astar_room env)"

lemma start_move_total:
  assumes "path_finding env"
  shows "\<exists>r avs ps. start_move (e_astar_room env) (e_astar_tile env) l g a room t av p = Inr (r, avs, ps)"
proof (cases "start_move (e_astar_room env) (e_astar_tile env) l g a room t av p")
  case (Inl e)
  then show ?thesis
    using start_move_no_panic [OF assms [unfolded path_finding_def], of "e_astar_tile env" l g a room t av p e]
    by simp
next
  case (Inr x)
  then show ?thesis by (cases x) auto
qed

lemma do_start_move_total:
  "path_finding env \<Longrightarrow> wpE (do_start_move env a room t) (\<lambda>_ _. True) (\<lambda>_ _. False) s"
  using start_move_total [of env "layout s" "e_graph env" a room t "avatars s" "paths s"]
  by (auto simp: wpE_def do_start_move_def)

lemma calm_start_move: "path_finding env \<Longrightarrow> calm C (mapErr HPanic (do_start_move env a room t))"
  unfolding calm_def wp_mapErr by (blast intro: wp_mono [OF do_start_move_total])

section \<open>The tools\<close>

definition commands_end :: "env \<Rightarrow> bool" where
  "commands_end env \<longleftrightarrow> (\<forall>prog as workdir. ends (e_process env prog as workdir))"

lemma calm_run_or_fail: "Hangs \<in> C \<or> r \<noteq> None \<Longrightarrow> calm C (run_or_fail r)"
  by (auto simp: run_or_fail_def calm_def wp split: option.split sum.split)

lemma calm_command [calm]:
  "Hangs \<in> C \<or> commands_end env \<Longrightarrow> calm C (run_or_fail (run_command (e_process env prog as workdir) n))"
  by (rule calm_run_or_fail) (auto simp: commands_end_def run_command_ends)

lemma calm_helpers [calm]: "calm C (require_str args k)" "calm C (check_body_length f b)" "calm C (load_task i)"
  "calm C (assignee_of i)" "calm C (caller_is_manager_of_task caller task)" "calm C (caller_manages_parent caller p)"
  "calm C (next_or_illegal st tr)" "calm C (same_startup task caller)" "calm C (require_own_agent caller a)"
  "calm C (is_peer_reviewer caller)" "calm C (manager_or_assignee caller task tool)"
  "calm C (require_task_workdir caller i)" "calm C (read_in_workspace env caller path)"
  "calm C (notify_parent task i path)" "calm C (set_status i st)" "calm C (auto_check_gate env caller i path args)"
  unfolding require_str_def check_body_length_def load_task_def assignee_of_def
    caller_is_manager_of_task_def caller_manages_parent_def next_or_illegal_def same_startup_def
    require_own_agent_def startup_of_agent_row_def is_peer_reviewer_def manager_or_assignee_def
    require_task_workdir_def read_in_workspace_def notify_parent_def set_status_def
    auto_check_gate_def Let_def
  by (intro calm)+

lemma calm_more [calm]: "calm C (load_proposal caller i tool)" "calm C (escalate_task env caller i task f)"
  "calm C (bounce_task env caller i task f k a)" "calm C (deliver_chat caller i body)"
  "calm C (deliver_directive caller i body rid)" "calm C (check_directive caller rcv)"
  "calm C (move_target caller args)"
  unfolding load_proposal_def escalate_task_def bounce_task_def deliver_chat_def deliver_directive_def
    check_directive_def move_target_def tile_arg_def
  by (intro calm)+

lemma calm_task_tools [calm]: "calm C (handle_speak env a args)" "calm C (handle_task_done env a args)"
  "calm C (handle_task_failed a args)" "calm C (handle_subtask_create env a args)"
  "calm C (handle_task_accept a args)" "calm C (handle_task_request_changes env a args)"
  "calm C (handle_accept_proposal a args)" "calm C (handle_reject_proposal a args)"
  unfolding handle_speak_def handle_task_done_def handle_task_failed_def handle_subtask_create_def
    handle_task_accept_def handle_task_request_changes_def handle_accept_proposal_def
    handle_reject_proposal_def Let_def
  by (intro calm)+

lemma calm_verify [calm]: "calm C (handle_verify env a args)"
  unfolding handle_verify_def Let_def by (intro calm)

lemma calm_agent_tools [calm]: "calm C (handle_epistemic_append a args k)"
  "calm C (handle_ask_peer args)" "calm C (handle_observe_world a args)"
  "calm C (handle_read_artifact env a args)" "calm C (handle_task_set_preference env a args)"
  "calm C (handle_task_set_blocking env a args)" "calm C (handle_task_steal env a args)"
  "calm C (handle_self_review env a args)"
  unfolding handle_epistemic_append_def handle_ask_peer_def handle_observe_world_def
    handle_read_artifact_def handle_task_set_preference_def handle_task_set_blocking_def
    handle_task_steal_def handle_self_review_def Let_def
  by (intro calm)+

lemma calm_command_tools [calm]:
  assumes "Hangs \<in> C \<or> commands_end env"
  shows "calm C (handle_run_tests env a args)" "calm C (handle_lint_artifact env a args)"
    "calm C (handle_read_artifact_diff env a args)"
  unfolding handle_run_tests_def handle_lint_artifact_def handle_read_artifact_diff_def Let_def
  by ((intro calm assms) | (simp split: option.split prod.split, intro allI impI conjI calm assms))+

lemma skill_error_calm [simp]: "upsert_error env n e \<noteq> HPanic p" "list_error e \<noteq> HPanic p"
  "attach_error e \<noteq> HPanic p" "delete_error i e \<noteq> HPanic p" "file_upsert_error env e \<noteq> HPanic p"
  "owned_error env w e \<noteq> HPanic p"
  by (cases e; simp add: upsert_error_def list_error_def attach_error_def delete_error_def
      file_upsert_error_def owned_error_def)+

lemma calm_skill_tools [calm]: "calm C (handle_skill_upsert env a args)"
  "calm C (handle_skill_list env a args)" "calm C (handle_skill_attach env a args)"
  "calm C (handle_skill_detach env a args)" "calm C (handle_skill_delete env a args)"
  "calm C (handle_skill_file_upsert env a args)" "calm C (handle_skill_file_delete env a args)"
  "calm C (handle_skill_list_revisions env a args)" "calm C (handle_skill_revert env a args)"
  unfolding handle_skill_upsert_def handle_skill_list_def handle_skill_attach_def
    handle_skill_detach_def handle_skill_delete_def handle_skill_file_upsert_def
    handle_skill_file_delete_def handle_skill_list_revisions_def handle_skill_revert_def
    skill_changed_def Let_def
  by (intro calm calm_mapErr; simp)+

lemma calm_run_tool:
  assumes "path_finding env" and "Hangs \<in> C \<or> commands_end env"
  shows "calm C (run_tool env tool a args)"
  unfolding run_tool_def handle_move_intent_def by (intro calm calm_start_move assms)

section \<open>The scheduler\<close>

lemma calm_tick: "path_finding env \<Longrightarrow> calm C (tick env spw)"
  unfolding tick_def dispatch_one_def deadline_scan_def auto_steal_pass_def auto_recovery_pass_def
    steal_one_def recover_one_def blocking_gate_def room_gate_def budget_gate_def live_gate_def
    assign_task_def start_work_def hand_over_def when_gate_def role_of_def Let_def
  by (intro calm calm_start_move)

section \<open>The loop\<close>

definition total :: "(sys, 'e, 'a) sem \<Rightarrow> bool" where
  "total m \<longleftrightarrow> (\<forall>s. wpE m (\<lambda>_ _. True) (\<lambda>_ _. False) s)"

named_theorems total "computations that always return a result"

lemma total_bind [total]: "total m \<Longrightarrow> (\<And>a. total (f a)) \<Longrightarrow> total (bindE m f)"
  unfolding total_def wp_bind by (blast intro: wp_mono)

lemma total_then [total]: "total m \<Longrightarrow> total n \<Longrightarrow> total (thenE m n)"
  unfolding total_def wp_then by (blast intro: wp_mono)

lemma total_ends [total]: "total (ret a)" "total (asksE f)" "total (modifyE g)" "total (send_to i p)"
  "total (broadcast fr)" "total (ignoreE r)" "total (orDefault d r)" "total (tryE r)"
  by (simp_all add: total_def wp)

lemma total_for [total]: "(\<And>x. total (body x)) \<Longrightarrow> total (forE xs body)"
  by (induction xs) (auto intro: total)

lemma total_cases [total]:
  "total m \<Longrightarrow> (\<And>y. total (k y)) \<Longrightarrow> total (case x of None \<Rightarrow> m | Some y \<Rightarrow> k y)"
  "(\<And>a b. total (g a b)) \<Longrightarrow> total (case p of (a, b) \<Rightarrow> g a b)"
  "total a1 \<Longrightarrow> total a2 \<Longrightarrow> total a3 \<Longrightarrow> total a4 \<Longrightarrow>
     total (case r of MoveOk \<Rightarrow> a1 | NoPath \<Rightarrow> a2 | PermissionDenied \<Rightarrow> a3 | NoSuchAgent \<Rightarrow> a4)"
  by (auto split: option.split prod.split start_move_result.split)

lemma total_run: "total m \<Longrightarrow> \<exists>a t. m s = (Inr a, t)"
  unfolding total_def wpE_def by (cases "m s") (auto split: sum.splits elim!: allE [of _ s])

lemma total_mcp_dispatch:
  assumes "path_finding env" and "commands_end env"
  shows "total (mcp_dispatch env i msg)"
proof -
  have "wpE (run_tool env tool a args) (\<lambda>v. wpE (ret (mcp_reply cid v)) (\<lambda>_ _. True) (\<lambda>_ _. False))
      (\<lambda>e. wpE (case e of HErr c m \<Rightarrow> ret (mcp_err cid c m) | HSql q \<Rightarrow> ret (mcp_err cid ''sql'' (e_sql_text env q))
         | HPanic p \<Rightarrow> throw p) (\<lambda>_ _. True) (\<lambda>_ _. False)) s" for tool a args cid s
    using calm_run_tool [OF assms(1) disjI2 [OF assms(2)], of "{}" tool a args, unfolded calm_def]
    by (auto simp: wp split: handler_error.split elim!: wp_mono allE [of _ s])
  then show ?thesis
    unfolding mcp_dispatch_def Let_def total_def
    by (auto simp: wp_bind wp_asks wp_try wp_option wp_sum wp_ret split: option.split)
qed

lemma total_worker:
  assumes pf: "path_finding env" and ce: "commands_end env"
  shows "total (worker_dispatch env dec i msg)"
proof -
  have "total (do_start_move env i room t :: (sys, panic, start_move_result) sem)" for i room t
    using do_start_move_total [OF pf] by (simp add: total_def)
  then show ?thesis
    unfolding worker_dispatch_def handle_worker_move_def handle_report_budget_def report_variance_def
      act_on_threshold_def record_threshold_event_def
    by (auto split: sum.split prod.split worker_inbound.split option.split threshold.split
        intro!: total total_mcp_dispatch [OF pf ce])
qed

lemma total_console: "total (console_dispatch env dec idn msg)"
  by (auto simp: total_def wpE_def console_dispatch_def replyE_def ret_def split: sum.split prod.split)

lemma total_tick:
  assumes "path_finding env"
  shows "total (do_tick env spw)"
proof -
  have "wpE (scheduler_pass env spw) (\<lambda>_ _. True) (\<lambda>_ _. False) s" for s
    using calm_tick [OF assms, of "{}" spw, unfolded calm_def, rule_format, of s]
    by (auto simp: wpE_def scheduler_pass_def split: prod.splits sum.splits handler_error.splits)
  then have "total (scheduler_pass env spw)" by (simp add: total_def)
  moreover have "total (move_avatars :: (sys, panic, move_event list) sem)"
    by (simp add: total_def wpE_def move_avatars_def split: prod.split)
  moreover have "total (announce_arrival e :: (sys, panic, unit) sem)" for e
    by (cases e) (simp add: total)
  ultimately show ?thesis unfolding do_tick_def compute_and_emit_def by (intro total)
qed

lemma total_cmd: "path_finding env \<Longrightarrow> commands_end env \<Longrightarrow> total (loop_cmd env spw dec c)"
  by (cases c)
     (auto simp: touch_def register_worker_def unregister_worker_def
       intro!: total total_tick total_console total_worker)

end
