(* ===== verification/Keeps.thy ===== *)
theory Keeps
  imports WorldLoop DispatchInv
begin

text \<open>
  What an operation leaves alone: \<open>keeps f m\<close> says that \<open>m\<close> never changes the part \<open>f\<close> of the database.
  Only administrators change the tables of operators, startups and agents; only the skill operations
  change the skill tables.
\<close>

definition keeps :: "(database \<Rightarrow> 'x) \<Rightarrow> (sys, 'e, 'a) sem \<Rightarrow> bool" where
  "keeps f m \<longleftrightarrow> (\<forall>s. wpE m (\<lambda>_ t. f (db t) = f (db s)) (\<lambda>_ t. f (db t) = f (db s)) s)"

named_theorems keeps "computations that leave a part of the database alone"

lemma keepsI: "(\<And>x. pres (\<lambda>s. f (db s) = x) m) \<Longrightarrow> keeps f m"
  by (auto simp: keeps_def leads_def)

lemma keeps_pres: "keeps f m \<Longrightarrow> pres (\<lambda>s. f (db s) = x) m"
  unfolding keeps_def leads_def by (intro allI impI) (auto elim!: wp_mono allE)

lemma keeps_bind [keeps]: "keeps f m \<Longrightarrow> (\<And>a. keeps f (g a)) \<Longrightarrow> keeps f (bindE m g)"
  by (intro keepsI pres_bind) (auto intro: keeps_pres)

lemma keeps_then [keeps]: "keeps f m \<Longrightarrow> keeps f n \<Longrightarrow> keeps f (thenE m n)"
  by (intro keepsI pres_then) (auto intro: keeps_pres)

lemma keeps_ends [keeps]: "keeps f (ret a)" "keeps f (throw e)" "keeps f (guardE b e)" "keeps f (liftE r)"
  "keeps f (asksE q)" "keeps f (fresh_uuid env)" "keeps f (send_to i p)" "keeps f (broadcast fr)"
  "keeps f (set_avatar_status i st)" "keeps f (sql_query g)"
  by (simp_all add: keeps_def wp split: sum.split)

lemma keeps_modify [keeps]: "(\<And>s. f (db (g s)) = f (db s)) \<Longrightarrow> keeps f (modifyE g)"
  by (simp add: keeps_def wp)

lemma keeps_wraps [keeps]: "keeps f m \<Longrightarrow> keeps f (ignoreE m)" "keeps f m \<Longrightarrow> keeps f (mapErr h m)"
  "keeps f m \<Longrightarrow> keeps f (tryE m)" "keeps f m \<Longrightarrow> keeps f (orDefault d m)"
  "keeps f q \<Longrightarrow> keeps f (sqlH q)" "keeps f q \<Longrightarrow> keeps f (sqlK env q)" "keeps f q \<Longrightarrow> keeps f (sqlC env q)"
  by (simp_all add: keeps_def wp sqlC_def)

lemma keeps_sql [keeps]:
  "(\<And>s. f (g s) = f (db s)) \<Longrightarrow> keeps f (sql_exec g)"
  "(\<And>s. f (g s) = f (db s)) \<Longrightarrow> keeps f (sql_checked chk g)"
  "(\<And>s. f (g s) = f (db s)) \<Longrightarrow> keeps f (sql_stmt (\<lambda>s. Inr (h s, g s)))"
  by (simp_all add: keeps_def wp split: option.split)

lemma keeps_transact [keeps]:
  assumes "keeps f m"
  shows "keeps f (transactE w m)"
proof -
  have "wpE m (\<lambda>_ t. f (db t) = f (db s)) (\<lambda>_ t. f (db t) = f (db s)) (sql_pop s)" for s
    using assms [unfolded keeps_def, rule_format, of "sql_pop s"] by simp
  then show ?thesis
    unfolding keeps_def wp_transact by (auto intro: wp_mono)
qed

lemma keeps_for [keeps]: "(\<And>x. keeps f (body x)) \<Longrightarrow> keeps f (forE xs body)"
  by (induction xs) (auto intro: keeps)

lemma keeps_count [keeps]: "(\<And>x. keeps f (body x)) \<Longrightarrow> keeps f (countE xs body)"
  by (induction xs) (auto intro: keeps)

lemma keeps_collect [keeps]: "(\<And>x. keeps f (body x)) \<Longrightarrow> keeps f (collectE xs body)"
  by (induction xs) (auto intro: keeps)

lemma keeps_cases [keeps]:
  "(b \<Longrightarrow> keeps f m) \<Longrightarrow> (\<not> b \<Longrightarrow> keeps f n) \<Longrightarrow> keeps f (if b then m else n)"
  "keeps f m \<Longrightarrow> (\<And>y. keeps f (k y)) \<Longrightarrow> keeps f (case x of None \<Rightarrow> m | Some y \<Rightarrow> k y)"
  "(\<And>a b. keeps f (g a b)) \<Longrightarrow> keeps f (case p of (a, b) \<Rightarrow> g a b)"
  "(\<And>a. keeps f (ml a)) \<Longrightarrow> (\<And>b. keeps f (mr b)) \<Longrightarrow> keeps f (case x' of Inl a \<Rightarrow> ml a | Inr b \<Rightarrow> mr b)"
  "keeps f a1 \<Longrightarrow> keeps f a2 \<Longrightarrow> keeps f a3 \<Longrightarrow> keeps f a4 \<Longrightarrow>
     keeps f (case r of MoveOk \<Rightarrow> a1 | NoPath \<Rightarrow> a2 | PermissionDenied \<Rightarrow> a3 | NoSuchAgent \<Rightarrow> a4)"
  "(\<And>kvs. keeps f (ob kvs)) \<Longrightarrow> keeps f m \<Longrightarrow>
     keeps f (case j of JNull \<Rightarrow> m | JBool b \<Rightarrow> m | JInt i \<Rightarrow> m | JReal z \<Rightarrow> m | JStr str \<Rightarrow> m
       | JArr xs \<Rightarrow> m | JObj kvs \<Rightarrow> ob kvs)"
  by (auto split: option.split prod.split sum.split start_move_result.split json.split)

lemma keeps_start_move [keeps]: "keeps f (do_start_move env a room t)"
  by (auto simp: keeps_def wpE_def do_start_move_def split: sum.split prod.split)

section \<open>The parts\<close>

text \<open>The tables an administrator changes, and the skill tables with the startups of the agents.\<close>

definition accounts :: "database \<Rightarrow> operator_row list \<times> startup list \<times> agent list" where
  "accounts d = (d_operators d, d_startups d, d_agents d)"

definition skill_part :: "database \<Rightarrow> skill list \<times> agent_skill list \<times> skill_file list \<times>
    skill_revision list \<times> (ident \<Rightarrow> ident option)" where
  "skill_part d = (d_skills d, d_agent_skills d, d_skill_files d, d_skill_revisions d, startup_of_agent d)"

lemma accounts_simps [simp]:
  "accounts (upd_task i g d) = accounts d" "accounts (upd_tasks p g d) = accounts d"
  "accounts (d\<lparr>d_tasks := t\<rparr>) = accounts d" "accounts (d\<lparr>d_messages := m\<rparr>) = accounts d"
  "accounts (d\<lparr>d_system_events := e\<rparr>) = accounts d" "accounts (d\<lparr>d_skills := ss\<rparr>) = accounts d"
  "accounts (d\<lparr>d_agent_skills := l\<rparr>) = accounts d" "accounts (d\<lparr>d_skill_files := fs\<rparr>) = accounts d"
  "accounts (d\<lparr>d_skill_revisions := rs\<rparr>) = accounts d" "accounts (upd_skill i h d) = accounts d"
  "accounts (drop_skill i d) = accounts d" "accounts (upd_locks k d) = accounts d"
  by (simp_all add: accounts_def upd_task_def upd_tasks_def upd_skill_def drop_skill_def upd_locks_def)

lemma skill_part_simps [simp]:
  "skill_part (upd_task i g d) = skill_part d" "skill_part (upd_tasks p g d) = skill_part d"
  "skill_part (d\<lparr>d_tasks := t\<rparr>) = skill_part d" "skill_part (d\<lparr>d_messages := m\<rparr>) = skill_part d"
  "skill_part (d\<lparr>d_system_events := e\<rparr>) = skill_part d" "skill_part (d\<lparr>d_budget_events := b\<rparr>) = skill_part d"
  "skill_part (upd_startup i h d) = skill_part d" "skill_part (upd_locks k d) = skill_part d"
  "skill_part (d\<lparr>d_operators := os\<rparr>) = skill_part d"
  by (simp_all add: skill_part_def upd_task_def upd_tasks_def upd_locks_def upd_startup_def
      startup_of_agent_def [abs_def] agent_row_def)

section \<open>Operations of no concern to a part\<close>

text \<open>A part that the log entries, the messages, the events and the task updates do not belong to.\<close>

locale aloof =
  fixes f :: "database \<Rightarrow> 'x"
  assumes aloof_task: "f (upd_tasks p g d) = f d"
    and aloof_insert: "f (d\<lparr>d_tasks := t\<rparr>) = f d"
    and aloof_message: "f (d\<lparr>d_messages := m\<rparr>) = f d"
    and aloof_event: "f (d\<lparr>d_system_events := e\<rparr>) = f d"
    and aloof_locks: "f (d\<lparr>d_locks := l\<rparr>) = f d"
begin

lemma aloof_one: "f (upd_task i g d) = f d"
  by (simp add: upd_task_def aloof_task)

lemma aloof_locks': "f (upd_locks k d) = f d"
  by (simp add: upd_locks_def aloof_locks)

lemmas aloof = aloof_task aloof_insert aloof_message aloof_event aloof_one aloof_locks'

lemma keeps_store [keeps]: "keeps f (append_audit i e)" "keeps f (append_epistemic i e)"
  "keeps f (insert_system_event i su k pl sv)" "keeps f (emit_system_event env su k pl sv)"
  "keeps f (insert_message i sid r a b k)" "keeps f (insert_task tk)" "keeps f (self_review_record i a out)"
  "keeps f (set_status i st)"
  unfolding append_audit_def append_epistemic_def insert_system_event_def emit_system_event_def
    insert_message_def insert_task_def self_review_record_def set_status_def
  by (intro keeps; simp add: aloof)+

lemma keeps_locks [keeps]: "keeps f (try_acquire env k i ttl)" "keeps f (release k)"
  "keeps f (lock_gc_tick :: (sys, 'e, unit) sem)"
  unfolding try_acquire_def insert_lock_def release_def lock_gc_tick_def gc_expired_def Let_def
  by (intro keeps; simp add: aloof)+

lemma keeps_helpers [keeps]: "keeps f (require_str args k)" "keeps f (check_body_length fld b)"
  "keeps f (load_task i)" "keeps f (assignee_of i)" "keeps f (caller_is_manager_of_task caller task)"
  "keeps f (caller_manages_parent caller p)" "keeps f (next_or_illegal st tr)"
  "keeps f (same_startup task caller)" "keeps f (require_own_agent caller a)"
  "keeps f (is_peer_reviewer caller)" "keeps f (manager_or_assignee caller task tool)"
  "keeps f (require_task_workdir caller i)" "keeps f (run_or_fail r)"
  "keeps f (read_in_workspace env caller path)" "keeps f (notify_parent task i path)"
  "keeps f (auto_check_gate env caller i path args)"
  unfolding require_str_def check_body_length_def load_task_def assignee_of_def
    caller_is_manager_of_task_def caller_manages_parent_def next_or_illegal_def same_startup_def
    require_own_agent_def startup_of_agent_row_def is_peer_reviewer_def manager_or_assignee_def
    require_task_workdir_def run_or_fail_def read_in_workspace_def notify_parent_def
    auto_check_gate_def Let_def
  by (intro keeps)+

lemma keeps_more [keeps]: "keeps f (load_proposal caller i tool)" "keeps f (escalate_task env caller i task x)"
  "keeps f (bounce_task env caller i task x k a)" "keeps f (deliver_chat caller i body)"
  "keeps f (deliver_directive caller i body rid)" "keeps f (check_directive caller rcv)"
  "keeps f (move_target caller args)" "keeps f (steal_row i old new)"
proof -
  show "keeps f (steal_row i old new)"
    by (auto simp: keeps_def wp steal_row_def Let_def aloof)
qed (unfold load_proposal_def escalate_task_def bounce_task_def deliver_chat_def deliver_directive_def
    check_directive_def move_target_def tile_arg_def, (intro keeps; simp add: aloof)+)

lemma keeps_task_tools [keeps]: "keeps f (handle_move_intent env a args)" "keeps f (handle_speak env a args)"
  "keeps f (handle_task_done env a args)" "keeps f (handle_task_failed a args)"
  "keeps f (handle_subtask_create env a args)" "keeps f (handle_task_accept a args)"
  "keeps f (handle_task_request_changes env a args)" "keeps f (handle_accept_proposal a args)"
  "keeps f (handle_reject_proposal a args)" "keeps f (handle_verify env a args)"
  unfolding handle_move_intent_def handle_speak_def handle_task_done_def handle_task_failed_def
    handle_subtask_create_def handle_task_accept_def handle_task_request_changes_def
    handle_accept_proposal_def handle_reject_proposal_def handle_verify_def Let_def
  by (intro keeps; simp add: aloof)+

lemma keeps_agent_tools [keeps]: "keeps f (handle_epistemic_append a args k)"
  "keeps f (handle_ask_peer args)" "keeps f (handle_observe_world a args)"
  "keeps f (handle_read_artifact env a args)" "keeps f (handle_task_set_preference env a args)"
  "keeps f (handle_task_set_blocking env a args)" "keeps f (handle_task_steal env a args)"
  "keeps f (handle_self_review env a args)" "keeps f (handle_run_tests env a args)"
  "keeps f (handle_lint_artifact env a args)" "keeps f (handle_read_artifact_diff env a args)"
  unfolding handle_epistemic_append_def handle_ask_peer_def handle_observe_world_def
    handle_read_artifact_def handle_task_set_preference_def handle_task_set_blocking_def
    handle_task_steal_def handle_self_review_def handle_run_tests_def handle_lint_artifact_def
    handle_read_artifact_diff_def Let_def
  by (intro keeps; simp add: aloof)+

end

interpretation accounts: aloof accounts
  by unfold_locales (simp_all add: accounts_def upd_tasks_def)

interpretation skill_part: aloof skill_part
  by unfold_locales (simp_all add: skill_part_def upd_tasks_def startup_of_agent_def [abs_def] agent_row_def)

end
