(* ===== verification/Operators.thy ===== *)
theory Operators
  imports Keeps WorldInv Sample
begin

text \<open>
  What operators may change, and the skill tables in every run of the world. A viewer changes nothing
  but its own avatar, a manager none of the accounts, and no command at all breaks the invariant of
  the skill tables.
\<close>

section \<open>Skill operations and accounts\<close>

lemma keeps_accounts_skills [keeps]:
  "keeps accounts (append_revision env i c a)" "keeps accounts (set_content env i c)"
  "keeps accounts (insert_skill env r)" "keeps accounts (insert_file env x)"
  "keeps accounts (require_skill env sid i)" "keeps accounts (require_agent env sid i)"
  unfolding append_revision_def set_content_def insert_skill_def insert_file_def require_skill_def
    require_agent_def owned_by_def Let_def
  by (intro keeps; simp)+

lemma keeps_accounts_skill_ops [keeps]: "keeps accounts (upsert_with_author env sid n c a)"
  "keeps accounts (revert_to_revision env sid i k a)" "keeps accounts (list_revisions env sid i)"
  "keeps accounts (skills_list env sid)" "keeps accounts (attach env sid ag i)"
  "keeps accounts (detach env sid ag i)" "keeps accounts (skills_delete env sid i)"
  "keeps accounts (set_global env i b)" "keeps accounts (upsert_file env sid i n c)"
  "keeps accounts (delete_file env sid i n)" "keeps accounts (list_with_attachments env sid)"
  unfolding upsert_with_author_def revert_to_revision_def list_revisions_def skills_list_def attach_def
    detach_def skills_delete_def set_global_def upsert_file_def delete_file_def
    list_with_attachments_def Let_def
  by (intro keeps; simp)+

section \<open>Managers and the accounts\<close>

lemma wp_require_role [wp]:
  "wpE (require_role idn r) Q E = (\<lambda>s. if at_least (oi_role idn) r then Q () s else E forbidden s)"
  by (simp add: require_role_def wp)

lemma keeps_role:
  "(at_least (oi_role idn) r \<Longrightarrow> keeps f m) \<Longrightarrow> keeps f (thenE (require_role idn r) m)"
  by (simp add: keeps_def wp)

lemma keeps_reply [keeps]: "keeps f m \<Longrightarrow> keeps f (replyE m)"
  by (simp add: keeps_def wpE_def replyE_def split: prod.splits sum.splits)

context aloof begin

lemma keeps_fetch [keeps]: "keeps f (fetch_task env i)" "keeps f (current_status t)"
  by (auto simp: keeps_def wp fetch_task_def sqlC_def current_status_def split: option.split)

lemma keeps_operator_tools [keeps]:
  "keeps f (operator_move t)" "keeps f (operator_possess sid)" "keeps f operator_unpossess"
  "keeps f (operator_directive env idn rid body)" "keeps f (operator_accept_proposal env idn i a room)"
  "keeps f (apply_status_only_transition env i tr k)" "keeps f (require_role idn r)"
  unfolding operator_move_def operator_possess_def operator_unpossess_def operator_directive_def
    operator_accept_proposal_def apply_status_only_transition_def require_role_def
  by (intro keeps; simp add: aloof)+

lemma keeps_with_lock [keeps]: "keeps f act \<Longrightarrow> keeps f (with_action_lock env idn k act)"
  unfolding with_action_lock_def by (intro keeps)

lemma keeps_forced [keeps]: "keeps f (operator_reject_proposal env idn i reason)"
  "keeps f (operator_force_accept env idn i)" "keeps f (operator_force_fail env idn i note)"
  unfolding operator_reject_proposal_def operator_force_accept_def operator_force_fail_def
    forced_transition_def
  by (intro keeps)+

end

lemma keeps_accounts_console_skills [keeps]:
  "keeps accounts (console_skill_attach env idn sid a k)" "keeps accounts (console_skill_detach env idn sid a k)"
  "keeps accounts (skill_upsert_operator env idn sid n t)" "keeps accounts (skill_set_global env idn k g)"
  "keeps accounts (skill_delete_operator env idn sid k)"
  "keeps accounts (skill_list_revisions_operator env sid k)"
  "keeps accounts (skill_revert_operator env idn sid k n')"
  unfolding console_skill_attach_def console_skill_detach_def skill_upsert_operator_def
    skill_set_global_def skill_delete_operator_def skill_list_revisions_operator_def
    skill_revert_operator_def console_skill_changed_def require_role_def
  by (intro keeps)+

lemma admin_only:
  assumes "oi_role idn \<noteq> RAdmin"
  shows "keeps f (operator_list env idn)" "keeps f (operator_create env idn name role)"
    "keeps f (operator_revoke env idn i)" "keeps f (operator_set_role env idn i role)"
    "keeps f (startup_set_auto_steal env idn sid e n)" "keeps f (startup_set_auto_recovery env idn sid e n)"
    "keeps f (agent_set_peer_reviewer env idn a b)"
  using assms
  unfolding operator_list_def operator_create_def operator_revoke_def operator_set_role_def
    startup_set_auto_steal_def startup_set_auto_recovery_def agent_set_peer_reviewer_def
  by (intro keeps_role; simp add: at_least_Admin_only)+

lemma keeps_accounts_console:
  assumes "oi_role idn \<noteq> RAdmin"
  shows "keeps accounts (console_dispatch env dec idn msg)"
proof -
  have "keeps accounts (console_arm env idn m)" for m
    by (cases m) (simp_all, (intro keeps admin_only assms)+)
  then show ?thesis unfolding console_dispatch_def by (intro keeps)
qed

section \<open>The skill tables in the world\<close>

lemma skill_inv_part: "skill_part d = skill_part d' \<Longrightarrow> skill_inv d = skill_inv d'"
  by (simp add: skill_inv_def skill_part_def skill_owner_def [abs_def] skill_row_def)

lemma safe_keeps: "keeps skill_part m \<Longrightarrow> skill_safe m"
  unfolding keeps_def skill_safe_def
  by (intro allI impI, drule spec, erule wp_mono) (auto dest: skill_inv_part)

lemma safe_sum [safe]: "(\<And>a. skill_safe (ml a)) \<Longrightarrow> (\<And>b. skill_safe (mr b)) \<Longrightarrow>
    skill_safe (case x of Inl a \<Rightarrow> ml a | Inr b \<Rightarrow> mr b)"
  by (auto split: sum.split)

lemma safe_try [safe]: "skill_safe m \<Longrightarrow> skill_safe (tryE m)"
  by (simp add: skill_safe_def wp)

lemma safe_lift [safe]: "skill_safe (broadcast fr)" "skill_safe (liftE r)"
  by (auto simp: skill_safe_def wp split: sum.split)

lemma safe_skill_tools: "skill_safe (handle_skill_upsert env a args)"
  "skill_safe (handle_skill_list env a args)" "skill_safe (handle_skill_attach env a args)"
  "skill_safe (handle_skill_detach env a args)" "skill_safe (handle_skill_delete env a args)"
  "skill_safe (handle_skill_file_upsert env a args)" "skill_safe (handle_skill_file_delete env a args)"
  "skill_safe (handle_skill_list_revisions env a args)" "skill_safe (handle_skill_revert env a args)"
  unfolding handle_skill_upsert_def handle_skill_list_def handle_skill_attach_def
    handle_skill_detach_def handle_skill_delete_def handle_skill_file_upsert_def
    handle_skill_file_delete_def handle_skill_list_revisions_def handle_skill_revert_def
    skill_changed_def Let_def
  by (intro safe safe_keeps [OF skill_part.keeps_helpers(1)])+

lemma safe_if: "skill_safe m \<Longrightarrow> skill_safe n \<Longrightarrow> skill_safe (if b then m else n)"
  by simp

lemma safe_run_tool: "skill_safe (run_tool env tool a args)"
  unfolding run_tool_def
  by (intro safe_if safe_skill_tools safe_basic safe_keeps skill_part.keeps_task_tools
      skill_part.keeps_agent_tools)

lemma safe_error [safe]: "(\<And>c m. skill_safe (k1 c m)) \<Longrightarrow> (\<And>q. skill_safe (k2 q)) \<Longrightarrow>
    (\<And>p. skill_safe (k3 p)) \<Longrightarrow>
    skill_safe (case e of HErr c m \<Rightarrow> k1 c m | HSql q \<Rightarrow> k2 q | HPanic p \<Rightarrow> k3 p)"
  by (auto split: handler_error.split)

lemma safe_mcp_dispatch: "skill_safe (mcp_dispatch env i msg)"
  unfolding mcp_dispatch_def Let_def by (intro safe safe_run_tool)

lemma keeps_report [keeps]: "keeps skill_part (handle_report_budget env i x y m t c)"
proof -
  have "keeps skill_part (apply_report env sid i t m x y c)" for sid
    unfolding apply_report_def record_budget_event_def Let_def by (intro keeps; simp)
  moreover have "keeps skill_part (report_variance env sid t c :: (sys, 'e, unit) sem)" for sid
    unfolding report_variance_def by (auto split: option.split sum.split intro!: keeps)
  moreover have "keeps skill_part (act_on_threshold env sid u v th :: (sys, 'e, unit) sem)" for sid u v th
    unfolding act_on_threshold_def record_threshold_event_def pause_startup_def warn_startup_def send_startup_def
    by (auto split: threshold.split prod.split intro!: keeps)
  ultimately show ?thesis unfolding handle_report_budget_def by (intro keeps)
qed

lemma safe_worker: "skill_safe (worker_dispatch env dec i msg)"
  unfolding worker_dispatch_def handle_worker_move_def
  by (auto split: sum.split worker_inbound.split intro!: safe safe_mcp_dispatch safe_keeps keeps)

lemma safe_with_lock: "skill_safe act \<Longrightarrow> skill_safe (with_action_lock env idn k act)"
  unfolding with_action_lock_def
  by (intro safe safe_keeps [OF skill_part.keeps_locks(1)] safe_keeps [OF skill_part.keeps_locks(2)])

lemma safe_drop_operator: "skill_inv d \<Longrightarrow> skill_inv (drop_operator i d)"
proof -
  let ?f = "\<lambda>r. r\<lparr>sr_operator := None\<rparr>"
  let ?rows = "update_rows (\<lambda>r. sr_operator r = Some i) ?f (d_skill_revisions d)"
  assume inv: "skill_inv d"
  have eq: "filter (\<lambda>r. sr_skill r = j) (update_rows p ?f rows) = update_rows p ?f (filter (\<lambda>r. sr_skill r = j) rows)"
    for j p rows
    by (induction rows) (auto simp: update_rows_def)
  have num: "numbered (update_rows p ?f rows) = numbered rows" for p rows
  proof -
    have "map sr_seq (update_rows p ?f rows) = map sr_seq rows" by (rule keys_update_rows) simp
    then show ?thesis by (simp only: numbered_def) (simp add: update_rows_def)
  qed
  have "numbered (filter (\<lambda>r. sr_skill r = j) ?rows)" for j
    using inv by (simp only: eq num) (simp add: skill_inv_def log_ok_def)
  then have "log_ok (skill_owner d) ?rows"
    using inv by (auto simp: skill_inv_def log_ok_def dest!: in_update_rows)
  moreover have "skill_owner (drop_operator i d) = skill_owner d"
    "startup_of_agent (drop_operator i d) = startup_of_agent d"
    by (simp_all add: fun_eq_iff drop_operator_def skill_owner_def skill_row_def startup_of_agent_def agent_row_def)
  ultimately show ?thesis using inv by (simp add: skill_inv_def) (simp add: drop_operator_def)
qed

lemma safe_role: "skill_safe m \<Longrightarrow> skill_safe (thenE (require_role idn r) m)"
  by (simp add: skill_safe_def wp)

lemma safe_console_skills:
  "skill_safe (console_skill_attach env idn sid a k)" "skill_safe (console_skill_detach env idn sid a k)"
  "skill_safe (skill_upsert_operator env idn sid n t)" "skill_safe (skill_set_global env idn k g)"
  "skill_safe (skill_delete_operator env idn sid k)" "skill_safe (skill_list_revisions_operator env sid k)"
  "skill_safe (skill_revert_operator env idn sid k n')"
  unfolding console_skill_attach_def console_skill_detach_def skill_upsert_operator_def
    skill_set_global_def skill_delete_operator_def skill_list_revisions_operator_def
    skill_revert_operator_def console_skill_changed_def
  by (intro safe_role safe)+

lemma safe_rows_hit:
  "(\<And>s. skill_inv (db s) \<Longrightarrow> skill_inv (f s)) \<Longrightarrow> skill_safe (rows_hit env h f)"
  by (auto simp: skill_safe_def wp rows_hit_def sqlC_def)

lemma skill_part_peer:
  "skill_part (d\<lparr>d_agents := update_rows p (\<lambda>a. a\<lparr>ag_is_peer_reviewer := n\<rparr>) (d_agents d)\<rparr>) = skill_part d"
  by (simp add: skill_part_def startup_of_peer_upd)

lemma safe_admin: "skill_safe (operator_list env idn)" "skill_safe (operator_create env idn name role)"
  "skill_safe (operator_revoke env idn i)" "skill_safe (operator_set_role env idn i role)"
  "skill_safe (startup_set_auto_steal env idn sid e n)" "skill_safe (startup_set_auto_recovery env idn sid e n)"
  "skill_safe (agent_set_peer_reviewer env idn a b)"
proof -
  have "keeps skill_part (fresh_simple env :: (sys, 'e, string) sem)"
    by (simp add: keeps_def wpE_def fresh_simple_def)
  then show "skill_safe (operator_create env idn name role)"
    unfolding operator_create_def insert_operator_def Let_def
    by (intro safe_role safe_keeps keeps; simp)
  show "skill_safe (operator_list env idn)"
    unfolding operator_list_def by (intro safe_role safe_keeps keeps)
qed (unfold operator_revoke_def operator_set_role_def startup_set_auto_steal_def
    startup_set_auto_recovery_def agent_set_peer_reviewer_def,
    (intro safe_role safe_with_lock safe safe_rows_hit;
     (erule safe_drop_operator | simp add: skill_inv_part [OF skill_part_peer] skill_inv_part [OF skill_part_simps(7)]
        skill_inv_part [OF skill_part_simps(9)]))+)

lemma safe_reply: "skill_safe m \<Longrightarrow> skill_safe (replyE m)"
  by (simp add: skill_safe_def wpE_def replyE_def split: prod.splits sum.splits)

lemma safe_console: "skill_safe (console_dispatch env dec idn msg)"
proof -
  have "skill_safe (console_arm env idn m)" for m
    by (cases m) (simp_all, (intro safe_console_skills safe_admin safe_basic safe_keeps
          skill_part.keeps_operator_tools skill_part.keeps_forced)+)
  then show ?thesis
    unfolding console_dispatch_def by (auto split: sum.split intro: safe safe_reply)
qed

lemma keeps_tick: "keeps skill_part (tick env spw)"
proof -
  have "keeps skill_part (send_checked i p)" for i p
    by (simp add: keeps_def wpE_def send_checked_def)
  moreover have "keeps skill_part (recover_row i old new)" for i old new
    by (auto simp: keeps_def wp recover_row_def Let_def)
  ultimately show ?thesis
    unfolding tick_def dispatch_one_def deadline_scan_def auto_steal_pass_def auto_recovery_pass_def
      steal_one_def recover_one_def blocking_gate_def room_gate_def budget_gate_def live_gate_def
      assign_task_def start_work_def hand_over_def when_gate_def role_of_def Let_def
    by (intro keeps skill_part.keeps_store skill_part.keeps_more; simp)
qed

lemma keeps_do_tick: "keeps skill_part (do_tick env spw)"
proof -
  have "keeps skill_part (scheduler_pass env spw)"
    using keeps_tick [of env spw]
    by (auto simp: keeps_def wpE_def scheduler_pass_def split: prod.splits sum.splits handler_error.splits)
  moreover have "keeps skill_part (move_avatars :: (sys, panic, move_event list) sem)"
    by (simp add: keeps_def wpE_def move_avatars_def split: prod.split)
  moreover have "keeps skill_part (announce_arrival e :: (sys, panic, unit) sem)" for e
    by (cases e) (simp add: keeps)
  ultimately show ?thesis
    unfolding do_tick_def compute_and_emit_def by (intro keeps) (simp_all add: refresh_health_def)
qed

lemma safe_cmd: "skill_safe (loop_cmd env spw dec k)"
proof -
  have modify: "keeps skill_part (modifyE g)" if "\<And>s. db (g s) = db s" for g
    using that by (intro keeps) simp
  show ?thesis
    by (cases k)
       (simp_all add: touch_def register_worker_def unregister_worker_def,
        (intro safe_then safe_bind safe_basic safe_console safe_worker safe_keeps [OF keeps_do_tick]
           safe_keeps [OF modify]; simp)+)
qed

lemma world_skill_inv:
  assumes "(world_step env spw dec)\<^sup>*\<^sup>* s t" and "skill_inv (db s)"
  shows "skill_inv (db t)"
  using assms
proof (induction rule: rtranclp_induct)
  case (step t u)
  from step.hyps(2) show ?case
  proof cases
    case (command k)
    then show ?thesis using safe_run [OF safe_cmd] step.IH [OF step.prems] by simp
  next
    case lock_gc
    then show ?thesis
      using safe_run [OF safe_keeps [OF skill_part.keeps_locks(3)]] step.IH [OF step.prems] by simp
  qed (use step in simp_all)
qed simp

section \<open>What a viewer may do\<close>

definition viewer :: "ident \<Rightarrow> string \<Rightarrow> operator_identity" where
  "viewer i name = \<lparr> oi_id = i, oi_name = name, oi_role = RViewer \<rparr>"

text \<open>All a viewer can see changed is the operator avatar.\<close>

definition but_avatar :: "sys \<Rightarrow> database \<times> out_bus \<times> frame list \<times> path_store \<times> town_layout \<times> avatars" where
  "but_avatar s = (db s, out_bus s, frames s, paths s, layout s,
     AList.delete OPERATOR_AVATAR_ID (avatars s))"

lemma delete_amap_upd: "AList.delete k (amap_upd k f m) = AList.delete k m"
  by (induction m) (auto simp: amap_upd_def AList.delete_eq)

lemma but_avatar_simps [simp]:
  "but_avatar (sql_pop s) = but_avatar s"
  "but_avatar (s\<lparr>avatars := amap_upd OPERATOR_AVATAR_ID f (avatars s)\<rparr>) = but_avatar s"
  "but_avatar (s\<lparr>avatars := AList.update OPERATOR_AVATAR_ID a (avatars s)\<rparr>) = but_avatar s"
  "but_avatar (s\<lparr>avatars := AList.delete OPERATOR_AVATAR_ID (avatars s)\<rparr>) = but_avatar s"
  by (simp_all add: but_avatar_def delete_amap_upd delete_update_same delete_idem)

lemma viewer_role [simp]: "at_least (oi_role (viewer i name)) r \<longleftrightarrow> r = RViewer"
  by (cases r) (simp_all add: viewer_def at_least_def)

lemma wp_reply: "wpE (replyE m) Q E = wpE m Q Q"
  by (auto simp: fun_eq_iff wpE_def replyE_def split: prod.split sum.split)

lemma viewer_arm:
  "wpE (console_arm env (viewer i name) m) (\<lambda>_ t. but_avatar t = but_avatar s)
     (\<lambda>_ t. but_avatar t = but_avatar s) s"
  by (cases m)
     (simp_all add: wp operator_directive_def operator_accept_proposal_def
       operator_reject_proposal_def operator_force_accept_def operator_force_fail_def
       console_skill_attach_def console_skill_detach_def skill_upsert_operator_def
       skill_delete_operator_def skill_set_global_def operator_list_def operator_create_def
       operator_revoke_def operator_set_role_def agent_set_peer_reviewer_def
       startup_set_auto_steal_def startup_set_auto_recovery_def skill_revert_operator_def
       operator_move_def operator_possess_def operator_unpossess_def
       skill_list_revisions_operator_def list_revisions_def require_skill_def owned_by_def sqlK_def
       split: option.split)

text \<open>C13: Whatever message of a viewer the console dispatcher takes, the database, the worker channels, the
  console broadcast, the paths, the town and every avatar but the operator's own stay as they were. A
  presence heartbeat does not get there, the session handles it before, and the HTTP routes for startups
  ask for no role.\<close>
theorem viewer_changes_nothing:
  "but_avatar (snd (console_dispatch env dec (viewer i name) msg s)) = but_avatar s"
proof -
  have "wpE (console_dispatch env dec (viewer i name) msg) (\<lambda>_ t. but_avatar t = but_avatar s)
      (\<lambda>_ t. but_avatar t = but_avatar s) s"
    by (cases "dec msg") (simp_all add: console_dispatch_def wp wp_reply viewer_arm)
  then show ?thesis by (simp add: wp_snd)
qed

section \<open>What a manager may do\<close>

text \<open>C14: Of the messages the console dispatcher takes, only an administrator's change the tables of operators,
  startups and agents. Other paths to these tables are not concerned: a worker's budget report, the
  rewriting of a legacy token when an operator signs in, and the HTTP routes for startups.\<close>
theorem only_admins_touch_accounts:
  assumes "oi_role idn \<noteq> RAdmin"
  shows "accounts (db (snd (console_dispatch env dec idn msg s))) = accounts (db s)"
  using keeps_accounts_console [OF assms, of env dec msg, unfolded keeps_def, rule_format, of s]
  by (simp add: wp_snd)

theorem only_admins_touch_accounts_witness:
  "d_operators (db (snd (console_dispatch sample_env (\<lambda>_. Inr (COperatorRevoke 1 ''o1''))
     \<lparr> oi_id = ''o2'', oi_name = ''Bob'', oi_role = RManager \<rparr> JNull sample_sys))) = [sample_operator]"
  (is "d_operators (db ?t) = _")
proof -
  have "accounts (db ?t) = accounts (db sample_sys)" by (rule only_admins_touch_accounts) simp
  then show ?thesis by (simp add: accounts_def)
qed

section \<open>Nobody locks himself out\<close>

text \<open>The sender's account is there, with the role his connection was given.\<close>

definition account_ok :: "operator_identity \<Rightarrow> database \<Rightarrow> bool" where
  "account_ok idn d \<longleftrightarrow>
     (\<exists>r. operator_row_of d (oi_id idn) = Some r \<and> op_role r = role_as_str (oi_role idn))"

lemma account_of_accounts: "accounts d = accounts d' \<Longrightarrow> account_ok idn d = account_ok idn d'"
  by (simp add: accounts_def account_ok_def operator_row_of_def)

lemma account_pres: "keeps accounts m \<Longrightarrow> pres (\<lambda>s. account_ok idn (db s)) m"
  unfolding keeps_def leads_def
  by (intro allI impI, drule spec, erule wp_mono) (auto dest: account_of_accounts)

lemma account_rows_hit:
  "(\<And>s. account_ok idn (db s) \<Longrightarrow> account_ok idn (f s)) \<Longrightarrow>
     pres (\<lambda>s. account_ok idn (db s)) (rows_hit env h f)"
  by (auto simp: leads_def wp rows_hit_def sqlC_def)

lemma account_with_lock: "pres (\<lambda>s. account_ok idn (db s)) act \<Longrightarrow>
    pres (\<lambda>s. account_ok idn (db s)) (with_action_lock env idn' k act)"
  unfolding with_action_lock_def
  by (intro pres account_pres [OF accounts.keeps_locks(1)] account_pres [OF accounts.keeps_locks(2)]
      account_pres [OF keeps_ends(8)])

lemma account_row_upd:
  assumes "account_ok idn d" and "\<And>r. op_id (f r) = op_id r"
    and "\<And>r. i = oi_id idn \<Longrightarrow> op_role r = role_as_str (oi_role idn) \<Longrightarrow> op_role (f r) = op_role r"
  shows "account_ok idn (d\<lparr>d_operators := update_rows (\<lambda>r. op_id r = i) f (d_operators d)\<rparr>)"
  using assms by (auto simp: account_ok_def operator_row_of_def find_row_update)

lemma account_drop:
  "account_ok idn d \<Longrightarrow> i \<noteq> oi_id idn \<Longrightarrow> account_ok idn (drop_operator i d)"
  by (simp add: account_ok_def operator_row_of_def drop_operator_def find_row_delete)

lemma account_admin:
  "pres (\<lambda>s. account_ok idn (db s)) (operator_create env idn name role)"
  "pres (\<lambda>s. account_ok idn (db s)) (operator_revoke env idn i)"
  "pres (\<lambda>s. account_ok idn (db s)) (operator_set_role env idn i role)"
  "pres (\<lambda>s. account_ok idn (db s)) (startup_set_auto_steal env idn sid e n)"
  "pres (\<lambda>s. account_ok idn (db s)) (startup_set_auto_recovery env idn sid e n)"
  "pres (\<lambda>s. account_ok idn (db s)) (agent_set_peer_reviewer env idn a b)"
proof -
  have "pres (\<lambda>s. account_ok idn (db s)) (insert_operator r)" for r
    by (auto simp: leads_def wp insert_operator_def account_ok_def operator_row_of_def find_row_append
        split: option.split)
  moreover have "pres (\<lambda>s. account_ok idn (db s)) (fresh_simple env)"
    by (simp add: leads_def wpE_def fresh_simple_def)
  ultimately show "pres (\<lambda>s. account_ok idn (db s)) (operator_create env idn name role)"
    unfolding operator_create_def require_role_def Let_def by (intro pres)
  show "pres (\<lambda>s. account_ok idn (db s)) (operator_revoke env idn i)"
  proof (cases "i = oi_id idn")
    case True
    then show ?thesis by (simp add: leads_def wp operator_revoke_def)
  next
    case False
    then show ?thesis
      unfolding operator_revoke_def require_role_def
      by (intro pres account_with_lock account_rows_hit account_drop)
  qed
  show "pres (\<lambda>s. account_ok idn (db s)) (operator_set_role env idn i role)"
  proof (cases "i = oi_id idn \<and> role \<noteq> role_as_str (oi_role idn)")
    case True
    then show ?thesis by (simp add: leads_def wp operator_set_role_def)
  next
    case False
    then show ?thesis
      unfolding operator_set_role_def require_role_def
      by (intro pres account_rows_hit account_row_upd) auto
  qed
qed (unfold startup_set_auto_steal_def startup_set_auto_recovery_def agent_set_peer_reviewer_def
    require_role_def, (intro pres account_rows_hit; simp add: account_ok_def operator_row_of_def upd_startup_def)+)

lemma account_console: "pres (\<lambda>s. account_ok idn (db s)) (console_dispatch env dec idn msg)"
proof -
  have "pres (\<lambda>s. account_ok idn (db s)) (operator_list env idn)"
    unfolding operator_list_def require_role_def by (intro pres account_pres [OF keeps_ends(10)])
  then have "pres (\<lambda>s. account_ok idn (db s)) (console_arm env idn m)" for m
    by (cases m) (simp_all add: account_admin, (intro account_pres keeps)+)
  then show ?thesis unfolding console_dispatch_def by (intro pres)
qed

text \<open>No message an operator sends can remove his own account or change its role: an administrator
  can neither revoke nor demote himself, whatever else he does.\<close>

lemma sender_keeps_the_account:
  assumes "operator_row_of (db s) (oi_id idn) = Some r" and "op_role r = role_as_str (oi_role idn)"
  shows "\<exists>r'. operator_row_of (db (snd (console_dispatch env dec idn msg s))) (oi_id idn) = Some r' \<and>
    op_role r' = role_as_str (oi_role idn)"
  using leadsD [OF account_console, of idn s env dec msg] assms by (simp add: wp_snd account_ok_def)

end
