(* ===== verification/Delivery.thy ===== *)
theory Delivery
  imports WorldInv Sample
begin

text \<open>
  Who receives what: the sends of a handler, flattened to the list of what each channel is offered,
  give the per-tick proximity broadcast and the audience of a chat.
\<close>

section \<open>Channels after a list of sends\<close>

definition deliver :: "(ident \<times> json) list \<Rightarrow> out_bus \<Rightarrow> out_bus" where
  "deliver sends bus = fold (\<lambda>(i, p). bus_send i p) sends bus"

definition offered :: "ident \<Rightarrow> (ident \<times> json) list \<Rightarrow> json list" where
  "offered i sends = map snd (filter (\<lambda>x. fst x = i) sends)"

lemma deliver_simps [simp]: "deliver [] bus = bus" "deliver ((i, p) # r) bus = deliver r (bus_send i p bus)"
  "deliver (xs @ ys) bus = deliver ys (deliver xs bus)"
  by (simp_all add: deliver_def)

lemma offered_simps [simp]: "offered i [] = []"
  "offered i ((j, p) # r) = (if j = i then p # offered i r else offered i r)"
  "offered i (xs @ ys) = offered i xs @ offered i ys"
  by (simp_all add: offered_def)

lemma map_of_deliver:
  "map_of (deliver sends bus) i =
     map_option (fold (\<lambda>p c. snd (try_send p c)) (offered i sends)) (map_of bus i)"
  by (induction sends arbitrary: bus)
     (auto simp: bus_send_def map_of_amap_upd option.map_comp comp_def option.map_id)

lemma send_loop:
  "forE xs (\<lambda>x. send_to (f x) (g x)) s =
     (Inr (), s\<lparr>out_bus := deliver (map (\<lambda>x. (f x, g x)) xs) (out_bus s)\<rparr>)"
  by (induction xs arbitrary: s) (simp_all add: ret_def thenE_def bindE_def send_to_def modifyE_def)

lemma send_loops:
  "forE rooms (\<lambda>(r, ms). forE ms (\<lambda>x. send_to (f x) (g r ms))) s =
     (Inr (), s\<lparr>out_bus := deliver (concat (map (\<lambda>(r, ms). map (\<lambda>x. (f x, g r ms)) ms) rooms)) (out_bus s)\<rparr>)"
proof (induction rooms arbitrary: s)
  case (Cons x rooms)
  then show ?case by (cases x) (simp add: thenE_def bindE_def send_loop)
qed (simp add: ret_def)

section \<open>Proximity\<close>

definition in_room :: "sys \<Rightarrow> ident \<Rightarrow> avatar list" where
  "in_room s r = filter (\<lambda>a. av_room_id a = r) (map snd (avatars s))"

lemma concat_only:
  "distinct xs \<Longrightarrow> r \<in> set xs \<Longrightarrow> concat (map (\<lambda>x. if x = r then f x else []) xs) = f r"
proof (induction xs)
  case (Cons x xs)
  have "concat (map (\<lambda>x. if x = r then f x else []) xs) = []" if "r \<notin> set xs"
    using that by (induction xs) auto
  with Cons show ?case by auto
qed simp

lemma avatar_unique:
  assumes "avatars_ok s" and "map_of (avatars s) i = Some a"
  shows "filter (\<lambda>b. av_agent_id b = i) (map snd (avatars s)) = [a]"
proof -
  have ids: "av_agent_id b = k" if "(k, b) \<in> set (avatars s)" for k b
    using that assms(1) by (fastforce simp: avatars_ok_def avatar_ids_def)
  have d: "distinct (map fst (avatars s))"
    using assms(1) by (simp add: avatars_ok_def avatar_ids_def case_prod_beta comp_def)
  have "filter (\<lambda>b. av_agent_id b = i) (map snd avs) = (case map_of avs i of None \<Rightarrow> [] | Some b \<Rightarrow> [b])"
    if "distinct (map fst avs)" "set avs \<subseteq> set (avatars s)" for avs
    using that ids by (induction avs) (force split: option.split dest: map_of_SomeD)+
  from this [OF d] show ?thesis by (simp add: assms(2))
qed

lemma offered_room:
  assumes "avatars_ok s" and "map_of (avatars s) i = Some a"
  shows "offered i (concat (map (\<lambda>(r, ms). map (\<lambda>x. (av_agent_id x, proximity_json r ms)) ms) (rooms_of (avatars s)))) =
    [proximity_json (av_room_id a) (in_room s (av_room_id a))]"
proof -
  let ?R = "remdups (map (av_room_id \<circ> snd) (avatars s))"
  have one: "offered i (map (\<lambda>x. (av_agent_id x, p)) (in_room s r)) = (if r = av_room_id a then [p] else [])"
    for r p
  proof -
    have "filter (\<lambda>b. av_agent_id b = i) (in_room s r) = filter (\<lambda>b. av_room_id b = r) [a]"
      by (simp add: in_room_def avatar_unique [OF assms, symmetric] filter_map comp_def conj_commute)
    then show ?thesis by (auto simp: offered_def filter_map comp_def)
  qed
  have "offered i (concat xss) = concat (map (offered i) xss)" for xss
    by (induction xss) simp_all
  then have "offered i (concat (map (\<lambda>(r, ms). map (\<lambda>x. (av_agent_id x, proximity_json r ms)) ms) (rooms_of (avatars s)))) =
      concat (map (\<lambda>r. if r = av_room_id a then [proximity_json r (in_room s r)] else []) ?R)"
    by (simp add: rooms_of_def comp_def flip: in_room_def) (simp add: one)
  also have "\<dots> = [proximity_json (av_room_id a) (in_room s (av_room_id a))]"
    by (rule concat_only) (use assms(2) in \<open>force dest: map_of_SomeD\<close>)+
  finally show ?thesis .
qed

text \<open>In every tick the channel of each connected agent is offered exactly one proximity message: the
  one of its own room, naming all avatars in that room, whatever their startup.\<close>

lemma each_worker_hears_its_room:
  assumes "avatars_ok s" and "map_of (avatars s) i = Some a" and "map_of (out_bus s) i = Some c"
    and "ch_is_open c" and "length (ch_queue c) < OUT_BUS_CAP"
  shows "map_of (out_bus (snd (compute_and_emit s))) i =
    Some (c\<lparr>ch_queue := ch_queue c @ [proximity_json (av_room_id a) (in_room s (av_room_id a))]\<rparr>)"
proof -
  have sent: "out_bus (snd (compute_and_emit s)) =
      deliver (concat (map (\<lambda>(r, ms). map (\<lambda>x. (av_agent_id x, proximity_json r ms)) ms) (rooms_of (avatars s)))) (out_bus s)"
    by (simp add: compute_and_emit_def bindE_def asksE_def send_loops)
  show ?thesis
    unfolding sent map_of_deliver offered_room [OF assms(1,2)] using assms(3-5) by (simp add: try_send_def)
qed

section \<open>Chats and directives\<close>

lemma wp_send_peers:
  "wpE (forE xs (\<lambda>(k, _). send_to k p)) Q E =
     (\<lambda>s. Q () (s\<lparr>out_bus := deliver (map (\<lambda>x. (fst x, p)) xs) (out_bus s)\<rparr>))"
  by (simp add: fun_eq_iff wpE_def case_prod_unfold send_loop)

lemma deliver_changes:
  assumes "map_of (deliver (map (\<lambda>x. (fst x, p)) xs) bus) i \<noteq> map_of bus i"
  shows "\<exists>a. (i, a) \<in> set xs"
proof (rule ccontr)
  assume "\<not> ?thesis"
  then have "offered i (map (\<lambda>x. (fst x, p)) xs) = []"
    by (induction xs) auto
  with assms show False by (simp add: map_of_deliver option.map_id)
qed

definition audience :: "avatar \<Rightarrow> json \<Rightarrow> sys \<Rightarrow> ident \<Rightarrow> bool" where
  "audience caller args s i \<longleftrightarrow>
     (\<exists>a. (i, a) \<in> set (avatars s) \<and> i \<noteq> av_agent_id caller \<and> av_room_id a = av_room_id caller \<and>
        (av_startup_id a = av_startup_id caller \<or> is_public_room (av_room_id caller))) \<or>
     get_str ''kind'' args = Some ''directive'' \<and> get_str ''to_agent_id'' args = Some i \<and>
        (\<exists>ag. agent_row (db s) i = Some ag \<and> ag_startup ag = av_startup_id caller \<and>
           ag_manager ag = Some (av_agent_id caller))"

lemma speak_audience:
  "wpE (handle_speak env caller args) (\<lambda>_ t. \<forall>i. map_of (out_bus t) i \<noteq> map_of (out_bus s) i \<longrightarrow> audience caller args s i)
     (\<lambda>_ t. out_bus t = out_bus s) s"
proof (cases "str_or ''chat'' (get_str ''kind'' args) = ''directive''")
  case True
  then have "get_str ''kind'' args = Some ''directive''" by (auto simp: str_or_def split: option.splits)
  then show ?thesis
    by (auto simp: handle_speak_def Let_def wp str_or_def check_directive_def insert_message_def deliver_directive_def
        audience_def bus_send_def map_of_amap_upd split: option.split)
next
  case False
  have "audience caller args s i"
    if "map_of (deliver (map (\<lambda>x. (fst x, p)) (filter (hears caller) (avatars s))) (out_bus s)) i \<noteq> map_of (out_bus s) i"
    for i p
    using deliver_changes [OF that] by (auto simp: hears_def audience_def)
  with False show ?thesis
    by (auto simp: handle_speak_def Let_def wp wp_send_peers insert_message_def deliver_chat_def split: option.split)
qed

text \<open>C15: What an agent says reaches no one else than it may: a chat only the avatars in the same room, and
  outside the public rooms only those of the same startup; a directive only an agent of the same
  startup that the speaker manages. A refused message is sent to nobody.\<close>
theorem speech_stays_in_its_audience:
  assumes "handle_speak env caller args s = (r, t)" and "map_of (out_bus t) i \<noteq> map_of (out_bus s) i"
  shows "audience caller args s i \<and> (\<exists>v. r = Inr v)"
  using speak_audience [of env caller args s] assms by (auto simp: wpE_def split: sum.splits)

theorem speech_stays_in_its_audience_witness:
  "\<exists>t v. handle_speak sample_env (sample_avatar ''m1'' ''founder'' ''working'') (JObj [(''body'', JStr ''hi'')])
       sample_sys = (Inr v, t) \<and> map_of (out_bus t) ''e2'' \<noteq> map_of (out_bus sample_sys) ''e2'' \<and>
     audience (sample_avatar ''m1'' ''founder'' ''working'') (JObj [(''body'', JStr ''hi'')]) sample_sys ''e2''"
proof -
  let ?m = "handle_speak sample_env (sample_avatar ''m1'' ''founder'' ''working'') (JObj [(''body'', JStr ''hi'')])"
  have w: "wpE ?m (\<lambda>_ t. map_of (out_bus t) ''e2'' \<noteq> map_of (out_bus sample_sys) ''e2'') (\<lambda>_ _. False) sample_sys"
    by (simp add: handle_speak_def Let_def wp wp_send_peers insert_message_def deliver_chat_def get_str_def
        str_or_def char_count_def is_cont_def startup_row_def)
       (simp add: sample_defs hears_def bus_send_def map_of_amap_upd try_send_def OUT_BUS_CAP_def)
  obtain r t where run: "?m sample_sys = (r, t)" by fastforce
  from w run have c: "map_of (out_bus t) ''e2'' \<noteq> map_of (out_bus sample_sys) ''e2''"
    by (auto simp: wpE_def split: sum.splits)
  from speech_stays_in_its_audience [OF run c] run c show ?thesis by blast
qed

end
