(* ===== verification/TaskTools.thy ===== *)
theory TaskTools
  imports DispatchInv Sample
begin

text \<open>
  What a successful tool call means: the permissions it has shown and the row it has left. A successful
  run of a handler is the chain of the successful runs of its parts (collection \<open>runs\<close>).
\<close>

section \<open>Successful runs\<close>

named_theorems runs "the parts of a successful run"

lemma run_bind [runs]: "bindE m f s = (Inr v, t) \<longleftrightarrow> (\<exists>a u. m s = (Inr a, u) \<and> f a u = (Inr v, t))"
  by (auto simp: bindE_def split: prod.splits sum.splits)

lemma run_then [runs]: "thenE m n s = (Inr v, t) \<longleftrightarrow> (\<exists>a u. m s = (Inr a, u) \<and> n u = (Inr v, t))"
  by (simp add: thenE_def run_bind)

lemma run_parts [runs]:
  "ret a s = (Inr v, t) \<longleftrightarrow> v = a \<and> t = s"
  "throw e s = (Inr v, t) \<longleftrightarrow> False"
  "guardE b e s = (Inr w, t) \<longleftrightarrow> b \<and> t = s"
  "asksE q s = (Inr v, t) \<longleftrightarrow> v = q s \<and> t = s"
  "modifyE g s = (Inr w, t) \<longleftrightarrow> t = g s"
  by (auto simp: ret_def throw_def guardE_def asksE_def modifyE_def)

lemma run_wraps [runs]:
  "mapErr h m s = (Inr v, t) \<longleftrightarrow> m s = (Inr v, t)"
  "ignoreE m s = (Inr w, t) \<longleftrightarrow> t = snd (m s)"
  by (auto simp: mapErr_def ignoreE_def split: prod.splits sum.splits)

lemma run_sqlH [runs]: "sqlH q s = (Inr v, t) \<longleftrightarrow> q s = (Inr v, t)"
  by (simp add: sqlH_def runs)

lemma run_sql [runs]:
  "sql_query g s = (Inr v, t) \<longleftrightarrow> \<not> sql_fails s \<and> v = g (db s) \<and> t = sql_pop s"
  "sql_exec f s = (Inr w, t) \<longleftrightarrow> \<not> sql_fails s \<and> t = sql_pop s\<lparr>db := f s\<rparr>"
  "sql_checked chk f s = (Inr w, t) \<longleftrightarrow> \<not> sql_fails s \<and> chk (db s) = None \<and> t = sql_pop s\<lparr>db := f s\<rparr>"
  by (auto simp: sql_query_def sql_exec_def sql_checked_def sql_stmt_def sql_fails_def
      sql_pop_def split: prod.splits sum.splits option.splits)

lemma run_option [runs]: "(case x of None \<Rightarrow> m | Some y \<Rightarrow> k y) s = (Inr v, t) \<longleftrightarrow>
     (x = None \<and> m s = (Inr v, t)) \<or> (\<exists>y. x = Some y \<and> k y s = (Inr v, t))"
  by (simp split: option.split)

lemma run_sum [runs]: "(case r of Inl e \<Rightarrow> ml e | Inr a \<Rightarrow> mr a) s = (Inr v, t) \<longleftrightarrow>
     (\<exists>e. r = Inl e \<and> ml e s = (Inr v, t)) \<or> (\<exists>a. r = Inr a \<and> mr a s = (Inr v, t))"
  by (simp split: sum.split)

lemma run_if [runs]: "(if b then m else n) s = (Inr v, t) \<longleftrightarrow>
     (if b then m s = (Inr v, t) else n s = (Inr v, t))"
  by simp

lemma run_helpers [runs]:
  "require_str args k s = (Inr v, t) \<longleftrightarrow> get_str k args = Some v \<and> t = s"
  "next_or_illegal st tr s = (Inr st', t) \<longleftrightarrow> next_status st tr = Inr st' \<and> t = s"
  "same_startup task caller s = (Inr w, t) \<longleftrightarrow> tv_startup task = av_startup_id caller \<and> t = s"
  "assignee_of i s = (Inr x, t) \<longleftrightarrow> \<not> sql_fails s \<and> x = Option.bind (task_row (db s) i) t_assignee \<and> t = sql_pop s"
  by (auto simp: require_str_def next_or_illegal_def same_startup_def assignee_of_def runs)

lemma run_load [runs]: "load_task i s = (Inr task, t) \<longleftrightarrow> \<not> sql_fails s \<and> t = sql_pop s \<and>
    (\<exists>u st. task_row (db s) i = Some u \<and> parse_status (t_status u) = Some st \<and>
       task = \<lparr> tv_status = st, tv_startup = t_startup u, tv_parent = t_parent u,
         tv_assignee = t_assignee u, tv_review_round = as_u32 (t_review_round u), tv_artifact = t_artifact u \<rparr>)"
  by (auto simp: load_task_def runs)

text \<open>The columns no log entry touches.\<close>

definition row_core :: "ident \<Rightarrow> sys \<Rightarrow> (string \<times> string option \<times> ident option \<times> int) option" where
  "row_core i s = map_option (\<lambda>t. (t_status t, t_artifact t, t_assignee t, t_review_round t)) (task_row (db s) i)"

lemma row_core_simps [simp]: "row_core i (sql_pop s) = row_core i s"
  "row_core i (s\<lparr>avatars := a\<rparr>) = row_core i s" "row_core i (s\<lparr>out_bus := b\<rparr>) = row_core i s"
  "row_core i (s\<lparr>frames := f\<rparr>) = row_core i s" "row_core i (s\<lparr>uuid_ctr := n\<rparr>) = row_core i s"
  by (simp_all add: row_core_def)

lemma core_of_upd:
  assumes "\<And>t. t_id (f t) = t_id t \<and> t_status (f t) = t_status t \<and> t_artifact (f t) = t_artifact t \<and>
    t_assignee (f t) = t_assignee t \<and> t_review_round (f t) = t_review_round t"
  shows "row_core i (s\<lparr>db := upd_task j f (db s)\<rparr>) = row_core i s"
  using assms by (simp add: row_core_def task_row_upd option.map_comp comp_def)

lemma core_after_audit [simp]: "row_core i (snd (append_audit j e s)) = row_core i s"
proof -
  have "row_core i (sql_pop s\<lparr>db := upd_task j (\<lambda>t. t\<lparr>t_audit := t_audit t @ [e], t_updated_at := now_secs s\<rparr>) (db s)\<rparr>)
      = row_core i s"
    by (simp add: row_core_def task_row_upd option.map_comp comp_def)
  then show ?thesis
    by (simp add: append_audit_def sql_exec_def sql_stmt_def row_core_def sql_pop_def)
qed

lemma core_after_review [simp]: "row_core i (snd (self_review_record j a out s)) = row_core i s"
proof -
  have "wpE (self_review_record j a out) (\<lambda>_ t. row_core i t = row_core i s) (\<lambda>_ t. row_core i t = row_core i s) s"
    by (auto simp: self_review_record_def append_audit_def wp row_core_def task_row_upd option.map_comp comp_def)
  then show ?thesis by (simp add: wp_snd)
qed

lemma core_row: "row_core i s = Some (st, ar, asg, r) \<longleftrightarrow> (\<exists>u. task_row (db s) i = Some u \<and> t_status u = st \<and>
    t_artifact u = ar \<and> t_assignee u = asg \<and> t_review_round u = r)"
  by (auto simp: row_core_def)

lemma notify_keeps: "notify_parent task i p s = (Inr w, t) \<Longrightarrow> \<forall>j. row_core j t = row_core j s"
  by (auto simp: notify_parent_def runs send_to_def)

lemma status_of_done: "next_status st TaskDoneMcp = Inr st' \<Longrightarrow> parse_status str = Some st \<Longrightarrow>
    (str = ''in_progress'' \<or> str = ''changes_requested'') \<and> st' = AwaitingReview"
  by (auto simp: next_status_Inr dest: parse_status_Some)

section \<open>Handing work in\<close>

definition hands_in :: "env \<Rightarrow> avatar \<Rightarrow> json \<Rightarrow> ident \<Rightarrow> task \<Rightarrow> bool" where
  "hands_in env caller args i u \<longleftrightarrow> t_startup u = av_startup_id caller \<and>
     t_assignee u = Some (av_agent_id caller) \<and>
     (t_status u = ''in_progress'' \<or> t_status u = ''changes_requested'') \<and>
     get_str ''artifact_path'' args = Some (canonical_artifact_path (av_startup_id caller) i) \<and>
     (\<exists>p. resolve env (workspace_root (av_startup_id caller)) (artifact_tail i) = Inr p) \<and>
     (get_bool ''auto_check'' args = Some False \<or>
      sro_ok (self_review_run env (av_startup_id caller) i (canonical_artifact_path (av_startup_id caller) i)))"

lemma gate_run: "auto_check_gate env caller i p args s = (Inr w, t) \<Longrightarrow> row_core i t = row_core i s \<and>
    (get_bool ''auto_check'' args = Some False \<or> sro_ok (self_review_run env (av_startup_id caller) i p))"
  by (auto simp: auto_check_gate_def Let_def runs split: if_splits)

text \<open>C8: A successful \<open>task_done\<close> was called by the assignee, on a task of its own startup that was in
  progress or sent back, with the canonical path of an artifact inside the workspace that passes the
  self review (unless switched off); it leaves the task awaiting review with that artifact.\<close>
theorem only_checked_work_is_handed_in:
  assumes "handle_task_done env caller args s = (Inr v, t)"
  shows "\<exists>i u. get_str ''task_id'' args = Some i \<and> task_row (db s) i = Some u \<and> hands_in env caller args i u \<and>
    row_core i t = Some (''awaiting_review'', get_str ''artifact_path'' args, t_assignee u, t_review_round u)"
proof -
  from assms obtain i u s1 where
    i: "get_str ''task_id'' args = Some i" "task_row (db s) i = Some u" "hands_in env caller args i u"
    and s1: "row_core i s1 = row_core i s"
      "row_core i t = row_core i (sql_pop s1\<lparr>db := upd_task i (\<lambda>t. t\<lparr>t_status := ''awaiting_review'',
         t_artifact := get_str ''artifact_path'' args, t_updated_at := now_secs s1\<rparr>) (db s1)\<rparr>)"
    unfolding handle_task_done_def
    by (auto simp: runs Let_def set_avatar_status_def hands_in_def
        dest!: gate_run status_of_done notify_keeps)
  from i(2) s1(1) obtain u1 where "task_row (db s1) i = Some u1" "t_assignee u1 = t_assignee u"
    "t_review_round u1 = t_review_round u"
    by (auto simp: row_core_def)
  then have "row_core i t = Some (''awaiting_review'', get_str ''artifact_path'' args, t_assignee u, t_review_round u)"
    unfolding s1(2) by (simp add: row_core_def task_row_upd)
  with i show ?thesis by blast
qed

lemma sample_simps [simp]:
  "av_agent_id (sample_avatar i r st) = i" "av_startup_id (sample_avatar i r st) = ''s1''"
  "av_room_id (sample_avatar i r st) = ''suite_1''"
  "t_id (sample_task j p a st) = j" "t_startup (sample_task j p a st) = ''s1''"
  "t_parent (sample_task j p a st) = p" "t_assignee (sample_task j p a st) = Some a"
  "t_status (sample_task j p a st) = st" "t_review_round (sample_task j p a st) = 0"
  "t_artifact (sample_task j p a st) = None"
  "d_messages sample_db = []"
  by (simp_all add: sample_avatar_def sample_task_def new_task_def sample_db_def)

lemma run_exists: "wpE m (\<lambda>_ _. True) (\<lambda>_ _. False) s \<Longrightarrow> \<exists>v t. m s = (Inr v, t)"
  by (cases "m s") (auto simp: wpE_def split: sum.splits)

theorem only_checked_work_is_handed_in_witness:
  "\<exists>v t. handle_task_done tiny_env (sample_avatar ''e1'' ''engineer'' ''working'')
       (JObj [(''task_id'', JStr ''t1''), (''artifact_path'', JStr ''workspaces/s1/artifacts/t1.md'')])
       sample_sys = (Inr v, t) \<and>
     row_core ''t1'' t = Some (''awaiting_review'', Some ''workspaces/s1/artifacts/t1.md'', Some ''e1'', 0)"
proof -
  let ?args = "JObj [(''task_id'', JStr ''t1''), (''artifact_path'', JStr ''workspaces/s1/artifacts/t1.md'')]"
  let ?m = "handle_task_done tiny_env (sample_avatar ''e1'' ''engineer'' ''working'') ?args"
  have path: "canonical_artifact_path ''s1'' ''t1'' = ''workspaces/s1/artifacts/t1.md''"
    by (simp add: canonical_artifact_path_def)
  have inside: "resolve tiny_env (workspace_root ''s1'') (artifact_tail ''t1'') =
      Inr [''srv'', ''s1'', ''artifacts'', ''t1.md'']"
    by code_simp
  have "sro_ok (self_review_run tiny_env ''s1'' ''t1'' ''workspaces/s1/artifacts/t1.md'')"
    unfolding self_review_ok inside by (simp add: path) (simp add: tiny_env_def)
  then have "wpE ?m (\<lambda>_ _. True) (\<lambda>_ _. False) sample_sys"
    using inside
    by (simp add: handle_task_done_def wp load_task_def sample_rows get_str_def get_bool_def Let_def
        same_startup_def next_or_illegal_def auto_check_gate_def self_review_record_def append_audit_def
        notify_parent_def assignee_of_def path next_status_def split: option.split)
  then obtain v t where run: "?m sample_sys = (Inr v, t)" by (blast dest: run_exists)
  from only_checked_work_is_handed_in [OF run] run show ?thesis
    by (auto simp: get_str_def sample_rows)
qed

section \<open>Review rounds\<close>

lemma run_transact [runs]: "transactE w m s = (Inr v, t) \<longleftrightarrow>
    \<not> sql_fails s \<and> (\<exists>u. m (sql_pop s) = (Inr v, u) \<and> \<not> sql_fails u \<and> t = sql_pop u)"
  by (auto simp: transactE_def mapErr_def sql_nop_def sql_exec_def sql_stmt_def sql_fails_def sql_pop_def
      split: prod.splits sum.splits)

lemma core_after_event [simp]: "row_core i (snd (emit_system_event env su k p sv s)) = row_core i s"
proof -
  have "wpE (emit_system_event env su k p sv) (\<lambda>_ t. row_core i t = row_core i s)
      (\<lambda>_ t. row_core i t = row_core i s) s"
    by (auto simp: emit_system_event_def insert_system_event_def wp row_core_def split: option.split)
  then show ?thesis by (simp add: wp_snd)
qed

lemma core_update:
  "row_core i (s\<lparr>db := upd_task i f (db s)\<rparr>) = Some c \<Longrightarrow>
   row_core i (sql_pop s\<lparr>db := upd_task i f (db s)\<rparr>) = Some c"
  by (simp add: row_core_def)

lemma manager_keeps: "caller_is_manager_of_task caller task s = (Inr b, t) \<Longrightarrow> \<forall>j. row_core j t = row_core j s"
  "is_peer_reviewer caller s = (Inr b', t') \<Longrightarrow> \<forall>j. row_core j t' = row_core j s"
  by (auto simp: caller_is_manager_of_task_def is_peer_reviewer_def runs split: option.splits)

lemma escalate_run:
  assumes "escalate_task env caller i task f s = (Inr v, t)" and "row_core i s = Some (st, ar, a, r)"
  shows "row_core i t = Some (''escalated'', ar, a, r)"
  using assms
  by (auto simp: escalate_task_def runs set_status_def next_status_Inr)
     (auto simp: row_core_def task_row_upd)

lemma bounce_run:
  assumes "bounce_task env caller i task f k x s = (Inr v, t)" and "row_core i s = Some (st, ar, a, r)"
  shows "row_core i t = Some (''changes_requested'', ar, a, r + 1)"
  using assms
  by (auto simp: bounce_task_def runs next_status_Inr fresh_uuid_def insert_message_def broadcast_def send_to_def)
     (auto simp: row_core_def task_row_upd)

text \<open>C11: No request for changes takes the count of review rounds past three: one that succeeds either counts
  one more round and returns the task to \<open>changes_requested\<close>, while fewer than three are counted, or, once
  three are, escalates the task and leaves the count as it is; artifact and assignee stay. This is about
  one call: an automatic recovery of the scheduler sets the count back to zero, so that over its life a
  task may be sent back more often.\<close>
theorem review_rounds_are_bounded:
  assumes "handle_task_request_changes env caller args s = (Inr v, t)"
    and "task_row (db s) i = Some u" and "get_str ''task_id'' args = Some i"
    and "0 \<le> t_review_round u" and "t_review_round u < 2 ^ 32"
  shows "row_core i t = (if t_review_round u < 3
      then Some (''changes_requested'', t_artifact u, t_assignee u, t_review_round u + 1)
      else Some (''escalated'', t_artifact u, t_assignee u, t_review_round u))"
proof -
  have "row_core i s = Some (t_status u, t_artifact u, t_assignee u, t_review_round u)"
    using assms(2) by (simp add: row_core_def)
  with assms show ?thesis unfolding handle_task_request_changes_def
    by (auto simp: runs check_body_length_def MAX_REVIEW_ROUNDS_def
        dest!: manager_keeps split: if_splits option.splits intro: escalate_run bounce_run)
qed

theorem review_rounds_are_bounded_witness:
  "\<exists>v t. handle_task_request_changes sample_env (sample_avatar ''m1'' ''founder'' ''working'')
       (JObj [(''task_id'', JStr ''t3''), (''feedback'', JStr ''more tests'')]) sample_sys = (Inr v, t) \<and>
     row_core ''t3'' t = Some (''changes_requested'', None, Some ''e1'', 1)"
proof -
  let ?m = "handle_task_request_changes sample_env (sample_avatar ''m1'' ''founder'' ''working'')
       (JObj [(''task_id'', JStr ''t3''), (''feedback'', JStr ''more tests'')])"
  have "wpE ?m (\<lambda>_ _. True) (\<lambda>_ _. False) sample_sys"
    by (simp add: handle_task_request_changes_def wp load_task_def sample_rows get_str_def char_count_def is_cont_def
        same_startup_def caller_is_manager_of_task_def assignee_of_def bounce_task_def next_or_illegal_def
        insert_message_def append_audit_def MAX_REVIEW_ROUNDS_def next_status_def)
  then obtain v t where run: "?m sample_sys = (Inr v, t)" by (blast dest: run_exists)
  have "task_row (db sample_sys) ''t3'' = Some (sample_task ''t3'' (Some ''p1'') ''e1'' ''awaiting_review'')"
    by (simp add: sample_rows)
  from review_rounds_are_bounded [OF run this] run show ?thesis
    by (auto simp: get_str_def)
qed

end
