(* ===== verification/SchedulerRules.thy ===== *)
theory SchedulerRules
  imports SchedulerInv TaskTools
begin

text \<open>
  What a tick does to one task: which gates a dispatched task has passed, that a failed hand-over is
  rolled back, that an overdue task is reported once, and that stealing keeps to idle peers.
\<close>

section \<open>The gates\<close>

definition unblocked :: "queued_task \<Rightarrow> sys \<Rightarrow> bool" where
  "unblocked q s \<longleftrightarrow> (\<forall>b t. q_blocked_on q = Some b \<longrightarrow> task_row (db s) b = Some t \<longrightarrow> is_terminal (t_status t))"

definition in_place :: "queued_task \<Rightarrow> avatar \<Rightarrow> bool" where
  "in_place q a \<longleftrightarrow> (\<forall>r. q_required_room q = Some r \<longrightarrow> av_room_id a = r)"

definition affordable :: "queued_task \<Rightarrow> sys \<Rightarrow> bool" where
  "affordable q s \<longleftrightarrow> (\<forall>ag su. agent_row (db s) (q_assignee q) = Some ag \<longrightarrow>
     startup_row (db s) (ag_startup ag) = Some su \<longrightarrow> 0 < su_cap su \<longrightarrow> su_spent su < 95 / 100 * su_cap su)"

definition gated :: "sys \<Rightarrow> sys \<Rightarrow> bool" where
  "gated s u \<longleftrightarrow> faults u = [] \<and> avatars u = avatars s \<and> out_bus u = out_bus s \<and>
     agent_row (db u) = agent_row (db s) \<and> startup_row (db u) = startup_row (db s) \<and>
     (\<forall>j. row_core j u = row_core j s)"

lemma row_core_plain [simp]: "row_core j (s\<lparr>db := (db s)\<lparr>d_system_events := e\<rparr>\<rparr>) = row_core j s"
  by (simp add: row_core_def)

lemma blocking_gate_run:
  assumes "faults s = []"
  shows "wpE (blocking_gate env q) (\<lambda>b u. gated s u \<and> (b \<longrightarrow> unblocked q s)) (\<lambda>_ _. False) s"
  using assms
  by (auto simp: blocking_gate_def wp gated_def unblocked_def emit_system_event_def insert_system_event_def
      row_core_def task_row_upd option.map_comp comp_def split: option.split sum.split)

lemma core_after_move: "wpE (do_start_move env i r x) (\<lambda>_ u. \<forall>j. row_core j u = row_core j s)
    (\<lambda>_ _. True) s"
  by (auto simp: wpE_def do_start_move_def row_core_def split: sum.split prod.split)

lemma room_gate_run:
  "wpE (room_gate env q r) (\<lambda>b u. (\<forall>j. row_core j u = row_core j s) \<and>
     (b \<longrightarrow> u = s \<and> (\<forall>x. q_required_room q = Some x \<longrightarrow> r = x))) (\<lambda>_ _. True) s"
  using core_after_move [of env "q_assignee q" _ _ s]
  by (auto simp: room_gate_def wp split: option.split)

lemma budget_gate_run:
  assumes "faults s = []"
  shows "wpE (budget_gate q) (\<lambda>b u. gated s u \<and> (b \<longrightarrow> affordable q s)) (\<lambda>_ _. False) s"
  using assms
  by (auto simp: budget_gate_def wp gated_def affordable_def field_simps split: option.split)

definition connected_as :: "spawner \<Rightarrow> queued_task \<Rightarrow> sys \<Rightarrow> bool" where
  "connected_as spw q s \<longleftrightarrow> (map_of (out_bus s) (q_assignee q) \<noteq> None) = (spw = None)"

lemma live_gate_run: "wpE (live_gate spw q) (\<lambda>b u. u = s \<and> (b \<longrightarrow> connected_as spw q s)) (\<lambda>_ _. False) s"
  by (auto simp: live_gate_def wp connected_as_def split: option.split)

definition started :: "ident \<Rightarrow> sys \<Rightarrow> nat \<Rightarrow> sys \<Rightarrow> bool" where
  "started i s n t \<longleftrightarrow> (n = 0 \<and> row_core i t = row_core i s) \<or>
     (n = 1 \<and> row_core i t = map_option (\<lambda>(_, ar, a, r). (''in_progress'', ar, a, r)) (row_core i s))"

lemma wp_send_checked [wp]: "wpE (send_checked i p) Q E = (\<lambda>s. Q (case map_of (out_bus s) i of
    None \<Rightarrow> SendClosed | Some c \<Rightarrow> fst (try_send p c)) (s\<lparr>out_bus := bus_send i p (out_bus s)\<rparr>))"
  by (simp add: fun_eq_iff wpE_def send_checked_def)

lemma assign_run:
  assumes "faults s = []" and "row_core (q_id q) s = Some (''queued'', ar, a, r)"
  shows "wpE (assign_task spw q) (started (q_id q) s) (\<lambda>_ _. False) s"
  using assms
  by (auto simp: assign_task_def start_work_def hand_over_def wp started_def append_audit_def
      row_core_def task_row_upd split: option.split)

lemma wp_gate:
  assumes "wpE gate (\<lambda>b u. P u \<and> (b \<longrightarrow> R u)) E s" and "\<And>u. P u \<Longrightarrow> R u \<Longrightarrow> wpE m Q E u"
    and "\<And>u. P u \<Longrightarrow> Q 0 u"
  shows "wpE (when_gate gate m) Q E s"
  unfolding when_gate_def wp_bind
  by (rule wp_mono [OF assms(1)]) (auto simp: wp assms(2,3))

text \<open>What one pass of the dispatch loop may have done, from the state it began in.\<close>

definition ready :: "queued_task \<Rightarrow> sys \<Rightarrow> bool" where
  "ready q s \<longleftrightarrow>
     (\<exists>a. map_of (avatars s) (q_assignee q) = Some a \<and> av_status a = ''idle'' \<and> in_place q a) \<and> unblocked q s"

definition dispatched :: "spawner \<Rightarrow> queued_task \<Rightarrow> sys \<Rightarrow> nat \<Rightarrow> sys \<Rightarrow> bool" where
  "dispatched spw q s n t \<longleftrightarrow> started (q_id q) s n t \<and>
     (n = 1 \<longrightarrow> ready q s \<and> affordable q s \<and> connected_as spw q s)"

lemma not_dispatched: "row_core (q_id q) u = row_core (q_id q) s \<Longrightarrow> dispatched spw q s 0 u"
  by (simp add: dispatched_def started_def)

lemma live_then_assign:
  assumes "gated s u" and "row_core (q_id q) s = Some (''queued'', ar, asg, r)"
    and "ready q s" and "affordable q s"
  shows "wpE (when_gate (live_gate spw q) (assign_task spw q)) (dispatched spw q s) (\<lambda>_ _. True) u"
proof (rule wp_gate [where P = "gated s" and R = "\<lambda>u. connected_as spw q s"])
  show "wpE (live_gate spw q) (\<lambda>b u. gated s u \<and> (b \<longrightarrow> connected_as spw q s)) (\<lambda>_ _. True) u"
    by (rule wp_mono [OF live_gate_run]) (use assms(1) in \<open>auto simp: gated_def connected_as_def\<close>)
  fix w
  assume "gated s w" "connected_as spw q s"
  then show "wpE (assign_task spw q) (dispatched spw q s) (\<lambda>_ _. True) w"
    by (intro wp_mono [OF assign_run]) (use assms in \<open>auto simp: gated_def started_def dispatched_def\<close>)
qed (simp add: gated_def not_dispatched)

lemma budget_then_assign:
  assumes "gated s u" and "row_core (q_id q) s = Some (''queued'', ar, asg, r)" and "ready q s"
  shows "wpE (when_gate (budget_gate q) (when_gate (live_gate spw q) (assign_task spw q)))
    (dispatched spw q s) (\<lambda>_ _. True) u"
proof (rule wp_gate [where P = "gated s" and R = "\<lambda>u. affordable q s"])
  show "wpE (budget_gate q) (\<lambda>b u. gated s u \<and> (b \<longrightarrow> affordable q s)) (\<lambda>_ _. True) u"
    by (rule wp_mono [OF budget_gate_run]) (use assms(1) in \<open>auto simp: gated_def affordable_def\<close>)
qed (use live_then_assign assms(2,3) in \<open>simp_all add: gated_def not_dispatched\<close>)

lemma room_then_assign:
  assumes "gated s u" and "row_core (q_id q) s = Some (''queued'', ar, asg, r)"
    and "map_of (avatars s) (q_assignee q) = Some a" "av_status a = ''idle''" "unblocked q s"
  shows "wpE (when_gate (room_gate env q (av_room_id a)) (when_gate (budget_gate q)
      (when_gate (live_gate spw q) (assign_task spw q)))) (dispatched spw q s) (\<lambda>_ _. True) u"
proof (rule wp_gate [where P = "\<lambda>w. \<forall>j. row_core j w = row_core j s" and R = "\<lambda>w. w = u \<and> ready q s"])
  show "wpE (room_gate env q (av_room_id a)) (\<lambda>b w. (\<forall>j. row_core j w = row_core j s) \<and>
      (b \<longrightarrow> w = u \<and> ready q s)) (\<lambda>_ _. True) u"
    by (rule wp_mono [OF room_gate_run]) (use assms in \<open>auto simp: gated_def in_place_def ready_def\<close>)
qed (use budget_then_assign assms(1,2) in \<open>simp_all add: not_dispatched\<close>)

lemma dispatch_run:
  assumes "faults s = []" and "row_core (q_id q) s = Some (''queued'', ar, asg, r)"
  shows "wpE (dispatch_one env spw q) (dispatched spw q s) (\<lambda>_ _. True) s"
proof -
  have "wpE (when_gate (blocking_gate env q) (when_gate (room_gate env q (av_room_id a))
      (when_gate (budget_gate q) (when_gate (live_gate spw q) (assign_task spw q)))))
      (dispatched spw q s) (\<lambda>_ _. True) s"
    if ok: "map_of (avatars s) (q_assignee q) = Some a" "av_status a = ''idle''" for a
  proof (rule wp_gate [where P = "gated s" and R = "\<lambda>u. unblocked q s"])
    show "wpE (blocking_gate env q) (\<lambda>b u. gated s u \<and> (b \<longrightarrow> unblocked q s)) (\<lambda>_ _. True) s"
      by (rule wp_mono [OF blocking_gate_run [OF assms(1)]]) auto
  qed (use room_then_assign [OF _ assms(2) ok] in \<open>simp_all add: gated_def not_dispatched\<close>)
  then show ?thesis
    unfolding dispatch_one_def
    by (simp add: wp_bind wp_asks wp_option wp_if wp_ret not_dispatched split: option.split)
qed

text \<open>C9: Dispatch is all or nothing: with no failing statement, a queued task either stays as it was in status,
  artifact, assignee and review round, and is not counted, or moves to \<open>in_progress\<close>; then its assignee was idle, the task blocking it finished,
  the assignee in the required room, the startup below 95 percent of its budget and the worker
  connected (in the spawning mode: not connected).\<close>
theorem dispatch_is_all_or_nothing:
  assumes "dispatch_one env spw q s = (Inr n, t)" and "faults s = []"
    and "row_core (q_id q) s = Some (''queued'', ar, asg, r)"
  shows "(n = 0 \<and> row_core (q_id q) t = row_core (q_id q) s) \<or>
    (n = 1 \<and> row_core (q_id q) t = Some (''in_progress'', ar, asg, r) \<and>
      (\<exists>a. map_of (avatars s) (q_assignee q) = Some a \<and> av_status a = ''idle'' \<and> in_place q a) \<and>
      unblocked q s \<and> affordable q s \<and> connected_as spw q s)"
  using wpE_Inr [OF dispatch_run [OF assms(2,3)] assms(1)] assms(3)
  by (auto simp: dispatched_def started_def ready_def)

definition sample_queued :: queued_task where
  "sample_queued = \<lparr> q_id = ''t2'', q_title = ''title'', q_description = ''text'', q_assignee = ''e2'',
     q_required_room = None, q_parent = Some ''p1'', q_preferred_backend = None,
     q_preferred_model = None, q_startup = ''s1'', q_agent_backend = ''claude_code'', q_workspace = ''/ws'',
     q_blocked_on = None \<rparr>"

theorem dispatch_is_all_or_nothing_witness:
  "\<exists>t. dispatch_one sample_env None sample_queued sample_sys = (Inr 1, t) \<and>
     row_core ''t2'' t = Some (''in_progress'', None, Some ''e2'', 0) \<and> affordable sample_queued sample_sys"
proof -
  have av: "map_of (avatars sample_sys) ''e2'' = Some (sample_avatar ''e2'' ''engineer'' ''idle'')"
    "map_of (out_bus sample_sys) ''e2'' = Some \<lparr> ch_queue = [], ch_is_open = True \<rparr>"
    "startup_row sample_db ''s1'' = Some sample_startup"
    by (simp_all add: sample_sys_def startup_row_def sample_startup_def)
  have "wpE (dispatch_one sample_env None sample_queued) (\<lambda>n _. n = 1) (\<lambda>_ _. False) sample_sys"
    by (simp add: dispatch_one_def wp sample_queued_def av when_gate_def blocking_gate_def room_gate_def
        budget_gate_def live_gate_def assign_task_def start_work_def hand_over_def append_audit_def sample_rows)
       (simp add: sample_avatar_def sample_agent_def sample_startup_def av try_send_def OUT_BUS_CAP_def)
  then obtain t where run: "dispatch_one sample_env None sample_queued sample_sys = (Inr 1, t)"
    by (cases "dispatch_one sample_env None sample_queued sample_sys") (auto simp: wpE_def split: sum.splits)
  have "row_core (q_id sample_queued) sample_sys = Some (''queued'', None, Some ''e2'', 0)"
    by (simp add: row_core_def sample_queued_def sample_rows)
  from dispatch_is_all_or_nothing [OF run _ this] run show ?thesis by (simp add: sample_queued_def)
qed

section \<open>Deadlines\<close>

definition marked :: "ident set \<Rightarrow> int \<Rightarrow> task \<Rightarrow> task" where
  "marked ids n t = (if t_id t \<in> ids then t\<lparr>t_deadline_notified_at := Some n\<rparr> else t)"

lemma scan_loop:
  assumes "faults s = []"
  shows "wpE (forE rows (\<lambda>(i, su, dl).
       thenE (ignoreE (emit_system_event env (Some su) k (p i dl) sv))
         (ignoreE (sql_exec (\<lambda>s. upd_task i (\<lambda>t. t\<lparr>t_deadline_notified_at := Some n\<rparr>) (db s))))))
     (\<lambda>_ u. d_tasks (db u) = map (marked (fst ` set rows) n) (d_tasks (db s))) (\<lambda>_ _. False) s"
  (is "wpE (forE rows ?body) _ _ s")
  using assms
proof (induction rows arbitrary: s)
  case Nil
  have "marked {} n = id" by (simp add: fun_eq_iff marked_def)
  then show ?case by (simp add: wp)
next
  case (Cons x rows)
  obtain i su dl where x: "x = (i, su, dl)" by (cases x)
  have "wpE (forE rows ?body) (\<lambda>_ u. d_tasks (db u) = map (marked (fst ` set (x # rows)) n) (d_tasks (db s))) (\<lambda>_ _. False) w"
    if "faults w = []" "d_tasks (db w) = map (marked {i} n) (d_tasks (db s))" for w
    by (rule wp_mono [OF Cons.IH [OF that(1)]]) (auto simp: that(2) x marked_def)
  moreover have "d_tasks (upd_task i (\<lambda>t. t\<lparr>t_deadline_notified_at := Some n\<rparr>) d) = map (marked {i} n) (d_tasks d)" for d
    by (simp add: upd_task_def upd_tasks_def update_rows_def marked_def)
  ultimately show ?case
    using Cons.prems
    by (simp add: x wp emit_system_event_def insert_system_event_def split: option.split)
qed

lemma overdue_rowD:
  assumes "x \<in> set (overdue_rows n d)"
  shows "\<exists>t \<in> set (d_tasks d). t_id t = fst x \<and> (\<exists>dl. t_deadline_at t = Some dl \<and> dl < n \<and>
    (\<forall>k. t_deadline_notified_at t = Some k \<longrightarrow> k < dl))"
proof -
  from assms obtain t where t: "t \<in> set (d_tasks d)" and r: "(case t_deadline_at t of None \<Rightarrow> None
      | Some dl \<Rightarrow> if dl < n \<and> \<not> is_terminal (t_status t) \<and>
          (case t_deadline_notified_at t of None \<Rightarrow> True | Some k \<Rightarrow> k < dl)
        then Some (t_id t, t_startup t, dl) else None) = Some x"
    by (auto simp: overdue_rows_def in_map_filter)
  from r show ?thesis
    by (intro bexI [OF _ t]) (auto split: option.splits if_splits)
qed

text \<open>An overdue task is reported once: after a scan in which no statement fails, no task that was
  reported is found overdue again, at whatever later time, as long as nothing writes its row.\<close>

lemma overdue_tasks_are_reported_once:
  assumes "faults s = []" and "distinct (map t_id (d_tasks (db s)))"
  shows "fst ` set (overdue_rows n (db (snd (deadline_scan env s)))) \<inter>
    fst ` set (overdue_rows (now_secs s) (db s)) = {}"
proof -
  let ?rows = "overdue_rows (now_secs s) (db s)"
  have "wpE (deadline_scan env)
      (\<lambda>_ u. d_tasks (db u) = map (marked (fst ` set ?rows) (now_secs s)) (d_tasks (db s)))
      (\<lambda>_ u. d_tasks (db u) = map (marked (fst ` set ?rows) (now_secs s)) (d_tasks (db s))) s"
    unfolding deadline_scan_def
    by (simp add: wp_bind wp_asks wp_orDefault wp_sql_query assms(1), rule wp_mono, rule scan_loop)
       (simp_all add: assms(1))
  then have tasks: "d_tasks (db (snd (deadline_scan env s))) =
      map (marked (fst ` set ?rows) (now_secs s)) (d_tasks (db s))"
    by (simp only: wp_snd)
  have "False" if i: "i \<in> fst ` set ?rows" and again: "i \<in> fst ` set (overdue_rows n (db (snd (deadline_scan env s))))" for i
  proof -
    from i obtain t dl where t: "t \<in> set (d_tasks (db s))" "t_id t = i" "t_deadline_at t = Some dl" "dl < now_secs s"
      by (auto dest!: overdue_rowD)
    from again obtain x where "x \<in> set (overdue_rows n (db (snd (deadline_scan env s))))" "fst x = i" by blast
    with overdue_rowD [OF this(1)] obtain v dl' where v: "v \<in> set (d_tasks (db (snd (deadline_scan env s))))"
      "t_id v = i" "t_deadline_at v = Some dl'" "\<And>k. t_deadline_notified_at v = Some k \<Longrightarrow> k < dl'"
      by auto
    then obtain u where u: "u \<in> set (d_tasks (db s))" "v = marked (fst ` set ?rows) (now_secs s) u"
      unfolding tasks by auto
    with v i have u': "t_id u = i" "t_deadline_at u = Some dl'" "now_secs s < dl'"
      by (auto simp: marked_def split: if_splits)
    from t(1,2) u(1) u'(1) assms(2) have "u = t" by (auto simp: distinct_map inj_on_def)
    with t u' show False by simp
  qed
  then show ?thesis by blast
qed

end
