(* ===== verification/Supervisor.thy ===== *)
theory Supervisor
  imports Store
begin

text \<open>
  The worker process supervisor, \<open>agent_supervisor.rs\<close>: the registry of live agents, the tombstones of
  dissolved ones, one watch loop per spawned worker and the dissolve of a startup. Every lock the code
  takes is a step of its own, so the loops interleave as the runtime may schedule them. A process
  identifier is the number of the spawn that made it; the exits of processes, the outcomes of spawns
  and the order of the steps are the environment's.
\<close>

section \<open>Configuration and command line\<close>

record task_spawn =
  ts_task :: ident
  ts_prompt :: string
  ts_backend :: "string option"
  ts_model :: "string option"

record worker_config =
  wc_agent :: ident
  wc_startup :: ident
  wc_world_url :: string
  wc_secret :: string
  wc_workspace :: string
  wc_backend :: string
  wc_task :: "task_spawn option"

record supervisor_config =
  vc_bin :: string
  vc_args :: "string list"
  vc_backoff_ms :: "int list"
  vc_grace_ms :: int

definition DEFAULT_BACKOFF_MS :: "int list" where
  "DEFAULT_BACKOFF_MS = [1000, 5000, 30000]"

definition DISSOLVE_GRACE_MS :: int where
  "DISSOLVE_GRACE_MS = 5000"

definition default_supervisor :: "string option \<Rightarrow> supervisor_config" where
  "default_supervisor env_bin = \<lparr>
     vc_bin = (case env_bin of Some b \<Rightarrow> b | None \<Rightarrow> ''packages/worker/bin/worker''),
     vc_args = [], vc_backoff_ms = DEFAULT_BACKOFF_MS, vc_grace_ms = DISSOLVE_GRACE_MS \<rparr>"

definition per_task_workers_enabled :: "string option \<Rightarrow> bool" where
  "per_task_workers_enabled env_value \<longleftrightarrow> env_value = Some ''1''"

definition opt_flag :: "string \<Rightarrow> string option \<Rightarrow> string list" where
  "opt_flag name v = (case v of None \<Rightarrow> [] | Some x \<Rightarrow> [name, x])"

definition task_argv :: "task_spawn option \<Rightarrow> string list" where
  "task_argv t = (case t of None \<Rightarrow> [] | Some ts \<Rightarrow>
     [''--real'', ''--task-id'', ts_task ts, ''--prompt'', ts_prompt ts] @
     opt_flag ''--preferred-backend'' (ts_backend ts) @ opt_flag ''--preferred-model'' (ts_model ts))"

text \<open>The command \<open>spawn_child\<close> starts: the program and its arguments.\<close>

definition worker_argv :: "supervisor_config \<Rightarrow> worker_config \<Rightarrow> string list" where
  "worker_argv sc w = vc_bin sc # vc_args sc @
     [''--world-url'', wc_world_url w, ''--agent-id'', wc_agent w, ''--startup-id'', wc_startup w,
      ''--secret'', wc_secret w, ''--workspace'', wc_workspace w, ''--backend'', wc_backend w] @
     task_argv (wc_task w)"

section \<open>State\<close>

record agent_entry =
  ae_pid :: "nat option"
  ae_startup :: ident

datatype proc = Running | Exited bool

text \<open>
  Where a watch loop stands, with the process it holds and the failures it counted: \<open>Registering\<close> is
  \<open>spawn_agent\<close> before the registry entry is made, \<open>Reaped\<close> has its exit status, \<open>Leaving\<close> is about to
  remove the entry.
\<close>

datatype watch_state =
    Registering nat
  | Waiting nat nat
  | Reaped nat nat bool
  | Alerting nat
  | Sleeping nat nat int
  | Respawning nat nat
  | Recording nat nat
  | Leaving
  | Finished

datatype signal = SIGTERM | SIGKILL

text \<open>\<open>dissolve_startup\<close>: the tombstones still to set, the grace period, the end.\<close>

datatype dissolve_state =
    Tombing "ident list" "(ident \<times> nat option) list"
  | Grace "(ident \<times> nat option) list"
  | Dissolved

record supervisor =
  sv_agents :: "(ident \<times> agent_entry) list"
  sv_tombs :: "ident list"
  sv_watches :: "(worker_config \<times> watch_state) list"
  sv_dissolves :: "dissolve_state list"
  sv_procs :: "proc list"
  sv_signals :: "(nat \<times> signal) list"
  sv_world :: sys

definition new_supervisor :: "sys \<Rightarrow> supervisor" where
  "new_supervisor w = \<lparr> sv_agents = [], sv_tombs = [], sv_watches = [], sv_dissolves = [],
     sv_procs = [], sv_signals = [], sv_world = w \<rparr>"

definition agent_count :: "supervisor \<Rightarrow> nat" where
  "agent_count s = length (sv_agents s)"

section \<open>Operations\<close>

definition remove_agent :: "ident \<Rightarrow> supervisor \<Rightarrow> supervisor" where
  "remove_agent a s = s\<lparr>sv_agents := AList.delete a (sv_agents s)\<rparr>"

definition set_tombstone :: "ident \<Rightarrow> supervisor \<Rightarrow> supervisor" where
  "set_tombstone a s = s\<lparr>sv_tombs := List.insert a (sv_tombs s)\<rparr>"

definition take_tombstone :: "ident \<Rightarrow> supervisor \<Rightarrow> bool \<times> supervisor" where
  "take_tombstone a s = (a \<in> set (sv_tombs s), s\<lparr>sv_tombs := removeAll a (sv_tombs s)\<rparr>)"

definition register_child :: "worker_config \<Rightarrow> nat \<Rightarrow> supervisor \<Rightarrow> supervisor" where
  "register_child w p s = s\<lparr>sv_agents := AList.update (wc_agent w)
     \<lparr> ae_pid = Some p, ae_startup = wc_startup w \<rparr> (sv_agents s)\<rparr>"

definition record_pid :: "ident \<Rightarrow> nat \<Rightarrow> supervisor \<Rightarrow> supervisor" where
  "record_pid a p s = s\<lparr>sv_agents := amap_upd a (\<lambda>e. e\<lparr>ae_pid := Some p\<rparr>) (sv_agents s)\<rparr>"

definition spawn_child :: "supervisor \<Rightarrow> nat \<times> supervisor" where
  "spawn_child s = (length (sv_procs s), s\<lparr>sv_procs := sv_procs s @ [Running]\<rparr>)"

definition proc_at :: "supervisor \<Rightarrow> nat \<Rightarrow> proc option" where
  "proc_at s p = (if p < length (sv_procs s) then Some (sv_procs s ! p) else None)"

definition worker_dead :: "env \<Rightarrow> worker_config \<Rightarrow> nat \<Rightarrow> supervisor \<Rightarrow> supervisor" where
  "worker_dead env w failures s = s\<lparr>sv_world := snd (emit_system_event env (Some (wc_startup w))
     ''worker_dead'' (JObj [(''agent_id'', JStr (wc_agent w)), (''attempts'', JInt (int failures))])
     ''alert'' (sv_world s))\<rparr>"

text \<open>The verdict on an exit that no tombstone explains.\<close>

definition after_exit :: "supervisor_config \<Rightarrow> nat \<Rightarrow> nat \<Rightarrow> bool \<Rightarrow> watch_state" where
  "after_exit sc p f ok =
     (if ok then Leaving
      else if Suc f > length (vc_backoff_ms sc) then Alerting (Suc f)
      else Sleeping p (Suc f) (vc_backoff_ms sc ! f))"

text \<open>One step of a watch loop; \<open>spawned\<close> says whether a respawn succeeds.\<close>

fun watch_step :: "env \<Rightarrow> supervisor_config \<Rightarrow> worker_config \<Rightarrow> bool \<Rightarrow> watch_state \<Rightarrow> supervisor \<Rightarrow>
    (watch_state \<times> supervisor) option" where
  "watch_step env sc w spawned (Registering p) s = Some (Waiting p 0, register_child w p s)"
| "watch_step env sc w spawned (Waiting p f) s =
     (case proc_at s p of Some (Exited ok) \<Rightarrow> Some (Reaped p f ok, s) | _ \<Rightarrow> None)"
| "watch_step env sc w spawned (Reaped p f ok) s =
     (case take_tombstone (wc_agent w) s of (found, s') \<Rightarrow>
        Some (if found then Leaving else after_exit sc p f ok, s'))"
| "watch_step env sc w spawned (Alerting f) s = Some (Leaving, worker_dead env w f s)"
| "watch_step env sc w spawned (Sleeping p f d) s =
     (case take_tombstone (wc_agent w) s of (found, s') \<Rightarrow>
        Some (if found then Leaving else Respawning p f, s'))"
| "watch_step env sc w spawned (Respawning p f) s =
     (if spawned then (case spawn_child s of (q, s') \<Rightarrow> Some (Recording q f, s'))
      else Some (Waiting p f, s))"
| "watch_step env sc w spawned (Recording q f) s = Some (Waiting q f, record_pid (wc_agent w) q s)"
| "watch_step env sc w spawned Leaving s = Some (Finished, remove_agent (wc_agent w) s)"
| "watch_step env sc w spawned Finished s = None"

definition send_signal :: "signal \<Rightarrow> nat \<Rightarrow> supervisor \<Rightarrow> supervisor" where
  "send_signal sig p s = s\<lparr>sv_signals := sv_signals s @ [(p, sig)],
     sv_procs := (if sig = SIGKILL \<and> proc_at s p = Some Running
       then (sv_procs s)[p := Exited False] else sv_procs s)\<rparr>"

definition dissolve_targets :: "ident \<Rightarrow> supervisor \<Rightarrow> (ident \<times> nat option) list" where
  "dissolve_targets sid s =
     map (\<lambda>(a, e). (a, ae_pid e)) (filter (\<lambda>(a, e). ae_startup e = sid) (sv_agents s))"

definition stragglers :: "(ident \<times> nat option) list \<Rightarrow> supervisor \<Rightarrow> nat list" where
  "stragglers targets s =
     List.map_filter (\<lambda>(a, _). Option.bind (map_of (sv_agents s) a) ae_pid) targets"

fun dissolve_step :: "dissolve_state \<Rightarrow> supervisor \<Rightarrow> (dissolve_state \<times> supervisor) option" where
  "dissolve_step (Tombing (a # todo) targets) s = Some (Tombing todo targets, set_tombstone a s)"
| "dissolve_step (Tombing [] targets) s =
     Some (Grace targets, fold (send_signal SIGTERM) (List.map_filter snd targets) s)"
| "dissolve_step (Grace targets) s = Some (Dissolved, fold (send_signal SIGKILL) (stragglers targets s) s)"
| "dissolve_step Dissolved s = None"

section \<open>The system\<close>

datatype sup_event =
    SpawnAgent worker_config bool
  | WatchStep nat bool
  | ChildExit nat bool
  | DissolveStartup ident
  | DissolveStep nat

fun sup_step :: "env \<Rightarrow> supervisor_config \<Rightarrow> sup_event \<Rightarrow> supervisor \<Rightarrow> supervisor option" where
  "sup_step env sc (SpawnAgent w ok) s =
     (if ok then (case spawn_child s of (p, s') \<Rightarrow>
        Some (s'\<lparr>sv_watches := sv_watches s' @ [(w, Registering p)]\<rparr>)) else Some s)"
| "sup_step env sc (WatchStep k spawned) s =
     (if k < length (sv_watches s) then
        (case sv_watches s ! k of (w, st) \<Rightarrow>
           map_option (\<lambda>(st', s'). s'\<lparr>sv_watches := (sv_watches s')[k := (w, st')]\<rparr>)
             (watch_step env sc w spawned st s))
      else None)"
| "sup_step env sc (ChildExit p ok) s =
     (if proc_at s p = Some Running then Some (s\<lparr>sv_procs := (sv_procs s)[p := Exited ok]\<rparr>) else None)"
| "sup_step env sc (DissolveStartup sid) s =
     (let targets = dissolve_targets sid s
      in Some (s\<lparr>sv_dissolves := sv_dissolves s @ [Tombing (map fst targets) targets]\<rparr>))"
| "sup_step env sc (DissolveStep d) s =
     (if d < length (sv_dissolves s) then
        map_option (\<lambda>(st', s'). s'\<lparr>sv_dissolves := (sv_dissolves s')[d := st']\<rparr>)
          (dissolve_step (sv_dissolves s ! d) s)
      else None)"

fun sup_run :: "env \<Rightarrow> supervisor_config \<Rightarrow> sup_event list \<Rightarrow> supervisor \<Rightarrow> supervisor option" where
  "sup_run env sc [] s = Some s"
| "sup_run env sc (e # es) s = Option.bind (sup_step env sc e s) (sup_run env sc es)"

end
