(* ===== verification/SupervisorInv.thy ===== *)
theory SupervisorInv
  imports Supervisor Sample
begin

text \<open>
  The supervisor at every moment of every interleaving: watch loops end, the registry lists exactly
  the watched agents, no worker runs unwatched, and a dissolved startup's loops start nothing more.
\<close>

section \<open>Watch loops end\<close>

text \<open>The failure counters stay within the back-off schedule, so its indexing cannot panic.\<close>

fun on_schedule :: "supervisor_config \<Rightarrow> watch_state \<Rightarrow> bool" where
  "on_schedule sc (Waiting p f) \<longleftrightarrow> f \<le> length (vc_backoff_ms sc)"
| "on_schedule sc (Reaped p f ok) \<longleftrightarrow> f \<le> length (vc_backoff_ms sc)"
| "on_schedule sc (Respawning p f) \<longleftrightarrow> f \<le> length (vc_backoff_ms sc)"
| "on_schedule sc (Recording p f) \<longleftrightarrow> f \<le> length (vc_backoff_ms sc)"
| "on_schedule sc (Sleeping p f d) \<longleftrightarrow>
     0 < f \<and> f \<le> length (vc_backoff_ms sc) \<and> d = vc_backoff_ms sc ! (f - 1)"
| "on_schedule sc (Alerting f) \<longleftrightarrow> f = Suc (length (vc_backoff_ms sc))"
| "on_schedule sc _ \<longleftrightarrow> True"

fun steps_left :: "nat \<Rightarrow> watch_state \<Rightarrow> nat" where
  "steps_left n (Registering p) = 5 * n + 5"
| "steps_left n (Waiting p f) = 5 * (n - f) + 4"
| "steps_left n (Reaped p f ok) = 5 * (n - f) + 3"
| "steps_left n (Alerting f) = 2"
| "steps_left n (Sleeping p f d) = 5 * (n - f) + 7"
| "steps_left n (Respawning p f) = 5 * (n - f) + 6"
| "steps_left n (Recording p f) = 5 * (n - f) + 5"
| "steps_left n Leaving = 1"
| "steps_left n Finished = 0"

lemma watch_step_schedule:
  assumes "watch_step env sc w b st s = Some (st', s')" and "on_schedule sc st"
  shows "on_schedule sc st' \<and> steps_left (length (vc_backoff_ms sc)) st' < steps_left (length (vc_backoff_ms sc)) st"
  using assms
  by (cases st) (auto simp: after_exit_def spawn_child_def take_tombstone_def Suc_diff_le
      split: proc.splits option.splits if_splits)

lemma watch_step_None:
  "watch_step env sc w b st s = None \<longleftrightarrow>
     st = Finished \<or> (\<exists>p f. st = Waiting p f \<and> (\<forall>ok. proc_at s p \<noteq> Some (Exited ok)))"
  by (cases st) (auto simp: spawn_child_def take_tombstone_def split: option.split proc.split)

lemma sup_run_append:
  "sup_run env sc (es @ fs) s = Option.bind (sup_run env sc es s) (sup_run env sc fs)"
  by (induction es arbitrary: s) (auto split: Option.bind_split)

text \<open>What an event leaves of a watch loop: nothing but its own steps move it.\<close>

lemma watch_of_step:
  assumes "sup_step env sc e s = Some t" and "k < length (sv_watches s)"
  shows "k < length (sv_watches t) \<and>
    (sv_watches t ! k = sv_watches s ! k \<or>
     (\<exists>b w st st' s'. e = WatchStep k b \<and> sv_watches s ! k = (w, st) \<and> sv_watches t ! k = (w, st') \<and>
        watch_step env sc w b st s = Some (st', s')))"
proof -
  have w: "sv_watches s' = sv_watches s" if "watch_step env sc w b st s = Some (st', s')" for w b st st' s'
    using that by (cases st) (auto simp: register_child_def take_tombstone_def worker_dead_def
        spawn_child_def record_pid_def remove_agent_def split: if_splits option.splits proc.splits)
  have sig: "sv_watches (fold (send_signal sg) ps r) = sv_watches r" for sg ps r
    by (induction ps arbitrary: r) (simp_all add: send_signal_def)
  have d: "sv_watches s' = sv_watches s" if "dissolve_step st s = Some (st', s')" for st st' s'
    using that by (cases "(st, s)" rule: dissolve_step.cases) (auto simp: set_tombstone_def sig)
  show ?thesis
  proof (cases e)
    case (WatchStep j b)
    then show ?thesis
      using assms w by (cases "j = k") (fastforce split: if_splits prod.splits)+
  qed (use assms d in \<open>auto simp: spawn_child_def nth_append Let_def split: if_splits\<close>)
qed

fun own_step :: "nat \<Rightarrow> sup_event \<Rightarrow> bool" where
  "own_step k (WatchStep j b) \<longleftrightarrow> j = k"
| "own_step k _ \<longleftrightarrow> False"

lemma own_steps_bounded:
  assumes "sup_run env sc es s = Some t" and "k < length (sv_watches s)"
    and "on_schedule sc (snd (sv_watches s ! k))"
  shows "length (filter (own_step k) es) + steps_left (length (vc_backoff_ms sc)) (snd (sv_watches t ! k))
      \<le> steps_left (length (vc_backoff_ms sc)) (snd (sv_watches s ! k)) \<and>
    on_schedule sc (snd (sv_watches t ! k))"
  using assms
proof (induction es arbitrary: s)
  case Nil
  then show ?case by simp
next
  case (Cons e es)
  then obtain u where u: "sup_step env sc e s = Some u" "sup_run env sc es u = Some t"
    by (auto split: Option.bind_splits)
  let ?n = "length (vc_backoff_ms sc)"
  from watch_of_step [OF u(1) Cons.prems(2)]
  have k: "k < length (sv_watches u)" and m: "sv_watches u ! k = sv_watches s ! k \<and> \<not> own_step k e \<or>
      sv_watches u ! k = sv_watches s ! k \<and> own_step k e \<or>
      (\<exists>w b st st' s'. sv_watches s ! k = (w, st) \<and> sv_watches u ! k = (w, st') \<and>
        watch_step env sc w b st s = Some (st', s'))" by blast+
  have "on_schedule sc (snd (sv_watches u ! k)) \<and> (if own_step k e then 1 else 0) +
      steps_left ?n (snd (sv_watches u ! k)) \<le> steps_left ?n (snd (sv_watches s ! k))"
  proof (cases e)
    case (WatchStep j b)
    show ?thesis
    proof (cases "j = k")
      case True
      with WatchStep u(1) Cons.prems(2) obtain w st st' s' where
        "sv_watches s ! k = (w, st)" "watch_step env sc w b st s = Some (st', s')"
        and t: "u = s'\<lparr>sv_watches := (sv_watches s')[k := (w, st')]\<rparr>"
        by (auto split: prod.splits)
      with watch_step_schedule [OF this(2)] Cons.prems(3) k True WatchStep show ?thesis by simp
    next
      case False
      with watch_of_step [OF u(1) Cons.prems(2)] WatchStep Cons.prems(3) show ?thesis by auto
    qed
  qed (use watch_of_step [OF u(1) Cons.prems(2)] Cons.prems(3) in auto)
  with Cons.IH [OF u(2) k] show ?case by (auto split: if_splits)
qed

text \<open>C25: Watch loops end. Whatever the workers do and however the supervisor's tasks interleave, the loop
  of a spawned worker takes at most five steps per entry of the back-off schedule and five more, and
  it stands still only when it has ended or waits for a process that still runs.
\<close>
theorem watch_loops_end:
  assumes "sup_run env sc es s = Some t" and "k < length (sv_watches s)"
    and "sv_watches s ! k = (w, Registering p)"
  shows "length (filter (own_step k) es) \<le> 5 * length (vc_backoff_ms sc) + 5 \<and>
    (sup_step env sc (WatchStep k b) t = None \<longleftrightarrow>
       snd (sv_watches t ! k) = Finished \<or>
       (\<exists>q f. snd (sv_watches t ! k) = Waiting q f \<and> (\<forall>ok. proc_at t q \<noteq> Some (Exited ok))))"
proof -
  have "k < length (sv_watches t)"
    using assms(1,2)
  proof (induction es arbitrary: s)
    case (Cons e es)
    then show ?case by (auto split: Option.bind_splits dest: watch_of_step)
  qed simp
  then show ?thesis
    using own_steps_bounded [OF assms(1,2)] assms(3) watch_step_None [of env sc _ b]
    by (auto split: prod.split)
qed

section \<open>The registry\<close>

text \<open>The process a state holds as the registry must list it, the one that may run, the dead one.\<close>

fun listed_pid :: "watch_state \<Rightarrow> nat option" where
  "listed_pid (Waiting p f) = Some p"
| "listed_pid (Reaped p f ok) = Some p"
| "listed_pid (Sleeping p f d) = Some p"
| "listed_pid (Respawning p f) = Some p"
| "listed_pid _ = None"

fun run_pid :: "watch_state \<Rightarrow> nat option" where
  "run_pid (Registering p) = Some p"
| "run_pid (Waiting p f) = Some p"
| "run_pid (Recording p f) = Some p"
| "run_pid _ = None"

fun dead_pid :: "watch_state \<Rightarrow> nat option" where
  "dead_pid (Reaped p f ok) = Some p"
| "dead_pid (Sleeping p f d) = Some p"
| "dead_pid (Respawning p f) = Some p"
| "dead_pid _ = None"

fun registered :: "watch_state \<Rightarrow> bool" where
  "registered (Registering p) \<longleftrightarrow> False"
| "registered Finished \<longleftrightarrow> False"
| "registered _ \<longleftrightarrow> True"

definition exited :: "supervisor \<Rightarrow> nat \<Rightarrow> bool" where
  "exited s p \<longleftrightarrow> (\<exists>ok. proc_at s p = Some (Exited ok))"

definition watch_ok :: "supervisor \<Rightarrow> worker_config \<times> watch_state \<Rightarrow> bool" where
  "watch_ok s w \<longleftrightarrow>
     (registered (snd w) \<longrightarrow> (\<exists>e. map_of (sv_agents s) (wc_agent (fst w)) = Some e \<and>
        ae_startup e = wc_startup (fst w) \<and> (\<forall>p. listed_pid (snd w) = Some p \<longrightarrow> ae_pid e = Some p))) \<and>
     (\<forall>p. run_pid (snd w) = Some p \<longrightarrow> proc_at s p \<noteq> None) \<and>
     (\<forall>p. dead_pid (snd w) = Some p \<longrightarrow> exited s p)"

definition watched_by :: "supervisor \<Rightarrow> nat \<Rightarrow> ident \<Rightarrow> bool" where
  "watched_by s k a \<longleftrightarrow> k < length (sv_watches s) \<and> wc_agent (fst (sv_watches s ! k)) = a \<and>
     snd (sv_watches s ! k) \<noteq> Finished"

definition registry_ok :: "supervisor \<Rightarrow> bool" where
  "registry_ok s \<longleftrightarrow>
     distinct (map fst (sv_agents s)) \<and>
     (\<forall>k < length (sv_watches s). watch_ok s (sv_watches s ! k)) \<and>
     (\<forall>i j a. watched_by s i a \<and> watched_by s j a \<longrightarrow> i = j) \<and>
     (\<forall>a \<in> fst ` set (sv_agents s). \<exists>k. watched_by s k a \<and> registered (snd (sv_watches s ! k))) \<and>
     (\<forall>p. proc_at s p = Some Running \<longrightarrow>
        (\<exists>k < length (sv_watches s). run_pid (snd (sv_watches s ! k)) = Some p))"

lemma registry_uniq:
  assumes "registry_ok s" and "watched_by s i a" and "watched_by s j a"
  shows "i = j"
  using assms unfolding registry_ok_def by blast

text \<open>The discipline of \<open>create_startup\<close>, whose agents are new: one watch loop per agent at a time.\<close>

fun spawns_afresh :: "sup_event \<Rightarrow> supervisor \<Rightarrow> bool" where
  "spawns_afresh (SpawnAgent w ok) s \<longleftrightarrow> \<not> (\<exists>k. watched_by s k (wc_agent w))"
| "spawns_afresh _ s \<longleftrightarrow> True"

text \<open>Steps that keep the registry of the other agents and only end processes.\<close>

definition frame_on :: "ident set \<Rightarrow> supervisor \<Rightarrow> supervisor \<Rightarrow> bool" where
  "frame_on A s t \<longleftrightarrow> (\<forall>a. a \<notin> A \<longrightarrow> map_of (sv_agents t) a = map_of (sv_agents s) a) \<and>
     (\<forall>p. proc_at s p \<noteq> None \<longrightarrow> proc_at t p \<noteq> None) \<and> (\<forall>p. exited s p \<longrightarrow> exited t p)"

lemma watch_ok_frame:
  "watch_ok s w \<Longrightarrow> frame_on A s t \<Longrightarrow> wc_agent (fst w) \<notin> A \<or> \<not> registered (snd w) \<Longrightarrow> watch_ok t w"
  unfolding watch_ok_def frame_on_def by metis

lemma proc_at_simps [simp]:
  "proc_at (s\<lparr>sv_watches := ws\<rparr>) p = proc_at s p" "proc_at (s\<lparr>sv_agents := as\<rparr>) p = proc_at s p"
  "proc_at (s\<lparr>sv_tombs := ts\<rparr>) p = proc_at s p" "proc_at (s\<lparr>sv_world := x\<rparr>) p = proc_at s p"
  "proc_at (s\<lparr>sv_dissolves := ds\<rparr>) p = proc_at s p"
  by (simp_all add: proc_at_def)

lemma proc_at_spawn:
  "proc_at (s\<lparr>sv_procs := sv_procs s @ [Running]\<rparr>) p =
     (if p = length (sv_procs s) then Some Running else proc_at s p)"
  by (auto simp: proc_at_def nth_append)

lemma proc_at_exit:
  "q < length (sv_procs s) \<Longrightarrow>
   proc_at (s\<lparr>sv_procs := (sv_procs s)[q := x]\<rparr>) p = (if p = q then Some x else proc_at s p)"
  by (auto simp: proc_at_def)

lemma proc_at_lt: "proc_at s p = Some x \<Longrightarrow> p < length (sv_procs s)"
  by (auto simp: proc_at_def split: if_splits)

lemmas watch_ops = register_child_def take_tombstone_def worker_dead_def spawn_child_def record_pid_def
  remove_agent_def

lemma watch_step_same: "watch_step env sc w b st s = Some (st', s') \<Longrightarrow>
    sv_watches s' = sv_watches s \<and> st \<noteq> Finished \<and> (registered st' \<longleftrightarrow> st \<noteq> Leaving) \<and>
    (st' = Finished \<longleftrightarrow> st = Leaving) \<and> sv_dissolves s' = sv_dissolves s"
  by (cases st) (auto simp: watch_ops after_exit_def split: if_splits option.splits proc.splits)

lemma map_of_delete_other: "map_of (AList.delete k m) j = (if j = k then None else map_of m j)"
  by (simp add: delete_conv')

lemma map_of_update_other: "map_of (AList.update k v m) j = (if j = k then Some v else map_of m j)"
  by (simp add: update_conv')

lemma watch_step_frame:
  assumes "watch_step env sc w b st s = Some (st', s')"
  shows "frame_on {wc_agent w} s s'"
  using assms
  by (cases st) (auto simp: frame_on_def watch_ops exited_def proc_at_spawn map_of_amap_upd
      map_of_delete_other map_of_update_other proc_at_lt
      split: if_splits option.splits proc.splits dest: proc_at_lt)

lemma watch_step_ok:
  assumes "watch_step env sc w b st s = Some (st', s')" and "watch_ok s (w, st)"
  shows "watch_ok s' (w, st')"
  using assms
  by (cases st) (auto simp: watch_ok_def watch_ops exited_def proc_at_spawn map_of_amap_upd after_exit_def
      map_of_delete_other map_of_update_other split: if_splits option.splits proc.splits dest: proc_at_lt)

lemma key_sets:
  "fst ` set (AList.update k v m) = insert k (fst ` set m)"
  "fst ` set (AList.delete k m) = fst ` set m - {k}"
  "fst ` set (amap_upd k g m) = fst ` set m"
proof -
  show "fst ` set (AList.update k v m) = insert k (fst ` set m)" by (simp add: dom_update)
  show "fst ` set (AList.delete k m) = fst ` set m - {k}" by (force simp: AList.delete_eq)
  show "fst ` set (amap_upd k g m) = fst ` set m" by (metis keys_amap_upd set_map)
qed

lemma watch_step_keys:
  assumes "watch_step env sc w b st s = Some (st', s')" and "watch_ok s (w, st)"
  shows "fst ` set (sv_agents s') =
    (if registered st' then insert (wc_agent w) (fst ` set (sv_agents s)) else fst ` set (sv_agents s) - {wc_agent w})"
proof -
  have "insert (wc_agent w) (fst ` set (sv_agents s)) = fst ` set (sv_agents s)" if "registered st"
  proof (rule insert_absorb)
    from assms(2) that obtain e where "map_of (sv_agents s) (wc_agent w) = Some e" by (auto simp: watch_ok_def)
    then show "wc_agent w \<in> fst ` set (sv_agents s)" by (force dest: map_of_SomeD)
  qed
  then show ?thesis
    using assms(1)
    by (cases st) (simp_all add: watch_ops after_exit_def key_sets split: if_splits option.splits proc.splits;
      clarsimp simp: key_sets)+
qed

lemma watch_step_distinct:
  assumes "watch_step env sc w b st s = Some (st', s')" and "distinct (map fst (sv_agents s))"
  shows "distinct (map fst (sv_agents s'))"
  using assms
  by (cases st) (auto simp: watch_ops distinct_update distinct_delete split: if_splits option.splits proc.splits)

lemma watch_step_running:
  assumes "watch_step env sc w b st s = Some (st', s')" and "proc_at s' p = Some Running"
  shows "run_pid st' = Some p \<or> proc_at s p = Some Running \<and> run_pid st \<noteq> Some p"
  using assms
  by (cases st) (auto simp: watch_ops proc_at_spawn split: if_splits option.splits proc.splits)

lemma watched_by_update:
  assumes "k < length (sv_watches s)" and "sv_watches s ! k = (w, st)" and "st \<noteq> Finished"
    and "sv_watches t = (sv_watches s)[k := (w, st')]"
  shows "watched_by t i a \<longleftrightarrow> watched_by s i a \<and> \<not> (i = k \<and> st' = Finished)"
  using assms by (auto simp: watched_by_def nth_list_update)

lemma registry_watch:
  assumes ok: "registry_ok s" and k: "k < length (sv_watches s)" "sv_watches s ! k = (w, st)"
    and st: "watch_step env sc w b st s = Some (st', s')"
  shows "registry_ok (s'\<lparr>sv_watches := (sv_watches s')[k := (w, st')]\<rparr>)" (is "registry_ok ?t")
proof -
  note same = watch_step_same [OF st]
  have wk: "watch_ok s (w, st)" and uniq: "\<And>i j a. watched_by s i a \<Longrightarrow> watched_by s j a \<Longrightarrow> i = j"
    and dk: "distinct (map fst (sv_agents s))"
    using ok k by (auto simp: registry_ok_def)
  have ws: "sv_watches ?t = (sv_watches s)[k := (w, st')]" using same by simp
  note wb = watched_by_update [OF k _ ws]
  have me: "watched_by s k (wc_agent w)" using k same by (simp add: watched_by_def)
  have keys: "fst ` set (sv_agents ?t) = (if registered st' then insert (wc_agent w) (fst ` set (sv_agents s))
      else fst ` set (sv_agents s) - {wc_agent w})"
    using watch_step_keys [OF st wk] by simp
  have "watch_ok ?t (sv_watches ?t ! i)" if "i < length (sv_watches ?t)" for i
  proof (cases "i = k")
    case True
    then show ?thesis using watch_step_ok [OF st wk] k ws by (simp add: watch_ok_def exited_def)
  next
    case False
    let ?w = "sv_watches s ! i"
    have i: "i < length (sv_watches s)" using that ws by simp
    have "wc_agent (fst ?w) \<noteq> wc_agent w \<or> \<not> registered (snd ?w)"
      using uniq [OF me, of i] False i registered.simps(2) by (fastforce simp: watched_by_def)
    moreover have "watch_ok s ?w" using ok i by (simp add: registry_ok_def)
    ultimately have "watch_ok s' ?w"
      using watch_ok_frame [OF _ watch_step_frame [OF st]] by blast
    then show ?thesis using False ws by (simp add: watch_ok_def exited_def)
  qed
  moreover have "\<exists>i. watched_by ?t i a \<and> registered (snd (sv_watches ?t ! i))"
    if "a \<in> fst ` set (sv_agents ?t)" for a
  proof (cases "a = wc_agent w")
    case True
    with that keys have "registered st'" by (auto split: if_splits)
    then show ?thesis using True wb me same k ws by (metis fst_conv nth_list_update_eq registered.simps(2) snd_conv)
  next
    case False
    with that keys have "a \<in> fst ` set (sv_agents s)" by (auto split: if_splits)
    with ok obtain i where i: "watched_by s i a" "registered (snd (sv_watches s ! i))"
      unfolding registry_ok_def by blast
    with False k have "i \<noteq> k" by (auto simp: watched_by_def)
    with i wb same ws show ?thesis by auto
  qed
  moreover have "\<exists>i < length (sv_watches ?t). run_pid (snd (sv_watches ?t ! i)) = Some p"
    if "proc_at ?t p = Some Running" for p
  proof -
    from that have "proc_at s' p = Some Running" by simp
    from watch_step_running [OF st this] consider "run_pid st' = Some p"
      | "proc_at s p = Some Running" "run_pid st \<noteq> Some p" by blast
    then show ?thesis
    proof cases
      case 1
      then show ?thesis using k ws by (metis length_list_update nth_list_update_eq snd_conv)
    next
      case 2
      with ok obtain i where "i < length (sv_watches s)" "run_pid (snd (sv_watches s ! i)) = Some p"
        by (auto simp: registry_ok_def)
      moreover from this 2 k have "i \<noteq> k" by auto
      ultimately show ?thesis using ws by auto
    qed
  qed
  moreover have "distinct (map fst (sv_agents ?t))" using watch_step_distinct [OF st dk] by simp
  moreover have "i = j" if "watched_by ?t i a \<and> watched_by ?t j a" for i j a
    using that wb same uniq by blast
  ultimately show ?thesis unfolding registry_ok_def by blast
qed

text \<open>Exits, signals and the bookkeeping of a dissolve leave the registry and the loops alone.\<close>

definition only_ends :: "supervisor \<Rightarrow> supervisor \<Rightarrow> bool" where
  "only_ends s t \<longleftrightarrow> sv_agents t = sv_agents s \<and> sv_watches t = sv_watches s \<and>
     (\<forall>p. proc_at t p = proc_at s p \<or> proc_at s p = Some Running \<and> exited t p)"

lemma only_ends_trans: "only_ends s t \<Longrightarrow> only_ends t u \<Longrightarrow> only_ends s u"
  unfolding only_ends_def exited_def by (metis option.inject proc.distinct(1))

lemma only_ends_refl: "only_ends s s"
  by (simp add: only_ends_def)

lemma only_ends_signal: "only_ends s (send_signal sig p s)"
  by (auto simp: only_ends_def send_signal_def proc_at_def exited_def nth_list_update)

lemma only_ends_signals: "only_ends s (fold (send_signal sig) ps s)"
  by (induction ps arbitrary: s) (auto simp: only_ends_refl intro: only_ends_trans only_ends_signal)

lemma only_ends_dissolve:
  assumes "dissolve_step st s = Some (st', s')"
  shows "only_ends s s'"
  using assms
  by (cases "(st, s)" rule: dissolve_step.cases)
     (auto simp: only_ends_signals set_tombstone_def only_ends_def [of s "s\<lparr>sv_tombs := ts\<rparr>" for ts])

lemma registry_only_ends:
  assumes "registry_ok s" and "only_ends s t"
  shows "registry_ok t"
proof -
  have f: "frame_on {} s t" and eq: "sv_agents t = sv_agents s" "sv_watches t = sv_watches s"
    and run: "\<And>p. proc_at t p = Some Running \<Longrightarrow> proc_at s p = Some Running"
    using assms(2) unfolding only_ends_def frame_on_def exited_def
    by (simp_all, metis option.distinct(1) option.inject proc.distinct(1), metis option.inject proc.distinct(1))
  have "watched_by t = watched_by s" by (simp add: fun_eq_iff watched_by_def eq)
  moreover have "watch_ok t w" if "watch_ok s w" for w using watch_ok_frame [OF that f] by simp
  ultimately show ?thesis using assms(1) run by (simp add: registry_ok_def eq)
qed

lemma registry_spawn:
  assumes "registry_ok s" and "\<not> (\<exists>k. watched_by s k (wc_agent w))"
  shows "registry_ok (s\<lparr>sv_procs := sv_procs s @ [Running],
    sv_watches := sv_watches s @ [(w, Registering (length (sv_procs s)))]\<rparr>)" (is "registry_ok ?t")
proof -
  have f: "frame_on {} s ?t"
    by (auto simp: frame_on_def exited_def proc_at_spawn dest: proc_at_lt)
  note uniq = registry_uniq [OF assms(1)]
  have wb: "watched_by ?t i a \<longleftrightarrow> watched_by s i a \<or> i = length (sv_watches s) \<and> a = wc_agent w" for i a
    by (auto simp: watched_by_def nth_append)
  have old: "sv_watches ?t ! i = sv_watches s ! i" if "i < length (sv_watches s)" for i
    using that by (simp add: nth_append)
  have "watch_ok ?t (sv_watches ?t ! i)" if "i < length (sv_watches ?t)" for i
  proof (cases "i < length (sv_watches s)")
    case True
    then show ?thesis
      using watch_ok_frame [OF _ f] assms(1) old by (simp add: registry_ok_def)
  qed (use that in \<open>auto simp: nth_append watch_ok_def proc_at_spawn\<close>)
  moreover have "\<exists>i. watched_by ?t i a \<and> registered (snd (sv_watches ?t ! i))"
    if "a \<in> fst ` set (sv_agents ?t)" for a
  proof -
    from that assms(1) obtain i where "watched_by s i a" "registered (snd (sv_watches s ! i))"
      by (auto simp: registry_ok_def)
    moreover from this(1) have "i < length (sv_watches s)" by (simp add: watched_by_def)
    ultimately show ?thesis using wb [of i a] old [of i] by auto
  qed
  moreover have "\<exists>i < length (sv_watches ?t). run_pid (snd (sv_watches ?t ! i)) = Some p"
    if "proc_at ?t p = Some Running" for p
  proof (cases "p = length (sv_procs s)")
    case True
    then show ?thesis by (intro exI [of _ "length (sv_watches s)"]) simp
  next
    case False
    with that assms(1) obtain i where "i < length (sv_watches s)" "run_pid (snd (sv_watches s ! i)) = Some p"
      by (auto simp: registry_ok_def proc_at_spawn)
    with old show ?thesis by (intro exI [of _ i]) simp
  qed
  moreover have "i = j" if "watched_by ?t i a \<and> watched_by ?t j a" for i j a
  proof -
    from that have "watched_by s i a \<or> i = length (sv_watches s) \<and> a = wc_agent w"
      "watched_by s j a \<or> j = length (sv_watches s) \<and> a = wc_agent w" unfolding wb by simp_all
    then show ?thesis using uniq assms(2) by metis
  qed
  moreover have "distinct (map fst (sv_agents ?t))" using assms(1) by (simp add: registry_ok_def)
  ultimately show ?thesis unfolding registry_ok_def by blast
qed

lemma registry_step:
  assumes "registry_ok s" and "spawns_afresh e s" and "sup_step env sc e s = Some t"
  shows "registry_ok t"
proof (cases e)
  case (SpawnAgent w ok)
  then show ?thesis
    using assms registry_spawn [OF assms(1), of w] by (auto simp: spawn_child_def split: if_splits)
next
  case (WatchStep k b)
  then obtain w st st' s' where "k < length (sv_watches s)" "sv_watches s ! k = (w, st)"
    "watch_step env sc w b st s = Some (st', s')" "t = s'\<lparr>sv_watches := (sv_watches s')[k := (w, st')]\<rparr>"
    using assms(3) by (auto split: if_splits prod.splits)
  then show ?thesis using registry_watch [OF assms(1)] by blast
next
  case (ChildExit p ok)
  then have "only_ends s t"
    using assms(3) by (auto simp: only_ends_def exited_def proc_at_exit proc_at_lt split: if_splits)
  then show ?thesis by (rule registry_only_ends [OF assms(1)])
next
  case (DissolveStartup sid)
  then have "only_ends s t" using assms(3) by (auto simp: only_ends_def Let_def)
  then show ?thesis by (rule registry_only_ends [OF assms(1)])
next
  case (DissolveStep d)
  then obtain st' s' where "dissolve_step (sv_dissolves s ! d) s = Some (st', s')"
    and t: "t = s'\<lparr>sv_dissolves := (sv_dissolves s')[d := st']\<rparr>"
    using assms(3) by (auto split: if_splits)
  then have "only_ends s t"
    using only_ends_dissolve by (auto simp: only_ends_def exited_def)
  then show ?thesis by (rule registry_only_ends [OF assms(1)])
qed

section \<open>Runs of the supervisor\<close>

inductive sup_next :: "env \<Rightarrow> supervisor_config \<Rightarrow> supervisor \<Rightarrow> supervisor \<Rightarrow> bool" for env sc where
  sup_nextI: "spawns_afresh e s \<Longrightarrow> sup_step env sc e s = Some t \<Longrightarrow> sup_next env sc s t"

inductive_cases sup_nextE: "sup_next env sc s t"

lemma registry_new: "registry_ok (new_supervisor w)"
  by (auto simp: registry_ok_def new_supervisor_def watched_by_def proc_at_def)

interpretation registry: invariant_system "\<lambda>s. \<exists>w. s = new_supervisor w" "sup_next env sc" registry_ok
  for env sc
  by unfold_locales (auto simp: registry_new elim!: sup_nextE intro: registry_step)

lemma registered_count:
  assumes "registry_ok s"
  shows "length (sv_agents s) = card {k. k < length (sv_watches s) \<and> registered (snd (sv_watches s ! k))}"
    (is "_ = card ?K")
proof -
  let ?a = "\<lambda>k. wc_agent (fst (sv_watches s ! k))"
  have live: "k < length (sv_watches s) \<Longrightarrow> registered (snd (sv_watches s ! k)) \<Longrightarrow> watched_by s k (?a k)" for k
    by (auto simp: watched_by_def)
  have keys: "?a ` ?K = fst ` set (sv_agents s)"
  proof
    show "?a ` ?K \<subseteq> fst ` set (sv_agents s)"
    proof
      fix a
      assume "a \<in> ?a ` ?K"
      then obtain k where k: "k \<in> ?K" "a = ?a k" by blast
      then have "watch_ok s (sv_watches s ! k)" using assms by (simp add: registry_ok_def)
      with k obtain e where "map_of (sv_agents s) a = Some e" by (auto simp: watch_ok_def)
      then show "a \<in> fst ` set (sv_agents s)" by (force dest: map_of_SomeD)
    qed
    show "fst ` set (sv_agents s) \<subseteq> ?a ` ?K"
    proof
      fix a
      assume "a \<in> fst ` set (sv_agents s)"
      with assms obtain k where "watched_by s k a" "registered (snd (sv_watches s ! k))"
        unfolding registry_ok_def by blast
      then show "a \<in> ?a ` ?K" by (auto simp: watched_by_def)
    qed
  qed
  have "inj_on ?a ?K"
  proof (rule inj_onI)
    fix i j
    assume "i \<in> ?K" "j \<in> ?K" "?a i = ?a j"
    with live [of i] live [of j] have "watched_by s i (?a j)" "watched_by s j (?a j)" by simp_all
    then show "i = j" by (rule registry_uniq [OF assms])
  qed
  from card_image [OF this] have "card (fst ` set (sv_agents s)) = card ?K" by (simp only: keys)
  moreover have "card (fst ` set (sv_agents s)) = length (sv_agents s)"
    using assms distinct_card [of "map fst (sv_agents s)"] by (simp add: registry_ok_def)
  ultimately show ?thesis by simp
qed

text \<open>C27: As long as no agent is given a second loop while its first still runs, then at every moment of
  every interleaving the registry lists each agent once, it lists as many agents as there are loops
  past their registration, and every worker process that runs is in the hands of a loop.
\<close>
theorem every_worker_is_watched:
  assumes "reach (\<lambda>s. s = new_supervisor w) (sup_next env sc) s"
  shows "distinct (map fst (sv_agents s)) \<and>
    agent_count s = card {k. k < length (sv_watches s) \<and> registered (snd (sv_watches s ! k))} \<and>
    (\<forall>p. proc_at s p = Some Running \<longrightarrow>
      (\<exists>k < length (sv_watches s). run_pid (snd (sv_watches s ! k)) = Some p))"
proof -
  have "reach (\<lambda>s. \<exists>w. s = new_supervisor w) (sup_next env sc) s"
    using assms by (induction rule: reach.induct) (auto intro: reach.intros)
  from registry.reach_inv [OF this] have "registry_ok s" .
  then show ?thesis using registered_count [of s] by (simp add: registry_ok_def agent_count_def)
qed

section \<open>Dissolving a startup\<close>

definition loop_over :: "supervisor \<Rightarrow> nat \<Rightarrow> bool" where
  "loop_over s k \<longleftrightarrow> snd (sv_watches s ! k) = Leaving \<or> snd (sv_watches s ! k) = Finished"

definition tombed :: "supervisor \<Rightarrow> nat \<Rightarrow> ident \<Rightarrow> bool" where
  "tombed s k a \<longleftrightarrow> a \<in> set (sv_tombs s) \<or> loop_over s k"

text \<open>The loop of a killed worker: nothing it holds runs, and its tombstone is still there.\<close>

fun doomed_state :: "supervisor \<Rightarrow> ident \<Rightarrow> watch_state \<Rightarrow> bool" where
  "doomed_state s a (Waiting p f) \<longleftrightarrow> a \<in> set (sv_tombs s) \<and> exited s p"
| "doomed_state s a (Reaped p f ok) \<longleftrightarrow> a \<in> set (sv_tombs s)"
| "doomed_state s a (Sleeping p f d) \<longleftrightarrow> a \<in> set (sv_tombs s)"
| "doomed_state s a (Alerting f) \<longleftrightarrow> True"
| "doomed_state s a Leaving \<longleftrightarrow> True"
| "doomed_state s a Finished \<longleftrightarrow> True"
| "doomed_state s a _ \<longleftrightarrow> False"

text \<open>The loop \<open>k\<close> of agent \<open>a\<close>, and only it, can take the tombstone of \<open>a\<close>.\<close>

lemma watch_step_tombs:
  assumes "watch_step env sc w b st s = Some (st', s')" and "a \<in> set (sv_tombs s)"
  shows "a \<in> set (sv_tombs s') \<or> wc_agent w = a \<and> st' = Leaving"
  using assms by (cases st) (auto simp: watch_ops split: if_splits option.splits proc.splits)

lemma signals_tombs [simp]: "sv_tombs (fold (send_signal sig) ps s) = sv_tombs s"
  by (induction ps arbitrary: s) (simp_all add: send_signal_def)

lemma dissolve_step_tombs:
  "dissolve_step st s = Some (st', s') \<Longrightarrow> set (sv_tombs s) \<subseteq> set (sv_tombs s')"
  by (cases "(st, s)" rule: dissolve_step.cases) (auto simp: set_tombstone_def)

text \<open>A step of the system, seen from one loop \<open>k\<close> of the agent \<open>a\<close>.\<close>

definition loop_of :: "supervisor \<Rightarrow> nat \<Rightarrow> ident \<Rightarrow> bool" where
  "loop_of s k a \<longleftrightarrow> k < length (sv_watches s) \<and> wc_agent (fst (sv_watches s ! k)) = a"

lemma loop_of_step:
  assumes "sup_step env sc e s = Some t" and "loop_of s k a"
  shows "loop_of t k a"
proof -
  have k: "k < length (sv_watches s)" "wc_agent (fst (sv_watches s ! k)) = a"
    using assms(2) by (simp_all add: loop_of_def)
  from watch_of_step [OF assms(1) k(1)] k(2) show ?thesis by (auto simp: loop_of_def)
qed

lemma tombed_step:
  assumes "registry_ok s" and "sup_step env sc e s = Some t" and "loop_of s k a" and "tombed s k a"
  shows "tombed t k a"
proof -
  have k: "k < length (sv_watches s)" "wc_agent (fst (sv_watches s ! k)) = a"
    using assms(3) by (simp_all add: loop_of_def)
  from watch_of_step [OF assms(2) k(1)] consider (same) "sv_watches t ! k = sv_watches s ! k"
    | (own) b w st st' s' where "e = WatchStep k b" "sv_watches s ! k = (w, st)" "sv_watches t ! k = (w, st')"
      "watch_step env sc w b st s = Some (st', s')" by blast
  then show ?thesis
  proof cases
    case own
    then have t: "t = s'\<lparr>sv_watches := (sv_watches s')[k := (w, st')]\<rparr>" using assms(2) k by simp
    show ?thesis
    proof (cases "loop_over s k")
      case True
      with own k show ?thesis by (auto simp: tombed_def loop_over_def)
    next
      case False
      with assms(4) watch_step_tombs [OF own(4), of a] own(3) t show ?thesis
        by (auto simp: tombed_def loop_over_def)
    qed
  next
    case same
    then have over: "loop_over t k = loop_over s k" by (simp add: loop_over_def)
    show ?thesis
    proof (cases "loop_over s k")
      case False
      with assms(4) have tomb: "a \<in> set (sv_tombs s)" by (simp add: tombed_def)
      have "a \<in> set (sv_tombs t)"
      proof (cases e)
        case (WatchStep j b)
        then obtain w st st' s' where j: "j < length (sv_watches s)" "sv_watches s ! j = (w, st)"
          "watch_step env sc w b st s = Some (st', s')" "t = s'\<lparr>sv_watches := (sv_watches s')[j := (w, st')]\<rparr>"
          using assms(2) by (auto split: if_splits prod.splits)
        show ?thesis
        proof (cases "wc_agent w = a")
          case True
          have "watched_by s j a" using j(1,2) True watch_step_same [OF j(3)] by (simp add: watched_by_def)
          moreover have "watched_by s k a" using k False by (auto simp: watched_by_def loop_over_def)
          ultimately have "j = k" by (rule registry_uniq [OF assms(1)])
          with j same watch_step_same [OF j(3)] watch_step_tombs [OF j(3) tomb] False
          show ?thesis by (auto simp: loop_over_def)
        qed (use watch_step_tombs [OF j(3) tomb] j(4) in simp)
      qed (use assms(2) tomb in \<open>auto simp: spawn_child_def Let_def split: if_splits dest!: dissolve_step_tombs\<close>)
      then show ?thesis by (simp add: tombed_def)
    qed (simp add: tombed_def over)
  qed
qed

lemma exited_step:
  assumes "sup_step env sc e s = Some t" and "exited s p"
  shows "exited t p"
proof (cases e)
  case (WatchStep j b)
  then obtain w st st' s' where "watch_step env sc w b st s = Some (st', s')"
    "t = s'\<lparr>sv_watches := (sv_watches s')[j := (w, st')]\<rparr>"
    using assms(1) by (auto split: if_splits prod.splits)
  with watch_step_frame [OF this(1)] assms(2) show ?thesis by (auto simp: frame_on_def exited_def)
next
  case (DissolveStep d)
  then obtain st' s' where "dissolve_step (sv_dissolves s ! d) s = Some (st', s')"
    "t = s'\<lparr>sv_dissolves := (sv_dissolves s')[d := st']\<rparr>"
    using assms(1) by (auto split: if_splits)
  with only_ends_dissolve [OF this(1)] assms(2) show ?thesis
    unfolding only_ends_def exited_def by (metis proc_at_simps(5))
qed (use assms in \<open>auto simp: exited_def spawn_child_def proc_at_spawn proc_at_exit proc_at_lt Let_def
      split: if_splits dest: proc_at_lt\<close>)

lemma doomed_tombed: "doomed_state s a (snd (sv_watches s ! k)) \<Longrightarrow>
    tombed s k a \<or> (\<exists>f. snd (sv_watches s ! k) = Alerting f)"
  by (cases "snd (sv_watches s ! k)") (auto simp: tombed_def loop_over_def)

lemma doomed_step:
  assumes "registry_ok s" and "sup_step env sc e s = Some t" and "loop_of s k a"
    and "doomed_state s a (snd (sv_watches s ! k))"
  shows "doomed_state t a (snd (sv_watches t ! k))"
proof -
  have k: "k < length (sv_watches s)" "wc_agent (fst (sv_watches s ! k)) = a"
    using assms(3) by (simp_all add: loop_of_def)
  have tomb: "tombed t k a \<or> (\<exists>f. snd (sv_watches s ! k) = Alerting f)"
    using doomed_tombed [OF assms(4)] tombed_step [OF assms(1,2,3)] by blast
  have keep: "doomed_state t a st" if "doomed_state s a st" "a \<in> set (sv_tombs t)" for st
    using that exited_step [OF assms(2)] by (cases st) simp_all
  from watch_of_step [OF assms(2) k(1)] consider (same) "sv_watches t ! k = sv_watches s ! k"
    | (own) b w st st' s' where "e = WatchStep k b" "sv_watches s ! k = (w, st)" "sv_watches t ! k = (w, st')"
      "watch_step env sc w b st s = Some (st', s')" by blast
  then show ?thesis
  proof cases
    case same
    show ?thesis
    proof (cases "a \<in> set (sv_tombs t)")
      case True
      then show ?thesis using keep assms(4) same by simp
    next
      case False
      with tomb same show ?thesis by (auto simp: tombed_def loop_over_def)
    qed
  next
    case own
    then have t: "t = s'\<lparr>sv_watches := (sv_watches s')[k := (w, st')]\<rparr>" using assms(2) k by simp
    show ?thesis
      using own(4) assms(4) k own(2,3) t
      by (cases st) (auto simp: take_tombstone_def split: option.splits proc.splits)
  qed
qed

lemma kill_exits:
  assumes "p \<in> set ps" and "proc_at s p \<noteq> None"
  shows "exited (fold (send_signal SIGKILL) ps s) p"
  using assms
proof (induction ps arbitrary: s)
  case (Cons q ps)
  show ?case
  proof (cases "p = q")
    case True
    have "exited (send_signal SIGKILL p s) p"
      using Cons.prems(2) by (cases "the (proc_at s p)") (auto simp: send_signal_def exited_def proc_at_def split: if_splits)
    moreover have "only_ends (send_signal SIGKILL p s) (fold (send_signal SIGKILL) ps (send_signal SIGKILL p s))"
      by (rule only_ends_signals)
    ultimately show ?thesis using True unfolding only_ends_def exited_def by (metis fold_simps(2))
  next
    case False
    moreover have "proc_at (send_signal SIGKILL q s) p \<noteq> None"
      using only_ends_signal [of s SIGKILL q] Cons.prems(2) unfolding only_ends_def exited_def
      by (metis option.distinct(1))
    ultimately show ?thesis using Cons by simp
  qed
qed simp

fun respawning :: "watch_state \<Rightarrow> bool" where
  "respawning (Respawning p f) \<longleftrightarrow> True"
| "respawning (Recording p f) \<longleftrightarrow> True"
| "respawning _ \<longleftrightarrow> False"

fun entered :: "watch_state \<Rightarrow> bool" where
  "entered (Registering p) \<longleftrightarrow> False"
| "entered _ \<longleftrightarrow> True"

lemma grace_dooms:
  assumes "registry_ok s" and "loop_of s k a" and "tombed s k a" and "a \<in> fst ` set targets"
    and "entered (snd (sv_watches s ! k))" and "\<not> respawning (snd (sv_watches s ! k))"
    and "dissolve_step (Grace targets) s = Some (st', t)"
  shows "doomed_state t a (snd (sv_watches s ! k))"
proof -
  let ?st = "snd (sv_watches s ! k)"
  have t: "t = fold (send_signal SIGKILL) (stragglers targets s) s" using assms(7) by simp
  have ok: "watch_ok s (sv_watches s ! k)" and w: "wc_agent (fst (sv_watches s ! k)) = a"
    using assms(1,2) by (simp_all add: registry_ok_def loop_of_def)
  have "exited t p" if "?st = Waiting p f" for p f
    unfolding t
  proof (rule kill_exits)
    from ok that w obtain e where "map_of (sv_agents s) a = Some e" "ae_pid e = Some p"
      by (auto simp: watch_ok_def)
    with assms(4) show "p \<in> set (stragglers targets s)"
      by (force simp: stragglers_def in_map_filter)
    show "proc_at s p \<noteq> None" using ok that by (simp add: watch_ok_def)
  qed
  then show ?thesis
    using assms(3,5,6) by (cases ?st) (auto simp: tombed_def loop_over_def t)
qed

text \<open>The dissolve \<open>d\<close> with targets \<open>tg\<close> has, or still has to, set the tombstone of \<open>a\<close>.\<close>

definition dissolving :: "nat \<Rightarrow> (ident \<times> nat option) list \<Rightarrow> nat \<Rightarrow> ident \<Rightarrow> supervisor \<Rightarrow> bool" where
  "dissolving d tg k a s \<longleftrightarrow> registry_ok s \<and> loop_of s k a \<and> entered (snd (sv_watches s ! k)) \<and>
     d < length (sv_dissolves s) \<and>
     (case sv_dissolves s ! d of
        Tombing todo tg' \<Rightarrow> tg' = tg \<and> (a \<in> set todo \<or> tombed s k a)
      | Grace tg' \<Rightarrow> tg' = tg \<and> tombed s k a
      | Dissolved \<Rightarrow> True)"

lemma entered_step: "watch_step env sc w b st s = Some (st', s') \<Longrightarrow> entered st'"
  by (cases st) (auto simp: watch_ops after_exit_def split: if_splits option.splits proc.splits)

lemma dissolve_of_step:
  assumes "sup_step env sc e s = Some t" and "d < length (sv_dissolves s)"
  shows "d < length (sv_dissolves t) \<and> (sv_dissolves t ! d = sv_dissolves s ! d \<or>
    (\<exists>st' s'. dissolve_step (sv_dissolves s ! d) s = Some (st', s') \<and> sv_dissolves t ! d = st' \<and>
       sv_tombs t = sv_tombs s'))"
proof (cases e)
  case (DissolveStep j)
  then obtain st' s' where "dissolve_step (sv_dissolves s ! j) s = Some (st', s')"
    "t = s'\<lparr>sv_dissolves := (sv_dissolves s')[j := st']\<rparr>"
    using assms(1) by (auto split: if_splits)
  moreover have "sv_dissolves s' = sv_dissolves s"
  proof -
    have "sv_dissolves (fold (send_signal sig) ps r) = sv_dissolves r" for sig ps r
      by (induction ps arbitrary: r) (simp_all add: send_signal_def)
    with calculation(1) show ?thesis
      by (cases "(sv_dissolves s ! j, s)" rule: dissolve_step.cases) (auto simp: set_tombstone_def)
  qed
  ultimately show ?thesis using assms(2) by (cases "j = d") auto
qed (use assms watch_step_same in \<open>auto simp: spawn_child_def Let_def nth_append split: if_splits prod.splits\<close>)

lemma dissolving_step:
  assumes "dissolving d tg k a s" and "sup_next env sc s t"
  shows "dissolving d tg k a t"
proof -
  from assms(2) obtain e where e: "spawns_afresh e s" "sup_step env sc e s = Some t" by (rule sup_nextE)
  have s: "registry_ok s" "loop_of s k a" "entered (snd (sv_watches s ! k))" "d < length (sv_dissolves s)"
    using assms(1) by (simp_all add: dissolving_def)
  have k: "k < length (sv_watches s)" using s(2) by (simp add: loop_of_def)
  have "entered (snd (sv_watches t ! k))"
    using watch_of_step [OF e(2) k] s(3) entered_step by fastforce
  moreover have "tombed s k a \<Longrightarrow> tombed t k a" by (rule tombed_step [OF s(1) e(2) s(2)])
  moreover have "a \<in> set (sv_tombs t) \<Longrightarrow> tombed t k a" by (simp add: tombed_def)
  ultimately show ?thesis
    using dissolve_of_step [OF e(2) s(4)] assms(1) registry_step [OF s(1) e] loop_of_step [OF e(2) s(2)]
    by (cases "(sv_dissolves s ! d, s)" rule: dissolve_step.cases)
       (auto simp: dissolving_def set_tombstone_def split: dissolve_state.splits)
qed

lemma doomed_run:
  assumes "(sup_next env sc)\<^sup>*\<^sup>* s t" and "registry_ok s" and "loop_of s k a"
    and "doomed_state s a (snd (sv_watches s ! k))"
  shows "registry_ok t \<and> loop_of t k a \<and> doomed_state t a (snd (sv_watches t ! k))"
  using assms
  by (induction rule: rtranclp_induct)
     (auto elim!: sup_nextE intro: registry_step loop_of_step doomed_step)

lemma doomed_stopped: "doomed_state s a st \<Longrightarrow> run_pid st = Some p \<Longrightarrow> exited s p"
  by (cases st) simp_all

text \<open>C26: A dissolve stops the workers of its startup for good. Take an agent of the startup that is in the
  registry when the dissolve reads it, whose loop is not in the middle of a respawn when the grace
  period ends: from then on, whatever else happens, its loop never holds a running process again. The one
  condition on what else happens is that no second loop is spawned for an agent that has one (\<open>sup_next\<close>);
  \<open>second_worker_escapes_dissolve\<close> shows what becomes of it otherwise.
\<close>
theorem dissolved_workers_stop:
  assumes "registry_ok s0" and "watched_by s0 k a" and "registered (snd (sv_watches s0 ! k))"
    and "wc_startup (fst (sv_watches s0 ! k)) = sid"
    and "sup_step env sc (DissolveStartup sid) s0 = Some s1" and "d = length (sv_dissolves s0)"
    and "(sup_next env sc)\<^sup>*\<^sup>* s1 s2" and "sv_dissolves s2 ! d = Grace tg"
    and "\<not> respawning (snd (sv_watches s2 ! k))"
    and "sup_step env sc (DissolveStep d) s2 = Some s3"
    and "(sup_next env sc)\<^sup>*\<^sup>* s3 t" and "run_pid (snd (sv_watches t ! k)) = Some p"
  shows "exited t p"
proof -
  let ?tg = "dissolve_targets sid s0"
  have k: "k < length (sv_watches s0)" "wc_agent (fst (sv_watches s0 ! k)) = a"
    using assms(2) by (simp_all add: watched_by_def)
  then have "watch_ok s0 (sv_watches s0 ! k)" using assms(1) by (simp add: registry_ok_def)
  with assms(3,4) k obtain e where "map_of (sv_agents s0) a = Some e" "ae_startup e = sid"
    by (auto simp: watch_ok_def)
  then have a: "a \<in> fst ` set ?tg" by (force simp: dissolve_targets_def dest: map_of_SomeD)
  have e: "entered (snd (sv_watches s0 ! k))" using assms(3) by (cases "snd (sv_watches s0 ! k)") auto
  have "registry_ok s1" by (rule registry_step [OF assms(1) _ assms(5)]) simp
  moreover have "s1 = s0\<lparr>sv_dissolves := sv_dissolves s0 @ [Tombing (map fst ?tg) ?tg]\<rparr>"
    using assms(5) by (simp add: Let_def)
  ultimately have "dissolving d ?tg k a s1"
    using a k e assms(6) by (simp add: dissolving_def loop_of_def nth_append)
  with assms(7) have "dissolving d ?tg k a s2"
    by (induction rule: rtranclp_induct) (auto intro: dissolving_step)
  with assms(8) have s2: "registry_ok s2" "loop_of s2 k a" "tombed s2 k a" "tg = ?tg"
    "entered (snd (sv_watches s2 ! k))" by (auto simp: dissolving_def)
  from assms(8,10) have s3: "s3 = (fold (send_signal SIGKILL) (stragglers tg s2) s2)
      \<lparr>sv_dissolves := (sv_dissolves (fold (send_signal SIGKILL) (stragglers tg s2) s2))[d := Dissolved]\<rparr>"
    (is "_ = ?u\<lparr>sv_dissolves := _\<rparr>") by (auto split: if_splits)
  have "doomed_state ?u a (snd (sv_watches s2 ! k))"
    by (rule grace_dooms [OF s2(1,2,3) _ s2(5) assms(9), of tg]) (use a s2(4) in simp_all)
  moreover have "sv_watches s3 = sv_watches s2"
    using only_ends_signals [of s2 SIGKILL "stragglers tg s2"] by (simp add: s3 only_ends_def)
  moreover have "doomed_state s3 a st = doomed_state ?u a st" for st
    by (cases st) (simp_all add: s3 exited_def)
  ultimately have "doomed_state s3 a (snd (sv_watches s3 ! k))" by simp
  moreover have "registry_ok s3" by (rule registry_step [OF s2(1) _ assms(10)]) simp
  ultimately have "doomed_state t a (snd (sv_watches t ! k))"
    using doomed_run [OF assms(11)] loop_of_step [OF assms(10) s2(2)] by blast
  then show ?thesis using assms(12) by (rule doomed_stopped)
qed

section \<open>Concrete runs\<close>

definition sample_worker :: worker_config where
  "sample_worker = \<lparr> wc_agent = ''e1'', wc_startup = ''s1'', wc_world_url = ''ws://h/ws/worker'',
     wc_secret = ''x'', wc_workspace = ''/ws'', wc_backend = ''codex'', wc_task = None \<rparr>"

definition sample_supervised :: "sys \<Rightarrow> supervisor" where
  "sample_supervised x = (new_supervisor x)\<lparr>
     sv_agents := [(''e1'', \<lparr> ae_pid = Some 0, ae_startup = ''s1'' \<rparr>)],
     sv_watches := [(sample_worker, Waiting 0 0)], sv_procs := [Running]\<rparr>"

lemma sample_supervised_run:
  "sup_run env sc [SpawnAgent sample_worker True, WatchStep 0 True] (new_supervisor x) =
     Some (sample_supervised x)"
  by (simp add: sample_supervised_def new_supervisor_def spawn_child_def register_child_def sample_worker_def)

lemma quiet_run:
  assumes "sup_run env sc es s = Some t" and "list_all (\<lambda>e. case e of SpawnAgent w b \<Rightarrow> False | _ \<Rightarrow> True) es"
  shows "(sup_next env sc)\<^sup>*\<^sup>* s t"
  using assms
proof (induction es arbitrary: s)
  case (Cons e es)
  then obtain u where "sup_step env sc e s = Some u" "sup_run env sc es u = Some t"
    by (auto split: Option.bind_splits)
  moreover have "spawns_afresh e s" using Cons.prems(2) by (cases e) auto
  ultimately show ?case
    using Cons by (auto intro: converse_rtranclp_into_rtranclp sup_nextI)
qed simp

lemma sample_supervised_reached:
  "reach (\<lambda>s. s = new_supervisor x) (sup_next env sc) (sample_supervised x)"
proof -
  have "\<not> watched_by (new_supervisor x) k a" for k a by (simp add: watched_by_def new_supervisor_def)
  then have "sup_next env sc (new_supervisor x) ((new_supervisor x)\<lparr>sv_procs := [Running],
      sv_watches := [(sample_worker, Registering 0)]\<rparr>)" (is "sup_next _ _ _ ?u")
    by (intro sup_nextI [of "SpawnAgent sample_worker True"]) (simp_all add: spawn_child_def new_supervisor_def)
  moreover have "sup_next env sc ?u (sample_supervised x)"
    by (rule sup_nextI [of "WatchStep 0 True"])
       (simp_all add: sample_supervised_def new_supervisor_def register_child_def sample_worker_def)
  ultimately show ?thesis by (blast intro: reach.intros)
qed

theorem every_worker_is_watched_witness:
  "proc_at (sample_supervised sample_sys) 0 = Some Running \<and>
   distinct (map fst (sv_agents (sample_supervised sample_sys))) \<and>
   (\<exists>k < length (sv_watches (sample_supervised sample_sys)).
      run_pid (snd (sv_watches (sample_supervised sample_sys) ! k)) = Some 0)"
proof -
  have "proc_at (sample_supervised sample_sys) 0 = Some Running"
    by (simp add: sample_supervised_def proc_at_def)
  with every_worker_is_watched
    [OF sample_supervised_reached [of sample_sys sample_env "default_supervisor None"]]
  show ?thesis by blast
qed

definition sample_starting :: supervisor where
  "sample_starting = (new_supervisor sample_sys)\<lparr>sv_watches := [(sample_worker, Registering 0)],
     sv_procs := [Running]\<rparr>"

theorem watch_loops_end_witness:
  "length (filter (own_step 0) [WatchStep 0 True, ChildExit 0 True, WatchStep 0 True, WatchStep 0 True,
     WatchStep 0 True]) \<le> 20"
proof -
  let ?es = "[WatchStep 0 True, ChildExit 0 True, WatchStep 0 True, WatchStep 0 True, WatchStep 0 True]"
  have "\<exists>t. sup_run sample_env (default_supervisor None) ?es sample_starting = Some t"
    by (simp add: sample_starting_def new_supervisor_def proc_at_def register_child_def take_tombstone_def
        after_exit_def remove_agent_def)
  then obtain t where "sup_run sample_env (default_supervisor None) ?es sample_starting = Some t" by blast
  from watch_loops_end [OF this, of 0 sample_worker 0 True]
  show ?thesis by (simp add: sample_starting_def default_supervisor_def DEFAULT_BACKOFF_MS_def)
qed

theorem dissolved_workers_stop_witness:
  "\<exists>t. sup_run sample_env (default_supervisor None)
      [DissolveStartup ''s1'', DissolveStep 0, DissolveStep 0, DissolveStep 0]
      (sample_supervised sample_sys) = Some t \<and> run_pid (snd (sv_watches t ! 0)) = Some 0 \<and> exited t 0"
proof -
  let ?sc = "default_supervisor None" and ?s0 = "sample_supervised sample_sys"
  note defs = sample_supervised_def new_supervisor_def dissolve_targets_def stragglers_def send_signal_def
    set_tombstone_def proc_at_def sample_worker_def Let_def map_filter_simps
  have "\<exists>s1 s2 s3. sup_step sample_env ?sc (DissolveStartup ''s1'') ?s0 = Some s1 \<and>
      sup_run sample_env ?sc [DissolveStep 0, DissolveStep 0] s1 = Some s2 \<and>
      sv_dissolves s2 ! 0 = Grace [(''e1'', Some 0)] \<and> snd (sv_watches s2 ! 0) = Waiting 0 0 \<and>
      sup_step sample_env ?sc (DissolveStep 0) s2 = Some s3 \<and> run_pid (snd (sv_watches s3 ! 0)) = Some 0"
    by (simp add: defs)
  then obtain s1 s2 s3 where s1: "sup_step sample_env ?sc (DissolveStartup ''s1'') ?s0 = Some s1"
    and s2: "sup_run sample_env ?sc [DissolveStep 0, DissolveStep 0] s1 = Some s2"
      "sv_dissolves s2 ! 0 = Grace [(''e1'', Some 0)]" "snd (sv_watches s2 ! 0) = Waiting 0 0"
    and s3: "sup_step sample_env ?sc (DissolveStep 0) s2 = Some s3"
      "run_pid (snd (sv_watches s3 ! 0)) = Some 0" by blast
  have "registry_ok ?s0"
  proof -
    have "reach (\<lambda>s. \<exists>w. s = new_supervisor w) (sup_next sample_env ?sc) ?s0"
      using sample_supervised_reached [of sample_sys] by (induction rule: reach.induct) (auto intro: reach.intros)
    then show ?thesis by (rule registry.reach_inv)
  qed
  moreover have "watched_by ?s0 0 ''e1''" "registered (snd (sv_watches ?s0 ! 0))"
    "wc_startup (fst (sv_watches ?s0 ! 0)) = ''s1''" "0 = length (sv_dissolves ?s0)"
    by (simp_all add: watched_by_def sample_supervised_def sample_worker_def new_supervisor_def)
  moreover have "(sup_next sample_env ?sc)\<^sup>*\<^sup>* s1 s2" by (rule quiet_run [OF s2(1)]) simp
  moreover have "\<not> respawning (snd (sv_watches s2 ! 0))" using s2(3) by simp
  ultimately have "exited s3 0"
    using dissolved_workers_stop [of ?s0 0 "''e1''" "''s1''" sample_env ?sc s1 0 s2] s1 s2(2) s3 by blast
  moreover have "sup_run sample_env ?sc ([DissolveStartup ''s1''] @ ([DissolveStep 0, DissolveStep 0] @ [DissolveStep 0]))
      ?s0 = Some s3"
  proof -
    have "sup_run sample_env ?sc [DissolveStartup ''s1''] ?s0 = Some s1"
      by (simp only: sup_run.simps s1 Option.bind.simps)
    moreover have "sup_run sample_env ?sc [DissolveStep 0] s2 = Some s3"
      by (simp only: sup_run.simps s3(1) Option.bind.simps)
    ultimately show ?thesis by (simp only: sup_run_append s2(1) Option.bind.simps)
  qed
  ultimately show ?thesis using s3(2) by auto
qed

text \<open>C28: Two loops for one agent break the registry. When a second worker is spawned for an agent whose
  first worker is still there, here from an empty supervisor and with a first worker that exits cleanly, its
  exit removes the entry of the second: the second runs on, unlisted, and a later dissolve of the startup
  sends it no signal.
\<close>
theorem second_worker_escapes_dissolve:
  "\<exists>t. sup_run env sc [SpawnAgent w True, WatchStep 0 b, SpawnAgent w True, WatchStep 1 b,
      ChildExit 0 True, WatchStep 0 b, WatchStep 0 b, WatchStep 0 b,
      DissolveStartup (wc_startup w), DissolveStep 0, DissolveStep 0] (new_supervisor x) = Some t \<and>
     sv_dissolves t = [Dissolved] \<and> sv_signals t = [] \<and> agent_count t = 0 \<and> proc_at t 1 = Some Running"
  by (simp add: new_supervisor_def spawn_child_def register_child_def proc_at_def take_tombstone_def
      after_exit_def remove_agent_def dissolve_targets_def stragglers_def Let_def agent_count_def
      map_filter_simps)

end
