(* ===== verification/Seed.thy ===== *)
theory Seed
  imports McpSkills Sample
begin

text \<open>
  The first boot and the restart: \<open>seed_if_empty\<close> of \<open>seed.rs\<close> writes the town to the database, and
  \<open>main.rs\<close> starts the loop on the default layout and an empty view. The text of the map file
  \<open>seed/town_default.json\<close>, which is stored and never read, is an argument.
\<close>

section \<open>seed_if_empty\<close>

definition quoted :: "string \<Rightarrow> string" where
  "quoted s = [CHR 0x22] @ s @ [CHR 0x22]"

text \<open>The raw string literals of the room bounds.\<close>

definition bounds_lit :: "string \<Rightarrow> string \<Rightarrow> string \<Rightarrow> string \<Rightarrow> string" where
  "bounds_lit x y w h = ''{'' @ quoted ''x'' @ '':'' @ x @ '','' @ quoted ''y'' @ '':'' @ y @ '','' @
     quoted ''w'' @ '':'' @ w @ '','' @ quoted ''h'' @ '':'' @ h @ ''}''"

definition TOWN_ID :: ident where
  "TOWN_ID = ''town_default''"

definition seed_rooms :: "(ident \<times> string \<times> string \<times> string) list" where
  "seed_rooms =
     [(''suite_1'', ''Suite 1'', ''office'', bounds_lit ''0'' ''0'' ''7'' ''6''),
      (''suite_2'', ''Suite 2'', ''office'', bounds_lit ''0'' ''6'' ''7'' ''6''),
      (''suite_3'', ''Suite 3'', ''office'', bounds_lit ''33'' ''0'' ''7'' ''6''),
      (''suite_4'', ''Suite 4'', ''office'', bounds_lit ''33'' ''6'' ''7'' ''6''),
      (''lobby'', ''Lobby'', ''transit'', bounds_lit ''7'' ''4'' ''26'' ''4''),
      (''cafe'', ''Cafe'', ''social'', bounds_lit ''7'' ''0'' ''26'' ''4''),
      (''library'', ''Library'', ''focus'', bounds_lit ''7'' ''8'' ''26'' ''4'')]"

definition seed_doors :: "(ident \<times> ident \<times> ident \<times> int \<times> int) list" where
  "seed_doors =
     [(''door_s1_lobby'', ''suite_1'', ''lobby'', 7, 4),
      (''door_s2_lobby'', ''suite_2'', ''lobby'', 7, 7),
      (''door_s3_lobby'', ''suite_3'', ''lobby'', 33, 4),
      (''door_s4_lobby'', ''suite_4'', ''lobby'', 33, 7),
      (''door_lobby_cafe'', ''lobby'', ''cafe'', 20, 4),
      (''door_lobby_library'', ''lobby'', ''library'', 20, 8)]"

text \<open>The constraints of an insertion: a free key and a town that exists.\<close>

definition key_check :: "bool \<Rightarrow> bool \<Rightarrow> sql_error option" where
  "key_check free parent = (if \<not> free then Some UniqueViolation else fk parent)"

definition insert_town :: "ident \<Rightarrow> string \<Rightarrow> string \<Rightarrow> (sys, sql_error, unit) sem" where
  "insert_town i name map_json = sql_checked
     (\<lambda>d. key_check (find_row tw_id i (d_towns d) = None) True)
     (\<lambda>s. (db s)\<lparr>d_towns := d_towns (db s) @ [\<lparr> tw_id = i, tw_name = name, tw_map = map_json \<rparr>]\<rparr>)"

definition insert_room :: "ident \<times> string \<times> string \<times> string \<Rightarrow> (sys, sql_error, unit) sem" where
  "insert_room r = (case r of (i, name, kind, bounds) \<Rightarrow> sql_checked
     (\<lambda>d. key_check (find_row rm_id i (d_rooms d) = None) (find_row tw_id TOWN_ID (d_towns d) \<noteq> None))
     (\<lambda>s. (db s)\<lparr>d_rooms := d_rooms (db s) @ [\<lparr> rm_id = i, rm_town = TOWN_ID, rm_name = name,
        rm_type = kind, rm_bounds = bounds, rm_private_to = None \<rparr>]\<rparr>))"

definition insert_door :: "ident \<times> ident \<times> ident \<times> int \<times> int \<Rightarrow> (sys, sql_error, unit) sem" where
  "insert_door r = (case r of (i, a, b, x, y) \<Rightarrow> sql_checked
     (\<lambda>d. key_check (find_row dr_id i (d_doors d) = None) (find_row tw_id TOWN_ID (d_towns d) \<noteq> None))
     (\<lambda>s. (db s)\<lparr>d_doors := d_doors (db s) @ [\<lparr> dr_id = i, dr_town = TOWN_ID, dr_room_a = a,
        dr_room_b = b, dr_x = x, dr_y = y \<rparr>]\<rparr>))"

definition seed_if_empty :: "string \<Rightarrow> (sys, sql_error, unit) sem" where
  "seed_if_empty map_json =
     bindE (sql_query (\<lambda>d. length (d_towns d))) (\<lambda>count.
     if count > 0 then ret ()
     else transactE id
       (thenE (insert_town TOWN_ID ''Default Town'' map_json)
       (thenE (forE seed_rooms insert_room)
       (forE seed_doors insert_door))))"

section \<open>Boot\<close>

text \<open>What \<open>main\<close> hands to the loop, whatever the database holds.\<close>

definition restart :: "sys \<Rightarrow> sys" where
  "restart s = s\<lparr>tick_seq := 0, catalog := [], avatars := [], paths := [], layout := default_town,
     out_bus := [], frames := []\<rparr>"

section \<open>Properties\<close>

definition bounds_text :: "bounds \<Rightarrow> string" where
  "bounds_text b = (case b of (x, y, w, h) \<Rightarrow>
     bounds_lit (show_int x) (show_int y) (show_int w) (show_int h))"

definition same_town :: "town_layout \<Rightarrow> database \<Rightarrow> bool" where
  "same_town l d \<longleftrightarrow>
     map (\<lambda>r. (rm_id r, rm_bounds r, rm_private_to r)) (d_rooms d) =
       map (\<lambda>r. (rd_id r, bounds_text (rd_bounds r), rd_private_to r)) (tl_rooms l) \<and>
     map (\<lambda>r. (dr_id r, dr_room_a r, dr_room_b r, (dr_x r, dr_y r))) (d_doors d) =
       map (\<lambda>r. (dd_id r, dd_a_room r, dd_b_room r, dd_tile r)) (tl_doors l) \<and>
     map tw_id (d_towns d) = [tl_town_id l]"

definition town_empty :: "database \<Rightarrow> bool" where
  "town_empty d \<longleftrightarrow> d_towns d = [] \<and> d_rooms d = [] \<and> d_doors d = []"

lemma wp_forE_Nil [wp]: "wpE (forE [] body) Q E = Q ()"
  by (simp add: wp)

lemma wp_forE_Cons [wp]: "wpE (forE (x # xs) body) Q E = wpE (body x) (\<lambda>_. wpE (forE xs body) Q E) E"
  by (simp add: wp)

lemma seeded_rooms:
  "map (\<lambda>(i, n, k, b). (i, b, None)) seed_rooms =
     map (\<lambda>r. (rd_id r, bounds_text (rd_bounds r), rd_private_to r)) (tl_rooms default_town)"
  by code_simp

lemma seeded_doors:
  "map (\<lambda>(i, a, b, x, y). (i, a, b, (x, y))) seed_doors =
     map (\<lambda>r. (dd_id r, dd_a_room r, dd_b_room r, dd_tile r)) (tl_doors default_town)"
  by (simp add: seed_doors_def default_town_def)

definition seeded_room :: "ident \<times> string \<times> string \<times> string \<Rightarrow> room_row" where
  "seeded_room r = (case r of (i, name, kind, bounds) \<Rightarrow> \<lparr> rm_id = i, rm_town = TOWN_ID, rm_name = name,
     rm_type = kind, rm_bounds = bounds, rm_private_to = None \<rparr>)"

definition seeded_door :: "ident \<times> ident \<times> ident \<times> int \<times> int \<Rightarrow> door_row" where
  "seeded_door r = (case r of (i, a, b, x, y) \<Rightarrow> \<lparr> dr_id = i, dr_town = TOWN_ID, dr_room_a = a,
     dr_room_b = b, dr_x = x, dr_y = y \<rparr>)"

lemma insert_rooms:
  assumes "faults s = []" and "find_row tw_id TOWN_ID (d_towns (db s)) \<noteq> None"
    and "distinct (map rm_id (d_rooms (db s)) @ map fst rs)"
  shows "forE rs insert_room s = (Inr (), s\<lparr>db := (db s)\<lparr>d_rooms := d_rooms (db s) @ map seeded_room rs\<rparr>\<rparr>)"
  using assms
proof (induction rs arbitrary: s)
  case Nil
  then show ?case by (simp add: ret_def)
next
  case (Cons r rs)
  obtain i n k b where r: "r = (i, n, k, b)" by (cases r) auto
  have "find_row rm_id i (d_rooms (db s)) = None" using Cons.prems(3) r by (auto simp: find_row_None)
  then have "insert_room r s = (Inr (), s\<lparr>db := (db s)\<lparr>d_rooms := d_rooms (db s) @ [seeded_room r]\<rparr>\<rparr>)"
    using Cons.prems(1,2) by (simp add: insert_room_def r sql_checked_def sql_stmt_def key_check_def seeded_room_def)
  then show ?case
    using Cons.IH [of "s\<lparr>db := (db s)\<lparr>d_rooms := d_rooms (db s) @ [seeded_room r]\<rparr>\<rparr>"] Cons.prems
    by (simp add: thenE_def bindE_def r seeded_room_def)
qed

lemma insert_doors:
  assumes "faults s = []" and "find_row tw_id TOWN_ID (d_towns (db s)) \<noteq> None"
    and "distinct (map dr_id (d_doors (db s)) @ map fst rs)"
  shows "forE rs insert_door s = (Inr (), s\<lparr>db := (db s)\<lparr>d_doors := d_doors (db s) @ map seeded_door rs\<rparr>\<rparr>)"
  using assms
proof (induction rs arbitrary: s)
  case Nil
  then show ?case by (simp add: ret_def)
next
  case (Cons r rs)
  obtain i a b x y where r: "r = (i, a, b, x, y)" by (cases r) auto
  have "find_row dr_id i (d_doors (db s)) = None" using Cons.prems(3) r by (auto simp: find_row_None)
  then have "insert_door r s = (Inr (), s\<lparr>db := (db s)\<lparr>d_doors := d_doors (db s) @ [seeded_door r]\<rparr>\<rparr>)"
    using Cons.prems(1,2) by (simp add: insert_door_def r sql_checked_def sql_stmt_def key_check_def seeded_door_def)
  then show ?case
    using Cons.IH [of "s\<lparr>db := (db s)\<lparr>d_doors := d_doors (db s) @ [seeded_door r]\<rparr>\<rparr>"] Cons.prems
    by (simp add: thenE_def bindE_def r seeded_door_def)
qed

text \<open>C38: On an empty database the seed writes the town the program also holds in memory: the same rooms in
  the same order with the same bounds, nobody's property, the same doors on the same tiles; a second
  boot changes nothing.\<close>
theorem seed_matches_layout:
  assumes "faults s = []" and "town_empty (db s)"
  shows "\<exists>t. seed_if_empty map_json s = (Inr (), t) \<and> same_town default_town (db t) \<and>
    seed_if_empty map_json t = (Inr (), t)"
proof -
  have same: "s\<lparr>faults := []\<rparr> = s" using assms(1) by (cases s) simp
  let ?tw = "[\<lparr> tw_id = TOWN_ID, tw_name = ''Default Town'', tw_map = map_json \<rparr>]"
  let ?s1 = "s\<lparr>db := (db s)\<lparr>d_towns := ?tw\<rparr>\<rparr>"
  let ?s2 = "?s1\<lparr>db := (db ?s1)\<lparr>d_rooms := map seeded_room seed_rooms\<rparr>\<rparr>"
  let ?t = "?s2\<lparr>db := (db ?s2)\<lparr>d_doors := map seeded_door seed_doors\<rparr>\<rparr>"
  have "insert_town TOWN_ID ''Default Town'' map_json s = (Inr (), ?s1)"
    using assms by (simp add: insert_town_def sql_checked_def sql_stmt_def key_check_def town_empty_def)
  moreover have "forE seed_rooms insert_room ?s1 = (Inr (), ?s2)"
    using insert_rooms [of ?s1 seed_rooms] assms by (simp add: town_empty_def seed_rooms_def)
  moreover have "forE seed_doors insert_door ?s2 = (Inr (), ?t)"
    using insert_doors [of ?s2 seed_doors] assms by (simp add: town_empty_def seed_doors_def)
  ultimately have run: "seed_if_empty map_json s = (Inr (), ?t)"
    using assms by (simp add: seed_if_empty_def bindE_def thenE_def transactE_def mapErr_def sql_nop_def
        sql_exec_def sql_query_def sql_stmt_def town_empty_def same)
  have "map (\<lambda>r. (rm_id r, rm_bounds r, rm_private_to r)) (map seeded_room seed_rooms) =
      map (\<lambda>(i, n, k, b). (i, b, None)) seed_rooms"
    by (simp add: seeded_room_def case_prod_beta comp_def)
  moreover have "map (\<lambda>r. (dr_id r, dr_room_a r, dr_room_b r, (dr_x r, dr_y r))) (map seeded_door seed_doors) =
      map (\<lambda>(i, a, b, x, y). (i, a, b, (x, y))) seed_doors"
    by (simp add: seeded_door_def case_prod_beta comp_def)
  ultimately have "same_town default_town (db ?t)"
    unfolding same_town_def using seeded_rooms seeded_doors by (simp add: TOWN_ID_def default_town_def)
  moreover have "seed_if_empty map_json ?t = (Inr (), ?t)"
    using assms by (simp add: seed_if_empty_def bindE_def sql_query_def sql_stmt_def ret_def same)
  ultimately show ?thesis using run by blast
qed

theorem seed_matches_layout_witness:
  "\<exists>t. seed_if_empty ''{}'' sample_sys = (Inr (), t) \<and> same_town default_town (db t)"
proof -
  have "town_empty (db sample_sys)" by (simp add: town_empty_def sample_db_def)
  then show ?thesis using seed_matches_layout [of sample_sys "''{}''"] by auto
qed

end
