(* ===== verification/Server.thy ===== *)
theory Server
  imports WorldLoop Supervisor Seed Presence
begin

text \<open>
  The process around the loop: what an HTTP handler sees, and the startup API of \<open>api_startups.rs\<close>. The
  state is the supervisor with the world it writes to, the process environment, the commands sent to
  the loop, whether the loop is still there and whether it waits for ever in a command, the operators
  present and the catalogue the API serves. A
  handler runs to its end before another one; its early returns are responses.
\<close>

section \<open>State\<close>

record server =
  sr_sup :: supervisor
  sr_vars :: "(string \<times> string) list"
  sr_queue :: "cmd list"
  sr_up :: bool
  sr_stuck :: bool
  sr_presence :: registry
  sr_catalog :: "(string \<times> json) list"

datatype http_body = JsonBody json | EmptyBody

record response =
  rs_status :: nat
  rs_body :: http_body

record json_rpc_request =
  jr_jsonrpc :: string
  jr_id :: "json option"
  jr_method :: string
  jr_params :: json

text \<open>
  What the handlers take from outside, besides \<open>env\<close>: whether a worker process starts, what an agent CLI says of itself, the text of a
  \<open>serde_json\<close> error, the package version, the deserializers derived for the messages, and how a
  per-task worker is spawned.
\<close>

record host =
  ho_env :: env
  ho_spawns :: "worker_config \<Rightarrow> bool"
  ho_supervisor :: supervisor_config
  ho_json_error :: "string \<Rightarrow> string"
  ho_version :: string
  ho_probe :: "string \<Rightarrow> (bool \<times> string) option"
  ho_spawner :: spawner
  ho_codecs :: decoders
  ho_rpc_decode :: "string \<Rightarrow> json_rpc_request option"

type_synonym 'a api = "(server, response, 'a) sem"

definition world :: "server \<Rightarrow> sys" where
  "world s = sv_world (sr_sup s)"

definition set_world :: "sys \<Rightarrow> server \<Rightarrow> server" where
  "set_world w s = s\<lparr>sr_sup := (sr_sup s)\<lparr>sv_world := w\<rparr>\<rparr>"

definition on_world :: "(sys, 'e, 'a) sem \<Rightarrow> (server, 'e, 'a) sem" where
  "on_world m = (\<lambda>s. case m (world s) of (r, w) \<Rightarrow> (r, set_world w s))"

text \<open>\<open>handle.tx.send(..)\<close>: whether the loop is there to receive.\<close>

definition send_cmd :: "cmd \<Rightarrow> (server, 'e, bool) sem" where
  "send_cmd k = (\<lambda>s. if sr_up s then (Inr True, s\<lparr>sr_queue := sr_queue s @ [k]\<rparr>) else (Inr False, s))"

definition env_var :: "string \<Rightarrow> server \<Rightarrow> string option" where
  "env_var k s = map_of (sr_vars s) k"

definition set_var :: "string \<Rightarrow> string \<Rightarrow> (server, 'e, unit) sem" where
  "set_var k v = modifyE (\<lambda>s. s\<lparr>sr_vars := AList.update k v (sr_vars s)\<rparr>)"

definition secret_var :: "ident \<Rightarrow> string" where
  "secret_var agent_id = ''CLIPTOWN_AGENT_SECRET_'' @ agent_id"

definition agent_secret :: "server \<Rightarrow> ident \<Rightarrow> string option" where
  "agent_secret s agent_id = env_var (secret_var agent_id) s"

text \<open>One event of the supervisor; the events the handlers cause are always possible.\<close>

definition sup_event_now :: "host \<Rightarrow> sup_event \<Rightarrow> (server, 'e, unit) sem" where
  "sup_event_now h e = modifyE (\<lambda>s. case sup_step (ho_env h) (ho_supervisor h) e (sr_sup s) of
      None \<Rightarrow> s | Some p \<Rightarrow> s\<lparr>sr_sup := p\<rparr>)"

definition spawn_agent :: "host \<Rightarrow> worker_config \<Rightarrow> (server, 'e, unit) sem" where
  "spawn_agent h w =
     bindE (asksE (\<lambda>s. length (sv_watches (sr_sup s)))) (\<lambda>k.
     thenE (sup_event_now h (SpawnAgent w (ho_spawns h w)))
       (sup_event_now h (WatchStep k True)))"

definition dissolve_startup :: "host \<Rightarrow> ident \<Rightarrow> (server, 'e, unit) sem" where
  "dissolve_startup h startup_id =
     bindE (asksE (\<lambda>s. (length (sv_dissolves (sr_sup s)), length (dissolve_targets startup_id (sr_sup s)))))
       (\<lambda>(d, n).
       thenE (sup_event_now h (DissolveStartup startup_id))
         (forE (replicate (n + 2) d) (\<lambda>d. sup_event_now h (DissolveStep d))))"

lemma world_simps [simp]: "world (set_world w s) = w" "sr_queue (set_world w s) = sr_queue s"
  "sr_up (set_world w s) = sr_up s" "sr_stuck (set_world w s) = sr_stuck s" "world (s\<lparr>sr_stuck := b\<rparr>) = world s" "world (s\<lparr>sr_presence := pr\<rparr>) = world s"
  "world (s\<lparr>sr_catalog := cat\<rparr>) = world s" "sr_vars (set_world w s) = sr_vars s"
  "set_world w (set_world u s) = set_world w s"
  "world (s\<lparr>sr_vars := vs\<rparr>) = world s" "world (s\<lparr>sr_queue := q\<rparr>) = world s" "world (s\<lparr>sr_up := b\<rparr>) = world s"
  by (simp_all add: world_def set_world_def)

lemma set_world_same [simp]: "set_world (world s) s = s"
  by (simp add: world_def set_world_def)

lemma wp_on_world [wp]: "wpE (on_world m) Q E =
    (\<lambda>s. wpE m (\<lambda>a w. Q a (set_world w s)) (\<lambda>e w. E e (set_world w s)) (world s))"
  by (simp add: fun_eq_iff wpE_def on_world_def split: prod.split sum.split)

section \<open>Responses\<close>

definition json_reply :: "nat \<Rightarrow> json \<Rightarrow> response" where
  "json_reply status body = \<lparr> rs_status = status, rs_body = JsonBody body \<rparr>"

definition reply_err :: "nat \<Rightarrow> string \<Rightarrow> response" where
  "reply_err status message = json_reply status (JObj [(''error'', JStr message)])"

definition sql_500 :: "env \<Rightarrow> sql_error \<Rightarrow> response" where
  "sql_500 env e = reply_err 500 (e_sql_text env e)"

definition operator_token_var :: "server \<Rightarrow> string option" where
  "operator_token_var s = env_var ''CLIPTOWN_OPERATOR_TOKEN'' s"

definition require_operator :: "host \<Rightarrow> headers \<Rightarrow> operator_identity api" where
  "require_operator h hs =
     bindE (asksE operator_token_var) (\<lambda>tok.
     mapErr (\<lambda>_. reply_err 401 ''unauthorized'')
       (on_world (validate_operator_token (ho_env h) tok (extract_operator_token hs))))"

section \<open>Creation of a startup\<close>

record create_startup_request =
  cq_name :: string
  cq_goal_text :: string
  cq_budget_cap :: real
  cq_founder :: string
  cq_engineer :: string
  cq_designer :: string

definition HOME_DESK_OFFSETS :: "(string \<times> int \<times> int) list" where
  "HOME_DESK_OFFSETS = [(''founder'', 1, 1), (''engineer'', 3, 1), (''designer'', 5, 1)]"

definition ALLOWED_BACKENDS :: "string list" where
  "ALLOWED_BACKENDS = [''claude_code'', ''codex'', ''opencode'']"

definition desk_offset :: "string \<Rightarrow> int \<times> int" where
  "desk_offset role = (case map_of HOME_DESK_OFFSETS role of None \<Rightarrow> (1, 1) | Some o' \<Rightarrow> o')"

definition budget_cap_ok :: "real \<Rightarrow> bool" where
  "budget_cap_ok v \<longleftrightarrow> 0 \<le> v \<and> v < 1000000"

definition free_suite :: "database \<Rightarrow> (ident \<times> string) option" where
  "free_suite d =
     (case sort_key rm_id (filter (\<lambda>r. rm_type r = ''office'' \<and> rm_private_to r = None) (d_rooms d)) of
        [] \<Rightarrow> None
      | r # _ \<Rightarrow> Some (rm_id r, rm_bounds r))"

text \<open>\<open>bounds.get(k).and_then(as_i64).unwrap_or(0) as i32\<close>\<close>

definition bounds_coord :: "string \<Rightarrow> json \<Rightarrow> int" where
  "bounds_coord k j = as_i32 (case get_i64 k j of None \<Rightarrow> 0 | Some i \<Rightarrow> i)"

definition desk_tile :: "int \<times> int \<Rightarrow> string \<Rightarrow> tile" where
  "desk_tile corner role =
     (as_i32 (fst corner + fst (desk_offset role)), as_i32 (snd corner + snd (desk_offset role)))"

definition workspace_path_of :: "ident \<Rightarrow> string" where
  "workspace_path_of startup_id = ''workspaces/'' @ startup_id"

definition insert_startup :: "ident \<Rightarrow> create_startup_request \<Rightarrow> (sys, sql_error, unit) sem" where
  "insert_startup i req = sql_checked
     (\<lambda>d. key_check (startup_row d i = None) (find_row tw_id ''town_default'' (d_towns d) \<noteq> None))
     (\<lambda>s. (db s)\<lparr>d_startups := d_startups (db s) @ [\<lparr> su_id = i, su_name = cq_name req,
        su_cap = cq_budget_cap req, su_spent = 0, su_workspace = workspace_path_of i,
        su_status = ''active'', su_auto_steal_enabled = 0, su_auto_steal_after_secs = 60,
        su_auto_recovery_enabled = 0, su_auto_recovery_max_attempts = 2,
        su_goal = cq_goal_text req, su_town = ''town_default'', su_created_at = now_secs s \<rparr>]\<rparr>)"

definition claim_room :: "ident \<Rightarrow> ident \<Rightarrow> (sys, sql_error, unit) sem" where
  "claim_room suite_id startup_id = sql_exec (\<lambda>s. (db s)\<lparr>d_rooms :=
     update_rows (\<lambda>r. rm_id r = suite_id) (\<lambda>r. r\<lparr>rm_private_to := Some startup_id\<rparr>) (d_rooms (db s))\<rparr>)"

type_synonym new_agent = "string \<times> ident \<times> string \<times> ident option"

definition new_agents :: "create_startup_request \<Rightarrow> ident \<Rightarrow> ident \<Rightarrow> ident \<Rightarrow> new_agent list" where
  "new_agents req f e d =
     [(''founder'', f, cq_founder req, None), (''engineer'', e, cq_engineer req, Some f),
      (''designer'', d, cq_designer req, Some f)]"

definition position_json :: "tile \<Rightarrow> ident \<Rightarrow> json" where
  "position_json t room = JObj [(''x'', JInt (fst t)), (''y'', JInt (snd t)), (''room'', JStr room)]"

definition insert_agent :: "env \<Rightarrow> ident \<Rightarrow> ident \<Rightarrow> int \<times> int \<Rightarrow> new_agent \<Rightarrow> (sys, sql_error, unit) sem" where
  "insert_agent env startup_id suite_id corner a = (case a of (role, aid, backend, manager) \<Rightarrow> sql_checked
     (\<lambda>d. key_check (agent_row d aid = None)
        (startup_row d startup_id \<noteq> None \<and> refs (agent_row d) manager))
     (\<lambda>s. (db s)\<lparr>d_agents := d_agents (db s) @ [\<lparr> ag_id = aid, ag_startup = startup_id, ag_name = role,
        ag_role = role, ag_backend = backend, ag_model = [],
        ag_position = e_to_string env (position_json (desk_tile corner role) suite_id),
        ag_home_room = suite_id, ag_manager = manager, ag_is_peer_reviewer = 0 \<rparr>]\<rparr>))"

definition agent_uuid :: "env \<Rightarrow> (sys, 'e, ident) sem" where
  "agent_uuid env = bindE (fresh_simple env) (\<lambda>u. ret (''a-'' @ u))"

record created_startup =
  cs_id :: ident
  cs_suite :: ident
  cs_corner :: "int \<times> int"
  cs_agents :: "new_agent list"

text \<open>The transaction: every early return inside it drops it, which rolls it back.\<close>

definition create_rows :: "host \<Rightarrow> create_startup_request \<Rightarrow> (sys, response, created_startup) sem" where
  "create_rows h req =
     (let env = ho_env h; sql = mapErr (sql_500 env) in
      transactE (sql_500 env)
       (bindE (mapErr (sql_500 env) (sql_query free_suite)) (\<lambda>found. case found of
          None \<Rightarrow> throw (reply_err 409 ''no free suite'')
        | Some (suite_id, btext) \<Rightarrow> (case e_parse_json env btext of
            None \<Rightarrow> throw (reply_err 500 (''bounds parse: '' @ ho_json_error h btext))
          | Some bounds \<Rightarrow>
              let corner = (bounds_coord ''x'' bounds, bounds_coord ''y'' bounds) in
              bindE (fresh_uuid env) (\<lambda>startup_id.
              thenE (sql (insert_startup startup_id req))
              (thenE (sql (claim_room suite_id startup_id))
              (bindE (agent_uuid env) (\<lambda>founder_id.
               bindE (agent_uuid env) (\<lambda>engineer_id.
               bindE (agent_uuid env) (\<lambda>designer_id.
               let agents = new_agents req founder_id engineer_id designer_id in
               thenE (forE agents (\<lambda>a. sql (insert_agent env startup_id suite_id corner a)))
                 (ret \<lparr> cs_id = startup_id, cs_suite = suite_id, cs_corner = corner,
                    cs_agents = agents \<rparr>)))))))))))"

definition worker_of_new_agent :: "created_startup \<Rightarrow> string \<Rightarrow> string \<Rightarrow> new_agent \<Rightarrow> worker_config" where
  "worker_of_new_agent c world_url secret a = (case a of (role, aid, backend, manager) \<Rightarrow>
     \<lparr> wc_agent = aid, wc_startup = cs_id c, wc_world_url = world_url, wc_secret = secret,
       wc_workspace = workspace_path_of (cs_id c), wc_backend = backend, wc_task = None \<rparr>)"

definition new_secret :: "host \<Rightarrow> string option \<Rightarrow> (server, 'e, string) sem" where
  "new_secret h fixed = (case fixed of
      Some x \<Rightarrow> ret x
    | None \<Rightarrow> bindE (on_world (fresh_simple (ho_env h))) (\<lambda>u. ret (''ct-'' @ u)))"

text \<open>The secret goes to the environment before the worker is started, unless starting is switched off.\<close>

definition equip_agent :: "host \<Rightarrow> created_startup \<Rightarrow> string \<Rightarrow> string option \<Rightarrow> bool \<Rightarrow> new_agent \<Rightarrow>
    (server, 'e, unit) sem" where
  "equip_agent h c world_url fixed disabled a =
     bindE (new_secret h fixed) (\<lambda>secret.
     thenE (set_var (secret_var (fst (snd a))) secret)
     (bindE (asksE (env_var ''CLIPTOWN_PER_TASK_WORKERS'')) (\<lambda>mode.
      if disabled \<or> per_task_workers_enabled mode then ret ()
      else spawn_agent h (worker_of_new_agent c world_url secret a))))"

definition new_avatar :: "created_startup \<Rightarrow> new_agent \<Rightarrow> avatar" where
  "new_avatar c a = (case a of (role, aid, backend, manager) \<Rightarrow>
     \<lparr> av_agent_id = aid, av_startup_id = cs_id c, av_role = role, av_backend = backend,
       av_current_pos = desk_tile (cs_corner c) role, av_target_pos = None, av_room_id = cs_suite c,
       av_status = ''idle'', av_last_seen_at = None, av_health = Offline \<rparr>)"

definition created_json :: "created_startup \<Rightarrow> json" where
  "created_json c = JObj [(''id'', JStr (cs_id c)), (''suite_id'', JStr (cs_suite c)),
     (''agents'', JArr (map (\<lambda>(role, aid, backend, manager). JObj [(''id'', JStr aid),
        (''role'', JStr role), (''backend'', JStr backend)]) (cs_agents c)))]"

definition create_startup :: "host \<Rightarrow> headers \<Rightarrow> create_startup_request \<Rightarrow> response api" where
  "create_startup h hs req =
     thenE (require_operator h hs)
     (thenE (guardE (budget_cap_ok (cq_budget_cap req)) (reply_err 400 ''invalid budget_cap_usd''))
     (thenE (guardE (\<not> is_blank (map of_char (cq_name req))) (reply_err 400 ''name required''))
     (thenE (guardE (\<forall>b \<in> set [cq_founder req, cq_engineer req, cq_designer req]. b \<in> set ALLOWED_BACKENDS)
        (reply_err 400 ''unknown backend''))
     (bindE (on_world (create_rows h req)) (\<lambda>c.
      bindE (asksE (\<lambda>s. (str_or ''ws://127.0.0.1:8080/ws/worker'' (env_var ''CLIPTOWN_WORLD_WS_URL'' s),
         env_var ''CLIPTOWN_TEST_FIXED_AGENT_SECRET'' s,
         env_var ''CLIPTOWN_TEST_DISABLE_SUPERVISOR'' s = Some ''1''))) (\<lambda>(world_url, fixed, disabled).
      thenE (forE (cs_agents c) (equip_agent h c world_url fixed disabled))
      (thenE (send_cmd (InsertAvatars (map (new_avatar c) (cs_agents c)) (Some (cs_suite c, cs_id c))))
      (ret (json_reply 200 (created_json c))))))))))"

section \<open>Dissolution of a startup\<close>

definition dissolve_rows :: "env \<Rightarrow> ident \<Rightarrow> (sys, response, unit) sem" where
  "dissolve_rows env i =
     transactE (sql_500 env)
       (thenE (mapErr (sql_500 env) (sql_exec (\<lambda>s. upd_startup i (\<lambda>r. r\<lparr>su_status := ''dissolved''\<rparr>) (db s))))
         (mapErr (sql_500 env) (sql_exec (\<lambda>s. (db s)\<lparr>d_rooms := update_rows (\<lambda>r. rm_private_to r = Some i)
            (\<lambda>r. r\<lparr>rm_private_to := None\<rparr>) (d_rooms (db s))\<rparr>))))"

definition delete_startup :: "host \<Rightarrow> headers \<Rightarrow> ident \<Rightarrow> response api" where
  "delete_startup h hs i =
     thenE (require_operator h hs)
     (bindE (orDefault False (on_world (sql_query (\<lambda>d. startup_row d i \<noteq> None)))) (\<lambda>exists.
      thenE (guardE exists (reply_err 404 ''startup not found''))
      (thenE (on_world (dissolve_rows (ho_env h) i))
      (thenE (dissolve_startup h i)
      (thenE (send_cmd (ReleaseSuite i))
      (thenE (ignoreE (on_world (emit_system_event (ho_env h) (Some i) ''startup_dissolved''
          (JObj [(''startup_id'', JStr i)]) ''warn'')))
      (ret (json_reply 200 (JObj [(''ok'', JBool True), (''id'', JStr i), (''status'', JStr ''dissolved'')])))))))))"

end
