(* ===== verification/Api.thy ===== *)
theory Api
  imports Server
begin

text \<open>
  The other HTTP handlers that read or write the database: the budget cap of a startup (\<open>http.rs\<close>), the
  creation of tasks (\<open>api_tasks.rs\<close>) and the skills of an agent (\<open>api_skills.rs\<close>).
\<close>

section \<open>The budget cap\<close>

definition patch_startup :: "host \<Rightarrow> headers \<Rightarrow> ident \<Rightarrow> json \<Rightarrow> response api" where
  "patch_startup h hs i body =
     thenE (require_operator h hs)
     (case Option.bind (jget ''budget_cap_usd'' body) as_f64 of
        None \<Rightarrow> throw (reply_err 400 ''missing or invalid budget_cap_usd'')
      | Some v \<Rightarrow>
          thenE (guardE (budget_cap_ok v) (reply_err 400 ''missing or invalid budget_cap_usd''))
          (bindE (on_world (mapErr (sql_500 (ho_env h)) (sql_stmt (\<lambda>s. Inr (startup_hits i (db s),
              upd_startup i (\<lambda>r. r\<lparr>su_cap := v\<rparr>) (db s)))))) (\<lambda>n.
           if n = 0 then throw (reply_err 404 ''startup not found'')
           else ret (json_reply 200 (JObj [(''ok'', JBool True), (''id'', JStr i),
             (''budget_cap_usd'', JReal v)])))))"

section \<open>Creation of a task\<close>

record create_task_body =
  tb_startup :: ident
  tb_title :: string
  tb_description :: string
  tb_assignee :: "ident option"
  tb_parent :: "ident option"
  tb_required_room :: "ident option"
  tb_preferred_backend :: "string option"
  tb_preferred_model :: "string option"
  tb_cost_estimate :: "real option"
  tb_blocked_on :: "ident option"
  tb_deadline_at :: "int option"

definition sql_detail_500 :: "env \<Rightarrow> sql_error \<Rightarrow> response" where
  "sql_detail_500 env e =
     json_reply 500 (JObj [(''error'', JStr ''sql''), (''detail'', JStr (e_sql_text env e))])"

definition initial_status :: "create_task_body \<Rightarrow> string" where
  "initial_status b = (if tb_assignee b \<noteq> None then ''queued'' else ''proposed'')"

definition task_of_body :: "ident \<Rightarrow> create_task_body \<Rightarrow> int \<Rightarrow> task" where
  "task_of_body i b now_s =
     (new_task i (tb_startup b) (tb_parent b) (tb_title b) (tb_description b) (initial_status b)
        (tb_assignee b) (tb_required_room b) now_s)
     \<lparr>t_preferred_backend := tb_preferred_backend b, t_preferred_model := tb_preferred_model b,
      t_cost_estimate := tb_cost_estimate b, t_blocked_on := tb_blocked_on b,
      t_deadline_at := tb_deadline_at b\<rparr>"

definition check_assignee :: "env \<Rightarrow> create_task_body \<Rightarrow> (sys, response, unit) sem" where
  "check_assignee env b = (case tb_assignee b of
      None \<Rightarrow> ret ()
    | Some aid \<Rightarrow>
        bindE (mapErr (sql_detail_500 env) (sql_query (\<lambda>d. map_option ag_startup (agent_row d aid)))) (\<lambda>row.
        case row of
          None \<Rightarrow> throw (reply_err 404 ''unknown_assignee'')
        | Some sid \<Rightarrow> guardE (sid = tb_startup b) (reply_err 400 ''cross_startup'')))"

definition create_task_rows :: "env \<Rightarrow> operator_identity \<Rightarrow> create_task_body \<Rightarrow> (sys, response, response) sem" where
  "create_task_rows env idn b =
     bindE (mapErr (sql_detail_500 env) (sql_query (\<lambda>d. startup_row d (tb_startup b) \<noteq> None))) (\<lambda>known.
     thenE (guardE known (reply_err 404 ''unknown_startup''))
     (thenE (check_assignee env b)
     (bindE (fresh_simple env) (\<lambda>u.
      bindE (asksE now_secs) (\<lambda>now_s.
      thenE (mapErr (sql_detail_500 env) (insert_task (task_of_body (''T_'' @ u) b now_s)))
      (thenE (ignoreE (append_audit (''T_'' @ u) (JObj [(''actor'', JStr ''admin_api''),
          (''kind'', JStr ''task_created''), (''operator_id'', JStr (oi_id idn))])))
      (ret (json_reply 201 (JObj [(''id'', JStr (''T_'' @ u)), (''status'', JStr (initial_status b)),
        (''startup_id'', JStr (tb_startup b))])))))))))"

definition create_task :: "host \<Rightarrow> headers \<Rightarrow> create_task_body \<Rightarrow> response api" where
  "create_task h hs b =
     bindE (require_operator h hs) (\<lambda>idn.
     thenE (guardE (at_least (oi_role idn) RManager) (reply_err 403 ''forbidden''))
     (thenE (guardE (\<not> is_blank (map of_char (tb_title b)) \<and> \<not> is_blank (map of_char (tb_description b)))
        (reply_err 400 ''title and description required''))
     (thenE (guardE (\<forall>c \<in> set_option (tb_cost_estimate b). 0 \<le> c) (reply_err 400 ''bad_cost_estimate''))
     (on_world (create_task_rows (ho_env h) idn b)))))"

section \<open>The skills of an agent\<close>

definition bearer_token :: "headers \<Rightarrow> string option" where
  "bearer_token hs = Option.bind (header_str ''authorization'' hs) (strip_prefix BEARER)"

definition COLON :: char where
  "COLON = CHR 0x3A"

definition require_secret :: "host \<Rightarrow> ident \<Rightarrow> string \<Rightarrow> response \<Rightarrow> ident api" where
  "require_secret h agent_id secret refusal =
     bindE (asksE agent_secret) (\<lambda>secrets.
       mapErr (\<lambda>_. refusal) (on_world (validate_agent_secret secrets agent_id secret)))"

definition attached_skill_json :: "attached_skill \<Rightarrow> json" where
  "attached_skill_json s = JObj [(''name'', JStr (at_name s)), (''content_md'', JStr (at_content s)),
     (''files'', JArr (map (\<lambda>f. JObj [(''name'', JStr (fl_name f)), (''content'', JStr (fl_content f))])
        (at_files s)))]"

definition get_agent_skills :: "host \<Rightarrow> headers \<Rightarrow> ident \<Rightarrow> response api" where
  "get_agent_skills h hs agent_id =
     (case split_once COLON (str_or [] (bearer_token hs)) of
        None \<Rightarrow> throw (reply_err 401 ''bad_auth_format'')
      | Some (claimed, secret) \<Rightarrow>
          thenE (guardE (claimed = agent_id) (reply_err 403 ''agent_id mismatch''))
          (thenE (require_secret h claimed secret (reply_err 401 ''invalid_agent_secret''))
          (bindE (mapErr (\<lambda>e. reply_err 500 (skill_error_debug (ho_env h) e))
              (on_world (for_agent (ho_env h) agent_id))) (\<lambda>items.
           ret (json_reply 200 (JObj [(''skills'', JArr (map attached_skill_json items))]))))))"

end
