(* ===== verification/McpHttp.thy ===== *)
theory McpHttp
  imports Api
begin

text \<open>
  MCP over HTTP, \<open>mcp_http.rs\<close>: the JSON-RPC front end through which an agent's CLI calls the tools. A call
  is handed to the loop as a worker message and its reply unwrapped. The identifier a call gets for the
  logs is an argument of the envelope.
\<close>

section \<open>JSON-RPC\<close>

definition rpc_error :: "json \<Rightarrow> int \<Rightarrow> string \<Rightarrow> json" where
  "rpc_error i code message = JObj [(''jsonrpc'', JStr ''2.0''), (''id'', i),
     (''error'', JObj [(''code'', JInt code), (''message'', JStr message)])]"

definition rpc_ok :: "json \<Rightarrow> json \<Rightarrow> json" where
  "rpc_ok i result = JObj [(''jsonrpc'', JStr ''2.0''), (''id'', i), (''result'', result)]"

definition unauthorized :: "string \<Rightarrow> response" where
  "unauthorized msg = json_reply 401 (JObj [(''error'', JStr ''unauthorized''), (''detail'', JStr msg)])"

definition authenticate :: "host \<Rightarrow> headers \<Rightarrow> ident api" where
  "authenticate h hs =
     (case strip_prefix BEARER (str_or [] (header_str ''authorization'' hs)) of
        None \<Rightarrow> throw (unauthorized ''missing bearer token'')
      | Some token \<Rightarrow> (case split_once COLON token of
          None \<Rightarrow> throw (unauthorized ''token must be <agent_id>:<secret>'')
        | Some (agent_id, secret) \<Rightarrow>
            thenE (require_secret h agent_id secret (unauthorized ''invalid agent secret''))
              (ret agent_id)))"

definition QUOTE :: char where
  "QUOTE = CHR 0x22"

definition PROTOCOL_VERSION :: string where
  "PROTOCOL_VERSION = ''2025-03-26''"

definition SERVER_NAME :: string where
  "SERVER_NAME = ''cliptown-world''"

definition handle_initialize :: "host \<Rightarrow> json" where
  "handle_initialize h = JObj [(''protocolVersion'', JStr PROTOCOL_VERSION),
     (''capabilities'', JObj [(''tools'', JObj [(''listChanged'', JBool False)])]),
     (''serverInfo'', JObj [(''name'', JStr SERVER_NAME), (''version'', JStr (ho_version h))])]"

section \<open>The catalogue\<close>

definition tool_json :: "string \<Rightarrow> string \<Rightarrow> json \<Rightarrow> json" where
  "tool_json name desc schema =
     JObj [(''name'', JStr name), (''description'', JStr desc), (''inputSchema'', schema)]"

definition json_type :: "string \<Rightarrow> json" where
  "json_type t = JObj [(''type'', JStr t)]"

definition type_or_null :: "string \<Rightarrow> json" where
  "type_or_null t = JObj [(''type'', JArr [JStr t, JStr ''null''])]"

definition int_between :: "int \<Rightarrow> int option \<Rightarrow> json" where
  "int_between lo hi = JObj ([(''type'', JStr ''integer''), (''minimum'', JInt lo)] @
     (case hi of None \<Rightarrow> [] | Some m \<Rightarrow> [(''maximum'', JInt m)]))"

definition required :: "string list \<Rightarrow> (string \<times> json) list" where
  "required fs = [(''required'', JArr (map JStr fs))]"

definition properties :: "(string \<times> json) list \<Rightarrow> (string \<times> json) list" where
  "properties ps = [(''properties'', JObj ps)]"

definition obj_schema :: "(string \<times> json) list \<Rightarrow> json" where
  "obj_schema kvs = JObj ((''type'', JStr ''object'') # kvs)"

definition task_tool_list :: "json list" where
  "task_tool_list =
     [tool_json ''move_intent'' ''Walk the caller toward a target room (and optional tile).''
        (obj_schema (properties [(''target_room'', json_type ''string''), (''target_tile'', json_type ''object'')])),
      tool_json ''speak'' ''Emit a chat or directive message visible to room peers.''
        (obj_schema (required [''body''] @ properties [(''body'', json_type ''string''), (''kind'', json_type ''string'')])),
      tool_json ''task_done'' ''Submit a completed task with the canonical artifact path.''
        (obj_schema (required [''task_id'', ''artifact_path''] @
           properties [(''task_id'', json_type ''string''), (''artifact_path'', json_type ''string'')])),
      tool_json ''task_failed'' ''Report a task as failed with a reason.''
        (obj_schema (required [''task_id'', ''reason''] @
           properties [(''task_id'', json_type ''string''), (''reason'', json_type ''string'')])),
      tool_json ''subtask_create'' ''Create a subtask under the caller's current task.''
        (obj_schema (properties [(''title'', json_type ''string''), (''description'', json_type ''string''),
           (''assignee_agent_id'', json_type ''string'')])),
      tool_json ''task_accept'' ''Manager accepts a completed task.'' (obj_schema (required [''task_id''])),
      tool_json ''task_request_changes'' ''Manager requests changes on a submitted task.''
        (obj_schema (required [''task_id''] @ properties [(''task_id'', json_type ''string''), (''reason'', json_type ''string'')])),
      tool_json ''accept_proposal'' ''Accept a peer-proposed subtask.'' (obj_schema (required [''task_id''])),
      tool_json ''reject_proposal'' ''Reject a peer-proposed subtask.'' (obj_schema (required [''task_id''])),
      tool_json ''hypothesis_state'' ''Append an epistemic hypothesis to the task log.'' (obj_schema []),
      tool_json ''test_record'' ''Append an epistemic test record to the task log.'' (obj_schema []),
      tool_json ''hypothesis_resolve'' ''Resolve an open hypothesis in the task log.'' (obj_schema []),
      tool_json ''verify'' ''Run a verifier (read_assert, lint_json, etc.) against an artifact.'' (obj_schema []),
      tool_json ''ask_peer'' ''Ask a same-room peer a question (Phase 0 stub).'' (obj_schema []),
      tool_json ''observe_world'' ''Snapshot the caller's room context.'' (obj_schema []),
      tool_json ''read_artifact'' ''Read an artifact path inside the caller's sandbox.''
        (obj_schema [])]"

text \<open>The UTF-8 bytes of the arrow and of the ellipsis.\<close>

definition ARROW :: string where
  "ARROW = [CHR 0xE2, CHR 0x86, CHR 0x92]"

definition ELLIPSIS :: string where
  "ELLIPSIS = [CHR 0xE2, CHR 0x80, CHR 0xA6]"

definition str_props :: "string list \<Rightarrow> (string \<times> json) list" where
  "str_props fs = properties (map (\<lambda>f. (f, json_type ''string'')) fs)"

definition skill_tool_list :: "json list" where
  "skill_tool_list =
     [tool_json ''skill_upsert'' ''Author or update a workspace-scoped markdown skill.''
        (obj_schema (str_props [''name'', ''content_md''] @ required [''name'', ''content_md''])),
      tool_json ''skill_list'' ''List skills in the caller's startup (metadata only, no content).''
        (obj_schema (properties [])),
      tool_json ''skill_attach'' ''Attach a skill to an agent in the caller's startup.''
        (obj_schema (str_props [''agent_id'', ''skill_id''] @ required [''agent_id'', ''skill_id''])),
      tool_json ''skill_detach'' ''Detach a skill from an agent. Idempotent.''
        (obj_schema (str_props [''agent_id'', ''skill_id''] @ required [''agent_id'', ''skill_id''])),
      tool_json ''skill_delete'' ''Delete a skill. Cascades to all attachments.''
        (obj_schema (str_props [''skill_id''] @ required [''skill_id''])),
      tool_json ''skill_file_upsert''
        ''Upsert a text file attached to a skill. Materializes at `<workdir>/skills/<skill-name>/<name>`.''
        (obj_schema (required [''skill_id'', ''name'', ''content''] @ str_props [''skill_id'', ''name'', ''content''])),
      tool_json ''skill_file_delete'' ''Delete a single file attached to a skill (by file name). Idempotent.''
        (obj_schema (required [''skill_id'', ''name''] @ str_props [''skill_id'', ''name''])),
      tool_json ''skill_list_revisions''
        ''List historical revisions of a skill, newest first. Caller must own the skill's startup.''
        (obj_schema (required [''skill_id''] @
           properties [(''skill_id'', json_type ''string''), (''limit'', int_between 1 (Some 100))])),
      tool_json ''task_set_blocking''
        (''Set per-task blocking dependency + deadline. Manager-or-assignee only; null clears either field. '' @
         ''Editing deadline clears the overdue dedup so the new boundary fires fresh.'')
        (obj_schema (required [''task_id''] @ properties [(''task_id'', json_type ''string''),
           (''blocked_on'', type_or_null ''string''), (''deadline_at'', type_or_null ''integer'')])),
      tool_json ''skill_revert''
        (''Revert a skill's content_md to a previous revision (by rev_seq). Appends a new revision '' @
         ''pointing at the historical content; history stays linear.'')
        (obj_schema (required [''skill_id'', ''rev_seq''] @
           properties [(''skill_id'', json_type ''string''), (''rev_seq'', int_between 1 None)])),
      tool_json ''task_set_preference''
        (''Set per-task model routing override (preferred_backend / preferred_model). '' @
         ''Manager-or-assignee only; null clears.'')
        (obj_schema (required [''task_id''] @ properties [(''task_id'', json_type ''string''),
           (''preferred_backend'', type_or_null ''string''), (''preferred_model'', type_or_null ''string'')]))]"

definition work_tool_list :: "json list" where
  "work_tool_list =
     [tool_json ''task_steal''
        (''Claim a queued task currently assigned to an idle peer. Caller must be idle, in the same '' @
         ''startup, share the assignee's role, and not be the current assignee.'')
        (obj_schema (required [''task_id''] @ str_props [''task_id''])),
      tool_json ''self_review''
        (''Run the pre-submit self-review pipeline on this task's artifact. Returns '' @
         ''{ok, must_fix:[{check,severity,message}]}. Severity 'error' blocks task_done; 'warn' is informational.'')
        (obj_schema (required [''task_id'', ''artifact_path''] @ str_props [''task_id'', ''artifact_path''])),
      tool_json ''run_tests''
        (''Run the task's test suite inside the per-task workdir. Optional `command` '' @
         ''(e.g. 'pnpm test', 'cargo test --quiet') overrides auto-detect. '' @
         ''Returns {exit_code, stdout_tail, stderr_tail, timed_out, elapsed_ms}.'')
        (obj_schema (required [''task_id''] @ properties [(''task_id'', json_type ''string''), (''command'', json_type ''string''),
           (''timeout_secs'', int_between 1 (Some 600))])),
      tool_json ''lint_artifact''
        (''Lint the task's artifact. Dispatches by extension: .ts/.tsx '' @ ARROW @ '' tsc --noEmit, .rs '' @ ARROW @
         '' cargo check, .md '' @ ARROW @ '' markdown lint (deferred stub), .json '' @ ARROW @ '' JSON parse.'')
        (obj_schema (required [''task_id'', ''artifact_path''] @ str_props [''task_id'', ''artifact_path''])),
      tool_json ''read_artifact_diff''
        (''Git diff of the artifact against a base ref (defaults to HEAD). Runs inside the per-task '' @
         ''workdir. Returns the same {exit_code, stdout_tail, '' @ ELLIPSIS @ ''} shape as run_tests.'')
        (obj_schema (required [''task_id'', ''artifact_path''] @
           str_props [''task_id'', ''artifact_path'', ''base_ref'']))]"

definition handle_tools_list :: json where
  "handle_tools_list = JObj [(''tools'', JArr (task_tool_list @ skill_tool_list @ work_tool_list))]"

section \<open>Calls\<close>

definition tool_content :: "string \<Rightarrow> bool \<Rightarrow> json" where
  "tool_content t is_error = JObj [
     (''content'', JArr [JObj [(''type'', JStr ''text''), (''text'', JStr t)]]),
     (''isError'', JBool is_error)]"

definition tool_error_content :: "string \<Rightarrow> json" where
  "tool_error_content msg = tool_content msg True"

definition mcp_envelope :: "string \<Rightarrow> json \<Rightarrow> string \<Rightarrow> json" where
  "mcp_envelope name arguments corr_id = JObj [(''type'', JStr ''mcp_call''), (''v'', JInt 1),
     (''tool'', JStr name), (''args'', arguments), (''corr_id'', JStr corr_id)]"

definition unwrap_reply :: "env \<Rightarrow> json \<Rightarrow> json" where
  "unwrap_reply env reply =
     (if get_str ''type'' reply = Some ''mcp_reply'' then
        tool_content (e_to_string env (case jget ''result'' reply of None \<Rightarrow> JNull | Some v \<Rightarrow> v)) False
      else if get_str ''type'' reply = Some ''mcp_error'' then
        tool_content (e_to_string env (JObj [
          (''code'', JStr (str_or ''error'' (get_str ''code'' reply))),
          (''message'', JStr (str_or [] (get_str ''message'' reply)))])) True
      else tool_error_content ''dispatch returned unknown reply shape'')"

text \<open>
  The loop takes one command. \<open>Shutdown\<close> and a panic leave it, and in a command that never returns it is
  stuck; what the command leaves to its channel is the reply, and a channel without one is \<open>None\<close>.
\<close>

definition loop_takes :: "host \<Rightarrow> cmd \<Rightarrow> server \<Rightarrow> json option \<times> server" where
  "loop_takes h k s = (case loop_cmd (ho_env h) (ho_spawner h) (ho_codecs h) k (world s) of
       (Inr (Reply v), w) \<Rightarrow> (Some v, set_world w s)
     | (Inr NoReply, w) \<Rightarrow> (None, set_world w s)
     | (Inl Hangs, w) \<Rightarrow> (None, (set_world w s)\<lparr>sr_stuck := True\<rparr>)
     | (_, w) \<Rightarrow> (None, (set_world w s)\<lparr>sr_up := False\<rparr>))"

fun drain :: "host \<Rightarrow> cmd list \<Rightarrow> server \<Rightarrow> server" where
  "drain h [] s = s"
| "drain h (k # ks) s =
     (let s' = snd (loop_takes h k s) in
      if \<not> sr_up s' then s'
      else if sr_stuck s' then s'\<lparr>sr_queue := sr_queue s' @ ks\<rparr>
      else drain h ks s')"

text \<open>
  A command whose sender waits for the reply: what was sent before comes first. Without a loop the
  send fails; at a loop that is stuck the sender waits for ever (\<open>Pending\<close>).
\<close>

datatype loop_answer = Answered json | Dropped | Disconnected | Pending

definition answer_of :: "json option \<Rightarrow> loop_answer" where
  "answer_of v = (case v of None \<Rightarrow> Dropped | Some j \<Rightarrow> Answered j)"

definition ask_loop :: "host \<Rightarrow> cmd \<Rightarrow> (server, 'e, loop_answer) sem" where
  "ask_loop h k = (\<lambda>s.
     if \<not> sr_up s then (Inr Disconnected, s)
     else if sr_stuck s then (Inr Pending, s\<lparr>sr_queue := sr_queue s @ [k]\<rparr>)
     else let s' = drain h (sr_queue s) (s\<lparr>sr_queue := []\<rparr>) in
       if \<not> sr_up s' then (Inr Dropped, s')
       else if sr_stuck s' then (Inr Pending, s'\<lparr>sr_queue := sr_queue s' @ [k]\<rparr>)
       else (case loop_takes h k s' of (v, t) \<Rightarrow> (Inr (if sr_stuck t then Pending else answer_of v), t)))"

text \<open>A request that is never answered; no response has the status 0.\<close>

definition no_response :: response where
  "no_response = \<lparr> rs_status = 0, rs_body = EmptyBody \<rparr>"

definition handle_tools_call :: "host \<Rightarrow> ident \<Rightarrow> json \<Rightarrow> json api" where
  "handle_tools_call h agent_id params =
     (let name = str_or [] (get_str ''name'' params);
          arguments = (case jget ''arguments'' params of None \<Rightarrow> JNull | Some v \<Rightarrow> v) in
      if name = [] then ret (tool_error_content ''missing tool name'')
      else bindE (on_world (fresh_uuid (ho_env h))) (\<lambda>u.
           bindE (ask_loop h (HandleWorkerMsg agent_id (mcp_envelope name arguments (''http-'' @ u)))) (\<lambda>a.
           case a of
               Disconnected \<Rightarrow> ret (tool_error_content ''world loop disconnected'')
             | Dropped \<Rightarrow> ret (tool_error_content ''world loop dropped reply channel'')
             | Answered reply \<Rightarrow> ret (unwrap_reply (ho_env h) reply)
             | Pending \<Rightarrow> throw no_response)))"

section \<open>Requests\<close>

definition is_notification :: "string \<Rightarrow> bool" where
  "is_notification m \<longleftrightarrow> strip_prefix ''notifications/'' m \<noteq> None"

definition handle_method :: "host \<Rightarrow> ident \<Rightarrow> json_rpc_request \<Rightarrow> response api" where
  "handle_method h agent_id r =
     (let i = (case jr_id r of None \<Rightarrow> JNull | Some v \<Rightarrow> v) in
      if jr_method r = ''initialize'' then ret (json_reply 200 (rpc_ok i (handle_initialize h)))
      else if jr_method r = ''tools/list'' then ret (json_reply 200 (rpc_ok i handle_tools_list))
      else if jr_method r = ''tools/call'' then
        bindE (handle_tools_call h agent_id (jr_params r)) (\<lambda>v. ret (json_reply 200 (rpc_ok i v)))
      else if is_notification (jr_method r) then ret \<lparr> rs_status = 202, rs_body = EmptyBody \<rparr>
      else ret (json_reply 200 (rpc_error i (-32601) (''method not found: '' @ jr_method r))))"

definition handle_envelope :: "host \<Rightarrow> string \<Rightarrow> ident \<Rightarrow> response api" where
  "handle_envelope h body agent_id = (case ho_rpc_decode h body of
       None \<Rightarrow> ret (json_reply 200 (rpc_error JNull (-32600) ''invalid JSON''))
     | Some r \<Rightarrow>
         if jr_jsonrpc r \<noteq> ''2.0'' then
           ret (json_reply 200 (rpc_error (case jr_id r of None \<Rightarrow> JNull | Some v \<Rightarrow> v) (-32600)
             (''jsonrpc must be '' @ [QUOTE] @ ''2.0'' @ [QUOTE])))
         else handle_method h agent_id r)"

definition handle_request :: "host \<Rightarrow> headers \<Rightarrow> string \<Rightarrow> response api" where
  "handle_request h hs body = bindE (authenticate h hs) (handle_envelope h body)"

end
