(* ===== verification/ServerSample.thy ===== *)
theory ServerSample
  imports McpHttp Sample
begin

text \<open>A server around the example world: a town with one free suite, one agent secret in the environment.\<close>

definition sample_decoders :: decoders where
  "sample_decoders = \<lparr> worker_codec = (\<lambda>j. Inr (WMoveIntent 1 ''lobby'' 20 5)),
     console_codec = (\<lambda>j. Inr (COperatorForceFail 1 ''t1'' ''stuck'')) \<rparr>"

definition sample_host :: host where
  "sample_host = \<lparr> ho_env = sample_env\<lparr>e_parse_json := (\<lambda>t. Some (JObj [(''x'', JInt 0), (''y'', JInt 6)])),
       e_sha256_hex := (\<lambda>t. ''h2'')\<rparr>,
     ho_spawns = (\<lambda>w. True), ho_supervisor = default_supervisor None,
     ho_json_error = (\<lambda>t. ''expected value''), ho_version = ''0.1.0'', ho_probe = (\<lambda>c. None),
     ho_spawner = None,
     ho_codecs = sample_decoders,
     ho_rpc_decode = (\<lambda>body. Some \<lparr> jr_jsonrpc = ''2.0'', jr_id = Some (JInt 1), jr_method = body,
       jr_params = JObj [(''name'', JStr ''ask_peer'')] \<rparr>) \<rparr>"

definition sample_office :: room_row where
  "sample_office = \<lparr> rm_id = ''suite_2'', rm_town = ''town_default'', rm_name = ''Suite 2'', rm_type = ''office'',
     rm_bounds = ''{}'', rm_private_to = None \<rparr>"

definition town_sys :: sys where
  "town_sys = sample_sys\<lparr>db := sample_db\<lparr>
     d_towns := [\<lparr> tw_id = ''town_default'', tw_name = ''Town'', tw_map = ''{}'' \<rparr>],
     d_rooms := [sample_office]\<rparr>\<rparr>"

definition sample_server :: server where
  "sample_server = \<lparr> sr_sup = new_supervisor town_sys, sr_vars = [(secret_var ''e1'', ''ct-1'')],
     sr_queue = [], sr_up = True, sr_stuck = False, sr_presence = [], sr_catalog = [] \<rparr>"

definition admin_headers :: headers where
  "admin_headers = [(''authorization'', ''Bearer dev-token'')]"

definition agent_headers :: headers where
  "agent_headers = [(''authorization'', ''Bearer e1:ct-1'')]"

lemma sample_server_fields [simp]: "world sample_server = town_sys" "sr_queue sample_server = []"
  "sr_up sample_server = True" "sr_stuck sample_server = False" "sr_vars sample_server = [(secret_var ''e1'', ''ct-1'')]"
  "faults town_sys = []" "avatars town_sys = avatars sample_sys" "uuid_ctr town_sys = 0"
  "now_ms town_sys = 1000000" "d_operators (db town_sys) = [sample_operator]"
  "d_tasks (db town_sys) = d_tasks sample_db" "d_agents (db town_sys) = d_agents sample_db"
  "d_startups (db town_sys) = [sample_startup]" "d_rooms (db town_sys) = [sample_office]"
  "d_towns (db town_sys) = [\<lparr> tw_id = ''town_default'', tw_name = ''Town'', tw_map = ''{}'' \<rparr>]"
  by (simp_all add: sample_server_def world_def new_supervisor_def town_sys_def)

lemma sample_host_fields [simp]: "ho_rpc_decode sample_host body = Some \<lparr> jr_jsonrpc = ''2.0'',
    jr_id = Some (JInt 1), jr_method = body, jr_params = JObj [(''name'', JStr ''ask_peer'')] \<rparr>"
  "ho_spawner sample_host = None" "ho_codecs sample_host = sample_decoders"
  "ho_spawns sample_host w = True" "e_sha256_hex (ho_env sample_host) x = ''h2''"
  "e_parse_json (ho_env sample_host) x = Some (JObj [(''x'', JInt 0), (''y'', JInt 6)])"
  by (simp_all add: sample_host_def)

lemma town_same [simp]: "town_sys\<lparr>faults := []\<rparr> = town_sys"
  by (simp add: town_sys_def sample_sys_def)

lemma sample_world_same [simp]: "set_world town_sys sample_server = sample_server"
  using set_world_same [of sample_server] by simp

lemma header_agent: "header_str ''authorization'' agent_headers = Some ''Bearer e1:ct-1''"
  "header_str ''authorization'' admin_headers = Some ''Bearer dev-token''"
  by (simp_all add: header_str_def agent_headers_def admin_headers_def visible_ascii_def Let_def)

lemma town_agents: "agent_row (db town_sys) i = agent_row sample_db i" "task_row (db town_sys) i = task_row sample_db i"
  "startup_row (db town_sys) i = startup_row sample_db i"
  by (simp_all add: agent_row_def task_row_def startup_row_def)

lemma agent_signs_in: "authenticate sample_host agent_headers sample_server = (Inr ''e1'', sample_server)"
proof -
  have "strip_prefix BEARER ''Bearer e1:ct-1'' = Some ''e1:ct-1''" by (simp add: strip_prefix_def BEARER_def)
  moreover have "split_once COLON ''e1:ct-1'' = Some (''e1'', ''ct-1'')" by (simp add: COLON_def)
  ultimately show ?thesis
    by (simp add: authenticate_def str_or_def header_agent require_secret_def validate_agent_secret_def
        bindE_def thenE_def mapErr_def asksE_def on_world_def sql_query_def sql_stmt_def ret_def
        town_agents sample_rows expected_secret_def agent_secret_def env_var_def sample_agent_def)
qed

end
