(* ===== verification/Catalogue.thy ===== *)
theory Catalogue
  imports ServerSample Answers
begin

text \<open>
  The MCP front end: its catalogue of tools is exactly the table of the dispatcher, only the holder of an
  agent's secret reaches the tools, and a call has the effect of the same message over the socket.
\<close>

section \<open>The catalogue\<close>

definition tool_names :: "json \<Rightarrow> string list" where
  "tool_names j = (case jget ''tools'' j of
     Some (JArr ts) \<Rightarrow> List.map_filter (get_str ''name'') ts | _ \<Rightarrow> [])"

definition catalogue :: "string list" where
  "catalogue = tool_names handle_tools_list"

lemma catalogue_names: "catalogue =
  [''move_intent'', ''speak'', ''task_done'', ''task_failed'', ''subtask_create'', ''task_accept'',
   ''task_request_changes'', ''accept_proposal'', ''reject_proposal'', ''hypothesis_state'', ''test_record'',
   ''hypothesis_resolve'', ''verify'', ''ask_peer'', ''observe_world'', ''read_artifact'', ''skill_upsert'',
   ''skill_list'', ''skill_attach'', ''skill_detach'', ''skill_delete'', ''skill_file_upsert'',
   ''skill_file_delete'', ''skill_list_revisions'', ''task_set_blocking'', ''skill_revert'',
   ''task_set_preference'', ''task_steal'', ''self_review'', ''run_tests'', ''lint_artifact'',
   ''read_artifact_diff'']"
  by (simp add: catalogue_def tool_names_def handle_tools_list_def task_tool_list_def skill_tool_list_def
      work_tool_list_def tool_json_def map_filter_simps get_str_def)

definition no_handler :: "string \<Rightarrow> json handler" where
  "no_handler tool = throw (HErr ''unknown_tool'' (''no handler for tool: '' @ tool))"

lemma unlisted_tool:
  assumes "tool \<notin> set catalogue"
  shows "run_tool env tool a args = no_handler tool"
  using assms by (simp add: catalogue_names run_tool_def no_handler_def)

text \<open>Every tool of the catalogue has a handler: with no arguments and a failing database it answers with an
  error of its own, or succeeds.\<close>

definition own_answer :: "json handler \<Rightarrow> bool" where
  "own_answer m \<longleftrightarrow> (\<forall>msg. fst (m (sample_sys\<lparr>faults := [True]\<rparr>)) \<noteq> Inl (HErr ''unknown_tool'' msg))"

lemma own_answerI:
  "(\<And>msg. wpE m (\<lambda>_ _. True) (\<lambda>e _. e \<noteq> HErr ''unknown_tool'' msg) (sample_sys\<lparr>faults := [True]\<rparr>)) \<Longrightarrow> own_answer m"
  by (force simp: own_answer_def wpE_def split: prod.splits sum.splits)

lemma null_args: "get_str k JNull = None" "get_i64 k JNull = None" "jget k JNull = None"
  by (simp_all add: get_str_def get_i64_def)

lemma own_task_tools: "own_answer (handle_move_intent env a JNull)" "own_answer (handle_speak env a JNull)"
  "own_answer (handle_task_done env a JNull)" "own_answer (handle_task_failed a JNull)"
  "own_answer (handle_subtask_create env a JNull)" "own_answer (handle_task_accept a JNull)"
  "own_answer (handle_task_request_changes env a JNull)" "own_answer (handle_accept_proposal a JNull)"
  "own_answer (handle_reject_proposal a JNull)" "own_answer (handle_epistemic_append a JNull k)"
  "own_answer (handle_verify env a JNull)" "own_answer (handle_ask_peer JNull)"
  "own_answer (handle_observe_world a JNull)" "own_answer (handle_read_artifact env a JNull)"
  by (rule own_answerI, simp add: wp null_args sql_fails_def handle_move_intent_def move_target_def
      handle_speak_def handle_task_done_def handle_task_failed_def handle_subtask_create_def
      handle_task_accept_def handle_task_request_changes_def handle_accept_proposal_def
      handle_reject_proposal_def handle_epistemic_append_def handle_verify_def handle_ask_peer_def
      handle_observe_world_def handle_read_artifact_def load_proposal_def tile_arg_def Let_def)+

lemma own_skill_tools: "own_answer (handle_skill_upsert env a JNull)" "own_answer (handle_skill_list env a JNull)"
  "own_answer (handle_skill_attach env a JNull)" "own_answer (handle_skill_detach env a JNull)"
  "own_answer (handle_skill_delete env a JNull)" "own_answer (handle_skill_file_upsert env a JNull)"
  "own_answer (handle_skill_file_delete env a JNull)" "own_answer (handle_skill_list_revisions env a JNull)"
  "own_answer (handle_skill_revert env a JNull)"
  by (rule own_answerI, simp add: wp null_args sql_fails_def handle_skill_upsert_def handle_skill_list_def
      handle_skill_attach_def handle_skill_detach_def handle_skill_delete_def handle_skill_file_upsert_def
      handle_skill_file_delete_def handle_skill_list_revisions_def handle_skill_revert_def
      skills_list_def sqlK_def list_error_def Let_def)+

lemma own_work_tools: "own_answer (handle_task_set_preference env a JNull)"
  "own_answer (handle_task_set_blocking env a JNull)" "own_answer (handle_task_steal env a JNull)"
  "own_answer (handle_self_review env a JNull)" "own_answer (handle_run_tests env a JNull)"
  "own_answer (handle_lint_artifact env a JNull)" "own_answer (handle_read_artifact_diff env a JNull)"
  by (rule own_answerI, simp add: wp null_args sql_fails_def handle_task_set_preference_def
      handle_task_set_blocking_def handle_task_steal_def handle_self_review_def handle_run_tests_def
      handle_lint_artifact_def handle_read_artifact_diff_def Let_def)+

lemma own_if: "own_answer m \<Longrightarrow> (\<not> b \<Longrightarrow> own_answer n) \<Longrightarrow> own_answer (if b then m else n)"
  by simp

lemma listed_tool:
  assumes "tool \<in> set catalogue"
  shows "own_answer (run_tool env tool a JNull)"
  unfolding run_tool_def
  by (intro own_if own_task_tools own_skill_tools own_work_tools)
     (use assms in \<open>simp add: catalogue_names\<close>)

text \<open>C33: The catalogue that \<open>tools/list\<close> hands out is exactly the table of the dispatcher: a tool is listed if and
  only if a call of it reaches a handler instead of the answer \<open>unknown_tool\<close>.\<close>
theorem catalogue_matches_dispatch:
  "tool \<in> set catalogue \<longleftrightarrow> run_tool env tool a \<noteq> (\<lambda>args. no_handler tool)"
proof
  assume "tool \<in> set catalogue"
  from listed_tool [OF this] have "own_answer (run_tool env tool a JNull)" .
  moreover have "\<not> own_answer (no_handler tool)"
    by (auto simp: own_answer_def no_handler_def throw_def)
  ultimately show "run_tool env tool a \<noteq> (\<lambda>args. no_handler tool)" by auto
next
  assume "run_tool env tool a \<noteq> (\<lambda>args. no_handler tool)"
  then show "tool \<in> set catalogue" using unlisted_tool by blast
qed

section \<open>Who calls\<close>

definition holds_secret :: "headers \<Rightarrow> server \<Rightarrow> ident \<Rightarrow> bool" where
  "holds_secret hs s a \<longleftrightarrow> agent_row (db (world s)) a \<noteq> None \<and>
     header_str ''authorization'' hs = Some (BEARER @ a @ COLON # expected_secret (agent_secret s) a)"

text \<open>C32: Only the holder of an agent's secret reaches the tools: a request is either refused as unauthorized,
  with nothing changed beyond the statement that looked the agent up, or it carries the identifier and
  the secret expected of an agent on record (the one in the environment or, where none is set, the
  built-in one) and is handled in the name of that agent.\<close>
theorem only_the_holder_calls_tools:
  assumes "handle_request h hs body s = (r, t)"
  shows "(\<exists>msg. r = Inl (unauthorized msg)) \<and> t \<in> {s, set_world (sql_pop (world s)) s} \<or>
    (\<exists>a. holds_secret hs s a \<and> handle_envelope h body a (set_world (sql_pop (world s)) s) = (r, t))"
proof -
  let ?ok = "\<lambda>a u. u = set_world (sql_pop (world s)) s \<and> holds_secret hs s a"
  let ?no = "\<lambda>e u. (\<exists>msg. e = unauthorized msg) \<and> u \<in> {s, set_world (sql_pop (world s)) s}"
  have "wpE (authenticate h hs) ?ok ?no s"
    by (auto simp: authenticate_def require_secret_def validate_agent_secret_def wp
        holds_secret_def strip_prefix_Some split_once_Some str_or_def
        split: option.splits)
  then show ?thesis
    using assms by (auto simp: handle_request_def bindE_def wpE_def split: prod.splits sum.splits)
qed

theorem only_the_holder_calls_tools_witness:
  "handle_request sample_host agent_headers ''tools/list'' sample_server =
     (Inr (json_reply 200 (rpc_ok (JInt 1) handle_tools_list)), sample_server) \<and>
   (\<exists>a. holds_secret agent_headers sample_server a)"
proof -
  have run: "handle_request sample_host agent_headers ''tools/list'' sample_server =
      (Inr (json_reply 200 (rpc_ok (JInt 1) handle_tools_list)), sample_server)"
    by (simp add: handle_request_def bindE_def agent_signs_in handle_envelope_def
        handle_method_def ret_def)
  from only_the_holder_calls_tools [OF run] run show ?thesis by auto
qed

section \<open>What a call does\<close>

text \<open>What the caller is told; a handler that never returns leaves the request without a response.\<close>

definition call_result :: "env \<Rightarrow> handler_error + json \<Rightarrow> response + json" where
  "call_result env res = (case res of
     Inr v \<Rightarrow> Inr (tool_content (e_to_string env v) False)
   | Inl (HErr code message) \<Rightarrow>
       Inr (tool_content (e_to_string env (JObj [(''code'', JStr code), (''message'', JStr message)])) True)
   | Inl (HSql e) \<Rightarrow>
       Inr (tool_content (e_to_string env (JObj [(''code'', JStr ''sql''), (''message'', JStr (e_sql_text env e))])) True)
   | Inl (HPanic p) \<Rightarrow> Inl no_response)"

lemma worker_call:
  assumes "map_of (avatars w) i = Some a" and "run_tool env tool a args w = (res, w')"
  shows "worker_dispatch env dec i (mcp_envelope tool args cid) w = (case res of
      Inr v \<Rightarrow> (Inr (mcp_reply cid v), w') | Inl (HErr c m) \<Rightarrow> (Inr (mcp_err cid c m), w')
    | Inl (HSql e) \<Rightarrow> (Inr (mcp_err cid ''sql'' (e_sql_text env e)), w') | Inl (HPanic p) \<Rightarrow> (Inl p, w'))"
proof -
  have "get_str ''tool'' (mcp_envelope tool args cid) = Some tool" "jget ''args'' (mcp_envelope tool args cid) = Some args"
    "get_str ''corr_id'' (mcp_envelope tool args cid) = Some cid"
    "jget ''type'' (mcp_envelope tool args cid) = Some (JStr ''mcp_call'')"
    by (simp_all add: mcp_envelope_def get_str_def)
  then show ?thesis
    using assms unfolding worker_dispatch_def mcp_dispatch_def
    by (simp add: bindE_def asksE_def tryE_def str_or_def ret_def throw_def Let_def split: sum.split handler_error.split)
qed

text \<open>C34: A tool called over HTTP does what the tool does: with the loop there, not stuck and nothing before
  it, the call runs the handler of that name for the avatar of the authenticated agent, just seen alive, with
  the arguments of the request, in the world as it is, and leaves the world the handler leaves. It reports
  the handler's value, or its code and message marked as an error; a handler that waits for a command
  which never ends leaves the request unanswered and the loop stuck.\<close>
theorem http_call_runs_the_tool:
  assumes "path_finding (ho_env h)" and "sr_up s" and "\<not> sr_stuck s" and "sr_queue s = []"
    and "get_str ''name'' params = Some tool" and "tool \<noteq> []" and "jget ''arguments'' params = Some args"
    and "map_of (avatars (world s)) i = Some a"
  shows "\<exists>w res w' t. run_tool (ho_env h) tool (a\<lparr>av_last_seen_at := Some (now_secs (world s))\<rparr>) args w = (res, w') \<and>
    w = (world s)\<lparr>uuid_ctr := Suc (uuid_ctr (world s)),
      avatars := amap_upd i (\<lambda>a. a\<lparr>av_last_seen_at := Some (now_secs (world s))\<rparr>) (avatars (world s))\<rparr> \<and>
    handle_tools_call h i params s = (call_result (ho_env h) res, t) \<and> world t = w' \<and> sr_up t \<and>
    (sr_stuck t \<longleftrightarrow> res = Inl (HPanic Hangs))"
proof -
  let ?env = "ho_env h" and ?a = "a\<lparr>av_last_seen_at := Some (now_secs (world s))\<rparr>"
  obtain u where u: "u = (world s)\<lparr>uuid_ctr := Suc (uuid_ctr (world s))\<rparr>" by blast
  obtain w where w: "w = u\<lparr>avatars := amap_upd i (\<lambda>a. a\<lparr>av_last_seen_at := Some (now_secs u)\<rparr>) (avatars u)\<rparr>"
    by blast
  obtain cid where cid: "cid = ''http-'' @ e_uuid ?env (uuid_ctr (world s))" by blast
  obtain msg where m: "msg = mcp_envelope tool args cid" by blast
  obtain res w' where run: "run_tool ?env tool ?a args w = (res, w')" by fastforce
  have calm: "res = Inl (HPanic p) \<Longrightarrow> p = Hangs" for p
    using calm_run_tool [OF assms(1), of "{Hangs}" tool ?a args, unfolded calm_def] run
    by (auto simp: wpE_def elim!: allE [of _ w])
  have "map_of (avatars w) i = Some ?a"
    using assms(8) by (simp add: w u now_secs_def map_of_amap_upd)
  from worker_call [OF this run] have takes: "loop_takes h (HandleWorkerMsg i msg) (set_world u s) =
    (case res of Inr v \<Rightarrow> (Some (mcp_reply cid v), set_world w' s)
      | Inl (HErr c m) \<Rightarrow> (Some (mcp_err cid c m), set_world w' s)
      | Inl (HSql e) \<Rightarrow> (Some (mcp_err cid ''sql'' (e_sql_text ?env e)), set_world w' s)
      | Inl (HPanic p) \<Rightarrow> (None, (set_world w' s)\<lparr>sr_stuck := True\<rparr>))"
    using calm by (auto simp: loop_takes_def touch_def thenE_def bindE_def modifyE_def w [symmetric] ret_def m
        split: sum.split handler_error.split panic.split)
  obtain t where t: "t = (set_world w' s)\<lparr>sr_stuck := (res = Inl (HPanic Hangs))\<rparr>" by blast
  have same: "set_world w' s = (set_world w' s)\<lparr>sr_stuck := False\<rparr>" using assms(3) by (cases s) (simp add: set_world_def)
  have q: "(set_world u s)\<lparr>sr_queue := []\<rparr> = set_world u s"
    using assms(4) by (simp add: set_world_def)
  have ask: "ask_loop h (HandleWorkerMsg i msg) (set_world u s) = (Inr (case res of Inl (HPanic p) \<Rightarrow> Pending
      | _ \<Rightarrow> answer_of (fst (loop_takes h (HandleWorkerMsg i msg) (set_world u s)))), t)"
    using assms(2-4) calm same
    by (auto simp: ask_loop_def Let_def q takes t answer_of_def split: sum.split handler_error.split)
  have "handle_tools_call h i params s = (call_result ?env res, t)"
    using assms(5-7)
    by (simp add: handle_tools_call_def str_or_def bindE_def on_world_def fresh_uuid_def u [symmetric]
        cid [symmetric, simplified] m [symmetric] ask ret_def)
       (auto simp: takes answer_of_def unwrap_reply_def call_result_def mcp_reply_def mcp_err_def get_str_def
        str_or_def ret_def throw_def split: sum.split handler_error.split)
  moreover have "w = (world s)\<lparr>uuid_ctr := Suc (uuid_ctr (world s)),
      avatars := amap_upd i (\<lambda>a. a\<lparr>av_last_seen_at := Some (now_secs (world s))\<rparr>) (avatars (world s))\<rparr>"
    by (simp add: w u now_secs_def)
  moreover have "world t = w'" "sr_up t" "sr_stuck t \<longleftrightarrow> res = Inl (HPanic Hangs)"
    using assms(2) by (simp_all add: t)
  ultimately show ?thesis using run by blast
qed

theorem http_call_runs_the_tool_witness:
  "\<exists>w res w' t. run_tool (ho_env sample_host) ''ask_peer''
      ((sample_avatar ''e1'' ''engineer'' ''working'')\<lparr>av_last_seen_at := Some 1000\<rparr>) (JObj []) w = (res, w') \<and>
    handle_tools_call sample_host ''e1'' (JObj [(''name'', JStr ''ask_peer''), (''arguments'', JObj [])])
      sample_server = (call_result (ho_env sample_host) res, t) \<and> world t = w'"
proof -
  have pf: "path_finding (ho_env sample_host)"
    using sample_env_contract by (simp add: sample_host_def path_finding_def)
  have av: "map_of (avatars town_sys) ''e1'' = Some (sample_avatar ''e1'' ''engineer'' ''working'')"
    by (simp add: sample_sys_def)
  show ?thesis
    using http_call_runs_the_tool [OF pf, of sample_server "JObj [(''name'', JStr ''ask_peer''), (''arguments'', JObj [])]"
      "''ask_peer''" "JObj []" "''e1''"] av
    by (auto simp: get_str_def now_secs_def)
qed

end
