(* ===== verification/Upkeep.thy ===== *)
theory Upkeep
  imports CmdConsole Sandbox Sample
begin

text \<open>
  The background tasks of the process: the probe of the agent CLIs (\<open>backend_catalog.rs\<close>), the Prometheus
  page (\<open>metrics.rs\<close>), the collection of old work directories (\<open>execenv_gc.rs\<close>) and the backups
  (\<open>backup.rs\<close>). Processes, directory listings, removals, the clock's date and the decimal printer of \<open>f64\<close>
  are arguments.
\<close>

section \<open>Text\<close>

definition trim_start :: "string \<Rightarrow> string" where
  "trim_start s = drop (last (filter (\<lambda>n. is_blank (map of_char (take n s))) [0..<Suc (length s)])) s"

definition trim_end :: "string \<Rightarrow> string" where
  "trim_end s = take (hd (filter (\<lambda>n. is_blank (map of_char (drop n s))) [0..<Suc (length s)])) s"

text \<open>\<open>str::parse::<u64>\<close> and \<open>parse::<i64>\<close>: an optional sign, then digits, within the range.\<close>

definition digit_of :: "char \<Rightarrow> int option" where
  "digit_of c = (let n = (of_char c :: nat) in if 48 \<le> n \<and> n \<le> 57 then Some (int n - 48) else None)"

fun digits_from :: "int \<Rightarrow> string \<Rightarrow> int option" where
  "digits_from acc [] = Some acc"
| "digits_from acc (c # cs) = Option.bind (digit_of c) (\<lambda>d. digits_from (10 * acc + d) cs)"

definition parse_digits :: "string \<Rightarrow> int option" where
  "parse_digits s = (if s = [] then None else digits_from 0 s)"

definition strip_plus :: "string \<Rightarrow> string" where
  "strip_plus s = (case s of c # cs \<Rightarrow> if c = CHR 0x2B then cs else s | [] \<Rightarrow> [])"

definition in_range :: "int \<Rightarrow> int \<Rightarrow> int option \<Rightarrow> int option" where
  "in_range lo hi x = Option.bind x (\<lambda>i. if lo \<le> i \<and> i \<le> hi then Some i else None)"

definition parse_u64 :: "string \<Rightarrow> int option" where
  "parse_u64 s = in_range 0 (2 ^ 64 - 1) (parse_digits (strip_plus s))"

definition parse_i64 :: "string \<Rightarrow> int option" where
  "parse_i64 s = in_range (- (2 ^ 63)) (2 ^ 63 - 1)
     (case s of c # cs \<Rightarrow> if c = CHR 0x2D then map_option uminus (parse_digits cs) else parse_digits (strip_plus s)
      | [] \<Rightarrow> None)"

section \<open>The agent CLIs\<close>

record backend_info =
  bi_id :: string
  bi_available :: bool
  bi_version :: "string option"
  bi_install_hint :: "string option"
  bi_last_checked_ts :: int

definition BACKENDS :: "(string \<times> string \<times> string) list" where
  "BACKENDS =
     [(''claude_code'', ''claude'', ''Install: npm i -g @anthropic-ai/claude-code''),
      (''codex'', ''codex'', ''Install: npm i -g @openai/codex''),
      (''opencode'', ''opencode'', ''Install: see https://opencode.ai'')]"

text \<open>
  \<open>run cmd\<close>: \<open>None\<close> when \<open>cmd --version\<close> does not start or takes more than two seconds, otherwise whether it
  succeeded and what it printed.
\<close>

definition probe_one :: "(string \<Rightarrow> (bool \<times> string) option) \<Rightarrow> int \<Rightarrow> string \<times> string \<times> string \<Rightarrow> backend_info" where
  "probe_one run now b = (case b of (i, cmd, hint) \<Rightarrow> (case run cmd of
       Some (True, out) \<Rightarrow> \<lparr> bi_id = i, bi_available = True, bi_version = Some (trim_end (trim_start out)),
         bi_install_hint = None, bi_last_checked_ts = now \<rparr>
     | _ \<Rightarrow> \<lparr> bi_id = i, bi_available = False, bi_version = None, bi_install_hint = Some hint,
         bi_last_checked_ts = now \<rparr>))"

definition probe_all :: "(string \<Rightarrow> (bool \<times> string) option) \<Rightarrow> int \<Rightarrow> (string \<times> backend_info) list" where
  "probe_all run now = map (\<lambda>b. (fst b, probe_one run now b)) BACKENDS"

definition backend_json :: "backend_info \<Rightarrow> json" where
  "backend_json b = JObj [(''id'', JStr (bi_id b)), (''available'', JBool (bi_available b)),
     (''version'', jopt (bi_version b)), (''install_hint'', jopt (bi_install_hint b)),
     (''last_checked_ts'', JInt (bi_last_checked_ts b))]"

section \<open>The metrics page\<close>

definition health_str :: "health \<Rightarrow> string" where
  "health_str h = (case h of Online \<Rightarrow> ''online'' | RecentlyLost \<Rightarrow> ''recently_lost''
     | Offline \<Rightarrow> ''offline'' | AboutToGc \<Rightarrow> ''about_to_gc'')"

definition NEWLINE :: char where
  "NEWLINE = CHR 0x0A"

definition labelled :: "string \<Rightarrow> string \<Rightarrow> string \<Rightarrow> string \<Rightarrow> string" where
  "labelled metric label value x = metric @ ''{'' @ label @ ''='' @ [CHR 0x22] @ value @ [CHR 0x22] @ ''} '' @ x"

definition help_line :: "string \<Rightarrow> string \<Rightarrow> string" where
  "help_line metric txt = ''# HELP '' @ metric @ '' '' @ txt"

definition type_line :: "string \<Rightarrow> string \<Rightarrow> string" where
  "type_line metric kind = ''# TYPE '' @ metric @ '' '' @ kind"

definition call_lines :: "nat \<Rightarrow> nat \<Rightarrow> string list" where
  "call_lines calls errors =
     [help_line ''cliptown_mcp_calls_total'' ''MCP tool call attempts (success + failure).'',
      type_line ''cliptown_mcp_calls_total'' ''counter'', ''cliptown_mcp_calls_total '' @ show_nat calls,
      help_line ''cliptown_mcp_errors_total'' ''MCP tool calls that returned mcp_error.'',
      type_line ''cliptown_mcp_errors_total'' ''counter'', ''cliptown_mcp_errors_total '' @ show_nat errors]"

definition agent_lines :: "avatars \<Rightarrow> string list" where
  "agent_lines avs =
     [help_line ''cliptown_agents'' ''Avatar count by P2.1 health bucket.'', type_line ''cliptown_agents'' ''gauge''] @
     map (\<lambda>bucket. labelled ''cliptown_agents'' ''health'' bucket
        (show_nat (length (filter (\<lambda>(k, a). health_str (av_health a) = bucket) avs))))
       [''online'', ''recently_lost'', ''offline'', ''about_to_gc'']"

definition startup_lines :: "(real \<Rightarrow> string) \<Rightarrow> startup list \<Rightarrow> string list" where
  "startup_lines f64 rows =
     [help_line ''cliptown_startups_active'' ''Currently active startups.'',
      type_line ''cliptown_startups_active'' ''gauge'', ''cliptown_startups_active '' @ show_nat (length rows),
      help_line ''cliptown_budget_spent_usd'' ''Per-startup spend.'', type_line ''cliptown_budget_spent_usd'' ''gauge'',
      help_line ''cliptown_budget_cap_usd'' ''Per-startup cap.'', type_line ''cliptown_budget_cap_usd'' ''gauge''] @
     concat (map (\<lambda>r.
       [labelled ''cliptown_budget_spent_usd'' ''startup_id'' (su_id r) (f64 (su_spent r)),
        labelled ''cliptown_budget_cap_usd'' ''startup_id'' (su_id r) (f64 (su_cap r))]) rows)"

definition metric_statuses :: "string list" where
  "metric_statuses = [''proposed'', ''queued'', ''in_progress'', ''awaiting_review'', ''changes_requested'',
     ''done'', ''failed'', ''escalated'']"

definition count_status :: "task list \<Rightarrow> (string \<times> nat) list" where
  "count_status ts = map (\<lambda>st. (st, length (filter (\<lambda>t. t_status t = st) ts))) (remdups (map t_status ts))"

definition task_lines :: "(string \<times> nat) list \<Rightarrow> string list" where
  "task_lines counts =
     [help_line ''cliptown_tasks'' ''Task count by status.'', type_line ''cliptown_tasks'' ''gauge''] @
     map (\<lambda>st. labelled ''cliptown_tasks'' ''status'' st
        (show_nat (case map_of counts st of None \<Rightarrow> 0 | Some n \<Rightarrow> n))) metric_statuses"

definition tick_lines :: "64 word \<Rightarrow> string list" where
  "tick_lines n = [help_line ''cliptown_tick_seq'' ''Monotonic loop tick counter.'',
     type_line ''cliptown_tick_seq'' ''counter'', ''cliptown_tick_seq '' @ show_nat (unat n)]"

definition render_metrics :: "(real \<Rightarrow> string) \<Rightarrow> nat \<Rightarrow> nat \<Rightarrow> (sys, 'e, string) sem" where
  "render_metrics f64 calls errors =
     bindE (orDefault [] (sql_query (\<lambda>d. filter (\<lambda>r. su_status r = ''active'') (d_startups d)))) (\<lambda>startups.
     bindE (orDefault [] (sql_query (\<lambda>d. count_status (d_tasks d)))) (\<lambda>counts.
     asksE (\<lambda>s. concat (map (\<lambda>l. l @ [NEWLINE])
       (call_lines calls errors @ agent_lines (avatars s) @ startup_lines f64 startups @ task_lines counts @
        tick_lines (tick_seq s))))))"

section \<open>Old work directories\<close>

record gc_config =
  gc_root :: string
  gc_max_age_secs :: int
  gc_interval_secs :: int

text \<open>The products wrap around in a release build.\<close>

definition wrap_i64 :: "int \<Rightarrow> int" where
  "wrap_i64 i = (i + 2 ^ 63) mod 2 ^ 64 - 2 ^ 63"

definition or_default :: "'a \<Rightarrow> 'a option \<Rightarrow> 'a" where
  "or_default d x = (case x of None \<Rightarrow> d | Some v \<Rightarrow> v)"

definition gc_from_env :: "(string \<Rightarrow> string option) \<Rightarrow> gc_config option" where
  "gc_from_env var =
     (if var ''CLIPTOWN_EXECENV_GC_ENABLED'' \<noteq> Some ''1'' then None
      else Some \<lparr>
        gc_root = or_default ''./workspaces'' (var ''CLIPTOWN_WORKSPACES_ROOT''),
        gc_max_age_secs = wrap_i64 (or_default 7 (Option.bind (var ''CLIPTOWN_EXECENV_GC_AGE_DAYS'') parse_i64) * 86400),
        gc_interval_secs =
          or_default 6 (Option.bind (var ''CLIPTOWN_EXECENV_GC_INTERVAL_HOURS'') parse_u64) * 3600 mod 2 ^ 64 \<rparr>)"

definition is_terminal_status :: "string \<Rightarrow> bool" where
  "is_terminal_status st \<longleftrightarrow> st = ''done'' \<or> st = ''failed'' \<or> st = ''escalated''"

definition stale_workdirs :: "int \<Rightarrow> database \<Rightarrow> (ident \<times> ident) list" where
  "stale_workdirs cutoff d = map (\<lambda>t. (t_startup t, t_id t))
     (filter (\<lambda>t. is_terminal_status (t_status t) \<and> t_updated_at t < cutoff) (d_tasks d))"

text \<open>\<open>Path::join\<close>: an absolute path replaces what it is joined to.\<close>

definition path_join :: "fs_path \<Rightarrow> string \<Rightarrow> fs_path" where
  "path_join p s = (if is_prefix ''/'' s then path_components s else p @ path_components s)"

definition workdir_of :: "fs_path \<Rightarrow> ident \<times> ident \<Rightarrow> fs_path" where
  "workdir_of base w = path_join (path_join base (fst w)) (snd w)"

text \<open>\<open>rm\<close> is \<open>remove_dir_all\<close>: whether it succeeded and the paths that are left.\<close>

type_synonym remover = "fs_path \<Rightarrow> fs_path list \<Rightarrow> bool \<times> fs_path list"

fun reap :: "remover \<Rightarrow> fs_path list \<Rightarrow> fs_path list \<Rightarrow> nat \<times> fs_path list" where
  "reap rm [] disk = (0, disk)"
| "reap rm (target # targets) disk =
     (if target \<notin> set disk then reap rm targets disk
      else case rm target disk of (ok, disk') \<Rightarrow>
        (case reap rm targets disk' of (n, disk'') \<Rightarrow> ((if ok then Suc n else n), disk'')))"

definition run_pass :: "remover \<Rightarrow> fs_path \<Rightarrow> int \<Rightarrow> fs_path list \<Rightarrow> (sys, sql_error, nat \<times> fs_path list) sem" where
  "run_pass rm base max_age_secs disk =
     bindE (asksE (\<lambda>s. now_secs s - max_age_secs)) (\<lambda>cutoff.
     bindE (sql_query (stale_workdirs cutoff)) (\<lambda>rows.
     ret (reap rm (map (workdir_of base) rows) disk)))"

section \<open>Backups\<close>

datatype backup_error = UnsafePath string | BackupIo | BackupSql sql_error

definition DEFAULT_INTERVAL_HOURS :: int where
  "DEFAULT_INTERVAL_HOURS = 6"

definition DEFAULT_KEEP :: int where
  "DEFAULT_KEEP = 14"

definition TICK_QUOTE :: char where
  "TICK_QUOTE = CHR 0x27"

definition vacuum_query :: "string \<Rightarrow> string" where
  "vacuum_query dest = ''VACUUM INTO '' @ [TICK_QUOTE] @ dest @ [TICK_QUOTE]"

text \<open>
  \<open>dest\<close> is \<open>None\<close> when it is not UTF-8, with its lossy text; \<open>mkdir\<close> is \<open>create_dir_all\<close> of the parent, \<open>exec\<close> runs a statement.
\<close>

definition snapshot_to :: "bool \<Rightarrow> (string \<Rightarrow> sql_error option) \<Rightarrow> string \<Rightarrow> string option \<Rightarrow> backup_error + string" where
  "snapshot_to mkdir exec lossy dest = (case dest of
      None \<Rightarrow> Inl (UnsafePath lossy)
    | Some p \<Rightarrow>
        (if TICK_QUOTE \<in> set p \<or> CHR 0x5C \<in> set p then Inl (UnsafePath p)
         else if \<not> mkdir then Inl BackupIo
         else case exec (vacuum_query p) of
            Some e \<Rightarrow> Inl (BackupSql e) | None \<Rightarrow> Inr (vacuum_query p)))"

text \<open>\<open>stamp\<close> is the date as \<open>%Y%m%d-%H%M%S\<close>.\<close>

definition snapshot_name :: "string \<Rightarrow> string" where
  "snapshot_name stamp = ''cliptown-'' @ stamp @ ''.db''"

definition is_snapshot :: "string \<Rightarrow> bool" where
  "is_snapshot n \<longleftrightarrow> is_prefix ''cliptown-'' n \<and> ends_with n ''.db''"

text \<open>The names the directory lists (a name that is not UTF-8 is skipped), newest first.\<close>

definition snapshots_newest_first :: "string option list \<Rightarrow> string list" where
  "snapshots_newest_first entries = rev (sort (filter is_snapshot (List.map_filter id entries)))"

datatype listing = NotFound | ListingFailed | Listed "string option list"

text \<open>\<open>rm n\<close>: whether the file \<open>n\<close> could be removed. The result: how many were, and which.\<close>

definition prune :: "(string \<Rightarrow> bool) \<Rightarrow> listing \<Rightarrow> nat \<Rightarrow> backup_error + nat \<times> string list" where
  "prune rm l keep = (case l of
      NotFound \<Rightarrow> Inr (0, [])
    | ListingFailed \<Rightarrow> Inl BackupIo
    | Listed entries \<Rightarrow>
        let snaps = snapshots_newest_first entries in
        (if length snaps \<le> keep then Inr (0, [])
         else let gone = filter rm (drop keep snaps) in Inr (length gone, gone)))"

record backup_config =
  bk_dir :: string
  bk_interval_hours :: int
  bk_keep :: int

definition at_least_one :: "int option \<Rightarrow> int option" where
  "at_least_one x = Option.bind x (\<lambda>n. if 1 \<le> n then Some n else None)"

text \<open>\<open>usize\<close> has 64 bits.\<close>

definition backup_from_env :: "(string \<Rightarrow> string option) \<Rightarrow> backup_config option" where
  "backup_from_env var = (case var ''CLIPTOWN_BACKUP_DIR'' of
      None \<Rightarrow> None
    | Some dir \<Rightarrow>
        if dir = [] then None
        else Some \<lparr> bk_dir = dir,
          bk_interval_hours = or_default DEFAULT_INTERVAL_HOURS
            (at_least_one (Option.bind (var ''CLIPTOWN_BACKUP_INTERVAL_HOURS'') parse_u64)),
          bk_keep = or_default DEFAULT_KEEP (at_least_one (Option.bind (var ''CLIPTOWN_BACKUP_KEEP'') parse_u64)) \<rparr>)"

section \<open>Properties\<close>

text \<open>What \<open>remove_dir_all\<close> documents: it removes nothing outside the directory, and all of it when it succeeds.\<close>

definition removes_below :: "remover \<Rightarrow> bool" where
  "removes_below rm \<longleftrightarrow> (\<forall>target disk. case rm target disk of (ok, disk') \<Rightarrow>
     (\<forall>p \<in> set disk - set disk'. is_prefix target p) \<and> set disk' \<subseteq> set disk \<and>
     (ok \<longrightarrow> (\<forall>p \<in> set disk'. \<not> is_prefix target p)))"

lemma reap_removes:
  assumes "removes_below rm" and "reap rm targets disk = (n, disk')"
  shows "(\<forall>p \<in> set disk - set disk'. \<exists>target \<in> set targets. is_prefix target p) \<and> set disk' \<subseteq> set disk"
  using assms(2)
proof (induction targets arbitrary: disk n)
  case (Cons target targets)
  show ?case
  proof (cases "target \<in> set disk")
    case True
    obtain ok mid where rm: "rm target disk = (ok, mid)" by fastforce
    obtain m rest_disk where rest: "reap rm targets mid = (m, rest_disk)" by fastforce
    have "rest_disk = disk'" using Cons.prems True rm rest by simp
    moreover have "(\<forall>p \<in> set disk - set mid. is_prefix target p) \<and> set mid \<subseteq> set disk"
      using assms(1) rm by (auto simp: removes_below_def split: prod.splits)
    ultimately show ?thesis using Cons.IH [of mid m] rest by auto
  next
    case False
    with Cons show ?thesis by auto
  qed
qed simp

text \<open>C36: The collection of work directories spares everything else: whatever disappears in a pass lies in
  the work directory of a task that is done, failed or escalated and was last updated before the age
  limit, and a pass in which something disappears leaves the database as it was.\<close>
theorem gc_removes_only_old_workdirs:
  assumes "removes_below rm" and "run_pass rm base age disk s = (Inr (n, disk'), t)"
    and "p \<in> set disk - set disk'"
  shows "db t = db s \<and> (\<exists>x \<in> set (d_tasks (db s)). is_terminal_status (t_status x) \<and>
    t_updated_at x < now_secs s - age \<and> is_prefix (workdir_of base (t_startup x, t_id x)) p)"
proof -
  have "wpE (run_pass rm base age disk)
      (\<lambda>(n, disk') t. reap rm (map (workdir_of base) (stale_workdirs (now_secs s - age) (db s))) disk = (n, disk') \<and> db t = db s)
      (\<lambda>_ _. True) s"
    by (simp add: run_pass_def wp split: prod.split)
  from wpE_Inr [OF this assms(2)]
  have "reap rm (map (workdir_of base) (stale_workdirs (now_secs s - age) (db s))) disk = (n, disk')" "db t = db s"
    by simp_all
  with reap_removes [OF assms(1) this(1)] assms(3) show ?thesis
    by (auto simp: stale_workdirs_def)
qed

definition sample_remover :: remover where
  "sample_remover target disk = (True, filter (\<lambda>p. \<not> is_prefix target p) disk)"

lemma sample_removes: "removes_below sample_remover"
  by (simp add: removes_below_def sample_remover_def)

definition aged_sys :: sys where
  "aged_sys = sample_sys\<lparr>db := upd_task ''t3'' (\<lambda>t. t\<lparr>t_status := ''done''\<rparr>) sample_db\<rparr>"

theorem gc_removes_only_old_workdirs_witness:
  "run_pass sample_remover [''workspaces''] 600
     [[''workspaces'', ''s1'', ''t3''], [''workspaces'', ''s1'', ''t1''], [''workspaces'', ''s1'', ''artifacts'']] aged_sys =
     (Inr (1, [[''workspaces'', ''s1'', ''t1''], [''workspaces'', ''s1'', ''artifacts'']]), aged_sys) \<and>
   (\<exists>x \<in> set (d_tasks (db aged_sys)). is_terminal_status (t_status x) \<and> t_updated_at x < 400)"
proof -
  have same: "aged_sys\<lparr>faults := [], db := db aged_sys\<rparr> = aged_sys" "faults aged_sys = []" "now_ms aged_sys = 1000000"
    by (simp_all add: aged_sys_def sample_sys_def)
  have rows: "stale_workdirs 400 (db aged_sys) = [(''s1'', ''t3'')]"
    by (simp add: stale_workdirs_def aged_sys_def sample_defs upd_task_def upd_tasks_def update_rows_def is_terminal_status_def)
  have dir: "workdir_of [''workspaces''] (''s1'', ''t3'') = [''workspaces'', ''s1'', ''t3'']"
    by (simp add: workdir_of_def path_join_def path_components_def)
  have run: "run_pass sample_remover [''workspaces''] 600
     [[''workspaces'', ''s1'', ''t3''], [''workspaces'', ''s1'', ''t1''], [''workspaces'', ''s1'', ''artifacts'']] aged_sys =
     (Inr (1, [[''workspaces'', ''s1'', ''t1''], [''workspaces'', ''s1'', ''artifacts'']]), aged_sys)"
    by (simp add: run_pass_def bindE_def asksE_def sql_query_def sql_stmt_def ret_def now_secs_def rows dir
        sample_remover_def same)
  from gc_removes_only_old_workdirs [OF sample_removes run, of "[''workspaces'', ''s1'', ''t3'']"] run
  show ?thesis by (auto simp: now_secs_def same)
qed

lemma newest_first:
  assumes "distinct (List.map_filter id entries)"
  shows "sorted_wrt (>) (snapshots_newest_first entries)"
    "set (snapshots_newest_first entries) = {n. Some n \<in> set entries \<and> is_snapshot n}"
proof -
  let ?ns = "filter is_snapshot (List.map_filter id entries)"
  have "sorted_wrt (<) (sort ?ns)" using assms by (simp add: strict_sorted_iff)
  then show "sorted_wrt (>) (snapshots_newest_first entries)"
    by (simp add: snapshots_newest_first_def sorted_wrt_rev)
  show "set (snapshots_newest_first entries) = {n. Some n \<in> set entries \<and> is_snapshot n}"
    by (auto simp: snapshots_newest_first_def in_map_filter)
qed

text \<open>Pruning keeps the newest backups: it removes only files named like a snapshot, and of every file it
  removes there are at least \<open>keep\<close> snapshots with a later name that it leaves alone.\<close>

lemma prune_keeps_the_newest:
  assumes "prune rm (Listed entries) keep = Inr (n, gone)" and "distinct (List.map_filter id entries)" and "g \<in> set gone"
  shows "is_snapshot g \<and> Some g \<in> set entries \<and> n = length gone \<and>
    (\<exists>kept. kept \<subseteq> {x. Some x \<in> set entries \<and> is_snapshot x \<and> g < x} - set gone \<and> card kept = keep)"
proof -
  let ?s = "snapshots_newest_first entries"
  from assms(1,3) have gone: "gone = filter rm (drop keep ?s)" "n = length gone" "keep < length ?s"
    by (auto simp: prune_def Let_def split: if_splits)
  have parts: "?s = take keep ?s @ drop keep ?s" by simp
  have sorted: "sorted_wrt (>) (take keep ?s @ drop keep ?s)" using newest_first(1) [OF assms(2)] by simp
  then have later: "x > y" if "x \<in> set (take keep ?s)" "y \<in> set (drop keep ?s)" for x y
    using that by (auto simp del: append_take_drop_id simp: sorted_wrt_append)
  have g: "g \<in> set (drop keep ?s)" using assms(3) gone(1) by simp
  have "distinct ?s" using newest_first(1) [OF assms(2)] by (auto simp: sorted_wrt_iff_nth_less distinct_conv_nth) (metis less_irrefl nat_neq_iff)
  then have "card (set (take keep ?s)) = keep" using gone(3) by (simp add: distinct_card)
  moreover have "set (take keep ?s) \<subseteq> {x. Some x \<in> set entries \<and> is_snapshot x \<and> g < x} - set gone"
    using later g gone(1) newest_first(2) [OF assms(2)] by (auto dest: in_set_takeD) 
  moreover have "is_snapshot g \<and> Some g \<in> set entries"
    using g newest_first(2) [OF assms(2)] by (auto dest: in_set_dropD)
  ultimately show ?thesis using gone(2) by blast
qed

text \<open>The path stays inside the string literal it is spliced into.\<close>

lemma backup_path_is_quoted:
  assumes "snapshot_to mkdir exec lossy dest = Inr q"
  shows "\<exists>p. dest = Some p \<and> q = vacuum_query p \<and> length (filter (\<lambda>c. c = TICK_QUOTE) q) = 2"
proof -
  from assms obtain p where p: "dest = Some p" "TICK_QUOTE \<notin> set p" "q = vacuum_query p"
    by (auto simp: snapshot_to_def split: option.splits if_splits)
  then have "filter (\<lambda>c. c = TICK_QUOTE) p = []" by (auto simp: filter_empty_conv)
  with p show ?thesis by (simp add: vacuum_query_def TICK_QUOTE_def)
qed

end
