(* ===== verification/Http.thy ===== *)
theory Http
  imports McpHttp Upkeep
begin

text \<open>
  The HTTP server, \<open>http.rs\<close>: the snapshot a console receives, the sessions of consoles and workers, the
  backend catalogue and the table of routes. A session is a step function on what arrives at its
  socket; \<open>accepts\<close> says which of the frames sent in a step the socket still takes. Frames of the
  broadcast channel arrive as JSON, serialized by derived code. What a worker's session forwards from its channel
  is the channel's content; taking it out is a step of the environment.
\<close>

section \<open>The console snapshot\<close>

definition jopt_tile :: "tile option \<Rightarrow> json" where
  "jopt_tile t = (case t of None \<Rightarrow> JNull | Some (x, y) \<Rightarrow> JArr [JInt x, JInt y])"

definition avatar_fields :: "avatar \<Rightarrow> (string \<times> json) list" where
  "avatar_fields a =
     [(''agent_id'', JStr (av_agent_id a)), (''startup_id'', JStr (av_startup_id a)),
      (''role'', JStr (av_role a)), (''backend'', JStr (av_backend a)),
      (''current_pos'', JArr [JInt (fst (av_current_pos a)), JInt (snd (av_current_pos a))]),
      (''target_pos'', jopt_tile (av_target_pos a)), (''room_id'', JStr (av_room_id a)),
      (''status'', JStr (av_status a)), (''last_seen_at'', jopt_int (av_last_seen_at a)),
      (''health'', JStr (health_str (av_health a)))]"

definition last_event_ts :: "database \<Rightarrow> startup \<Rightarrow> int" where
  "last_event_ts d r =
     (case map se_ts (filter (\<lambda>e. se_startup e = Some (su_id r)) (d_system_events d)) of
        [] \<Rightarrow> su_created_at r
      | ts \<Rightarrow> Max (set ts))"

definition startup_json :: "database \<Rightarrow> startup \<Rightarrow> json" where
  "startup_json d r = JObj
     [(''id'', JStr (su_id r)), (''name'', JStr (su_name r)), (''budget_spent_usd'', JReal (su_spent r)),
      (''budget_cap_usd'', JReal (su_cap r)), (''last_event_ts'', JInt (last_event_ts d r)),
      (''auto_steal_enabled'', JBool (su_auto_steal_enabled r \<noteq> 0)),
      (''auto_steal_after_secs'', JInt (su_auto_steal_after_secs r)),
      (''auto_recovery_enabled'', JBool (su_auto_recovery_enabled r \<noteq> 0)),
      (''auto_recovery_max_attempts'', JInt (su_auto_recovery_max_attempts r))]"

definition task_json :: "int \<Rightarrow> task \<Rightarrow> json" where
  "task_json max_rounds t = JObj
     [(''id'', JStr (t_id t)), (''startup_id'', JStr (t_startup t)), (''title'', JStr (t_title t)),
      (''status'', JStr (t_status t)), (''assignee_agent_id'', jopt (t_assignee t)),
      (''required_room'', jopt (t_required_room t)), (''review_round'', JInt (t_review_round t)),
      (''max_review_rounds'', JInt max_rounds), (''artifact_path'', jopt (t_artifact t)),
      (''blocked_on'', jopt (t_blocked_on t)), (''deadline_at'', jopt_int (t_deadline_at t))]"

definition reviewer_flag :: "(ident \<times> int) list \<Rightarrow> ident \<Rightarrow> bool" where
  "reviewer_flag rows i = (case map_of (rev rows) i of None \<Rightarrow> False | Some n \<Rightarrow> n \<noteq> 0)"

definition build_console_snapshot :: "int \<Rightarrow> (sys, 'e, json) sem" where
  "build_console_snapshot max_rounds =
     bindE (orDefault [] (sql_query (\<lambda>d. map (startup_json d) (filter (\<lambda>r. su_status r = ''active'') (d_startups d)))))
       (\<lambda>startups.
     bindE (orDefault [] (sql_query (\<lambda>d. map (task_json max_rounds)
         (filter (\<lambda>t. t_status t \<noteq> ''done'' \<and> t_status t \<noteq> ''failed'') (d_tasks d))))) (\<lambda>tasks.
     bindE (orDefault [] (sql_query (\<lambda>d. map (\<lambda>a. (ag_id a, ag_is_peer_reviewer a)) (d_agents d)))) (\<lambda>reviewers.
     bindE (asksE now_secs) (\<lambda>now.
     bindE (orDefault [] (list_active now)) (\<lambda>locks.
     asksE (\<lambda>s. JObj [(''type'', JStr ''world_view_snapshot''), (''v'', JInt 1), (''snapshot'', JObj
       [(''tick_seq'', JInt (uint (tick_seq s))), (''backend_catalog'', JObj (catalog s)),
        (''avatars'', JArr (map (\<lambda>(k, a). JObj (obj_insert ''is_peer_reviewer''
           (JBool (reviewer_flag reviewers (av_agent_id a))) (avatar_fields a))) (avatars s))),
        (''startups'', JArr startups), (''tasks'', JArr tasks),
        (''action_locks'', JArr (map lock_json locks))])]))))))"

definition skills_snapshot :: "env \<Rightarrow> (sys, 'e, json) sem" where
  "skills_snapshot env =
     bindE (orDefault [] (list_all_with_attachments env)) (\<lambda>by_startup.
     ret (JObj [(''type'', JStr ''skills_snapshot''), (''v'', JInt 1), (''startups'',
       JObj (map (\<lambda>(sid, rows). (sid, JArr (map skill_with_attachments_to_json rows))) by_startup))]))"

section \<open>Presence\<close>

definition presence_json :: "presence_entry \<Rightarrow> json" where
  "presence_json e = JObj [(''operator_id'', JStr (pe_operator_id e)), (''operator_name'', JStr (pe_operator_name e)),
     (''role'', JStr (pe_role e)), (''focused_startup_id'', jopt (pe_focused e)),
     (''last_seen_at'', JInt (pe_last_seen_at e))]"

definition announce_presence :: "(server, 'e, unit) sem" where
  "announce_presence =
     bindE (asksE (\<lambda>s. map presence_json (snapshot (sr_presence s)))) (\<lambda>snap.
       on_world (broadcast (FOperatorPresence snap)))"

definition beat :: "operator_identity \<Rightarrow> ident option \<Rightarrow> (server, 'e, bool) sem" where
  "beat idn focused = (\<lambda>s.
     case upsert (sr_presence s) (oi_id idn) (oi_name idn) (role_as_str (oi_role idn)) focused (now_secs (world s)) of
       (changed, reg) \<Rightarrow> (Inr changed, s\<lparr>sr_presence := reg\<rparr>))"

definition leave_presence :: "operator_identity \<Rightarrow> (server, 'e, unit) sem" where
  "leave_presence idn = (\<lambda>s. case drop_entry (sr_presence s) (oi_id idn) of
     (listed, reg) \<Rightarrow> (if listed then announce_presence else ret ()) (s\<lparr>sr_presence := reg\<rparr>))"

section \<open>The session of a console\<close>

text \<open>What the session has sent; \<open>cn_identity\<close> is set once the hello has been accepted.\<close>

record console =
  cn_identity :: "operator_identity option"
  cn_out :: "json list"

definition closed_console :: "json list \<Rightarrow> console" where
  "closed_console out = \<lparr> cn_identity = None, cn_out = out \<rparr>"

definition auth_error_frame :: json where
  "auth_error_frame = JObj [(''type'', JStr ''auth_error'')]"

definition hello_ok_frame :: "operator_identity \<Rightarrow> json" where
  "hello_ok_frame idn = JObj [(''type'', JStr ''hello_ok''), (''v'', JInt 1), (''operator_id'', JStr (oi_id idn)),
     (''operator_name'', JStr (oi_name idn)), (''role'', JStr (role_as_str (oi_role idn)))]"

text \<open>The first frame: a text that parses and says hello, or the socket is dropped without an answer.\<close>

definition parse_hello :: "env \<Rightarrow> string \<Rightarrow> json option" where
  "parse_hello env txt = (case e_parse_json env txt of
     Some j \<Rightarrow> if jget ''type'' j = Some (JStr ''hello'') then Some j else None | None \<Rightarrow> None)"

definition console_hello :: "host \<Rightarrow> int \<Rightarrow> (nat \<Rightarrow> bool) \<Rightarrow> string \<Rightarrow> (server, console, console) sem" where
  "console_hello h max_rounds accepts txt =
     (let env = ho_env h in
      case parse_hello env txt of
        None \<Rightarrow> throw (closed_console [])
      | Some hello \<Rightarrow>
          bindE (asksE operator_token_var) (\<lambda>tok.
          bindE (mapErr (\<lambda>_. closed_console [auth_error_frame])
              (on_world (validate_operator_token env tok (str_or [] (get_str ''operator_token'' hello))))) (\<lambda>idn.
          let f0 = hello_ok_frame idn in
          thenE (guardE (accepts 0) (closed_console []))
          (bindE (on_world (build_console_snapshot max_rounds)) (\<lambda>f1.
           thenE (guardE (accepts 1) (closed_console [f0]))
           (bindE (on_world (skills_snapshot env)) (\<lambda>f2.
            thenE (guardE (accepts 2) (closed_console [f0, f1]))
            (bindE (beat idn None) (\<lambda>_.
             thenE announce_presence
             (ret \<lparr> cn_identity = Some idn, cn_out = [f0, f1, f2] \<rparr>))))))))))"

text \<open>
  A session that waits for a loop which is stuck takes no further turn. What wakes an open session: \<open>Gone\<close> is a closed socket, a closed channel or a broadcast channel that lagged.\<close>

datatype console_event = Inbound string | NonText | ViewChanged | Event json | Gone

definition push :: "bool \<Rightarrow> json \<Rightarrow> console \<Rightarrow> (server, console, console) sem" where
  "push ok f cn = (if ok then ret (cn\<lparr>cn_out := cn_out cn @ [f]\<rparr>) else throw cn)"

definition console_message :: "host \<Rightarrow> bool \<Rightarrow> operator_identity \<Rightarrow> json \<Rightarrow> console \<Rightarrow> (server, console, console) sem" where
  "console_message h ok idn msg cn =
     (if get_str ''type'' msg = Some ''presence_heartbeat'' then
        bindE (beat idn (get_str ''focused_startup_id'' msg)) (\<lambda>changed.
        thenE (if changed then announce_presence else ret ()) (ret cn))
      else bindE (ask_loop h (HandleConsoleMsg msg idn)) (\<lambda>a. case a of
          Answered reply \<Rightarrow> push ok reply cn
        | _ \<Rightarrow> ret cn))"

text \<open>One turn of the loop; leaving it is an error value.\<close>

definition console_turn :: "host \<Rightarrow> int \<Rightarrow> bool \<Rightarrow> operator_identity \<Rightarrow> console_event \<Rightarrow> console \<Rightarrow>
    (server, console, console) sem" where
  "console_turn h max_rounds ok idn e cn = (case e of
      Inbound txt \<Rightarrow> (case e_parse_json (ho_env h) txt of
          None \<Rightarrow> ret cn
        | Some msg \<Rightarrow> console_message h ok idn msg cn)
    | NonText \<Rightarrow> ret cn
    | ViewChanged \<Rightarrow> bindE (on_world (build_console_snapshot max_rounds)) (\<lambda>f. push ok f cn)
    | Event f \<Rightarrow> push ok f cn
    | Gone \<Rightarrow> throw cn)"

definition console_step :: "host \<Rightarrow> int \<Rightarrow> bool \<Rightarrow> console_event \<Rightarrow> console \<Rightarrow> (server, 'e, console) sem" where
  "console_step h max_rounds ok e cn = (case cn_identity cn of
      None \<Rightarrow> ret cn
    | Some idn \<Rightarrow> bindE (tryE (console_turn h max_rounds ok idn e cn)) (\<lambda>r. case r of
          Inr cn' \<Rightarrow> ret cn'
        | Inl cn' \<Rightarrow> thenE (leave_presence idn) (ret (cn'\<lparr>cn_identity := None\<rparr>))))"

section \<open>The session of a worker\<close>

record worker_conn =
  wk_agent :: "ident option"
  wk_out :: "json list"

definition hello_ack :: json where
  "hello_ack = JObj [(''type'', JStr ''ok''), (''kind'', JStr ''hello'')]"

definition worker_hello :: "host \<Rightarrow> string \<Rightarrow> (server, worker_conn, worker_conn) sem" where
  "worker_hello h txt = (case parse_hello (ho_env h) txt of
      None \<Rightarrow> throw \<lparr> wk_agent = None, wk_out = [] \<rparr>
    | Some hello \<Rightarrow>
        let agent_id = str_or [] (get_str ''agent_id'' hello) in
        bindE (asksE agent_secret) (\<lambda>secrets.
        thenE (mapErr (\<lambda>_. \<lparr> wk_agent = None, wk_out = [auth_error_frame] \<rparr>)
            (on_world (validate_agent_secret secrets agent_id (str_or [] (get_str ''secret'' hello)))))
        (thenE (send_cmd (RegisterWorker agent_id \<lparr> ch_queue = [], ch_is_open = True \<rparr>))
        (ret \<lparr> wk_agent = Some agent_id, wk_out = [hello_ack] \<rparr>))))"

definition leave_worker :: "ident \<Rightarrow> worker_conn \<Rightarrow> (server, 'e, worker_conn) sem" where
  "leave_worker i wk = thenE (send_cmd (UnregisterWorker i)) (ret (wk\<lparr>wk_agent := None\<rparr>))"

text \<open>\<open>WorkerSays None\<close> is a frame that is no text; \<open>WorkerHears\<close> forwards what the channel held.\<close>

datatype worker_event = WorkerSays "string option" | WorkerHears json | WorkerGone

definition worker_step :: "host \<Rightarrow> bool \<Rightarrow> worker_event \<Rightarrow> worker_conn \<Rightarrow> (server, 'e, worker_conn) sem" where
  "worker_step h ok e wk = (case wk_agent wk of
      None \<Rightarrow> ret wk
    | Some i \<Rightarrow>
        let push_to = (\<lambda>f. if ok then ret (wk\<lparr>wk_out := wk_out wk @ [f]\<rparr>) else leave_worker i wk) in
        (case e of
          WorkerSays txt \<Rightarrow> (case Option.bind txt (e_parse_json (ho_env h)) of
              None \<Rightarrow> ret wk
            | Some msg \<Rightarrow> bindE (ask_loop h (HandleWorkerMsg i msg)) (\<lambda>a. case a of
                  Answered reply \<Rightarrow> push_to reply
                | _ \<Rightarrow> ret wk))
        | WorkerHears f \<Rightarrow> push_to f
        | WorkerGone \<Rightarrow> leave_worker i wk))"

section \<open>The backend catalogue\<close>

definition api_catalog :: "response api" where
  "api_catalog = bindE (asksE sr_catalog) (\<lambda>m. ret (json_reply 200 (JObj m)))"

definition new_catalog :: "host \<Rightarrow> server \<Rightarrow> (string \<times> json) list" where
  "new_catalog h s = map (\<lambda>(i, b). (i, backend_json b)) (probe_all (ho_probe h) (now_secs (world s)))"

definition api_recheck :: "host \<Rightarrow> response api" where
  "api_recheck h =
     bindE (asksE (new_catalog h)) (\<lambda>m.
     thenE (modifyE (\<lambda>s. s\<lparr>sr_catalog := m\<rparr>))
     (thenE (send_cmd (BackendCatalogUpdated m))
     (ret (json_reply 200 (JObj [(''ok'', JBool True), (''entries'', JObj m)])))))"

section \<open>The routes\<close>

text \<open>
  The requests of \<open>router\<close> that answer at once, with their bodies as the extractors hand them over; the
  metrics page is \<open>render_metrics\<close> and the two WebSocket routes start the sessions above.
\<close>

datatype request =
    GetHealth
  | GetCatalog
  | PostRecheck
  | PostStartup headers create_startup_request
  | PostTask headers create_task_body
  | PatchStartup headers ident json
  | DeleteStartupRequest headers ident
  | GetSkills headers ident
  | PostMcp headers string

fun serve :: "host \<Rightarrow> request \<Rightarrow> response api" where
  "serve h GetHealth = ret (json_reply 200 (JObj [(''ok'', JBool True)]))"
| "serve h GetCatalog = api_catalog"
| "serve h PostRecheck = api_recheck h"
| "serve h (PostStartup hs rq) = create_startup h hs rq"
| "serve h (PostTask hs b) = create_task h hs b"
| "serve h (PatchStartup hs i body) = patch_startup h hs i body"
| "serve h (DeleteStartupRequest hs i) = delete_startup h hs i"
| "serve h (GetSkills hs a) = get_agent_skills h hs a"
| "serve h (PostMcp hs body) = handle_request h hs body"

end
