(* ===== verification/ServerInv.thy ===== *)
theory ServerInv
  imports Http Operators Locks SupervisorInv
begin

text \<open>
  The server as a whole: the HTTP handlers, the supervisor and the loop work on one database. No
  command changes the startup of an agent, so what a handler has written before it sends a command
  still holds when the loop takes it; this discharges the assumption of \<open>world_step\<close> on the avatars the
  API hands over.
\<close>

section \<open>Agents stay in their startups\<close>

interpretation agent_map: aloof startup_of_agent
  by unfold_locales (simp_all add: startup_of_agent_def [abs_def] agent_row_def upd_tasks_def)

lemma keeps_through:
  assumes "keeps f m" and "\<And>d d'. f d = f d' \<Longrightarrow> g d = g d'"
  shows "keeps g m"
  unfolding keeps_def
proof
  fix s
  from assms(1) have "wpE m (\<lambda>_ t. f (db t) = f (db s)) (\<lambda>_ t. f (db t) = f (db s)) s"
    by (simp add: keeps_def)
  then show "wpE m (\<lambda>_ t. g (db t) = g (db s)) (\<lambda>_ t. g (db t) = g (db s)) s"
    by (rule wp_mono) (auto dest: assms(2))
qed

lemma agents_by_accounts: "keeps accounts m \<Longrightarrow> keeps startup_of_agent m"
  by (erule keeps_through) (simp add: accounts_def startup_of_agent_def [abs_def] agent_row_def)

lemma agents_by_skill_part: "keeps skill_part m \<Longrightarrow> keeps startup_of_agent m"
  by (erule keeps_through) (simp add: skill_part_def)

lemma keeps_agents_skill_tools: "keeps accounts (handle_skill_upsert env a args)"
  "keeps accounts (handle_skill_list env a args)" "keeps accounts (handle_skill_attach env a args)"
  "keeps accounts (handle_skill_detach env a args)" "keeps accounts (handle_skill_delete env a args)"
  "keeps accounts (handle_skill_file_upsert env a args)" "keeps accounts (handle_skill_file_delete env a args)"
  "keeps accounts (handle_skill_list_revisions env a args)" "keeps accounts (handle_skill_revert env a args)"
  unfolding handle_skill_upsert_def handle_skill_list_def handle_skill_attach_def
    handle_skill_detach_def handle_skill_delete_def handle_skill_file_upsert_def
    handle_skill_file_delete_def handle_skill_list_revisions_def handle_skill_revert_def
    skill_changed_def Let_def
  by (intro keeps accounts.keeps_helpers(1))+

lemma keeps_accounts_mcp: "keeps accounts (mcp_dispatch env i msg)"
proof -
  have "keeps accounts (run_tool env tool a args)" for tool a args
    unfolding run_tool_def
    by (intro keeps_cases(1) keeps_ends keeps_agents_skill_tools accounts.keeps_task_tools
        accounts.keeps_agent_tools)
  then show ?thesis
    unfolding mcp_dispatch_def Let_def
    by (auto split: handler_error.split intro!: keeps)
qed

lemma agents_worker: "keeps startup_of_agent (worker_dispatch env dec i msg)"
  unfolding worker_dispatch_def handle_worker_move_def
  by (auto split: sum.split worker_inbound.split
      intro!: keeps agents_by_accounts [OF keeps_accounts_mcp] agents_by_skill_part [OF keeps_report])

lemma agents_role: "keeps f m \<Longrightarrow> keeps f (thenE (require_role idn r) m)"
  by (rule keeps_role)

lemma agents_rows_hit:
  "(\<And>s. startup_of_agent (f s) = startup_of_agent (db s)) \<Longrightarrow> keeps startup_of_agent (rows_hit env h f)"
  unfolding rows_hit_def sqlC_def by (auto simp: keeps_def wp)

lemma startup_of_agent_other [simp]: "startup_of_agent (drop_operator i d) = startup_of_agent d"
  "startup_of_agent (upd_startup i f d) = startup_of_agent d"
  "startup_of_agent (d\<lparr>d_operators := os\<rparr>) = startup_of_agent d"
  "startup_of_agent (d\<lparr>d_rooms := rs\<rparr>) = startup_of_agent d"
  by (simp_all add: fun_eq_iff drop_operator_def upd_startup_def startup_of_agent_def agent_row_def)

lemma agents_admin: "keeps startup_of_agent (operator_list env idn)"
  "keeps startup_of_agent (operator_create env idn name role)"
  "keeps startup_of_agent (operator_revoke env idn i)" "keeps startup_of_agent (operator_set_role env idn i role)"
  "keeps startup_of_agent (startup_set_auto_steal env idn sid e n)"
  "keeps startup_of_agent (startup_set_auto_recovery env idn sid e n)"
  "keeps startup_of_agent (agent_set_peer_reviewer env idn a b)"
proof -
  have "keeps startup_of_agent (fresh_simple env :: (sys, 'e, string) sem)"
    by (simp add: keeps_def wpE_def fresh_simple_def)
  then show "keeps startup_of_agent (operator_create env idn name role)"
    unfolding operator_create_def insert_operator_def Let_def by (intro agents_role keeps; simp)
  show "keeps startup_of_agent (operator_list env idn)"
    unfolding operator_list_def by (intro agents_role keeps)
qed (unfold operator_revoke_def operator_set_role_def startup_set_auto_steal_def
    startup_set_auto_recovery_def agent_set_peer_reviewer_def,
    (intro agents_role agent_map.keeps_with_lock keeps agents_rows_hit; simp add: startup_of_peer_upd)+)

lemma agents_console: "keeps startup_of_agent (console_dispatch env dec idn msg)"
proof -
  have "keeps startup_of_agent (console_arm env idn m)" for m
    by (cases m) (simp_all, (intro agents_admin keeps_ends agent_map.keeps_operator_tools
          agent_map.keeps_forced agents_by_accounts [OF keeps_accounts_console_skills(1)]
          agents_by_accounts [OF keeps_accounts_console_skills(2)] agents_by_accounts [OF keeps_accounts_console_skills(3)]
          agents_by_accounts [OF keeps_accounts_console_skills(4)] agents_by_accounts [OF keeps_accounts_console_skills(5)]
          agents_by_accounts [OF keeps_accounts_console_skills(6)] agents_by_accounts [OF keeps_accounts_console_skills(7)])+)
  then show ?thesis unfolding console_dispatch_def by (intro keeps)
qed

lemma agents_cmd: "keeps startup_of_agent (loop_cmd env spw dec k)"
proof -
  have modify: "keeps startup_of_agent (modifyE g)" if "\<And>s. db (g s) = db s" for g
    using that by (intro keeps) simp
  show ?thesis
    by (cases k)
       (simp_all add: touch_def register_worker_def unregister_worker_def,
        (intro keeps_then keeps_bind keeps_ends agents_console agents_worker
           agents_by_skill_part [OF keeps_do_tick] modify; simp)+)
qed

section \<open>Computations that only move forward\<close>

text \<open>Every run stays within a preorder on the states: from the state before, the state after is allowed.\<close>

definition steps_in :: "('s \<Rightarrow> 's \<Rightarrow> bool) \<Rightarrow> ('s, 'e, 'a) sem \<Rightarrow> bool" where
  "steps_in G m \<longleftrightarrow> (\<forall>s. wpE m (\<lambda>_. G s) (\<lambda>_. G s) s)"

lemma steps_inD: "steps_in G m \<Longrightarrow> G s (snd (m s))"
  by (auto simp: steps_in_def wp_snd)

locale forward =
  fixes G :: "'s \<Rightarrow> 's \<Rightarrow> bool"
  assumes G_refl: "G s s" and G_trans: "G s t \<Longrightarrow> G t u \<Longrightarrow> G s u"
begin

lemma after: "steps_in G m \<Longrightarrow> G s t \<Longrightarrow> wpE m (\<lambda>_. G s) (\<lambda>_. G s) t"
  unfolding steps_in_def by (auto elim!: wp_mono allE [of _ t] intro: G_trans)

lemma bind:
  assumes "steps_in G m" and "\<And>a. steps_in G (f a)"
  shows "steps_in G (bindE m f)"
  unfolding steps_in_def wp_bind
proof
  fix s
  have "wpE m (\<lambda>_. G s) (\<lambda>_. G s) s" using assms(1) by (simp add: steps_in_def)
  then show "wpE m (\<lambda>a. wpE (f a) (\<lambda>_. G s) (\<lambda>_. G s)) (\<lambda>_. G s) s"
    by (rule wp_mono) (simp_all add: after assms(2))
qed

lemma seq: "steps_in G m \<Longrightarrow> steps_in G n \<Longrightarrow> steps_in G (thenE m n)"
  unfolding thenE_def by (rule bind)

lemma wraps: "steps_in G m \<Longrightarrow> steps_in G (mapErr g m)" "steps_in G m \<Longrightarrow> steps_in G (ignoreE m)"
  "steps_in G m \<Longrightarrow> steps_in G (orDefault d m)" "steps_in G m \<Longrightarrow> steps_in G (tryE m)"
  by (simp_all add: steps_in_def wp)

lemma ends: "steps_in G (ret a)" "steps_in G (throw e)" "steps_in G (guardE b e)" "steps_in G (asksE q)"
  by (simp_all add: steps_in_def wp G_refl)

lemma cases: "steps_in G m \<Longrightarrow> steps_in G n \<Longrightarrow> steps_in G (if b then m else n)"
  "steps_in G m \<Longrightarrow> (\<And>y. steps_in G (k y)) \<Longrightarrow> steps_in G (case x of None \<Rightarrow> m | Some y \<Rightarrow> k y)"
  "(\<And>a b. steps_in G (g a b)) \<Longrightarrow> steps_in G (case p of (a, b) \<Rightarrow> g a b)"
  "(\<And>a. steps_in G (ml a)) \<Longrightarrow> (\<And>b. steps_in G (mr b)) \<Longrightarrow>
     steps_in G (case r of Inl a \<Rightarrow> ml a | Inr b \<Rightarrow> mr b)"
  by (auto split: option.split prod.split sum.split)

lemma loop: "(\<And>x. steps_in G (body x)) \<Longrightarrow> steps_in G (forE xs body)"
  by (induction xs) (simp_all add: ends seq)

end

section \<open>Operations on the world\<close>

abbreviation agents_in :: "sys \<Rightarrow> ident \<Rightarrow> ident option" where
  "agents_in s \<equiv> startup_of_agent (db s)"

definition sound_step :: "database \<Rightarrow> sys \<Rightarrow> sys \<Rightarrow> bool" where
  "sound_step c s t \<longleftrightarrow> (world_inv c s \<longrightarrow> world_inv c t \<and> agents_in s \<subseteq>\<^sub>m agents_in t)"

abbreviation sound :: "database \<Rightarrow> (sys, 'e, 'a) sem \<Rightarrow> bool" where
  "sound c \<equiv> steps_in (sound_step c)"

interpretation world_ops: forward "sound_step c" for c
  by unfold_locales (auto simp: sound_step_def intro: map_le_trans)

named_theorems sound "operations that a handler may run beside the loop"

lemmas [sound] = world_ops.bind world_ops.seq world_ops.wraps world_ops.ends world_ops.cases world_ops.loop

lemma sound_when:
  assumes "\<And>s. world_inv c s \<Longrightarrow> wpE m (\<lambda>_ t. world_inv c t \<and> agents_in s \<subseteq>\<^sub>m agents_in t)
    (\<lambda>_ t. world_inv c t \<and> agents_in s \<subseteq>\<^sub>m agents_in t) s"
  shows "sound c m"
  unfolding steps_in_def
proof
  fix s
  show "wpE m (\<lambda>_. sound_step c s) (\<lambda>_. sound_step c s) s"
  proof (cases "world_inv c s")
    case True
    from assms [OF this] show ?thesis by (rule wp_mono) (simp_all add: sound_step_def)
  qed (simp add: sound_step_def [abs_def])
qed

lemma soundI:
  assumes "\<And>d. pres (kept d) m" and "keeps startup_of_agent m"
  shows "sound c m"
  unfolding steps_in_def
proof
  fix s
  have "wpE m (\<lambda>_ t. agents_in t = agents_in s) (\<lambda>_ t. agents_in t = agents_in s) s"
    using assms(2) by (simp add: keeps_def)
  moreover have "wpE m (\<lambda>_ t. world_inv c s \<longrightarrow> world_inv c t) (\<lambda>_ t. world_inv c s \<longrightarrow> world_inv c t) s"
  proof (cases "world_inv c s")
    case True
    then show ?thesis using leadsD [OF world_inv_pres [of m c] True] assms(1) by simp
  qed simp
  ultimately show "wpE m (\<lambda>_. sound_step c s) (\<lambda>_. sound_step c s) s"
    by (rule wp_mono [OF wp_conj]) (auto simp: sound_step_def)
qed

lemma sound_basic [sound]: "sound c (sql_query g)" "sound c (fresh_uuid env)"
  "sound c (emit_system_event env su k pl sv)" "sound c (append_audit i entry)" "sound c (fresh_simple env)"
proof -
  have "keeps startup_of_agent (fresh_simple env)" by (simp add: keeps_def wpE_def fresh_simple_def)
  then show "sound c (fresh_simple env)" by (intro soundI kept.pres_fresh_simple)
qed (intro soundI pres keeps agent_map.keeps_store kept.pres_steps kept.pres_emit kept.pres_audit)+

section \<open>Handlers on the world\<close>

lemma sound_sql_other [sound]:
  "(\<And>s. same_core (db s) (f s)) \<Longrightarrow> sound c (sql_exec f)"
  "(\<And>s. same_core (db s) (f s)) \<Longrightarrow> sound c (sql_stmt (\<lambda>s. Inr (n s, f s)))"
proof -
  have agents: "keeps startup_of_agent (sql_stmt (\<lambda>s. Inr (n s, f s)))"
    if "\<And>s. same_core (db s) (f s)" for n :: "sys \<Rightarrow> 'x" and f
    by (rule keeps_sql) (rule same_core_lookups [OF that])
  have "pres (kept d) (sql_stmt (\<lambda>s. Inr (n s, f s)))"
    if "\<And>s. same_core (db s) (f s)" for n :: "sys \<Rightarrow> 'x" and f d
    using that by (simp add: leads_def wp kept.I_simps)
  note st = soundI [OF this agents]
  show "(\<And>s. same_core (db s) (f s)) \<Longrightarrow> sound c (sql_stmt (\<lambda>s. Inr (n s, f s)))"
    by (rule st)
  show "(\<And>s. same_core (db s) (f s)) \<Longrightarrow> sound c (sql_exec f)"
    unfolding sql_exec_def by (rule soundI) (auto simp: leads_def wp kept.I_simps keeps_def same_core_lookups)
qed

lemma same_core_more [simp]: "same_core d (d\<lparr>d_rooms := rs\<rparr>)" "same_core d (d\<lparr>d_startups := ss\<rparr>)"
  "same_core d (rehash_row i h d)"
  by (simp_all add: same_core_def rehash_row_def)

lemma sound_identity [sound]: "sound c (identity_from_row r)"
  unfolding identity_from_row_def by (intro sound)

lemma sound_auth [sound]: "sound c (validate_operator_token env tok token)"
  "sound c (validate_agent_secret secrets a secret)"
  unfolding validate_operator_token_def validate_agent_secret_def Let_def
  by (intro sound; simp)+

text \<open>A transaction: what holds at every moment inside, and what its result means.\<close>

definition grown :: "database \<Rightarrow> sys \<Rightarrow> sys \<Rightarrow> bool" where
  "grown c s t \<longleftrightarrow> world_inv c t \<and> agents_in s \<subseteq>\<^sub>m agents_in t \<and> avatar_ids t = avatar_ids s"

lemma grown_same: "grown c s t \<Longrightarrow> same_core (db t) (db u) \<Longrightarrow> avatar_ids u = avatar_ids t \<Longrightarrow> grown c s u"
  by (auto simp: grown_def same_core_lookups elim: world_inv_same)

lemma grown_pop [simp]: "grown c s t \<Longrightarrow> grown c s (sql_pop t)"
  by (erule grown_same) simp_all

lemma transact_grown:
  assumes "world_inv c s" and "wpE m (\<lambda>a t. grown c s t \<and> R a (agents_in t)) (\<lambda>_. grown c s) (sql_pop s)"
  shows "wpE (transactE w m) (\<lambda>a t. (world_inv c t \<and> agents_in s \<subseteq>\<^sub>m agents_in t) \<and> R a (agents_in t))
    (\<lambda>_ t. world_inv c t \<and> agents_in s \<subseteq>\<^sub>m agents_in t) s"
proof -
  have rolled: "world_inv c (t\<lparr>db := db s\<rparr>)" if "grown c s t" for t
    using world_inv_same [OF assms(1), of "t\<lparr>db := db s\<rparr>"] that by (simp add: grown_def)
  have "world_inv c (sql_pop t\<lparr>db := db s\<rparr>)" if "grown c s t" for t
    using rolled [OF grown_pop [OF that]] .
  moreover have "world_inv c (sql_pop s)"
    by (rule world_inv_same [OF assms(1)]) simp_all
  moreover have "world_inv c (sql_pop t)" if "grown c s t" for t
    using grown_pop [OF that] by (simp add: grown_def)
  ultimately show ?thesis
    using rolled wp_mono [OF assms(2)] unfolding wp_transact by (auto simp: grown_def)
qed

lemma sound_transact [sound]:
  assumes "\<And>s. pres (grown c s) m"
  shows "sound c (transactE w m)"
proof -
  have "wpE (transactE w m) (\<lambda>_ t. world_inv c t \<and> agents_in s \<subseteq>\<^sub>m agents_in t)
      (\<lambda>_ t. world_inv c t \<and> agents_in s \<subseteq>\<^sub>m agents_in t) s" if s: "world_inv c s" for s
  proof -
    have "grown c s (sql_pop s)" using s by (intro grown_pop) (simp add: grown_def)
    from transact_grown [OF s, of m "\<lambda>_ _. True"] leadsD [OF assms this] show ?thesis by simp
  qed
  then show ?thesis by (rule sound_when)
qed

lemma sound_dissolve [sound]: "sound c (dissolve_rows env i)"
proof -
  have "pres (grown c s) (sql_exec f)" if "\<And>s. same_core (db s) (f s)" for c s f
    using that by (auto simp: leads_def wp elim: grown_same)
  then show ?thesis
    unfolding dissolve_rows_def by (intro sound pres) (simp_all add: upd_startup_def)
qed

section \<open>The rows of a new startup\<close>

lemma grown_insert_agent:
  assumes "grown c s t" and "agent_row (db t) i = None" and "i \<noteq> ''__operator__''"
    and "ag_id r = i" and "ag_startup r = sid"
  shows "grown c s (sql_pop t\<lparr>db := (db t)\<lparr>d_agents := d_agents (db t) @ [r]\<rparr>\<rparr>) \<and>
    startup_of_agent ((db t)\<lparr>d_agents := d_agents (db t) @ [r]\<rparr>) i = Some sid \<and>
    agents_in t \<subseteq>\<^sub>m startup_of_agent ((db t)\<lparr>d_agents := d_agents (db t) @ [r]\<rparr>)"
proof -
  let ?d = "(db t)\<lparr>d_agents := d_agents (db t) @ [r]\<rparr>"
  have row: "startup_of_agent ?d k = (if k = i then Some sid else agents_in t k)" for k
    using assms(2,4,5) by (auto simp: startup_of_agent_def agent_row_def find_row_append split: option.split)
  have old: "agents_in t i = None" using assms(2) by (simp add: startup_of_agent_def)
  then have keep: "agents_in t k = Some x \<Longrightarrow> startup_of_agent ?d k = Some x" for k x
    by (auto simp: row)
  then have mono: "agents_in t \<subseteq>\<^sub>m startup_of_agent ?d"
    by (auto simp: map_le_def)
  have tasks: "startup_of_task ?d = startup_of_task (db t)"
    by (simp add: startup_of_task_def [abs_def] task_row_def)
  have "task_ok (agents_in t) (startup_of_task (db t)) x \<Longrightarrow>
      task_ok (startup_of_agent ?d) (startup_of_task (db t)) x" for x
    using keep by (auto simp: task_ok_def)
  then have "db_inv (db t) \<Longrightarrow> db_inv ?d" by (simp add: db_inv_def tasks)
  moreover have "avatars_ok (sql_pop t\<lparr>db := ?d\<rparr>)" if "avatars_ok t"
  proof -
    have "startup_of_agent ?d ''__operator__'' = None"
      using that assms(3) by (simp add: avatars_ok_def row)
    moreover have "\<forall>(k, a, x, role) \<in> set (avatar_ids t). a = k \<and> (k = ''__operator__'' \<or> startup_of_agent ?d k = Some x)"
    proof (intro ballI, safe)
      fix k a x role
      assume "(k, a, x, role) \<in> set (avatar_ids t)"
      with that have "a = k \<and> (k = ''__operator__'' \<or> agents_in t k = Some x)" by (auto simp: avatars_ok_def)
      then show "a = k" "startup_of_agent ?d k \<noteq> Some x \<Longrightarrow> k = ''__operator__''" by (auto dest: keep)
    qed
    ultimately show ?thesis using that by (simp add: avatars_ok_def)
  qed
  moreover have "tasks_evolve sched_move c ?d = tasks_evolve sched_move c (db t)"
    by (simp add: tasks_evolve_def)
  ultimately have "world_inv c (sql_pop t\<lparr>db := ?d\<rparr>)"
    using assms(1) by (simp add: grown_def world_inv_def)
  then show ?thesis
    using assms(1) mono by (auto simp: grown_def row intro: map_le_trans)
qed

abbreviation agent_id_of :: "new_agent \<Rightarrow> ident" where
  "agent_id_of a \<equiv> fst (snd a)"

lemma wp_insert_agent:
  assumes "grown c s t" and "agent_id_of a \<noteq> ''__operator__''"
  shows "wpE (insert_agent env i su corner a)
    (\<lambda>_ u. grown c s u \<and> agents_in t \<subseteq>\<^sub>m agents_in u \<and> agents_in u (agent_id_of a) = Some i)
    (\<lambda>_. grown c s) t"
proof (cases a)
  case (fields role aid backend manager)
  with assms show ?thesis
    by (auto simp: insert_agent_def wp key_check_def
        dest!: grown_insert_agent [OF assms(1), of aid "\<lparr> ag_id = aid, ag_startup = i, ag_name = role, ag_role = role,
          ag_backend = backend, ag_model = [], ag_position = e_to_string env (position_json (desk_tile corner role) su),
          ag_home_room = su, ag_manager = manager, ag_is_peer_reviewer = 0 \<rparr>" i, rotated])
qed

lemma wp_insert_agents:
  assumes "grown c s t" and "\<And>a. a \<in> set as \<Longrightarrow> agent_id_of a \<noteq> ''__operator__''"
  shows "wpE (forE as (\<lambda>a. mapErr w (insert_agent env i su corner a)))
    (\<lambda>_ u. grown c s u \<and> agents_in t \<subseteq>\<^sub>m agents_in u \<and> (\<forall>a \<in> set as. agents_in u (agent_id_of a) = Some i))
    (\<lambda>_. grown c s) t"
  using assms
proof (induction as arbitrary: t)
  case Nil
  then show ?case by (simp add: wp)
next
  case (Cons a as)
  have "wpE (forE as (\<lambda>a. mapErr w (insert_agent env i su corner a)))
      (\<lambda>_ v. grown c s v \<and> agents_in t \<subseteq>\<^sub>m agents_in v \<and> (\<forall>b \<in> set (a # as). agents_in v (agent_id_of b) = Some i))
      (\<lambda>_. grown c s) u"
    if u: "grown c s u" "agents_in t \<subseteq>\<^sub>m agents_in u" "agents_in u (agent_id_of a) = Some i" for u
    by (rule wp_mono [OF Cons.IH [OF u(1)]])
       (use u Cons.prems(2) in \<open>auto intro: map_le_trans simp: map_le_def dom_def\<close>)
  with wp_insert_agent [OF Cons.prems(1), of a env i su corner] Cons.prems(2) show ?case
    by (auto simp: wp elim!: wp_mono)
qed

lemma wp_fresh_simple [wp]:
  "wpE (fresh_simple env) Q E = (\<lambda>s. Q (e_uuid_simple env (uuid_ctr s)) (s\<lparr>uuid_ctr := Suc (uuid_ctr s)\<rparr>))"
  by (simp add: fun_eq_iff wpE_def fresh_simple_def)

lemma wp_new_agents:
  assumes "grown c s t"
  shows "wpE (forE (new_agents req (''a-'' @ f) (''a-'' @ e) (''a-'' @ d))
      (\<lambda>a. mapErr w (insert_agent env i su corner a)))
    (\<lambda>_ u. grown c s u \<and> (\<forall>a \<in> set (new_agents req (''a-'' @ f) (''a-'' @ e) (''a-'' @ d)).
       agents_in u (agent_id_of a) = Some i))
    (\<lambda>_. grown c s) t"
  by (rule wp_mono [OF wp_insert_agents [OF assms]]) (auto simp: new_agents_def)

lemma wp_create_rows:
  assumes "world_inv c s"
  shows "wpE (create_rows h req)
    (\<lambda>v t. (world_inv c t \<and> agents_in s \<subseteq>\<^sub>m agents_in t) \<and>
       (\<forall>a \<in> set (cs_agents v). agents_in t (agent_id_of a) = Some (cs_id v)))
    (\<lambda>_ t. world_inv c t \<and> agents_in s \<subseteq>\<^sub>m agents_in t) s"
proof -
  have g: "grown c s (sql_pop s)"
    using assms by (intro grown_pop) (simp add: grown_def)
  have agents: "wpE (forE (new_agents req (''a-'' @ f) (''a-'' @ e) (''a-'' @ d))
      (\<lambda>a. mapErr w (insert_agent env i su corner a)))
    (\<lambda>_. wpE (ret \<lparr> cs_id = i, cs_suite = su', cs_corner = corner',
        cs_agents = new_agents req (''a-'' @ f) (''a-'' @ e) (''a-'' @ d) \<rparr>)
      (\<lambda>v t. grown c s t \<and> (\<forall>a \<in> set (cs_agents v). agents_in t (agent_id_of a) = Some (cs_id v))) (\<lambda>_. grown c s))
    (\<lambda>_. grown c s) t"
    if "grown c s t" for t f e d w env i su corner su' corner'
    by (rule wp_mono [OF wp_new_agents [OF that]]) (auto simp: wp)
  show ?thesis
    unfolding create_rows_def Let_def
    by (rule transact_grown [OF assms, where R = "\<lambda>v ag. \<forall>a \<in> set (cs_agents v). ag (agent_id_of a) = Some (cs_id v)"],
      auto simp: wp_bind wp_then wp_mapErr wp_sql_query wp_option wp_prod wp_throw wp_fresh_uuid
        insert_startup_def claim_room_def agent_uuid_def wp_sql_checked wp_sql_exec wp_fresh_simple wp_ret
        same_core_def
        split: option.split intro!: agents [unfolded wp_ret, simplified] grown_same [OF g])
qed

section \<open>The invariant of the server\<close>

text \<open>
  The world is sound, \<open>c\<close> being the database at some earlier moment, and the commands sent to the loop
  hold what \<open>world_step\<close> asks of a command.
\<close>

definition server_inv :: "database \<Rightarrow> server \<Rightarrow> bool" where
  "server_inv c s \<longleftrightarrow> world_inv c (world s) \<and> (\<forall>k \<in> set (sr_queue s). well_sent k (world s))"

definition server_goes :: "database \<Rightarrow> server \<Rightarrow> server \<Rightarrow> bool" where
  "server_goes c s t \<longleftrightarrow>
     (server_inv c s \<longrightarrow> server_inv c t \<and> agents_in (world s) \<subseteq>\<^sub>m agents_in (world t))"

abbreviation serves :: "database \<Rightarrow> (server, 'e, 'a) sem \<Rightarrow> bool" where
  "serves c \<equiv> steps_in (server_goes c)"

interpretation server_ops: forward "server_goes c" for c
  by unfold_locales (auto simp: server_goes_def intro: map_le_trans)

named_theorems serves "handlers that keep the invariant of the server"

lemmas [serves] = server_ops.bind server_ops.seq server_ops.wraps server_ops.ends server_ops.cases server_ops.loop

lemma well_sent_grows: "well_sent k s \<Longrightarrow> agents_in s \<subseteq>\<^sub>m agents_in t \<Longrightarrow> well_sent k t"
  by (cases k) (fastforce simp: known_avatars_def map_le_def dom_def)+

lemma goes_world:
  assumes "sound_step c (world s) (world t)" and "set (sr_queue t) \<subseteq> set (sr_queue s)"
  shows "server_goes c s t"
  using assms by (auto simp: server_goes_def server_inv_def sound_step_def intro: well_sent_grows)

lemma serves_on_world [serves]: "sound c m \<Longrightarrow> serves c (on_world m)"
  unfolding steps_in_def wp_on_world
  by (intro allI, drule spec, erule wp_mono) (auto intro: goes_world)

lemma serves_modify: "(\<And>s. sound_step c (world s) (world (g s)) \<and> sr_queue (g s) = sr_queue s) \<Longrightarrow> serves c (modifyE g)"
  by (auto simp: steps_in_def wp intro!: goes_world)

lemma serves_set_var [serves]: "serves c (set_var k v)"
  unfolding set_var_def by (rule serves_modify) (simp add: sound_step_def)

lemma serves_send [serves]: "(\<And>w. well_sent k w) \<Longrightarrow> serves c (send_cmd k)"
  by (auto simp: steps_in_def wpE_def send_cmd_def server_goes_def server_inv_def)

text \<open>The supervisor writes to the world only when it gives a worker up.\<close>

lemma signals_world [simp]: "sv_world (fold (send_signal sg) ps s) = sv_world s"
  by (induction ps arbitrary: s) (simp_all add: send_signal_def)

lemma sup_step_world:
  assumes "sup_step env sc e s = Some t"
  shows "sound_step c (sv_world s) (sv_world t)"
proof -
  have dead: "sound_step c (sv_world r) (sv_world (worker_dead env w f r))" for w f r
    using steps_inD [OF sound_basic(3)] by (simp add: worker_dead_def)
  have w: "sound_step c (sv_world s) (sv_world s')" if "watch_step env sc w b st s = Some (st', s')" for w b st st' s'
    using that dead by (cases st) (auto simp: watch_ops world_ops.G_refl split: if_splits option.splits proc.splits)
  have d: "sv_world s' = sv_world s" if "dissolve_step st s = Some (st', s')" for st st' s'
    using that by (cases "(st, s)" rule: dissolve_step.cases) (auto simp: set_tombstone_def)
  show ?thesis
    using assms w d by (cases e) (auto simp: spawn_child_def Let_def world_ops.G_refl split: if_splits prod.splits)
qed

lemma serves_sup_event [serves]: "serves c (sup_event_now h e)"
  unfolding sup_event_now_def
  by (rule serves_modify) (auto simp: world_def world_ops.G_refl split: option.split dest: sup_step_world)

lemma serves_operator [serves]: "serves c (require_operator h hs)" "serves c (spawn_agent h w)"
  "serves c (dissolve_startup h i)" "serves c (new_secret h fixed)" "serves c (equip_agent h cs u fixed off a)"
  unfolding require_operator_def spawn_agent_def dissolve_startup_def new_secret_def equip_agent_def
  by (intro serves sound)+

text \<open>The avatars of a new startup are sent only after its agents are in the database.\<close>

lemma sound_create_rows: "sound c (create_rows h req)"
  by (rule sound_when, rule wp_mono [OF wp_create_rows]) auto

lemma serves_when:
  assumes "\<And>s. server_inv c s \<Longrightarrow> wpE m (\<lambda>_. server_goes c s) (\<lambda>_. server_goes c s) s"
  shows "serves c m"
  unfolding steps_in_def
proof
  fix s
  show "wpE m (\<lambda>_. server_goes c s) (\<lambda>_. server_goes c s) s"
  proof (cases "server_inv c s")
    case False
    then show ?thesis by (simp add: server_goes_def [abs_def])
  qed (rule assms)
qed

text \<open>What a handler knows of the agents survives whatever it does next.\<close>

lemma known_agents:
  assumes "serves c m" and "server_goes c s t" and "server_inv c s"
    and "\<forall>a \<in> set as. agents_in (world t) (agent_id_of a) = Some i"
  shows "wpE m (\<lambda>_ u. server_goes c s u \<and> (\<forall>a \<in> set as. agents_in (world u) (agent_id_of a) = Some i))
    (\<lambda>_. server_goes c s) t"
proof -
  have t: "server_inv c t" using assms(2,3) by (simp add: server_goes_def)
  have stay: "agents_in (world u) (agent_id_of a) = Some i" if "server_goes c t u" "a \<in> set as" for u a
    using assms(4) that t by (fastforce simp: server_goes_def map_le_def dom_def)
  have "wpE m (\<lambda>_. server_goes c t) (\<lambda>_. server_goes c t) t" using assms(1) by (simp add: steps_in_def)
  then show ?thesis
    by (rule wp_mono) (auto intro: server_ops.G_trans [OF assms(2)] stay)
qed

lemma new_avatar_known:
  "\<forall>a \<in> set as. agents_in w (agent_id_of a) = Some (cs_id cs) \<Longrightarrow> known_avatars (map (new_avatar cs) as) w"
  by (fastforce simp: known_avatars_def new_avatar_def)

lemma serves_created:
  assumes "server_inv c s" and "server_goes c s t"
    and "\<forall>a \<in> set (cs_agents cs). agents_in (world t) (agent_id_of a) = Some (cs_id cs)"
  shows "wpE (thenE (forE (cs_agents cs) (equip_agent h cs u fixed off))
      (thenE (send_cmd (InsertAvatars (map (new_avatar cs) (cs_agents cs)) claim)) (ret r)))
    (\<lambda>_. server_goes c s) (\<lambda>_. server_goes c s) t"
proof -
  have "server_goes c s (v\<lparr>sr_queue := sr_queue v @ [InsertAvatars (map (new_avatar cs) (cs_agents cs)) claim]\<rparr>)"
    if "server_goes c s v" "\<forall>a \<in> set (cs_agents cs). agents_in (world v) (agent_id_of a) = Some (cs_id cs)" for v
    using that new_avatar_known [OF that(2)] by (auto simp: server_goes_def server_inv_def)
  then have "wpE (thenE (send_cmd (InsertAvatars (map (new_avatar cs) (cs_agents cs)) claim)) (ret r))
      (\<lambda>_. server_goes c s) (\<lambda>_. server_goes c s) v"
    if "server_goes c s v" "\<forall>a \<in> set (cs_agents cs). agents_in (world v) (agent_id_of a) = Some (cs_id cs)" for v
    using that by (simp add: wp_then wp_ret) (simp add: wpE_def send_cmd_def)
  moreover have "serves c (forE (cs_agents cs) (equip_agent h cs u fixed off))"
    by (intro serves)
  ultimately show ?thesis
    unfolding wp_then [of "forE _ _"] by (intro wp_mono [OF known_agents [OF _ assms(2,1,3)]]) auto
qed

lemma serves_create: "serves c (create_startup h hs req)"
proof -
  have "serves c (bindE (on_world (create_rows h req)) (\<lambda>cs.
      bindE (asksE q) (\<lambda>(u, fixed, off).
      thenE (forE (cs_agents cs) (equip_agent h cs u fixed off))
        (thenE (send_cmd (InsertAvatars (map (new_avatar cs) (cs_agents cs)) (claim cs))) (ret (r cs))))))"
    (is "serves c (bindE _ ?rest)") 
    for q :: "server \<Rightarrow> string \<times> string option \<times> bool" and claim and r :: "created_startup \<Rightarrow> response"
  proof (rule serves_when)
    fix s
    assume s: "server_inv c s"
    then have "world_inv c (world s)" by (simp add: server_inv_def)
    from wp_create_rows [OF this, of h req]
    show "wpE (bindE (on_world (create_rows h req)) ?rest) (\<lambda>_. server_goes c s) (\<lambda>_. server_goes c s) s"
      unfolding wp_bind [of "on_world _"] wp_on_world
    proof (rule wp_mono)
      fix cs :: created_startup and w
      assume w: "(world_inv c w \<and> agents_in (world s) \<subseteq>\<^sub>m agents_in w) \<and>
        (\<forall>a \<in> set (cs_agents cs). agents_in w (agent_id_of a) = Some (cs_id cs))"
      then have "server_goes c s (set_world w s)" by (auto intro!: goes_world simp: sound_step_def)
      then show "wpE (?rest cs) (\<lambda>_. server_goes c s) (\<lambda>_. server_goes c s) (set_world w s)"
        unfolding wp_bind [of "asksE q"] wp_asks
        using w by (auto intro!: serves_created [OF s] split: prod.split)
    qed (auto intro!: goes_world simp: sound_step_def)
  qed
  then show ?thesis
    unfolding create_startup_def by (intro server_ops.seq serves_operator(1) server_ops.ends)
qed

section \<open>The other handlers\<close>

lemma serves_delete: "serves c (delete_startup h hs i)"
  unfolding delete_startup_def by (intro serves sound) simp

lemma serves_patch: "serves c (patch_startup h hs i body)"
  unfolding patch_startup_def by (intro serves sound) simp

lemma sound_for_agent [sound]: "sound c (for_agent env a)"
proof -
  have collect: "sound c (collectE xs g)" if "\<And>x. sound c (g x)" for xs and g :: "'x \<Rightarrow> (sys, 'e, 'y) sem"
    using that by (induction xs) (simp_all add: sound)
  show ?thesis
    unfolding for_agent_def list_files_def sqlK_def by (intro sound collect)
qed

lemma serves_secret [serves]: "serves c (require_secret h a x r)"
  unfolding require_secret_def by (intro serves sound)

lemma serves_skills: "serves c (get_agent_skills h hs a)"
  unfolding get_agent_skills_def by (intro serves sound)

lemma serves_auth [serves]: "serves c (authenticate h hs)"
  unfolding authenticate_def by (intro serves)

section \<open>The loop takes a command\<close>

lemma world_cmd_goes:
  assumes "world_inv c s" and "well_sent k s"
  shows "sound_step c s (snd (loop_cmd env spw dec k s))"
proof -
  have "world_inv c (snd (loop_cmd env spw dec k s))"
    using world_cmd [OF assms, of env spw dec] by (simp add: wp_snd)
  moreover have "agents_in (snd (loop_cmd env spw dec k s)) = agents_in s"
    using agents_cmd [of env spw dec k] by (simp add: keeps_def wp_snd)
  ultimately show ?thesis by (simp add: sound_step_def)
qed

lemma loop_takes_world: "world (snd (loop_takes h k s)) =
    snd (loop_cmd (ho_env h) (ho_spawner h) (ho_codecs h) k (world s))"
  "sr_queue (snd (loop_takes h k s)) = sr_queue s"
  by (simp_all add: loop_takes_def split: prod.split sum.split outcome.split panic.split)

lemma loop_takes_goes:
  assumes "server_inv c s" and "well_sent k (world s)"
  shows "server_inv c (snd (loop_takes h k s)) \<and> agents_in (world s) \<subseteq>\<^sub>m agents_in (world (snd (loop_takes h k s)))"
proof -
  have "sound_step c (world s) (world (snd (loop_takes h k s)))"
    using assms by (simp add: loop_takes_world server_inv_def world_cmd_goes)
  from goes_world [OF this] assms(1) show ?thesis by (simp add: loop_takes_world server_goes_def)
qed

lemma drain_goes:
  assumes "server_inv c s" and "\<forall>k \<in> set ks. well_sent k (world s)"
  shows "server_inv c (drain h ks s) \<and> agents_in (world s) \<subseteq>\<^sub>m agents_in (world (drain h ks s))"
  using assms
proof (induction ks arbitrary: s)
  case (Cons k ks)
  let ?t = "snd (loop_takes h k s)"
  have t: "server_inv c ?t" "agents_in (world s) \<subseteq>\<^sub>m agents_in (world ?t)"
    using loop_takes_goes [of c s k h] Cons.prems by simp_all
  then have later: "\<forall>k \<in> set ks. well_sent k (world ?t)"
    using Cons.prems(2) by (auto intro: well_sent_grows)
  with t(1) have "server_inv c (?t\<lparr>sr_queue := sr_queue ?t @ ks\<rparr>)" by (auto simp: server_inv_def)
  with Cons.IH [OF t(1) later] t show ?case by (auto simp: Let_def intro: map_le_trans)
qed simp

lemma serves_ask [serves]:
  assumes "\<And>w. well_sent k w"
  shows "serves c (ask_loop h k)"
proof (rule serves_when)
  fix s
  assume s: "server_inv c s"
  let ?t = "drain h (sr_queue s) (s\<lparr>sr_queue := []\<rparr>)"
  have t: "server_inv c ?t \<and> agents_in (world s) \<subseteq>\<^sub>m agents_in (world ?t)"
    using drain_goes [of c "s\<lparr>sr_queue := []\<rparr>" "sr_queue s" h] s by (simp add: server_inv_def)
  have waits: "server_inv c (u\<lparr>sr_queue := sr_queue u @ [k]\<rparr>)" if "server_inv c u" for u
    using that assms by (auto simp: server_inv_def)
  from t loop_takes_goes [of c ?t k h] assms s waits [OF s] waits [of ?t]
  show "wpE (ask_loop h k) (\<lambda>_. server_goes c s) (\<lambda>_. server_goes c s) s"
    by (auto simp: wpE_def ask_loop_def Let_def server_goes_def split: prod.splits intro: map_le_trans)
qed

lemma serves_tools_call [serves]: "serves c (handle_tools_call h i params)"
proof -
  have "serves c (case a of Disconnected \<Rightarrow> ret x | Dropped \<Rightarrow> ret y | Answered j \<Rightarrow> ret (z j) | Pending \<Rightarrow> throw e)"
    for a and x y :: json and z and e :: response
    by (cases a) (simp_all add: server_ops.ends)
  then show ?thesis unfolding handle_tools_call_def Let_def by (intro serves sound) simp_all
qed

lemma serves_request: "serves c (handle_request h hs body)"
  unfolding handle_request_def handle_envelope_def handle_method_def Let_def
  by (intro serves sound)

section \<open>New tasks\<close>

text \<open>The parent an operator names is a task of the same startup; the handler does not check it.\<close>

definition parent_fits :: "create_task_body \<Rightarrow> database \<Rightarrow> bool" where
  "parent_fits b d \<longleftrightarrow> (\<forall>p. tb_parent b = Some p \<longrightarrow> startup_of_task d p = Some (tb_startup b))"

lemma keeps_tasks_auth: "keeps d_tasks (validate_operator_token env tok token)"
  unfolding validate_operator_token_def identity_from_row_def Let_def
  by (intro keeps) (simp add: rehash_row_def)

lemma operator_tasks:
  assumes "server_inv c s"
  shows "wpE (require_operator h hs) (\<lambda>_ t. server_goes c s t \<and> server_inv c t \<and> d_tasks (db (world t)) = d_tasks (db (world s)))
    (\<lambda>_. server_goes c s) s"
proof -
  have "wpE (require_operator h hs) (\<lambda>_. server_goes c s) (\<lambda>_. server_goes c s) s"
    using serves_operator(1) by (simp add: steps_in_def)
  moreover have "wpE (require_operator h hs) (\<lambda>_ t. d_tasks (db (world t)) = d_tasks (db (world s)))
      (\<lambda>_ t. d_tasks (db (world t)) = d_tasks (db (world s))) s"
    using keeps_tasks_auth unfolding keeps_def by (simp add: require_operator_def wp)
  ultimately show ?thesis
    by (rule wp_mono [OF wp_conj]) (use assms in \<open>auto simp: server_goes_def\<close>)
qed

lemma world_new_task:
  assumes "world_inv c s" and "task_row (db s) i = None" and "parent_fits b (db s)"
    and "\<And>a. tb_assignee b = Some a \<Longrightarrow> agents_in s a = Some (tb_startup b)"
  shows "world_inv c (sql_pop s\<lparr>db := (db s)\<lparr>d_tasks := d_tasks (db s) @ [task_of_body i b n]\<rparr>\<rparr>)"
proof -
  let ?t = "task_of_body i b n"
  have t: "t_id ?t = i" "t_startup ?t = tb_startup b" "t_parent ?t = tb_parent b" "t_assignee ?t = tb_assignee b"
    "t_status ?t = initial_status b" "t_review_round ?t = 0"
    by (simp_all add: task_of_body_def new_task_def)
  have "task_ok (agents_in s) (startup_of_task (db s)) ?t"
    using assms(3,4) by (auto simp: task_ok_def t initial_status_def parse_status_def MAX_REVIEW_ROUNDS_def
        has_worker_def parent_fits_def)
  then have "db_inv ((db s)\<lparr>d_tasks := d_tasks (db s) @ [?t]\<rparr>)"
    using assms(1,2) by (intro db_inv_insert) (simp_all add: world_inv_def t)
  moreover have "startup_of_agent ((db s)\<lparr>d_tasks := u\<rparr>) = agents_in s" for u
    by (simp add: startup_of_agent_def [abs_def])
  ultimately show ?thesis
    using assms(1) by (simp add: world_inv_def avatars_ok_def tasks_evolve_append)
qed

lemma goes_create_task_rows:
  assumes "world_inv c s" and "parent_fits b (db s)"
  shows "wpE (create_task_rows env idn b) (\<lambda>_. sound_step c s) (\<lambda>_. sound_step c s) s"
proof -
  have same: "sound_step c s t" if "db t = db s" "avatar_ids t = avatar_ids s" for t
    using world_inv_same [OF assms(1), of t] that by (simp add: sound_step_def)
  have tail: "wpE (thenE (mapErr w (insert_task (task_of_body i b n))) m) (\<lambda>_. sound_step c s) (\<lambda>_. sound_step c s) t"
    if t: "db t = db s" "avatar_ids t = avatar_ids s" and m: "sound c m"
      and a: "\<And>a. tb_assignee b = Some a \<Longrightarrow> agents_in s a = Some (tb_startup b)"
    for i n w t and m :: "(sys, 'e, 'z) sem"
  proof -
    have tw: "world_inv c t" using same [OF t] assms(1) by (simp add: sound_step_def)
    let ?u = "sql_pop t\<lparr>db := (db t)\<lparr>d_tasks := d_tasks (db t) @ [task_of_body i b n]\<rparr>\<rparr>"
    have "sound_step c s ?u" if "task_row (db t) i = None"
      using world_new_task [OF tw that, of b n] assms(2) a t(1)
      by (simp add: sound_step_def startup_of_agent_def [abs_def])
    then have "task_row (db t) i = None \<Longrightarrow> wpE m (\<lambda>_. sound_step c s) (\<lambda>_. sound_step c s) ?u"
      by (intro world_ops.after [OF m])
    then show ?thesis
      using same [of "sql_pop t"] t by (simp add: wp insert_task_def task_of_body_def new_task_def cong: if_cong)
  qed
  show ?thesis
    unfolding create_task_rows_def check_assignee_def
    by (auto simp: wp_bind wp_mapErr wp_sql_query wp_then [of "guardE _ _"] wp_guard wp_fresh_simple wp_asks
        wp_then [of "case tb_assignee b of None \<Rightarrow> _ | Some a \<Rightarrow> _ a"] wp_option wp_ret wp_throw
        startup_of_agent_def
        split: option.split intro!: tail same sound)
qed

lemma goes_create_task:
  assumes "server_inv c s" and "parent_fits b (db (world s))"
  shows "wpE (create_task h hs b) (\<lambda>_. server_goes c s) (\<lambda>_. server_goes c s) s"
proof -
  have "wpE (on_world (create_task_rows env idn b)) (\<lambda>_. server_goes c s) (\<lambda>_. server_goes c s) t"
    if t: "server_goes c s t" "server_inv c t" "d_tasks (db (world t)) = d_tasks (db (world s))" for env idn t
  proof -
    have "parent_fits b (db (world t))"
      using assms(2) t(3) by (simp add: parent_fits_def startup_of_task_def task_row_def)
    moreover have "world_inv c (world t)" using t(2) by (simp add: server_inv_def)
    moreover have "server_goes c s (set_world u t)" if "sound_step c (world t) u" for u
      by (rule server_ops.G_trans [OF t(1)], rule goes_world) (simp_all add: that)
    ultimately show ?thesis
      unfolding wp_on_world by (intro wp_mono [OF goes_create_task_rows]) auto
  qed
  then show ?thesis
    unfolding create_task_def wp_bind wp_then wp_guard
    by (intro wp_mono [OF operator_tasks [OF assms(1)]]) (auto split: if_splits)
qed

section \<open>Sessions\<close>

lemma sound_snapshots [sound]: "sound c (build_console_snapshot n)" "sound c (skills_snapshot env)"
  "sound c (broadcast f)"
proof -
  have collect: "sound c (collectE xs g)" if "\<And>x. sound c (g x)" for xs and g :: "'x \<Rightarrow> (sys, 'e, 'y) sem"
    using that by (induction xs) (simp_all add: sound)
  show "sound c (broadcast f)" by (intro soundI kept.pres_steps keeps)
  show "sound c (build_console_snapshot n)"
    unfolding build_console_snapshot_def list_active_def by (intro sound)
  show "sound c (skills_snapshot env)"
    unfolding skills_snapshot_def list_all_with_attachments_def list_with_attachments_def sqlK_def
    by (intro sound collect)
qed

lemma serves_presence [serves]:
  "serves c (announce_presence :: (server, 'e, unit) sem)"
  "serves c (beat idn f :: (server, 'f, bool) sem)"
  "serves c (leave_presence idn :: (server, 'g, unit) sem)"
proof -
  have a: "serves c (announce_presence :: (server, 'x, unit) sem)" for c
    unfolding announce_presence_def by (intro serves sound)
  then show "serves c (announce_presence :: (server, 'e, unit) sem)" .
  have reg: "server_goes c s (s\<lparr>sr_presence := reg\<rparr>)" for s reg
    by (rule goes_world) (simp_all add: world_ops.G_refl)
  then show "serves c (beat idn f :: (server, 'f, bool) sem)"
    by (auto simp: steps_in_def wpE_def beat_def split: prod.split)
  have "server_goes c s (snd ((announce_presence :: (server, 'g, unit) sem) (s\<lparr>sr_presence := reg\<rparr>)))" for s reg
    by (rule server_ops.G_trans [OF reg steps_inD [OF a]])
  with reg show "serves c (leave_presence idn :: (server, 'g, unit) sem)"
    by (simp add: steps_in_def leave_presence_def wp_snd ret_def split: prod.split)
qed

lemma serves_console [serves]: "serves c (console_hello h n accepts txt)" "serves c (console_step h n ok e cn)"
proof -
  show "serves c (console_hello h n accepts txt)"
    unfolding console_hello_def Let_def by (intro serves sound)
  have push: "serves c (push b f cn)" for b f cn
    unfolding push_def by (intro serves)
  have answer: "serves c (case a of Answered reply \<Rightarrow> push ok reply cn | Dropped \<Rightarrow> ret cn | Disconnected \<Rightarrow> ret cn
      | Pending \<Rightarrow> ret cn)" for a cn
    by (auto split: loop_answer.split intro: push serves)
  have "serves c (console_turn h n ok idn e cn)" for idn cn
    unfolding console_turn_def console_message_def
    by (auto split: console_event.split option.split intro!: serves sound push answer)
  then show "serves c (console_step h n ok e cn)"
    unfolding console_step_def by (intro serves)
qed

lemma serves_worker [serves]: "serves c (worker_hello h txt)" "serves c (worker_step h ok e' wk)"
proof -
  show "serves c (worker_hello h txt)"
    unfolding worker_hello_def Let_def by (intro serves sound) simp
  have leave: "serves c (leave_worker i wk)" for i
    unfolding leave_worker_def by (intro serves) simp
  show "serves c (worker_step h ok e' wk)"
    unfolding worker_step_def Let_def
    by (auto split: worker_event.split option.split loop_answer.split intro!: serves leave)
qed

lemma serves_catalog [serves]: "serves c api_catalog" "serves c (api_recheck h)"
proof -
  show "serves c api_catalog" unfolding api_catalog_def by (intro serves)
  have cat: "serves c (modifyE (\<lambda>s. s\<lparr>sr_catalog := m\<rparr>))" for m
    by (rule serves_modify) (simp add: world_ops.G_refl)
  show "serves c (api_recheck h)" unfolding api_recheck_def by (intro serves cat) simp
qed

section \<open>Runs of the server\<close>

text \<open>
  A step of the server: a request handled to its end, a turn of a session, a command that the ticker sends,
  a command the loop takes, a step of the supervisor's tasks, the collection of locks, the clock, a worker's channel
  or the SQL statements that fail next. Only the startup API sends \<open>InsertAvatars\<close>.
\<close>

fun session_cmd :: "cmd \<Rightarrow> bool" where
  "session_cmd (InsertAvatars new claim) = False"
| "session_cmd _ = True"

fun fits :: "request \<Rightarrow> database \<Rightarrow> bool" where
  "fits (PostTask hs b) d = parent_fits b d"
| "fits _ d = True"

inductive server_step :: "host \<Rightarrow> server \<Rightarrow> server \<Rightarrow> bool" for h where
  request: "fits rq (db (world s)) \<Longrightarrow> server_step h s (snd (serve h rq s))"
| console_opens: "server_step h s (snd (console_hello h n accepts txt s))"
| console_turns: "server_step h s (snd ((console_step h n ok e cn :: (server, unit, console) sem) s))"
| worker_opens: "server_step h s (snd (worker_hello h txt s))"
| worker_turns: "server_step h s (snd ((worker_step h ok we wk :: (server, unit, worker_conn) sem) s))"
| sends: "session_cmd k \<Longrightarrow> server_step h s (snd (send_cmd k s :: (unit + bool) \<times> server))"
| takes: "sr_up s \<Longrightarrow> \<not> sr_stuck s \<Longrightarrow> sr_queue s = k # ks \<Longrightarrow> server_step h s (snd (loop_takes h k (s\<lparr>sr_queue := ks\<rparr>)))"
| supervises: "sup_step (ho_env h) (ho_supervisor h) se (sr_sup s) = Some p \<Longrightarrow> server_step h s (s\<lparr>sr_sup := p\<rparr>)"
| lives: "w = snd ((lock_gc_tick :: (sys, sql_error, unit) sem) (world s)) \<or>
    (now_ms (world s) \<le> m \<and> w = (world s)\<lparr>now_ms := m\<rparr>) \<or> w = (world s)\<lparr>out_bus := b\<rparr> \<or> w = (world s)\<lparr>faults := fs\<rparr> \<Longrightarrow>
    server_step h s (set_world w s)"

inductive_cases server_stepE: "server_step h s t"

lemma served: "serves c m \<Longrightarrow> server_inv c s \<Longrightarrow> server_inv c (snd (m s))"
  using steps_inD [of "server_goes c" m s] by (simp add: server_goes_def)

lemma routed:
  assumes "server_inv c s" and "fits rq (db (world s))"
  shows "server_inv c (snd (serve h rq s))"
proof (cases rq)
  case (PostTask hs b)
  with goes_create_task [OF assms(1)] assms show ?thesis by (simp add: wp_snd server_goes_def)
qed (simp_all add: served [OF _ assms(1)] serves_create serves_delete serves_patch serves_skills serves_request
    serves_catalog server_ops.ends)

lemma server_step_inv:
  assumes "server_inv c s" and "server_step h s t"
  shows "server_inv c t"
  using assms(2)
proof cases
  case (sends k)
  then have "well_sent k w" for w by (cases k) simp_all
  with sends assms(1) show ?thesis by (simp add: served [OF serves_send])
next
  case (takes k ks)
  then have "server_inv c (s\<lparr>sr_queue := ks\<rparr>)" "well_sent k (world s)"
    using assms(1) by (simp_all add: server_inv_def)
  with takes loop_takes_goes [of c "s\<lparr>sr_queue := ks\<rparr>" k h] show ?thesis by simp
next
  case (supervises e p)
  then have "server_goes c s t"
    using sup_step_world [OF supervises(2)] by (intro goes_world) (simp_all add: world_def)
  with assms(1) show ?thesis by (simp add: server_goes_def)
next
  case (lives w n b fs)
  have "sound_step c (world s) w"
  proof -
    have "sound c (lock_gc_tick :: (sys, sql_error, unit) sem)"
      by (rule soundI [OF plain_invariant.pres_lock_gc [OF kept.plain_invariant_axioms] agent_map.keeps_locks(3)])
    moreover have "sound_step c (world s) v" if "db v = db (world s)" "avatar_ids v = avatar_ids (world s)" for v
      using world_inv_same [of c "world s" v] that by (simp add: sound_step_def)
    ultimately show ?thesis using lives(2) by (auto intro: steps_inD simp: avatar_ids_def)
  qed
  then have "server_goes c s t" unfolding lives(1) by (intro goes_world) simp_all
  with assms(1) show ?thesis by (simp add: server_goes_def)
qed (simp_all add: assms(1) routed served [OF _ assms(1)] serves_console serves_worker)

interpretation server: invariant_system "\<lambda>s. server_inv c s" "server_step h" "\<lambda>s. server_inv c s" for c h
  by unfold_locales (auto intro: server_step_inv)

lemma server_run:
  assumes "db_inv (db (world s))" and "avatars_ok (world s)" and "sr_queue s = []" and "(server_step h)\<^sup>*\<^sup>* s t"
  shows "server_inv (db (world s)) t"
  using server.steps_inv [OF assms(4), of "db (world s)"] assms(1-3) by (simp add: server_inv_def world_inv_start)

end
