(* ===== verification/Startups.thy ===== *)
theory Startups
  imports ServerInv ServerSample
begin

text \<open>
  What the HTTP API promises of startups and tasks: a startup is created whole or not at all, the secrets
  handed to its agents are the ones they are admitted with, and the parent of a new task is not checked.
\<close>

section \<open>What a handler leaves alone\<close>

definition town_rows :: "database \<Rightarrow> startup list \<times> agent list \<times> room_row list" where
  "town_rows d = (d_startups d, d_agents d, d_rooms d)"

interpretation town_part: aloof town_rows
  by unfold_locales (simp_all add: town_rows_def upd_tasks_def)

lemma keeps_town_auth: "keeps town_rows (validate_operator_token env tok token)"
  unfolding validate_operator_token_def identity_from_row_def Let_def
  by (intro keeps) (simp add: rehash_row_def town_rows_def)

lemma wp_operator:
  "wpE (require_operator h hs) (\<lambda>_ t. \<exists>w. t = set_world w s \<and> town_rows (db w) = town_rows (db (world s)))
    (\<lambda>_ t. \<exists>w. t = set_world w s \<and> town_rows (db w) = town_rows (db (world s))) s"
proof -
  have rows: "wpE (validate_operator_token env tok token) (\<lambda>_ w. town_rows (db w) = town_rows (db (world s)))
      (\<lambda>_ w. town_rows (db w) = town_rows (db (world s))) (world s)" for env tok token
    using keeps_town_auth by (simp add: keeps_def)
  show ?thesis
    unfolding require_operator_def by (auto simp: wp intro!: wp_mono [OF rows])
qed

text \<open>The supervisor touches no row of these tables, and no handler's queue.\<close>

definition undisturbed :: "server \<Rightarrow> server \<Rightarrow> bool" where
  "undisturbed s t \<longleftrightarrow> town_rows (db (world t)) = town_rows (db (world s)) \<and>
     sr_queue t = sr_queue s \<and> sr_up t = sr_up s \<and> sr_vars t = sr_vars s"

interpretation quiet: forward undisturbed
  by unfold_locales (auto simp: undisturbed_def)

lemma watch_step_rows:
  assumes "watch_step env sc w b st s = Some (st', s')"
  shows "town_rows (db (sv_world s')) = town_rows (db (sv_world s))"
proof -
  have "town_rows (db (sv_world (worker_dead env w f s))) = town_rows (db (sv_world s))" for f
    using town_part.keeps_store(4) by (simp add: keeps_def worker_dead_def wp_snd)
  then show ?thesis
    using assms by (cases st) (auto simp: watch_ops split: if_splits option.splits proc.splits)
qed

lemma dissolve_step_world: "dissolve_step st s = Some (st', s') \<Longrightarrow> sv_world s' = sv_world s"
  by (cases "(st, s)" rule: dissolve_step.cases) (auto simp: set_tombstone_def)

lemma sup_step_rows: "sup_step env sc e s = Some t \<Longrightarrow> town_rows (db (sv_world t)) = town_rows (db (sv_world s))"
  by (cases e) (auto simp: spawn_child_def Let_def split: if_splits prod.splits
      dest: watch_step_rows dissolve_step_world)

lemma quiet_event: "steps_in undisturbed (sup_event_now h e)"
  by (auto simp: steps_in_def sup_event_now_def wp undisturbed_def world_def split: option.split
      dest: sup_step_rows)

lemma wp_spawn:
  fixes E :: "'e \<Rightarrow> server \<Rightarrow> bool"
  assumes "\<And>t. undisturbed s t \<Longrightarrow> Q () t"
  shows "wpE (spawn_agent h w) Q E s"
proof -
  let ?m = "spawn_agent h w :: (server, 'e, unit) sem"
  have "steps_in undisturbed ?m"
    unfolding spawn_agent_def by (intro quiet.bind quiet.seq quiet.ends quiet_event)
  then have "undisturbed s (snd (?m s))" by (rule steps_inD)
  moreover have "fst (?m s) = Inr ()"
    by (simp add: spawn_agent_def sup_event_now_def bindE_def thenE_def asksE_def modifyE_def)
  ultimately show ?thesis
    using assms by (cases "?m s") (auto simp: wpE_def)
qed

lemma wp_new_secret: "(\<And>x t. undisturbed s t \<Longrightarrow> Q x t) \<Longrightarrow> wpE (new_secret h fixed) Q E s"
  by (auto simp: new_secret_def wp undisturbed_def split: option.split)

text \<open>What an agent gets: a secret in the environment, and perhaps a worker.\<close>

lemma wp_equip:
  assumes "\<And>x t. undisturbed (s\<lparr>sr_vars := AList.update (secret_var (agent_id_of a)) x (sr_vars s)\<rparr>) t \<Longrightarrow> Q () t"
  shows "wpE (equip_agent h c u fixed off a) Q E s"
proof -
  let ?v = "\<lambda>x s. s\<lparr>sr_vars := AList.update (secret_var (agent_id_of a)) x (sr_vars s)\<rparr>"
  have rest: "wpE (bindE (asksE (env_var ''CLIPTOWN_PER_TASK_WORKERS'')) (\<lambda>mode.
      if off \<or> per_task_workers_enabled mode then ret () else spawn_agent h w)) Q E (?v x t)"
    if "undisturbed s t" for x t w
  proof -
    have "undisturbed (?v x s) (?v x t)" using that by (simp add: undisturbed_def)
    from assms [OF this] assms [OF quiet.G_trans [OF this]] show ?thesis by (auto simp: wp intro!: wp_spawn)
  qed
  show ?thesis
    unfolding equip_agent_def wp_bind [of "new_secret h fixed"]
    by (rule wp_new_secret) (simp add: wp_then set_var_def wp_modify rest)
qed

lemma wp_equips:
  assumes "\<And>t. town_rows (db (world t)) = town_rows (db (world s)) \<Longrightarrow> sr_queue t = sr_queue s \<Longrightarrow> sr_up t = sr_up s \<Longrightarrow>
      \<forall>a \<in> set as. agent_secret t (agent_id_of a) \<noteq> None \<Longrightarrow>
      \<forall>i. agent_secret s i \<noteq> None \<longrightarrow> agent_secret t i \<noteq> None \<Longrightarrow> Q () t"
  shows "wpE (forE as (equip_agent h c u fixed off)) Q E s"
  using assms
proof (induction as arbitrary: s)
  case Nil
  then show ?case by (simp add: wp)
next
  case (Cons a as)
  have secret: "agent_secret t i = (if i = agent_id_of a then Some x else agent_secret s i)"
    if "undisturbed (s\<lparr>sr_vars := AList.update (secret_var (agent_id_of a)) x (sr_vars s)\<rparr>) t" for x t i
    using that by (simp add: undisturbed_def agent_secret_def env_var_def secret_var_def update_conv')
  show ?case
    by (simp add: wp_then, rule wp_equip, rule Cons.IH, rule Cons.prems)
       (auto simp: undisturbed_def secret split: if_splits)
qed

section \<open>The rows of a new startup\<close>

definition agent_made :: "ident \<Rightarrow> ident \<Rightarrow> new_agent \<Rightarrow> agent \<Rightarrow> bool" where
  "agent_made startup_id suite_id a r \<longleftrightarrow> (ag_role r, ag_id r, ag_backend r, ag_manager r) = a \<and>
     ag_startup r = startup_id \<and> ag_home_room r = suite_id"

definition new_agent_ids :: "env \<Rightarrow> ident set" where
  "new_agent_ids env = range (\<lambda>n. ''a-'' @ e_uuid_simple env n)"

definition startup_made :: "env \<Rightarrow> create_startup_request \<Rightarrow> created_startup \<Rightarrow> database \<Rightarrow> database \<Rightarrow> bool" where
  "startup_made env req c d d' \<longleftrightarrow>
     (\<exists>r \<in> set (d_rooms d). rm_id r = cs_suite c \<and> rm_type r = ''office'' \<and> rm_private_to r = None) \<and>
     d_rooms d' = update_rows (\<lambda>r. rm_id r = cs_suite c) (\<lambda>r. r\<lparr>rm_private_to := Some (cs_id c)\<rparr>) (d_rooms d) \<and>
     startup_row d (cs_id c) = None \<and>
     (\<exists>r. d_startups d' = d_startups d @ [r] \<and> su_id r = cs_id c \<and> su_name r = cq_name req \<and>
        su_cap r = cq_budget_cap req \<and> su_spent r = 0 \<and> su_status r = ''active'') \<and>
     (\<exists>rs. d_agents d' = d_agents d @ rs \<and> list_all2 (agent_made (cs_id c) (cs_suite c)) (cs_agents c) rs) \<and>
     (\<exists>f \<in> new_agent_ids env. \<exists>e \<in> new_agent_ids env. \<exists>g \<in> new_agent_ids env. cs_agents c = new_agents req f e g)"

lemma free_suite_is_free:
  assumes "free_suite d = Some (i, b)"
  shows "\<exists>r \<in> set (d_rooms d). rm_id r = i \<and> rm_type r = ''office'' \<and> rm_private_to r = None"
proof -
  obtain r rs where r: "sort_key rm_id (filter (\<lambda>r. rm_type r = ''office'' \<and> rm_private_to r = None) (d_rooms d)) = r # rs"
    "rm_id r = i" using assms by (auto simp: free_suite_def split: list.splits)
  from arg_cong [OF r(1), of set] r(2) show ?thesis by auto
qed

lemma wp_agent:
  assumes "\<And>r t. agent_made i su a r \<Longrightarrow> db t = (db s)\<lparr>d_agents := d_agents (db s) @ [r]\<rparr> \<Longrightarrow> Q () t"
    and "\<And>e t. E e t"
  shows "wpE (insert_agent env i su corner a) Q E s"
  by (cases a) (auto simp: insert_agent_def wp assms(2) agent_made_def split: option.split intro!: assms(1))

lemma wp_agents:
  assumes "\<And>rs t. list_all2 (agent_made i su) as rs \<Longrightarrow> db t = (db s)\<lparr>d_agents := d_agents (db s) @ rs\<rparr> \<Longrightarrow> Q () t"
    and "\<And>e t. E e t"
  shows "wpE (forE as (\<lambda>a. mapErr w (insert_agent env i su corner a))) Q E s"
  using assms
proof (induction as arbitrary: s)
  case Nil
  then show ?case by (simp add: wp)
next
  case (Cons a as)
  have "wpE (forE as (\<lambda>a. mapErr w (insert_agent env i su corner a))) Q E t"
    if "agent_made i su a r" "db t = (db s)\<lparr>d_agents := d_agents (db s) @ [r]\<rparr>" for r t
    using that by (intro Cons.IH Cons.prems) auto
  then show ?case
    unfolding forE.simps wp_then wp_mapErr by (rule wp_agent) (assumption | rule Cons.prems(2))+
qed

lemma wp_rows_made:
  "wpE (create_rows h req) (\<lambda>c w. startup_made (ho_env h) req c (db s) (db w)) (\<lambda>_ w. db w = db s) s"
  unfolding create_rows_def Let_def
  by (auto simp: wp_transact wp_bind wp_then wp_mapErr wp_sql_query wp_option wp_throw wp_fresh_uuid wp_fresh_simple
      wp_sql_checked wp_sql_exec wp_ret insert_startup_def claim_room_def agent_uuid_def
      startup_made_def new_agent_ids_def key_check_def free_suite_is_free split: option.split intro!: wp_agents)

lemma made_same:
  assumes "startup_made env req c d1 d2" and "town_rows d1 = town_rows d3" and "town_rows d2 = town_rows d4"
  shows "startup_made env req c d3 d4"
  using assms by (simp add: startup_made_def town_rows_def startup_row_def)

definition handed_over :: "server \<Rightarrow> created_startup \<Rightarrow> cmd list" where
  "handed_over s c = (if sr_up s then sr_queue s @
     [InsertAvatars (map (new_avatar c) (cs_agents c)) (Some (cs_suite c, cs_id c))] else sr_queue s)"

lemma wp_create_startup:
  "wpE (create_startup h hs req)
    (\<lambda>r t. \<exists>c. r = json_reply 200 (created_json c) \<and> startup_made (ho_env h) req c (db (world s)) (db (world t)) \<and>
       sr_queue t = handed_over s c \<and> (\<forall>a \<in> set (cs_agents c). (\<exists>x. agent_secret t (agent_id_of a) = Some x)))
    (\<lambda>_ t. \<exists>w. t = set_world w s \<and> town_rows (db w) = town_rows (db (world s))) s"
  (is "wpE _ ?Q ?E s")
proof -
  have made: "wpE (thenE (forE (cs_agents c) (equip_agent h c u fixed off))
      (thenE (send_cmd (InsertAvatars (map (new_avatar c) (cs_agents c)) (Some (cs_suite c, cs_id c))))
      (ret (json_reply 200 (created_json c))))) ?Q ?E (set_world v s)"
    if "startup_made (ho_env h) req c (db w) (db v)" "town_rows (db w) = town_rows (db (world s))" for c u fixed off v w
    unfolding wp_then [of "forE _ _"]
    by (rule wp_equips)
       (auto simp: wp_then wp_ret handed_over_def agent_secret_def env_var_def wpE_def send_cmd_def
         intro!: exI [of _ c] made_same [OF that(1)] that(2))
  have rows: "wpE (on_world (create_rows h req)) (\<lambda>c t. \<exists>v. t = set_world v s \<and>
      startup_made (ho_env h) req c (db w) (db v)) ?E (set_world w s)"
    if "town_rows (db w) = town_rows (db (world s))" for w
    unfolding wp_on_world
    by (rule wp_mono) (use that in \<open>auto intro!: wp_rows_made [of h req w, THEN wp_mono]\<close>)
  show ?thesis
    unfolding create_startup_def wp_then [of "require_operator h hs"]
  proof (rule wp_mono [OF wp_operator])
    fix a :: operator_identity and t
    assume "\<exists>w. t = set_world w s \<and> town_rows (db w) = town_rows (db (world s))"
    then obtain w where t: "t = set_world w s" and w: "town_rows (db w) = town_rows (db (world s))" by blast
    let ?pass = "\<lambda>c. bindE (asksE (\<lambda>s. (str_or ''ws://127.0.0.1:8080/ws/worker'' (env_var ''CLIPTOWN_WORLD_WS_URL'' s),
         env_var ''CLIPTOWN_TEST_FIXED_AGENT_SECRET'' s,
         env_var ''CLIPTOWN_TEST_DISABLE_SUPERVISOR'' s = Some ''1''))) (\<lambda>(u, fixed, off).
      thenE (forE (cs_agents c) (equip_agent h c u fixed off))
      (thenE (send_cmd (InsertAvatars (map (new_avatar c) (cs_agents c)) (Some (cs_suite c, cs_id c))))
      (ret (json_reply 200 (created_json c)))))"
    have "wpE (bindE (on_world (create_rows h req)) ?pass) ?Q ?E t"
      unfolding t wp_bind [of "on_world _"]
      by (rule wp_mono [OF rows [OF w]]) (auto simp: wp_bind [of "asksE _"] wp_asks intro!: made w split: prod.split)
    moreover have "?E e t" for e by (auto simp: t w)
    ultimately show "wpE (thenE (guardE (budget_cap_ok (cq_budget_cap req)) (reply_err 400 ''invalid budget_cap_usd''))
     (thenE (guardE (\<not> is_blank (map of_char (cq_name req))) (reply_err 400 ''name required''))
     (thenE (guardE (\<forall>b \<in> set [cq_founder req, cq_engineer req, cq_designer req]. b \<in> set ALLOWED_BACKENDS)
        (reply_err 400 ''unknown backend'')) (bindE (on_world (create_rows h req)) ?pass)))) ?Q ?E t"
      by (simp add: wp_then [of "guardE _ _"] wp_guard)
  qed
qed

text \<open>C30: A startup is created whole or not at all. A refused request changes nothing outside the world and no
  row of a startup, an agent or a room, wherever it failed; an accepted one has found a free office,
  made it private to a new active startup with the requested name and cap, added exactly its founder,
  engineer and designer, the latter two managed by the founder, and sent their avatars to the loop if the
  loop is up.\<close>
theorem startup_created_whole_or_not_at_all:
  "case create_startup h hs req s of
     (Inl r, t) \<Rightarrow> \<exists>w. t = set_world w s \<and> town_rows (db w) = town_rows (db (world s))
   | (Inr r, t) \<Rightarrow> \<exists>c. r = json_reply 200 (created_json c) \<and>
       startup_made (ho_env h) req c (db (world s)) (db (world t)) \<and> sr_queue t = handed_over s c"
proof (cases "create_startup h hs req s")
  case (Pair r t)
  with wp_create_startup [of h hs req s] show ?thesis
    by (cases r) (auto simp: wpE_def)
qed

section \<open>The secrets of the new agents\<close>

lemma sign_in:
  assumes "agent_row (db (world t)) i = Some r" and "agent_secret t i = Some x" and "COLON \<notin> set i"
    and "faults (world t) = []" and "header_str ''authorization'' hs = Some (BEARER @ i @ COLON # x)"
  shows "fst (authenticate h hs t) = Inr i"
proof -
  have "split_once COLON (i @ COLON # x) = Some (i, x)" using assms(3) by (simp add: split_once_Some)
  then show ?thesis
    using assms(1,2,4)
    by (simp add: authenticate_def assms(5) str_or_def require_secret_def validate_agent_secret_def expected_secret_def
        bindE_def thenE_def mapErr_def asksE_def on_world_def sql_query_def sql_stmt_def ret_def)
qed

text \<open>C31: Round trip of the secrets: once a startup has been created, every one of its agents has a
  secret in the environment, and a request that presents the agent's id and that secret is authenticated
  as this agent (ids contain no colon), as long as the statement that looks the agent up does not fail.\<close>
theorem new_agents_can_sign_in:
  assumes "create_startup h hs req s = (Inr r, t)" and "\<And>n. COLON \<notin> set (e_uuid_simple (ho_env h) n)"
    and "faults (world t) = []"
  shows "\<exists>c. r = json_reply 200 (created_json c) \<and> length (cs_agents c) = 3 \<and>
    (\<forall>a \<in> set (cs_agents c). \<exists>x. agent_secret t (agent_id_of a) = Some x \<and>
       (\<forall>hs'. header_str ''authorization'' hs' = Some (BEARER @ agent_id_of a @ COLON # x) \<longrightarrow>
          fst (authenticate h hs' t) = Inr (agent_id_of a)))"
proof -
  from wpE_Inr [OF wp_create_startup assms(1)] obtain c where c: "r = json_reply 200 (created_json c)"
    "startup_made (ho_env h) req c (db (world s)) (db (world t))"
    "\<forall>a \<in> set (cs_agents c). \<exists>x. agent_secret t (agent_id_of a) = Some x" by blast
  have colon: "COLON \<notin> set i" if "i \<in> new_agent_ids (ho_env h)" for i
    using that assms(2) by (auto simp: new_agent_ids_def COLON_def)
  have agents: "length (cs_agents c) = 3 \<and> (\<forall>a \<in> set (cs_agents c). COLON \<notin> set (agent_id_of a))"
    using c(2) colon by (auto simp: startup_made_def new_agents_def)
  have row: "\<exists>r. agent_row (db (world t)) (agent_id_of a) = Some r" if a: "a \<in> set (cs_agents c)" for a
  proof -
    obtain rs where rs: "d_agents (db (world t)) = d_agents (db (world s)) @ rs"
      "list_all2 (agent_made (cs_id c) (cs_suite c)) (cs_agents c) rs" using c(2) by (auto simp: startup_made_def)
    obtain k where k: "k < length (cs_agents c)" "cs_agents c ! k = a"
      using a by (auto simp: in_set_conv_nth)
    then have "rs ! k \<in> set (d_agents (db (world t)))"
      using list_all2_lengthD [OF rs(2)] by (simp add: rs(1))
    moreover have "ag_id (rs ! k) = agent_id_of a"
      using list_all2_nthD [OF rs(2) k(1)] k(2) by (auto simp: agent_made_def dest: sym)
    ultimately show ?thesis
      by (cases "agent_row (db (world t)) (agent_id_of a)") (auto simp: agent_row_def find_row_def find_None_iff)
  qed
  have "\<exists>x. agent_secret t (agent_id_of a) = Some x \<and>
      (\<forall>hs'. header_str ''authorization'' hs' = Some (BEARER @ agent_id_of a @ COLON # x) \<longrightarrow>
         fst (authenticate h hs' t) = Inr (agent_id_of a))" if a: "a \<in> set (cs_agents c)" for a
  proof -
    obtain x where x: "agent_secret t (agent_id_of a) = Some x" using c(3) a by blast
    have "COLON \<notin> set (agent_id_of a)" using agents a by blast
    moreover obtain r where "agent_row (db (world t)) (agent_id_of a) = Some r" using row [OF a] by blast
    ultimately have "fst (authenticate h hs' t) = Inr (agent_id_of a)"
      if "header_str ''authorization'' hs' = Some (BEARER @ agent_id_of a @ COLON # x)" for hs'
      using sign_in [OF _ x _ assms(3) that] by blast
    with x show ?thesis by blast
  qed
  with c(1) agents show ?thesis by blast
qed

section \<open>The parent of a new task\<close>

lemma find_row_single: "find_row key k [x] = (if key x = k then Some x else None)"
  by (simp add: find_row_def)

text \<open>The tables hold the task \<open>i\<close> of the request, under the parent \<open>p\<close>, and the parent's row \<open>u\<close>.\<close>

definition booked_under_foreign :: "database \<Rightarrow> ident \<Rightarrow> create_task_body \<Rightarrow> ident \<Rightarrow> task \<Rightarrow> bool" where
  "booked_under_foreign d i b p u \<longleftrightarrow> task_row d p = Some u \<and> (\<exists>x. task_row d i = Some x \<and>
     t_parent x = Some p \<and> t_startup x = tb_startup b \<and> t_status x = initial_status b \<and> t_title x = tb_title b)"

lemma wp_foreign_parent:
  assumes "startup_row (db s) (tb_startup b) = Some r" and "tb_assignee b = None" and "tb_blocked_on b = None"
    and "tb_parent b = Some p" and "task_row (db s) p = Some u" and "t_startup u \<noteq> tb_startup b"
    and "task_row (db s) (''T_'' @ e_uuid_simple env (uuid_ctr s)) = None" and "faults s = []"
  shows "wpE (create_task_rows env idn b) (\<lambda>r t. rs_status r = 201 \<and>
      booked_under_foreign (db t) (''T_'' @ e_uuid_simple env (uuid_ctr s)) b p u) (\<lambda>_ _. False) s"
proof -
  obtain i where i: "i = ''T_'' @ e_uuid_simple env (uuid_ctr s)" by blast
  let ?t = "task_of_body i b (now_secs s)"
  have new: "task_row (db s) i = None" using assms(7) by (simp add: i)
  have t: "t_id ?t = i" "t_startup ?t = tb_startup b" "t_parent ?t = Some p" "t_assignee ?t = None"
    "t_blocked_on ?t = None"
    by (simp_all add: task_of_body_def new_task_def assms(2-4))
  have "booked_under_foreign (upd_task i (\<lambda>t. t\<lparr>t_audit := a t, t_updated_at := n\<rparr>)
      ((db s)\<lparr>d_tasks := d_tasks (db s) @ [?t]\<rparr>)) i b p u" (is "booked_under_foreign ?d i b p u") for a n
  proof -
    have "task_row ?d i = Some (?t\<lparr>t_audit := a ?t, t_updated_at := n\<rparr>)"
      using new t(1) by (simp add: task_row_upd) (simp add: task_row_def find_row_append find_row_single)
    moreover have "task_row ?d p = Some u"
      using assms(5) new by (auto simp: task_row_upd) (auto simp: task_row_def find_row_append)
    ultimately show ?thesis
      by (simp add: booked_under_foreign_def t) (simp add: task_of_body_def new_task_def)
  qed
  then show ?thesis
    using assms(1-5,8) t new
    unfolding create_task_rows_def
    by (simp add: wp check_assignee_def insert_task_def append_audit_def json_reply_def i [symmetric, simplified] fk_def refs_def sql_fails_def)
qed

lemma foreign_parent_breaks:
  assumes "booked_under_foreign d i b p u" and "t_startup u \<noteq> tb_startup b"
  shows "\<not> db_inv d"
proof
  assume inv: "db_inv d"
  from assms(1) obtain x where x: "task_row d i = Some x" "t_parent x = Some p" "t_startup x = tb_startup b"
    "task_row d p = Some u"
    by (auto simp: booked_under_foreign_def)
  from db_inv_row [OF inv x(1)] x assms(2) show False by (simp add: task_ok_def startup_of_task_def)
qed

text \<open>C35: The API books a task under any existing task: with sound tables, a manager who names as parent a
  task of another startup, which no agent's tool accepts, is answered 201; the tables then hold the new
  task as requested, in the startup of the request and under that parent, whose row is unchanged and
  belongs to the other startup, and so they are no longer sound.\<close>
theorem foreign_parent_is_accepted:
  assumes "require_operator h hs s = (Inr idn, s)" and "at_least (oi_role idn) RManager"
    and "\<not> is_blank (map of_char (tb_title b))" "\<not> is_blank (map of_char (tb_description b))" "tb_cost_estimate b = None"
    and "startup_row (db (world s)) (tb_startup b) = Some r" and "tb_assignee b = None" and "tb_blocked_on b = None"
    and "tb_parent b = Some p" and "task_row (db (world s)) p = Some u" and "t_startup u \<noteq> tb_startup b"
    and "i = ''T_'' @ e_uuid_simple (ho_env h) (uuid_ctr (world s))"
    and "task_row (db (world s)) i = None" and "faults (world s) = []" and "db_inv (db (world s))"
  shows "\<exists>r t x. create_task h hs b s = (Inr r, t) \<and> rs_status r = 201 \<and>
    task_row (db (world t)) i = Some x \<and> t_startup x = tb_startup b \<and> t_title x = tb_title b \<and>
    t_status x = initial_status b \<and> t_parent x = Some p \<and> task_row (db (world t)) p = Some u \<and>
    t_startup u \<noteq> t_startup x \<and> \<not> db_inv (db (world t))"
proof -
  have "wpE (create_task h hs b) (\<lambda>r t. rs_status r = 201 \<and> booked_under_foreign (db (world t)) i b p u) (\<lambda>_ _. False) s"
    using wp_foreign_parent [OF assms(6-11) assms(13) [unfolded assms(12)] assms(14), of idn, folded assms(12)] assms(2-5)
    unfolding create_task_def wp_bind by (simp add: wpE_def [of "require_operator h hs"] assms(1) wp_then wp_guard wp_on_world)
  then obtain r t where run: "create_task h hs b s = (Inr r, t)" "rs_status r = 201"
    "booked_under_foreign (db (world t)) i b p u"
    by (cases "create_task h hs b s") (auto dest: wpE_run)
  with foreign_parent_breaks [OF run(3) assms(11)] assms(11) show ?thesis
    by (auto simp: booked_under_foreign_def)
qed

definition other_startup :: startup where
  "other_startup = sample_startup\<lparr>su_id := ''s2''\<rparr>"

definition sample_body :: create_task_body where
  "sample_body = \<lparr> tb_startup = ''s2'', tb_title = ''c'', tb_description = ''d'', tb_assignee = None,
     tb_parent = Some ''p1'', tb_required_room = None, tb_preferred_backend = None, tb_preferred_model = None,
     tb_cost_estimate = None, tb_blocked_on = None, tb_deadline_at = None \<rparr>"

definition two_startups :: server where
  "two_startups = set_world (town_sys\<lparr>db := (db town_sys)\<lparr>d_startups := [sample_startup, other_startup]\<rparr>\<rparr>) sample_server"

lemma admin_signs_in:
  assumes "faults (world s) = []" and "d_operators (db (world s)) = [sample_operator]"
    and "operator_token_var s = None"
  shows "require_operator sample_host admin_headers s = (Inr env_operator, s)"
proof -
  have tk: "extract_operator_token admin_headers = ''dev-token''"
    by (simp add: extract_operator_token_def header_agent str_or_def BEARER_def strip_prefix_def)
  have "wpE (require_operator sample_host admin_headers) (\<lambda>a t. a = env_operator \<and> t = s) (\<lambda>_ _. False) s"
    unfolding require_operator_def validate_operator_token_def Let_def tk
    by (simp add: wp assms row_by_hash_def row_by_plaintext_def sample_operator_def hash_operator_token_def
        env_token_or_default_def str_or_def sql_fails_def)
  then show ?thesis
    by (cases "require_operator sample_host admin_headers s") (auto dest: wpE_run)
qed

lemma two_startups_sound: "db_inv (db (world two_startups))"
  by (simp add: two_startups_def db_inv_def task_ok_def has_worker_def sample_defs startup_of_agent_def
      startup_of_task_def agent_row_def task_row_def parse_status_def MAX_REVIEW_ROUNDS_def)

theorem foreign_parent_is_accepted_witness:
  "db_inv (db (world two_startups)) \<and>
   (\<exists>r t x. create_task sample_host admin_headers sample_body two_startups = (Inr r, t) \<and> rs_status r = 201 \<and>
     t_parent x = Some ''p1'' \<and> t_startup x = ''s2'' \<and> x \<in> set (d_tasks (db (world t))) \<and> \<not> db_inv (db (world t)))"
proof -
  have signs: "require_operator sample_host admin_headers two_startups = (Inr env_operator, two_startups)"
    by (rule admin_signs_in) (simp_all add: two_startups_def operator_token_var_def env_var_def secret_var_def)
  have "\<exists>r t x. create_task sample_host admin_headers sample_body two_startups = (Inr r, t) \<and> rs_status r = 201 \<and>
    task_row (db (world t)) (''T_'' @ e_uuid_simple (ho_env sample_host) (uuid_ctr (world two_startups))) = Some x \<and>
    t_startup x = tb_startup sample_body \<and> t_title x = tb_title sample_body \<and>
    t_status x = initial_status sample_body \<and> t_parent x = Some ''p1'' \<and>
    task_row (db (world t)) ''p1'' = Some (sample_task ''p1'' None ''m1'' ''in_progress'') \<and>
    t_startup (sample_task ''p1'' None ''m1'' ''in_progress'') \<noteq> t_startup x \<and> \<not> db_inv (db (world t))"
    by (rule foreign_parent_is_accepted [OF signs, where r = other_startup])
      (simp_all add: two_startups_sound, simp_all add: two_startups_def sample_body_def other_startup_def
        sample_startup_def startup_row_def find_row_def env_operator_def at_least_def is_blank.simps ws1_def
        task_row_def sample_db_def sample_task_def new_task_def sample_host_def)
  then show ?thesis
    by (auto simp: two_startups_sound sample_body_def task_row_def dest!: find_row_Some)
qed

definition sample_request :: create_startup_request where
  "sample_request = \<lparr> cq_name = ''n'', cq_goal_text = ''goal'', cq_budget_cap = 10,
     cq_founder = ''claude_code'', cq_engineer = ''codex'', cq_designer = ''opencode'' \<rparr>"

definition quiet_server :: server where
  "quiet_server = sample_server\<lparr>sr_vars := [(''CLIPTOWN_TEST_DISABLE_SUPERVISOR'', ''1'')]\<rparr>"

lemma small_nat: "n < 10 \<Longrightarrow> show_nat n = [char_of (48 + n)]"
  by (simp add: show_nat.simps)

lemma wp_three_agents:
  assumes "faults s = []" and "startup_row (db s) sid \<noteq> None" and "distinct [f, e, d]"
    and "agent_row (db s) f = None" "agent_row (db s) e = None" "agent_row (db s) d = None"
  shows "wpE (forE (new_agents req f e d) (\<lambda>a. mapErr w (insert_agent env sid su corner a))) (\<lambda>_ t. faults t = []) E s"
  using assms
  by (simp add: wp new_agents_def insert_agent_def sql_fails_def key_check_def refs_def agent_row_def startup_row_def
      find_row_append find_row_single)

lemma sample_rows_created:
  "wpE (create_rows sample_host sample_request) (\<lambda>_ w. faults w = []) (\<lambda>_ _. False) town_sys"
proof -
  have found: "free_suite (db town_sys) = Some (''suite_2'', ''{}'')"
    by (simp add: free_suite_def sample_office_def)
  have ids: "e_uuid (ho_env sample_host) = (\<lambda>n. ''u'' @ show_nat n)" "e_uuid_simple (ho_env sample_host) = (\<lambda>n. ''u'' @ show_nat n)"
    by (simp_all add: sample_host_def sample_env_def tiny_env_def)
  have new: "startup_row (db town_sys) [CHR ''u'', x] = None"
    "agent_row (db town_sys\<lparr>d_startups := ss, d_rooms := rs\<rparr>) (CHR ''a'' # CHR ''-'' # x') = None" for x x' ss rs
    by (simp_all add: startup_row_def find_row_def sample_startup_def agent_row_def sample_db_def sample_agent_def)
  show ?thesis
    unfolding create_rows_def Let_def
    by (simp add: wp_transact wp_bind wp_then wp_mapErr wp_sql_query wp_option wp_throw wp_fresh_uuid wp_fresh_simple
        wp_sql_checked wp_sql_exec wp_ret insert_startup_def claim_room_def agent_uuid_def key_check_def found ids
        sql_fails_def small_nat find_row_def new(1))
      (rule wp_three_agents [THEN wp_mono]; simp add: new startup_row_def find_row_def)
qed

lemma sample_equipped:
  "faults (world s) = [] \<Longrightarrow> wpE (forE as (equip_agent h c u fixed True)) (\<lambda>_ t. faults (world t) = []) E s"
  by (induction as arbitrary: s; cases fixed) (simp_all add: wp equip_agent_def new_secret_def set_var_def)

lemma sample_creation:
  "wpE (create_startup sample_host admin_headers sample_request) (\<lambda>_ t. faults (world t) = []) (\<lambda>_ _. False) quiet_server"
proof -
  have "require_operator sample_host admin_headers quiet_server = (Inr env_operator, quiet_server)"
    by (rule admin_signs_in) (simp_all add: quiet_server_def operator_token_var_def env_var_def)
  then have op: "wpE (require_operator sample_host admin_headers) Q E quiet_server = Q env_operator quiet_server" for Q E
    by (simp add: wpE_def)
  have checks: "budget_cap_ok (cq_budget_cap sample_request)" "\<not> is_blank (map of_char (cq_name sample_request))"
    "\<forall>b \<in> set [cq_founder sample_request, cq_engineer sample_request, cq_designer sample_request]. b \<in> set ALLOWED_BACKENDS"
    by (simp_all add: sample_request_def budget_cap_ok_def is_blank.simps ws1_def ALLOWED_BACKENDS_def)
  have off: "env_var ''CLIPTOWN_TEST_DISABLE_SUPERVISOR'' (set_world w quiet_server) = Some ''1''" for w
    by (simp add: quiet_server_def env_var_def)
  have "world quiet_server = town_sys" by (simp add: quiet_server_def)
  with sample_rows_created op checks show ?thesis
    unfolding create_startup_def
    by (auto simp: wp_then wp_guard wp_bind wp_on_world wp_asks wp_ret off intro!: sample_equipped [THEN wp_mono]
        elim!: wp_mono) (auto simp: wpE_def send_cmd_def)
qed

lemma digits_no_colon: "COLON \<notin> set (show_nat n)"
proof (induction n rule: show_nat.induct)
  case (1 n)
  have "COLON \<noteq> char_of (48 + k)" if "k < 10" for k :: nat
  proof
    assume "COLON = char_of (48 + k)"
    from arg_cong [OF this, of "of_char :: char \<Rightarrow> nat"] that show False
      by (simp add: COLON_def of_char_of)
  qed
  with 1 show ?case by (subst show_nat.simps) auto
qed

theorem new_agents_can_sign_in_witness:
  "\<exists>r t c. create_startup sample_host admin_headers sample_request quiet_server = (Inr r, t) \<and>
     r = json_reply 200 (created_json c) \<and> length (cs_agents c) = 3 \<and>
     (\<forall>a \<in> set (cs_agents c). \<exists>x. agent_secret t (agent_id_of a) = Some x)"
proof -
  obtain r t where run: "create_startup sample_host admin_headers sample_request quiet_server = (Inr r, t)"
    "faults (world t) = []"
    using sample_creation by (cases "create_startup sample_host admin_headers sample_request quiet_server") (auto dest: wpE_run)
  have "COLON \<notin> set (e_uuid_simple (ho_env sample_host) n)" for n
    using digits_no_colon by (simp add: sample_host_def sample_env_def tiny_env_def COLON_def)
  from new_agents_can_sign_in [OF run(1) this run(2)] run(1) show ?thesis by blast
qed

end
