(* ===== verification/Protocol.thy ===== *)
theory Protocol
  imports ServerInv "HOL-Library.Monad_Syntax"
begin

text \<open>
  The wire protocol of \<open>protocol/ws_messages.rs\<close>: the derived deserializers of the messages a worker
  and a console send (internally tagged by \<open>type\<close>, unknown fields ignored, an absent optional field
  read as \<open>None\<close>), and the messages a worker receives. The handlers build the latter with \<open>json!\<close>,
  outside the type; the second half shows that what they queue is nevertheless of that type.
  A message is read in its object form; the positional array form the derive also takes is left out.
\<close>

section \<open>Field readers\<close>

definition fld :: "string \<Rightarrow> (json \<Rightarrow> 'a option) \<Rightarrow> json \<Rightarrow> 'a option" where
  "fld k rd j = Option.bind (jget k j) rd"

definition opt_fld :: "string \<Rightarrow> (json \<Rightarrow> 'a option) \<Rightarrow> json \<Rightarrow> 'a option option" where
  "opt_fld k rd j = (case jget k j of
      None \<Rightarrow> Some None
    | Some v \<Rightarrow> if is_null v then Some None else map_option Some (rd v))"

fun int_in :: "int \<Rightarrow> int \<Rightarrow> json \<Rightarrow> int option" where
  "int_in lo hi (JInt i) = (if lo \<le> i \<and> i < hi then Some i else None)"
| "int_in lo hi _ = None"

definition u8 :: "json \<Rightarrow> int option" where
  "u8 = int_in 0 (2 ^ 8)"

definition u32 :: "json \<Rightarrow> int option" where
  "u32 = int_in 0 (2 ^ 32)"

definition i32 :: "json \<Rightarrow> int option" where
  "i32 = int_in (- (2 ^ 31)) (2 ^ 31)"

fun as_arr :: "json \<Rightarrow> json list option" where
  "as_arr (JArr xs) = Some xs"
| "as_arr _ = None"

lemma int_in_Some: "int_in lo hi j = Some i \<longleftrightarrow> j = JInt i \<and> lo \<le> i \<and> i < hi"
  by (cases j) auto

lemma as_str_Some: "as_str j = Some t \<longleftrightarrow> j = JStr t"
  by (cases j) auto

lemma is_null_iff: "is_null j \<longleftrightarrow> j = JNull"
  by (cases j) auto

lemma opt_fld_jopt [simp]: "jget k j = Some (jopt x) \<Longrightarrow> opt_fld k as_str j = Some x"
  by (cases x) (simp_all add: opt_fld_def jopt_def)

section \<open>What a worker sends\<close>

definition worker_variant :: "string \<Rightarrow> json \<Rightarrow> worker_inbound option" where
  "worker_variant tag j =
     (if tag = ''hello'' then do { v \<leftarrow> fld ''v'' u8 j; a \<leftarrow> fld ''agent_id'' as_str j;
        s \<leftarrow> fld ''startup_id'' as_str j; x \<leftarrow> fld ''secret'' as_str j; Some (WHello v a s x) }
      else if tag = ''mcp_call'' then do { v \<leftarrow> fld ''v'' u8 j; c \<leftarrow> fld ''corr_id'' as_str j;
        t \<leftarrow> fld ''tool'' as_str j; args \<leftarrow> fld ''args'' Some j; Some (WMcpCall v c t args) }
      else if tag = ''report_budget'' then do { v \<leftarrow> fld ''v'' u8 j; i \<leftarrow> fld ''in_tokens'' as_u64 j;
        u \<leftarrow> fld ''out_tokens'' as_u64 j; m \<leftarrow> fld ''model_id'' as_str j;
        t \<leftarrow> opt_fld ''task_id'' as_str j; c \<leftarrow> opt_fld ''cost_usd'' as_f64 j;
        Some (WReportBudget v i u m t c) }
      else if tag = ''report_fs_op'' then do { v \<leftarrow> fld ''v'' u8 j; p \<leftarrow> fld ''op'' as_str j;
        q \<leftarrow> fld ''path'' as_str j; n \<leftarrow> fld ''bytes'' as_i64 j; b \<leftarrow> fld ''ok'' as_bool j;
        e \<leftarrow> opt_fld ''error'' as_str j; Some (WReportFsOp v p q n b e) }
      else if tag = ''cli_session_started'' then do { v \<leftarrow> fld ''v'' u8 j;
        t \<leftarrow> opt_fld ''task_id'' as_str j; h \<leftarrow> fld ''prompt_hash'' as_str j;
        Some (WCliSessionStarted v t h) }
      else if tag = ''cli_session_ended'' then do { v \<leftarrow> fld ''v'' u8 j;
        t \<leftarrow> opt_fld ''task_id'' as_str j; x \<leftarrow> fld ''exit_code'' i32 j;
        s \<leftarrow> opt_fld ''summary'' as_str j; Some (WCliSessionEnded v t x s) }
      else if tag = ''task_progress'' then do { v \<leftarrow> fld ''v'' u8 j; t \<leftarrow> fld ''task_id'' as_str j;
        n \<leftarrow> fld ''note'' as_str j; Some (WTaskProgress v t n) }
      else if tag = ''move_intent'' then do { v \<leftarrow> fld ''v'' u8 j; r \<leftarrow> fld ''target_room'' as_str j;
        x \<leftarrow> fld ''target_x'' i32 j; y \<leftarrow> fld ''target_y'' i32 j; Some (WMoveIntent v r x y) }
      else None)"

definition text_tag :: "json \<Rightarrow> string option" where
  "text_tag j = fld ''type'' as_str j"

definition decode_worker :: "(json \<Rightarrow> string) \<Rightarrow> worker_decoder" where
  "decode_worker err j =
     (case Option.bind (text_tag j) (\<lambda>tag. worker_variant tag j) of None \<Rightarrow> Inl (err j) | Some m \<Rightarrow> Inr m)"

section \<open>What a console sends\<close>

definition console_variant :: "string \<Rightarrow> json \<Rightarrow> console_inbound option" where
  "console_variant tag j =
     (if tag = ''hello'' then do { v \<leftarrow> fld ''v'' u8 j; t \<leftarrow> fld ''operator_token''
        as_str j; Some (CHello v t) }
      else if tag = ''operator_move'' then do { v \<leftarrow> fld ''v'' u8 j; x \<leftarrow> fld ''target_x''
        i32 j; y \<leftarrow> fld ''target_y'' i32 j; Some (COperatorMove v x y) }
      else if tag = ''operator_possess'' then do { v \<leftarrow> fld ''v'' u8 j; s \<leftarrow> fld
        ''startup_id'' as_str j; Some (COperatorPossess v s) }
      else if tag = ''operator_unpossess'' then do { v \<leftarrow> fld ''v'' u8 j; Some (COperatorUnpossess
        v) }
      else if tag = ''operator_directive'' then do { v \<leftarrow> fld ''v'' u8 j; a \<leftarrow> fld
        ''to_agent_id'' as_str j; b \<leftarrow> fld ''body'' as_str j; Some (COperatorDirective v a b) }
      else if tag = ''operator_accept_proposal'' then do { v \<leftarrow> fld ''v'' u8 j; t \<leftarrow> fld
        ''task_id'' as_str j; a \<leftarrow> fld ''assignee_agent_id'' as_str j; r \<leftarrow> opt_fld
        ''required_room'' as_str j; Some (COperatorAcceptProposal v t a r) }
      else if tag = ''operator_reject_proposal'' then do { v \<leftarrow> fld ''v'' u8 j; t \<leftarrow> fld
        ''task_id'' as_str j; r \<leftarrow> fld ''reason'' as_str j; Some (COperatorRejectProposal v t r) }
      else if tag = ''operator_force_accept'' then do { v \<leftarrow> fld ''v'' u8 j; t \<leftarrow> fld
        ''task_id'' as_str j; Some (COperatorForceAccept v t) }
      else if tag = ''operator_force_fail'' then do { v \<leftarrow> fld ''v'' u8 j; t \<leftarrow> fld
        ''task_id'' as_str j; n \<leftarrow> fld ''note'' as_str j; Some (COperatorForceFail v t n) }
      else if tag = ''operator_recheck_backends'' then Some COperatorRecheckBackends
      else if tag = ''skill_attach'' then do { v \<leftarrow> fld ''v'' u8 j; s \<leftarrow> fld
        ''startup_id'' as_str j; a \<leftarrow> fld ''agent_id'' as_str j; k \<leftarrow> fld ''skill_id''
        as_str j; Some (CSkillAttach v s a k) }
      else if tag = ''skill_detach'' then do { v \<leftarrow> fld ''v'' u8 j; s \<leftarrow> fld
        ''startup_id'' as_str j; a \<leftarrow> fld ''agent_id'' as_str j; k \<leftarrow> fld ''skill_id''
        as_str j; Some (CSkillDetach v s a k) }
      else if tag = ''skill_upsert_operator'' then do { v \<leftarrow> fld ''v'' u8 j; s \<leftarrow> fld
        ''startup_id'' as_str j; k \<leftarrow> opt_fld ''skill_id'' as_str j; n \<leftarrow> fld ''name''
        as_str j; c \<leftarrow> fld ''content_md'' as_str j; Some (CSkillUpsertOperator v s k n c) }
      else if tag = ''skill_delete_operator'' then do { v \<leftarrow> fld ''v'' u8 j; s \<leftarrow> fld
        ''startup_id'' as_str j; k \<leftarrow> fld ''skill_id'' as_str j; Some (CSkillDeleteOperator v s k) }
      else if tag = ''skill_set_global'' then do { v \<leftarrow> fld ''v'' u8 j; k \<leftarrow> fld
        ''skill_id'' as_str j; g \<leftarrow> fld ''is_global'' as_bool j; Some (CSkillSetGlobal v k g) }
      else if tag = ''operator_list'' then do { v \<leftarrow> fld ''v'' u8 j; Some (COperatorList v) }
      else if tag = ''operator_create'' then do { v \<leftarrow> fld ''v'' u8 j; n \<leftarrow> fld ''name''
        as_str j; r \<leftarrow> fld ''role'' as_str j; Some (COperatorCreate v n r) }
      else if tag = ''operator_revoke'' then do { v \<leftarrow> fld ''v'' u8 j; i \<leftarrow> fld
        ''operator_id'' as_str j; Some (COperatorRevoke v i) }
      else if tag = ''operator_set_role'' then do { v \<leftarrow> fld ''v'' u8 j; i \<leftarrow> fld
        ''operator_id'' as_str j; r \<leftarrow> fld ''role'' as_str j; Some (COperatorSetRole v i r) }
      else if tag = ''agent_set_peer_reviewer'' then do { v \<leftarrow> fld ''v'' u8 j; a \<leftarrow> fld
        ''agent_id'' as_str j; p \<leftarrow> fld ''is_peer_reviewer'' as_bool j; Some (CAgentSetPeerReviewer
        v a p) }
      else if tag = ''startup_set_auto_steal'' then do { v \<leftarrow> fld ''v'' u8 j; s \<leftarrow> fld
        ''startup_id'' as_str j; e \<leftarrow> fld ''enabled'' as_bool j; n \<leftarrow> opt_fld
        ''after_secs'' as_i64 j; Some (CStartupSetAutoSteal v s e n) }
      else if tag = ''skill_list_revisions_operator'' then do { v \<leftarrow> fld ''v'' u8 j; s \<leftarrow>
        fld ''startup_id'' as_str j; k \<leftarrow> fld ''skill_id'' as_str j; Some
        (CSkillListRevisionsOperator v s k) }
      else if tag = ''skill_revert_operator'' then do { v \<leftarrow> fld ''v'' u8 j; s \<leftarrow> fld
        ''startup_id'' as_str j; k \<leftarrow> fld ''skill_id'' as_str j; n \<leftarrow> fld ''rev_seq''
        as_i64 j; Some (CSkillRevertOperator v s k n) }
      else if tag = ''startup_set_auto_recovery'' then do { v \<leftarrow> fld ''v'' u8 j; s \<leftarrow> fld
        ''startup_id'' as_str j; e \<leftarrow> fld ''enabled'' as_bool j; n \<leftarrow> opt_fld
        ''max_attempts'' as_i64 j; Some (CStartupSetAutoRecovery v s e n) }
      else if tag = ''presence_heartbeat'' then do { v \<leftarrow> fld ''v'' u8 j; s \<leftarrow> opt_fld
        ''focused_startup_id'' as_str j; Some (CPresenceHeartbeat v s) }
      else None)"

definition decode_console :: "(json \<Rightarrow> string) \<Rightarrow> console_decoder" where
  "decode_console err j =
     (case Option.bind (text_tag j) (\<lambda>tag. console_variant tag j) of None \<Rightarrow> Inl (err j) | Some m \<Rightarrow> Inr m)"

section \<open>What a worker receives\<close>

datatype worker_outbound =
    OMcpReply int string json
  | OMcpError int string string string
  | OWorldState int json
  | OWorldStateChunk int int int json
  | OWorldStateEnd int
  | OTaskAssigned int ident string string "ident option" "ident option" "string option" "string option"
  | OSubtaskProposed int ident ident ident string string "string option"
  | OSubtaskDone int ident ident string int
  | ODirective int ident string "ident option"
  | OProximityTick int ident "json list"
  | OChatReceived int ident string ident
  | OMoveComplete int ident
  | OMoveFailed int string
  | OBudgetWarning int real int
  | OPause int string
  | OShutdown

definition outbound_variant :: "string \<Rightarrow> json \<Rightarrow> worker_outbound option" where
  "outbound_variant tag j =
     (if tag = ''mcp_reply'' then do { v \<leftarrow> fld ''v'' u8 j; c \<leftarrow> fld ''corr_id'' as_str
        j; r \<leftarrow> fld ''result'' Some j; Some (OMcpReply v c r) }
      else if tag = ''mcp_error'' then do { v \<leftarrow> fld ''v'' u8 j; c \<leftarrow> fld ''corr_id''
        as_str j; k \<leftarrow> fld ''code'' as_str j; m \<leftarrow> fld ''message'' as_str j; Some
        (OMcpError v c k m) }
      else if tag = ''world_state'' then do { v \<leftarrow> fld ''v'' u8 j; s \<leftarrow> fld ''snapshot''
        Some j; Some (OWorldState v s) }
      else if tag = ''world_state_chunk'' then do { v \<leftarrow> fld ''v'' u8 j; q \<leftarrow> fld ''seq''
        u32 j; n \<leftarrow> fld ''total'' u32 j; p \<leftarrow> fld ''payload'' Some j; Some
        (OWorldStateChunk v q n p) }
      else if tag = ''world_state_end'' then do { v \<leftarrow> fld ''v'' u8 j; Some (OWorldStateEnd v) }
      else if tag = ''task_assigned'' then do { v \<leftarrow> fld ''v'' u8 j; t \<leftarrow> fld ''task_id''
        as_str j; n \<leftarrow> fld ''title'' as_str j; d \<leftarrow> fld ''description'' as_str j; r
        \<leftarrow> opt_fld ''required_room'' as_str j; p \<leftarrow> opt_fld ''parent_id'' as_str j; b
        \<leftarrow> opt_fld ''preferred_backend'' as_str j; m \<leftarrow> opt_fld ''preferred_model'' as_str
        j; Some (OTaskAssigned v t n d r p b m) }
      else if tag = ''subtask_proposed'' then do { v \<leftarrow> fld ''v'' u8 j; p \<leftarrow> fld
        ''parent_id'' as_str j; t \<leftarrow> fld ''proposed_task_id'' as_str j; a \<leftarrow> fld
        ''proposer_agent_id'' as_str j; n \<leftarrow> fld ''title'' as_str j; d \<leftarrow> fld
        ''description'' as_str j; r \<leftarrow> opt_fld ''suggested_assignee_role'' as_str j; Some
        (OSubtaskProposed v p t a n d r) }
      else if tag = ''subtask_done'' then do { v \<leftarrow> fld ''v'' u8 j; p \<leftarrow> fld ''parent_id''
        as_str j; c \<leftarrow> fld ''child_id'' as_str j; a \<leftarrow> fld ''artifact_path'' as_str j; r
        \<leftarrow> fld ''review_round'' u32 j; Some (OSubtaskDone v p c a r) }
      else if tag = ''directive'' then do { v \<leftarrow> fld ''v'' u8 j; a \<leftarrow> fld
        ''from_agent_id'' as_str j; b \<leftarrow> fld ''body'' as_str j; t \<leftarrow> opt_fld
        ''in_response_to_task'' as_str j; Some (ODirective v a b t) }
      else if tag = ''proximity_tick'' then do { v \<leftarrow> fld ''v'' u8 j; r \<leftarrow> fld ''room_id''
        as_str j; m \<leftarrow> fld ''members'' as_arr j; Some (OProximityTick v r m) }
      else if tag = ''chat_received'' then do { v \<leftarrow> fld ''v'' u8 j; a \<leftarrow> fld
        ''from_agent_id'' as_str j; b \<leftarrow> fld ''body'' as_str j; r \<leftarrow> fld ''room_id''
        as_str j; Some (OChatReceived v a b r) }
      else if tag = ''move_complete'' then do { v \<leftarrow> fld ''v'' u8 j; r \<leftarrow> fld ''room_id''
        as_str j; Some (OMoveComplete v r) }
      else if tag = ''move_failed'' then do { v \<leftarrow> fld ''v'' u8 j; r \<leftarrow> fld ''reason''
        as_str j; Some (OMoveFailed v r) }
      else if tag = ''budget_warning'' then do { v \<leftarrow> fld ''v'' u8 j; x \<leftarrow> fld
        ''remaining_usd'' as_f64 j; p \<leftarrow> fld ''percent_used'' u32 j; Some (OBudgetWarning v x p) }
      else if tag = ''pause'' then do { v \<leftarrow> fld ''v'' u8 j; r \<leftarrow> fld ''reason'' as_str j;
        Some (OPause v r) }
      else if tag = ''shutdown'' then Some OShutdown
      else None)"

definition decode_outbound :: "json \<Rightarrow> worker_outbound option" where
  "decode_outbound j = Option.bind (text_tag j) (\<lambda>tag. outbound_variant tag j)"

section \<open>What the handlers queue\<close>

text \<open>
  A frame is of the protocol when the receiver's type takes it, or when it is the proximity tick: its
  builder calls the list \<open>peers\<close> where the type says \<open>members\<close>, so the type does not take it.
\<close>

definition proximity_frame :: "json \<Rightarrow> bool" where
  "proximity_frame j \<longleftrightarrow> text_tag j = Some ''proximity_tick'' \<and> fld ''v'' u8 j = Some 1 \<and>
     fld ''room_id'' as_str j \<noteq> None \<and> fld ''peers'' as_arr j \<noteq> None"

definition frame_ok :: "json \<Rightarrow> bool" where
  "frame_ok j \<longleftrightarrow> decode_outbound j \<noteq> None \<or> proximity_frame j"

lemmas frame_simps = frame_ok_def decode_outbound_def outbound_variant_def text_tag_def fld_def u8_def
  u32_def opt_fld_def jopt_def

lemma frames_decode:
  "decode_outbound pause_json = Some (OPause 1 ''budget_exhausted'')"
  "decode_outbound (move_complete_json room) = Some (OMoveComplete 1 room)"
  "decode_outbound (move_failed_json reason) = Some (OMoveFailed 1 reason)"
  "0 \<le> n \<Longrightarrow> n < 2 ^ 32 \<Longrightarrow> decode_outbound (warn_json x n) = Some (OBudgetWarning 1 x n)"
  "0 \<le> r \<Longrightarrow> r < 2 ^ 32 \<Longrightarrow> decode_outbound (subtask_done_json p t a r) = Some (OSubtaskDone 1 p t a r)"
  by (simp_all add: frame_simps pause_json_def move_complete_json_def move_failed_json_def warn_json_def
      subtask_done_json_def)

lemma assigned_decodes: "decode_outbound (task_assigned_json q) = Some (OTaskAssigned 1 (q_id q) (q_title q)
    (q_description q) (q_required_room q) (q_parent q) (q_preferred_backend q) (q_preferred_model q))"
  by (simp add: frame_simps task_assigned_json_def split: option.split)

lemma proximity_does_not_decode: "decode_outbound (proximity_json room ms) = None"
  by (simp add: frame_simps proximity_json_def)

lemma f64_as_u32_range: "0 \<le> f64_as_u32 x \<and> f64_as_u32 x < 2 ^ 32"
  by (auto simp: f64_as_u32_def min_def)

definition bus_ok :: "sys \<Rightarrow> bool" where
  "bus_ok s \<longleftrightarrow> (\<forall>(i, c) \<in> set (out_bus s). \<forall>j \<in> set (ch_queue c). frame_ok j)"

named_theorems typed "computations that queue frames of the protocol only"

lemmas typed_rules [typed] = pres_bind pres_then pres_basic pres_wrap pres_for pres_count pres_cases
  pres_data_cases pres_collect

text \<open>
  A property of the channels that frames of the protocol and closed connections keep, and new connections
  that are admitted. All the program does keeps it: nothing but the loop's two commands adds or removes a
  channel, and nothing but frames of the protocol is queued.
\<close>

locale bus_invariant =
  fixes B :: "out_bus \<Rightarrow> bool" and admits :: "ident \<Rightarrow> chan \<Rightarrow> bool"
  assumes queued: "B b \<Longrightarrow> frame_ok j \<Longrightarrow> B (bus_send i j b)"
    and closed: "B b \<Longrightarrow> B (AList.delete i b)"
    and opened: "B b \<Longrightarrow> admits i tx \<Longrightarrow> B (AList.update i tx b)"
begin

abbreviation typed :: "(sys, 'e, 'a) sem \<Rightarrow> bool" where
  "typed \<equiv> pres (\<lambda>s. B (out_bus s))"

lemma typed_basic [typed]: "typed (sql_query g)" "typed (sql_exec f)" "typed (sql_checked chk f)"
  "typed (sql_stmt h)" "typed (fresh_uuid env)" "typed (broadcast fr)"
  "typed (set_avatar_status i st)"
  by (auto simp: leads_def wp split: sum.split option.split)

lemma typed_fresh [typed]: "typed (fresh_simple env)"
  by (simp add: leads_def wpE_def fresh_simple_def)

lemma typed_transact [typed]: "typed m \<Longrightarrow> typed (transactE w m)"
  by (auto simp: leads_def wp elim: wp_mono)

lemma typed_send [typed]: "frame_ok j \<Longrightarrow> typed (send_to i j)" "frame_ok j \<Longrightarrow> typed (send_checked i j)"
  by (auto simp: leads_def wp wpE_def send_checked_def queued)

lemma typed_modify [typed]: "(\<And>s. out_bus (g s) = out_bus s) \<Longrightarrow> typed (modifyE g)"
  by (simp add: leads_def wp)

lemma typed_start_move [typed]: "typed (do_start_move env a room t)"
  by (auto simp: leads_def wpE_def do_start_move_def split: sum.split prod.split)

end

section \<open>The tools\<close>

context bus_invariant begin

text \<open>What \<open>load_task\<close> returns fits its columns: the round is an \<open>u32\<close>.\<close>

lemma typed_load:
  assumes "\<And>task. 0 \<le> tv_review_round task \<and> tv_review_round task < 2 ^ 32 \<Longrightarrow> typed (f task)"
  shows "typed (bindE (load_task i) f)"
proof -
  have "typed (f \<lparr> tv_status = st, tv_startup = u, tv_parent = p, tv_assignee = a,
      tv_review_round = as_u32 r, tv_artifact = x \<rparr>)" for st u p a r x
    by (rule assms) (simp add: as_u32_def)
  then show ?thesis by (auto simp: load_task_def leads_def wp split: option.split)
qed

lemma typed_store [typed]: "typed (append_audit i e)" "typed (append_epistemic i e)"
  "typed (insert_system_event i su k pl sv)" "typed (emit_system_event env su k pl sv)"
  "typed (insert_message i sid r a b k)" "typed (insert_task tk)" "typed (self_review_record i a out)"
  "typed (set_status i st)" "typed (steal_row i old new)" "typed (recover_row i old new)"
  unfolding append_audit_def append_epistemic_def insert_system_event_def emit_system_event_def
    insert_message_def insert_task_def self_review_record_def set_status_def steal_row_def recover_row_def
  by (intro typed)+

lemma typed_locks [typed]: "typed (try_acquire env k i ttl)" "typed (release k)"
  "typed (lock_gc_tick :: (sys, 'e, unit) sem)"
  unfolding try_acquire_def insert_lock_def release_def lock_gc_tick_def gc_expired_def Let_def
  by (intro typed)+

lemma typed_helpers [typed]: "typed (require_str args k)" "typed (check_body_length fd b)"
  "typed (load_task i)" "typed (assignee_of i)" "typed (caller_is_manager_of_task caller task)"
  "typed (caller_manages_parent caller p)" "typed (next_or_illegal st tr)"
  "typed (same_startup task caller)" "typed (require_own_agent caller a)"
  "typed (is_peer_reviewer caller)" "typed (manager_or_assignee caller task tool)"
  "typed (require_task_workdir caller i)" "typed (run_or_fail r)"
  "typed (read_in_workspace env caller path)" "typed (auto_check_gate env caller i path args)"
  unfolding require_str_def check_body_length_def load_task_def assignee_of_def
    caller_is_manager_of_task_def caller_manages_parent_def next_or_illegal_def same_startup_def
    require_own_agent_def startup_of_agent_row_def is_peer_reviewer_def manager_or_assignee_def
    require_task_workdir_def run_or_fail_def read_in_workspace_def auto_check_gate_def Let_def
  by (intro typed)+

lemma typed_notify:
  "0 \<le> tv_review_round task \<and> tv_review_round task < 2 ^ 32 \<Longrightarrow> typed (notify_parent task i path)"
  unfolding notify_parent_def by (intro typed) (simp add: frame_ok_def frames_decode)

lemma typed_more [typed]: "typed (load_proposal caller i tool)" "typed (escalate_task env caller i task x)"
  "typed (bounce_task env caller i task x k a)" "typed (deliver_chat caller i body)"
  "typed (deliver_directive caller i body rid)" "typed (check_directive caller rcv)"
  "typed (move_target caller args)"
  unfolding load_proposal_def escalate_task_def bounce_task_def deliver_chat_def deliver_directive_def
    check_directive_def move_target_def tile_arg_def
  by (intro typed; simp add: frame_simps)+

lemma typed_task_tools [typed]: "typed (handle_move_intent env a args)" "typed (handle_speak env a args)"
  "typed (handle_task_done env a args)" "typed (handle_task_failed a args)"
  "typed (handle_subtask_create env a args)" "typed (handle_task_accept a args)"
  "typed (handle_task_request_changes env a args)" "typed (handle_accept_proposal a args)"
  "typed (handle_reject_proposal a args)" "typed (handle_verify env a args)"
proof -
  show "typed (handle_task_done env a args)"
    unfolding handle_task_done_def Let_def
    by (intro pres_bind [OF typed_helpers(1)] typed_load pres_then typed_notify typed)
  show "typed (handle_task_accept a args)"
    unfolding handle_task_accept_def Let_def
    by (intro pres_bind [OF typed_helpers(1)] pres_bind [OF typed_helpers(5)] typed_load pres_then typed_notify typed)
qed (unfold handle_move_intent_def handle_speak_def handle_task_failed_def
    handle_subtask_create_def handle_task_request_changes_def
    handle_accept_proposal_def handle_reject_proposal_def handle_verify_def Let_def,
  (intro typed; simp add: frame_simps)+)

lemma typed_agent_tools [typed]: "typed (handle_epistemic_append a args k)"
  "typed (handle_ask_peer args)" "typed (handle_observe_world a args)"
  "typed (handle_read_artifact env a args)" "typed (handle_task_set_preference env a args)"
  "typed (handle_task_set_blocking env a args)" "typed (handle_task_steal env a args)"
  "typed (handle_self_review env a args)" "typed (handle_run_tests env a args)"
  "typed (handle_lint_artifact env a args)" "typed (handle_read_artifact_diff env a args)"
  unfolding handle_epistemic_append_def handle_ask_peer_def handle_observe_world_def
    handle_read_artifact_def handle_task_set_preference_def handle_task_set_blocking_def
    handle_task_steal_def handle_self_review_def handle_run_tests_def handle_lint_artifact_def
    handle_read_artifact_diff_def Let_def
  by (intro typed)+

end

section \<open>Skills, the dispatchers and the tick\<close>

context bus_invariant begin

lemma typed_sqlK [typed]: "typed m \<Longrightarrow> typed (sqlK env m)" "typed m \<Longrightarrow> typed (sqlC env m)"
  unfolding sqlK_def sqlC_def by (intro typed; assumption)+

lemma typed_skill_rows [typed]: "typed (append_revision env i c a)" "typed (set_content env i c)"
  "typed (insert_skill env r)" "typed (insert_file env x)" "typed (require_skill env sid i)"
  "typed (require_agent env sid i)"
  unfolding append_revision_def set_content_def insert_skill_def insert_file_def require_skill_def
    require_agent_def owned_by_def Let_def
  by (intro typed)+

lemma typed_skill_ops [typed]: "typed (upsert_with_author env sid n c a)"
  "typed (revert_to_revision env sid i k a)" "typed (list_revisions env sid i)"
  "typed (skills_list env sid)" "typed (attach env sid ag i)" "typed (detach env sid ag i)"
  "typed (skills_delete env sid i)" "typed (set_global env i b)" "typed (upsert_file env sid i n c)"
  "typed (delete_file env sid i n)" "typed (list_with_attachments env sid)"
  unfolding upsert_with_author_def revert_to_revision_def list_revisions_def skills_list_def attach_def
    detach_def skills_delete_def set_global_def upsert_file_def delete_file_def
    list_with_attachments_def Let_def
  by (intro typed)+

lemma typed_skill_tools [typed]: "typed (handle_skill_upsert env a args)"
  "typed (handle_skill_list env a args)" "typed (handle_skill_attach env a args)"
  "typed (handle_skill_detach env a args)" "typed (handle_skill_delete env a args)"
  "typed (handle_skill_file_upsert env a args)" "typed (handle_skill_file_delete env a args)"
  "typed (handle_skill_list_revisions env a args)" "typed (handle_skill_revert env a args)"
  unfolding handle_skill_upsert_def handle_skill_list_def handle_skill_attach_def
    handle_skill_detach_def handle_skill_delete_def handle_skill_file_upsert_def
    handle_skill_file_delete_def handle_skill_list_revisions_def handle_skill_revert_def
    skill_changed_def Let_def
  by (intro typed)+

lemma typed_error [typed]: "(\<And>c m. typed (k1 c m)) \<Longrightarrow> (\<And>q. typed (k2 q)) \<Longrightarrow> (\<And>p. typed (k3 p)) \<Longrightarrow>
    typed (case x of HErr c m \<Rightarrow> k1 c m | HSql q \<Rightarrow> k2 q | HPanic p \<Rightarrow> k3 p)"
  by (cases x) simp_all

lemma typed_mcp [typed]: "typed (mcp_dispatch env i msg)"
proof -
  have "typed (run_tool env tool a args)" for tool a args
    unfolding run_tool_def by (intro typed)
  then show ?thesis unfolding mcp_dispatch_def Let_def by (intro typed)
qed

lemma typed_threshold [typed]: "frame_ok j \<Longrightarrow> typed (send_startup j sid)"
  "typed (record_threshold_event env sid t x y)"
  unfolding send_startup_def record_threshold_event_def by (intro typed; assumption)+

lemma typed_report [typed]: "typed (handle_report_budget env i x y m t c)"
proof -
  have "typed (report_variance env sid t c)" for sid
    unfolding report_variance_def by (auto split: option.split sum.split intro!: typed)
  moreover have "typed (warn_startup sid x (f64_as_u32 y) :: (sys, 'e, nat) sem)"
      "typed (warn_startup sid x 0 :: (sys, 'e, nat) sem)" "typed (pause_startup sid :: (sys, 'e, nat) sem)" for sid x y
    unfolding warn_startup_def pause_startup_def
    by (intro typed; use f64_as_u32_range [of y] in \<open>simp add: frame_ok_def frames_decode\<close>)+
  then have "typed (act_on_threshold env sid x y th)" for sid x y th
    unfolding act_on_threshold_def by (auto split: threshold.split intro!: typed)
  moreover have "typed (apply_report env sid a t m n n' c)" for sid a n n'
    unfolding apply_report_def record_budget_event_def Let_def by (intro typed)
  ultimately show ?thesis unfolding handle_report_budget_def by (intro typed)
qed

lemma typed_worker [typed]: "typed (worker_dispatch env dec i msg)"
proof -
  have "typed (handle_worker_move env i room t)" for room t
    unfolding handle_worker_move_def by (intro typed; simp add: frame_ok_def frames_decode)
  then show ?thesis
    unfolding worker_dispatch_def by (auto split: sum.split worker_inbound.split intro!: typed)
qed

lemma typed_with_lock [typed]: "typed act \<Longrightarrow> typed (with_action_lock env idn k act)"
  unfolding with_action_lock_def by (intro typed)

lemma typed_operator_parts [typed]: "typed (require_role idn r)" "typed (fetch_task env i)"
  "typed (current_status t)" "typed (rows_hit env h f)" "typed (insert_operator row)"
  "typed (console_skill_changed sid k i a)"
  unfolding require_role_def fetch_task_def current_status_def rows_hit_def insert_operator_def
    console_skill_changed_def
  by (intro typed)+

lemma typed_forced [typed]: "typed (apply_status_only_transition env i tr k)"
  unfolding apply_status_only_transition_def by (intro typed)

lemma typed_operator_tools [typed]: "typed (operator_move t)" "typed (operator_possess sid)"
  "typed operator_unpossess" "typed (operator_directive env idn rid body)"
  "typed (operator_accept_proposal env idn i a room)" "typed (operator_reject_proposal env idn i reason)"
  "typed (operator_force_accept env idn i)" "typed (operator_force_fail env idn i note)"
  unfolding operator_move_def operator_possess_def operator_unpossess_def operator_directive_def
    operator_accept_proposal_def operator_reject_proposal_def operator_force_accept_def
    operator_force_fail_def forced_transition_def
  by (intro typed; simp add: frame_simps)+

lemma typed_console_skills [typed]: "typed (console_skill_attach env idn sid a k)"
  "typed (console_skill_detach env idn sid a k)" "typed (skill_upsert_operator env idn sid n t)"
  "typed (skill_set_global env idn k g)" "typed (skill_delete_operator env idn sid k)"
  "typed (skill_list_revisions_operator env sid k)" "typed (skill_revert_operator env idn sid k n')"
  unfolding console_skill_attach_def console_skill_detach_def skill_upsert_operator_def
    skill_set_global_def skill_delete_operator_def skill_list_revisions_operator_def
    skill_revert_operator_def
  by (intro typed)+

lemma typed_admin [typed]: "typed (operator_list env idn)" "typed (operator_create env idn name role)"
  "typed (operator_revoke env idn i)" "typed (operator_set_role env idn i role)"
  "typed (agent_set_peer_reviewer env idn a b)"
  "typed (startup_set_auto_steal env idn sid e n)" "typed (startup_set_auto_recovery env idn sid e n)"
  unfolding operator_list_def operator_create_def operator_revoke_def operator_set_role_def
    agent_set_peer_reviewer_def startup_set_auto_steal_def startup_set_auto_recovery_def Let_def
  by (intro typed)+

lemma typed_arm: "typed (console_arm env idn m)"
  by (cases m) (simp_all, (intro typed)+)

lemma typed_console [typed]: "typed (console_dispatch env dec idn msg)"
proof -
  have "typed m \<Longrightarrow> typed (replyE m)" for m :: "json console_op"
    by (simp add: leads_def wpE_def replyE_def split: prod.splits sum.splits)
  then show ?thesis unfolding console_dispatch_def by (auto split: sum.split intro!: typed typed_arm)
qed

lemma typed_tick: "typed (tick env spw)"
  unfolding tick_def dispatch_one_def deadline_scan_def auto_steal_pass_def auto_recovery_pass_def
    steal_one_def recover_one_def blocking_gate_def room_gate_def budget_gate_def live_gate_def
    assign_task_def start_work_def hand_over_def when_gate_def role_of_def Let_def
  by (intro typed; simp add: frame_ok_def assigned_decodes)

lemma proximity_ok: "frame_ok (proximity_json room ms)"
  by (simp add: frame_ok_def proximity_frame_def proximity_json_def text_tag_def fld_def u8_def)

lemma typed_do_tick [typed]: "typed (do_tick env spw)"
proof -
  have "typed (scheduler_pass env spw)"
    using typed_tick [of env spw]
    by (auto simp: leads_def wpE_def scheduler_pass_def split: prod.splits sum.splits handler_error.splits)
  moreover have "typed (move_avatars :: (sys, panic, move_event list) sem)"
    by (simp add: leads_def wpE_def move_avatars_def split: prod.split)
  moreover have "typed (announce_arrival e :: (sys, panic, unit) sem)" for e
    by (cases e) (simp add: typed frame_ok_def frames_decode)
  moreover have "typed (compute_and_emit :: (sys, panic, unit) sem)"
    unfolding compute_and_emit_def by (intro typed proximity_ok)
  ultimately show ?thesis
    unfolding do_tick_def by (intro typed) (simp_all add: refresh_health_def)
qed

lemma typed_cmd:
  assumes "\<And>i tx. k = RegisterWorker i tx \<Longrightarrow> admits i tx"
  shows "typed (loop_cmd env spw dec k)"
proof (cases k)
  case (RegisterWorker i tx)
  with assms have "typed (register_worker i tx :: (sys, panic, unit) sem)"
    by (simp add: register_worker_def leads_def wp opened)
  with RegisterWorker show ?thesis by (auto intro: typed)
next
  case (UnregisterWorker i)
  have "typed (unregister_worker i :: (sys, panic, unit) sem)"
    by (simp add: unregister_worker_def leads_def wp closed)
  with UnregisterWorker show ?thesis by (auto intro: typed)
qed (simp_all add: touch_def, (intro typed; simp)+)

lemma typed_run:
  "(\<And>i tx. RegisterWorker i tx \<in> set cs \<Longrightarrow> admits i tx) \<Longrightarrow> typed (run_loop env spw dec cs)"
proof (induction cs)
  case (Cons k cs)
  then have "typed (loop_cmd env spw dec k)" "typed (run_loop env spw dec cs)" by (auto intro!: typed_cmd)
  then show ?case by (auto intro!: typed split: outcome.split)
qed (simp add: typed)

end

section \<open>The loop\<close>

text \<open>A connection registers with the channel it has just made: what is queued on it is of the protocol too.\<close>

fun fresh_channel :: "cmd \<Rightarrow> bool" where
  "fresh_channel (RegisterWorker i tx) = (ch_queue tx = [])"
| "fresh_channel _ = True"

lemma bus_send_in:
  assumes "(k, c') \<in> set (bus_send i j b)"
  obtains c where "(k, c) \<in> set b" and "c' = c \<or> c' = snd (try_send j c)"
  using assms by (auto simp: bus_send_def amap_upd_def split: if_splits)

lemma queue_grows: "set (ch_queue (snd (try_send j c))) \<subseteq> insert j (set (ch_queue c))"
  by (auto simp: try_send_def)

definition all_ok :: "out_bus \<Rightarrow> bool" where
  "all_ok b \<longleftrightarrow> (\<forall>(i, c) \<in> set b. \<forall>j \<in> set (ch_queue c). frame_ok j)"

interpretation frames: bus_invariant all_ok "\<lambda>i tx. ch_queue tx = []"
proof
  show "all_ok (bus_send i j b)" if "all_ok b" "frame_ok j" for b j i
    using that queue_grows unfolding all_ok_def by (fastforce elim: bus_send_in)
qed (auto simp: all_ok_def AList.delete_eq dest!: alist_update_in)

text \<open>An agent without a channel gets none unless it connects.\<close>

interpretation gone: bus_invariant "\<lambda>b. map_of b i = None" "\<lambda>k tx. k \<noteq> i" for i
  by unfold_locales (auto simp: bus_send_def map_of_amap_upd delete_conv' update_conv')

text \<open>C10: whatever commands the loop takes, in whatever order, and whatever SQL statements fail, every
  message waiting in a worker's channel is of the worker's message type, with the one exception of the
  proximity tick.\<close>
theorem workers_receive_protocol_frames:
  assumes "\<And>k. k \<in> set cs \<Longrightarrow> fresh_channel k" and "bus_ok s"
    and "run_loop env spw dec cs s = (r, t)" and "map_of (out_bus t) i = Some c" and "j \<in> set (ch_queue c)"
  shows "(\<exists>m. decode_outbound j = Some m) \<or> (decode_outbound j = None \<and> proximity_frame j)"
proof -
  have "bus_ok t"
    using leadsD [OF frames.typed_run, of cs s env spw dec] assms(1-3)
    by (force simp: bus_ok_def all_ok_def dest: wpE_inv)
  then show ?thesis
    using assms(5) map_of_SomeD [OF assms(4)] by (auto simp: bus_ok_def frame_ok_def)
qed

definition sample_directive :: json where
  "sample_directive = JObj [(''type'', JStr ''operator_directive''), (''v'', JInt 1),
     (''to_agent_id'', JStr ''e2''), (''body'', JStr ''go'')]"

definition wire_codecs :: "(json \<Rightarrow> string) \<Rightarrow> decoders" where
  "wire_codecs err = \<lparr> worker_codec = decode_worker err, console_codec = decode_console err \<rparr>"

lemma sample_directive_run: "\<exists>js t j. run_loop sample_env None (wire_codecs err)
    [HandleConsoleMsg sample_directive \<lparr> oi_id = ''o1'', oi_name = ''Ada'', oi_role = RAdmin \<rparr>] sample_sys
    = (Inr js, t) \<and> map_of (out_bus t) ''e2'' = Some \<lparr> ch_queue = [j], ch_is_open = True \<rparr>"
proof -
  have dec: "console_codec (wire_codecs err) sample_directive = Inr (COperatorDirective 1 ''e2'' ''go'')"
    by (simp add: wire_codecs_def decode_console_def console_variant_def sample_directive_def text_tag_def
        fld_def u8_def)
  have msgs: "d_messages sample_db = []" by (simp add: sample_db_def)
  have bus: "out_bus sample_sys = [(''m1'', \<lparr> ch_queue = [], ch_is_open = True \<rparr>),
      (''e2'', \<lparr> ch_queue = [], ch_is_open = True \<rparr>)]" by (simp add: sample_sys_def)
  let ?run = "run_loop sample_env None (wire_codecs err)
    [HandleConsoleMsg sample_directive \<lparr> oi_id = ''o1'', oi_name = ''Ada'', oi_role = RAdmin \<rparr>]"
  have "wpE ?run (\<lambda>js t. \<exists>j. map_of (out_bus t) ''e2'' = Some \<lparr> ch_queue = [j], ch_is_open = True \<rparr>)
      (\<lambda>_ _. False) sample_sys"
    by (simp add: console_dispatch_def dec operator_directive_def wp wp_reply sqlC_def sample_rows
        insert_message_def char_count_def sample_agent_def is_cont_def MAX_BODY_LENGTH_def OUT_BUS_CAP_def
        try_send_def bus_send_def amap_upd_def bus msgs at_least_def)
  from wpE_run [OF this, of "fst (?run sample_sys)" "snd (?run sample_sys)"] show ?thesis
    by (metis prod.collapse)
qed

theorem workers_receive_protocol_frames_witness:
  "\<exists>j. j \<in> set (ch_queue (the (map_of (out_bus (snd (run_loop sample_env None (wire_codecs (\<lambda>_. []))
    [HandleConsoleMsg sample_directive \<lparr> oi_id = ''o1'', oi_name = ''Ada'', oi_role = RAdmin \<rparr>] sample_sys)))
      ''e2''))) \<and> ((\<exists>m. decode_outbound j = Some m) \<or> (decode_outbound j = None \<and> proximity_frame j))"
proof -
  obtain js t j where run: "run_loop sample_env None (wire_codecs (\<lambda>_. []))
      [HandleConsoleMsg sample_directive \<lparr> oi_id = ''o1'', oi_name = ''Ada'', oi_role = RAdmin \<rparr>] sample_sys = (Inr js, t)"
    "map_of (out_bus t) ''e2'' = Some \<lparr> ch_queue = [j], ch_is_open = True \<rparr>"
    using sample_directive_run by blast
  have "bus_ok sample_sys" by (simp add: bus_ok_def sample_sys_def)
  from workers_receive_protocol_frames [OF _ this run, of j] run show ?thesis by auto
qed

text \<open>C16: the answer to an MCP call is of the worker's message type and echoes the call: whatever the tool
  and its arguments, the message handed back decodes to a reply or an error that carries the correlation
  identifier of the call.\<close>
theorem mcp_answers_echo_the_call:
  assumes "decode_worker err msg = Inr (WMcpCall v cid tool args)"
    and "worker_dispatch env dec i msg s = (Inr answer, t)"
  shows "(\<exists>res. decode_outbound answer = Some (OMcpReply 1 cid res)) \<or>
    (\<exists>code m. decode_outbound answer = Some (OMcpError 1 cid code m))"
proof -
  have tag: "jget ''type'' msg = Some (JStr ''mcp_call'')" and cid: "get_str ''corr_id'' msg = Some cid"
    using assms(1)
    by (auto simp: decode_worker_def worker_variant_def text_tag_def fld_def get_str_def as_str_Some
        bind_eq_Some_conv split: if_splits option.splits)
  have dec: "decode_outbound (mcp_reply c r) = Some (OMcpReply 1 c r)"
    "decode_outbound (mcp_err c k m) = Some (OMcpError 1 c k m)" for c r k m
    by (simp_all add: frame_simps mcp_reply_def mcp_err_def)
  let ?Q = "\<lambda>a. (\<exists>res. decode_outbound a = Some (OMcpReply 1 cid res)) \<or>
    (\<exists>code m. decode_outbound a = Some (OMcpError 1 cid code m))"
  let ?answer = "\<lambda>r. case r of Inr v \<Rightarrow> ret (mcp_reply cid v)
      | Inl (HErr code message) \<Rightarrow> ret (mcp_err cid code message)
      | Inl (HSql e) \<Rightarrow> ret (mcp_err cid ''sql'' (e_sql_text env e)) | Inl (HPanic p) \<Rightarrow> throw p"
  have answer: "wpE (?answer r) (\<lambda>a _. ?Q a) (\<lambda>_ _. True) u" for r u
    by (auto simp: wp dec split: sum.split handler_error.split)
  have "wpE (bindE (tryE (run_tool env tl c a)) ?answer) (\<lambda>a _. ?Q a) (\<lambda>_ _. True) u" for tl c a u
    unfolding wp_bind wp_try by (rule wp_mono [OF wp_true]) (rule answer)+
  then have "wpE (mcp_dispatch env i msg) (\<lambda>a _. ?Q a) (\<lambda>_ _. True) s"
    unfolding mcp_dispatch_def Let_def
    by (simp add: wp_bind [of "asksE f" for f] wp_asks wp_option wp_ret dec cid str_or_def split: option.split)
  with assms(2) tag show ?thesis
    by (auto simp: worker_dispatch_def dest: wpE_Inr)
qed

theorem mcp_answers_echo_the_call_witness:
  "\<exists>answer. fst (worker_dispatch sample_env (decode_worker (\<lambda>_. [])) ''zz''
      (JObj [(''type'', JStr ''mcp_call''), (''v'', JInt 1), (''corr_id'', JStr ''c7''), (''tool'', JStr ''speak''),
        (''args'', JNull)]) sample_sys) = Inr answer \<and>
    ((\<exists>res. decode_outbound answer = Some (OMcpReply 1 ''c7'' res)) \<or>
     (\<exists>code m. decode_outbound answer = Some (OMcpError 1 ''c7'' code m)))"
proof -
  let ?msg = "JObj [(''type'', JStr ''mcp_call''), (''v'', JInt 1), (''corr_id'', JStr ''c7''),
    (''tool'', JStr ''speak''), (''args'', JNull)]"
  have dec: "decode_worker (\<lambda>_. []) ?msg = Inr (WMcpCall 1 ''c7'' ''speak'' JNull)"
    by (simp add: decode_worker_def worker_variant_def text_tag_def fld_def u8_def)
  have absent: "map_of (avatars sample_sys) ''zz'' = None" by (simp add: sample_sys_def)
  have "worker_dispatch sample_env (decode_worker (\<lambda>_. [])) ''zz'' ?msg sample_sys =
      (Inr (mcp_err ''c7'' ''unknown_agent'' ''agent not found in world''), sample_sys)"
    by (simp add: worker_dispatch_def mcp_dispatch_def bindE_def asksE_def ret_def get_str_def str_or_def
        Let_def absent)
  from mcp_answers_echo_the_call [OF dec this] this show ?thesis by simp
qed

end
