(* ===== verification/Counters.thy ===== *)
theory Counters
  imports CmdWorker Upkeep
begin

text \<open>
  The two process-wide counters of \<open>metrics.rs\<close> and their increments in \<open>mcp_dispatch::dispatch\<close>: every
  call of a known agent, and every one of them that ends in an error envelope; and the page that shows them.
\<close>

record counters =
  mcp_calls_total :: "64 word"
  mcp_errors_total :: "64 word"

definition COUNTERS :: counters where
  "COUNTERS = \<lparr> mcp_calls_total = 0, mcp_errors_total = 0 \<rparr>"

definition inc_call :: "counters \<Rightarrow> counters" where
  "inc_call c = c\<lparr>mcp_calls_total := mcp_calls_total c + 1\<rparr>"

definition inc_error :: "counters \<Rightarrow> counters" where
  "inc_error c = c\<lparr>mcp_errors_total := mcp_errors_total c + 1\<rparr>"

text \<open>The dispatcher with its counters beside the world.\<close>

definition counted_dispatch :: "env \<Rightarrow> ident \<Rightarrow> json \<Rightarrow> (counters \<times> sys, panic, json) sem" where
  "counted_dispatch env agent_id msg = (\<lambda>(c, s).
     let tool = str_or [] (get_str ''tool'' msg);
         args = (case jget ''args'' msg of None \<Rightarrow> JNull | Some a \<Rightarrow> a);
         corr_id = str_or [] (get_str ''corr_id'' msg) in
     case map_of (avatars s) agent_id of
       None \<Rightarrow> (Inr (mcp_err corr_id ''unknown_agent'' ''agent not found in world''), (c, s))
     | Some caller \<Rightarrow> (case run_tool env tool caller args s of
          (Inr v, t) \<Rightarrow> (Inr (mcp_reply corr_id v), (inc_call c, t))
        | (Inl (HErr code message), t) \<Rightarrow> (Inr (mcp_err corr_id code message), (inc_error (inc_call c), t))
        | (Inl (HSql e), t) \<Rightarrow> (Inr (mcp_err corr_id ''sql'' (e_sql_text env e)), (inc_error (inc_call c), t))
        | (Inl (HPanic p), t) \<Rightarrow> (Inl p, (inc_call c, t))))"

definition is_error :: "json \<Rightarrow> bool" where
  "is_error j \<longleftrightarrow> jget ''type'' j = Some (JStr ''mcp_error'')"

text \<open>The counters only watch: without them the dispatcher answers and acts the same.\<close>

lemma counting_only_watches:
  "map_prod id snd (counted_dispatch env i msg (c, s)) = mcp_dispatch env i msg s"
  by (auto simp: counted_dispatch_def mcp_dispatch_def Let_def bindE_def asksE_def tryE_def ret_def throw_def
      split: option.split prod.split sum.split handler_error.split)

lemma one_dispatch_counted:
  assumes "counted_dispatch env i msg (c, s) = (r, (c', t))"
  shows "mcp_calls_total c' = mcp_calls_total c + of_bool (map_of (avatars s) i \<noteq> None)"
    and "mcp_errors_total c' = mcp_errors_total c +
      of_bool (map_of (avatars s) i \<noteq> None \<and> (\<exists>j. r = Inr j \<and> is_error j))"
  using assms
  by (auto simp: counted_dispatch_def Let_def inc_call_def inc_error_def is_error_def mcp_err_def mcp_reply_def
      split: option.splits prod.splits sum.splits handler_error.splits)

text \<open>A sequence of calls: the answers with the callers that were known, until a panic.\<close>

fun dispatch_all :: "env \<Rightarrow> (ident \<times> json) list \<Rightarrow> counters \<times> sys \<Rightarrow> (bool \<times> json) list \<times> counters" where
  "dispatch_all env [] (c, s) = ([], c)"
| "dispatch_all env ((i, msg) # calls) (c, s) = (case counted_dispatch env i msg (c, s) of
     (Inl p, (c', t)) \<Rightarrow> ([], c')
   | (Inr j, (c', t)) \<Rightarrow> (case dispatch_all env calls (c', t) of
        (js, c'') \<Rightarrow> ((map_of (avatars s) i \<noteq> None, j) # js, c'')))"

text \<open>
  The page is exact: when no call has panicked, the first counter is the number of calls by known agents
  and the second the number of error envelopes among their answers, both modulo \<open>2 ^ 64\<close>.
\<close>

lemma counters_are_exact:
  assumes "dispatch_all env calls (c, s) = (answers, c')" and "length answers = length calls"
  shows "mcp_calls_total c' = mcp_calls_total c + of_nat (length (filter fst answers)) \<and>
    mcp_errors_total c' = mcp_errors_total c + of_nat (length (filter (\<lambda>(k, j). k \<and> is_error j) answers))"
  using assms
proof (induction calls arbitrary: c s answers)
  case Nil
  then show ?case by simp
next
  case (Cons call calls)
  obtain i msg where call: "call = (i, msg)" by (cases call)
  obtain r c1 t where d: "counted_dispatch env i msg (c, s) = (r, (c1, t))" by (metis surj_pair)
  from Cons.prems d call obtain j where r: "r = Inr j" by (cases r) auto
  obtain js where rest: "dispatch_all env calls (c1, t) = (js, c')"
    and ans: "answers = (map_of (avatars s) i \<noteq> None, j) # js"
    using Cons.prems(1) by (auto simp: call d r split: prod.splits)
  with Cons.IH [OF rest] Cons.prems(2) one_dispatch_counted [OF d] r show ?case by (auto simp: algebra_simps)
qed

section \<open>The page\<close>

definition metrics_handler :: "(real \<Rightarrow> string) \<Rightarrow> (counters \<times> sys, 'e, string) sem" where
  "metrics_handler f64 = (\<lambda>(c, s).
     case render_metrics f64 (unat (mcp_calls_total c)) (unat (mcp_errors_total c)) s of
       (r, t) \<Rightarrow> (r, (c, t)))"

text \<open>
  The page opens with the counters: after fewer than \<open>2 ^ 64\<close> calls since the process started, and none that
  panicked, its figures are the true numbers of calls and of errors.
\<close>

lemma page_is_exact:
  assumes "dispatch_all env calls (COUNTERS, s) = (answers, c)" and "length answers = length calls"
    and "length calls < 2 ^ 64"
  shows "\<exists>rest t'. (metrics_handler f64 :: (counters \<times> sys, 'e, string) sem) (c, t) = (Inr (concat (map (\<lambda>l. l @ [NEWLINE])
      (call_lines (length (filter fst answers)) (length (filter (\<lambda>(k, j). k \<and> is_error j) answers)))) @ rest), (c, t'))"
proof -
  let ?n = "length (filter fst answers)" and ?e = "length (filter (\<lambda>(k, j). k \<and> is_error j) answers)"
  have "?n < 2 ^ 64" "?e < 2 ^ 64"
    using assms(2,3) length_filter_le [of fst answers] length_filter_le [of "\<lambda>(k, j). k \<and> is_error j" answers]
    by linarith+
  then have "unat (mcp_calls_total c) = ?n" "unat (mcp_errors_total c) = ?e"
    using counters_are_exact [OF assms(1,2)] by (simp_all add: COUNTERS_def unsigned_of_nat take_bit_nat_eq_self)
  moreover have "\<exists>rest t'. (render_metrics f64 ?n ?e :: (sys, 'e, string) sem) t =
      (Inr (concat (map (\<lambda>l. l @ [NEWLINE]) (call_lines ?n ?e)) @ rest), t')"
  proof -
    have "wpE (render_metrics f64 ?n ?e :: (sys, 'e, string) sem) (\<lambda>r _. \<exists>rest. r = concat (map (\<lambda>l. l @ [NEWLINE]) (call_lines ?n ?e)) @ rest)
        (\<lambda>_ _. False) t"
      by (simp add: render_metrics_def wp)
    then show ?thesis by (auto simp: wpE_def split: prod.splits sum.splits)
  qed
  ultimately show ?thesis by (auto simp: metrics_handler_def)
qed

end
