(* ===== verification/Process.thy ===== *)
theory Process
  imports ServerInv Upkeep ServerSample "HOL-Library.AList"
begin

text \<open>
  The process: the configuration file (\<open>config.rs\<close>), the opening of the database (\<open>storage.rs\<close>), the boot sequence of \<open>main.rs\<close>, the background tasks
  that \<open>main\<close>, \<open>loop_::spawn_with_layout\<close> and \<open>backup::spawn_backup_tick\<close> start, and the life of an
  installation: the server runs, stops or crashes at any moment, and is booted again on the database it left.
\<close>

section \<open>Configuration\<close>

record world_cfg =
  cf_tick_hz :: "32 word"
  cf_position_snapshot_every_ticks :: "32 word"

record task_cfg =
  cf_max_review_rounds :: "32 word"
  cf_max_llm_turns_per_task :: "32 word"

record epistemic_cfg =
  cf_max_hypotheses_per_task :: "32 word"
  cf_max_tests_per_hypothesis :: "32 word"
  cf_non_trivial_description_token_threshold :: "32 word"

record budget_cfg =
  cf_warn_pct :: "32 word"
  cf_no_new_task_pct :: "32 word"
  cf_pause_all_pct :: "32 word"

record supervisor_cfg =
  cf_worker_respawn_backoff_seconds :: "64 word list"
  cf_worker_respawn_max_attempts :: "32 word"

record possess_cfg =
  cf_operator_keepalive_timeout_seconds :: "64 word"

record kanban_cfg =
  cf_stuck_warn_minutes :: "32 word"
  cf_stuck_alert_minutes :: "32 word"

record config =
  cf_world :: world_cfg
  cf_task :: task_cfg
  cf_epistemic :: epistemic_cfg
  cf_budget :: budget_cfg
  cf_supervisor :: supervisor_cfg
  cf_possess :: possess_cfg
  cf_kanban :: kanban_cfg

text \<open>\<open>read\<close> is \<open>read_to_string\<close> and \<open>toml\<close> the deserializer of the crate; \<open>?\<close> hands an error on.\<close>

definition load_from :: "(string \<Rightarrow> string + string) \<Rightarrow> (string \<Rightarrow> string + config) \<Rightarrow> string \<Rightarrow> string + config" where
  "load_from read toml path = (case read path of Inl e \<Rightarrow> Inl e | Inr s \<Rightarrow> toml s)"

section \<open>Storage\<close>

text \<open>
  The options a connection is made with, as the driver parses them from the path; a pragma set again
  replaces the earlier one.
\<close>

record connect_options =
  so_file :: string
  so_create_if_missing :: bool
  so_pragmas :: "(string \<times> string) list"
  so_busy_timeout_ms :: nat

definition pragma :: "string \<Rightarrow> string \<Rightarrow> connect_options \<Rightarrow> connect_options" where
  "pragma k v c = c\<lparr>so_pragmas := AList.update k v (so_pragmas c)\<rparr>"

definition storage_options :: "connect_options \<Rightarrow> connect_options" where
  "storage_options c =
     (pragma ''foreign_keys'' ''ON'' (pragma ''synchronous'' ''NORMAL''
       (pragma ''journal_mode'' ''WAL'' (c\<lparr>so_create_if_missing := True\<rparr>))))\<lparr>so_busy_timeout_ms := 5000\<rparr>"

lemma foreign_keys_are_on: "map_of (so_pragmas (storage_options c)) ''foreign_keys'' = Some ''ON''"
  by (simp add: storage_options_def pragma_def update_conv')

section \<open>Boot\<close>

record app_state =
  ap_server :: server
  ap_max_review_rounds :: int
  ap_gc :: "gc_config option"
  ap_backup :: "backup_config option"

text \<open>
  What the process finds at start: the configuration text, what the driver makes of the database's path,
  the connection it opens and the migrations it runs, the environment variables, the town's map and whether the address can be bound;
  and the clock, the supply of identifiers and the statements that will fail.
\<close>

record machine =
  mc_read :: "string \<Rightarrow> string + string"
  mc_toml :: "string \<Rightarrow> string + config"
  mc_from_str :: "string \<Rightarrow> string + connect_options"
  mc_connect :: "connect_options \<Rightarrow> string + database"
  mc_migrate :: "database \<Rightarrow> string + database"
  mc_vars :: "(string \<times> string) list"
  mc_map_json :: string
  mc_bind :: "string \<Rightarrow> string option"
  mc_now_ms :: int
  mc_uuid_ctr :: nat
  mc_faults :: "bool list"

definition storage_open :: "machine \<Rightarrow> string \<Rightarrow> string + database" where
  "storage_open m path = (case mc_from_str m path of
      Inl e \<Rightarrow> Inl e
    | Inr c \<Rightarrow> (case mc_connect m (storage_options c) of Inl e \<Rightarrow> Inl e | Inr d \<Rightarrow> mc_migrate m d))"

definition opened :: "machine \<Rightarrow> database \<Rightarrow> sys" where
  "opened m d = \<lparr> tick_seq = 0, catalog = [], avatars = [], paths = [], layout = default_town, out_bus = [],
     db = d, frames = [], now_ms = mc_now_ms m, uuid_ctr = mc_uuid_ctr m, faults = mc_faults m \<rparr>"

definition fresh_server :: "machine \<Rightarrow> sys \<Rightarrow> server" where
  "fresh_server m s = \<lparr> sr_sup = new_supervisor (restart s), sr_vars = mc_vars m, sr_queue = [],
     sr_up = True, sr_stuck = False, sr_presence = [], sr_catalog = [] \<rparr>"

text \<open>The probe fills the catalogue the API serves and sends the same to the loop; the result of the send is dropped.\<close>

definition refresh_catalog :: "host \<Rightarrow> (server, 'e, unit) sem" where
  "refresh_catalog h =
     bindE (asksE (new_catalog h)) (\<lambda>m.
     thenE (modifyE (\<lambda>s. s\<lparr>sr_catalog := m\<rparr>))
       (ignoreE (send_cmd (BackendCatalogUpdated m) :: (server, unit, bool) sem)))"

definition boot :: "host \<Rightarrow> machine \<Rightarrow> string + app_state" where
  "boot h m = (case load_from (mc_read m) (mc_toml m) ''cliptown.toml'' of
      Inl e \<Rightarrow> Inl e
    | Inr cfg \<Rightarrow>
        let var = map_of (mc_vars m) in
        (case storage_open m (str_or ''cliptown.db'' (var ''CLIPTOWN_DB'')) of
          Inl e \<Rightarrow> Inl e
        | Inr d \<Rightarrow> (case seed_if_empty (mc_map_json m) (opened m d) of
            (Inl e, _) \<Rightarrow> Inl (e_sql_text (ho_env h) e)
          | (Inr _, s) \<Rightarrow>
              (case mc_bind m (str_or ''127.0.0.1:8080'' (var ''CLIPTOWN_ADDR'')) of
                Some e \<Rightarrow> Inl e
              | None \<Rightarrow> Inr \<lparr>
                  ap_server = snd ((refresh_catalog h :: (server, unit, unit) sem) (fresh_server m s)),
                  ap_max_review_rounds = uint (cf_max_review_rounds (cf_task cfg)),
                  ap_gc = gc_from_env var,
                  ap_backup = backup_from_env var \<rparr>))))"

section \<open>Background tasks\<close>

text \<open>Every 30 seconds: operators not heard of are dropped, and the others told when there were any.\<close>

definition presence_gc_tick :: "(server, 'e, unit) sem" where
  "presence_gc_tick = (\<lambda>s. case gc (sr_presence s) (now_secs (world s)) of
     (dropped, reg) \<Rightarrow> (if 0 < dropped then announce_presence else ret ()) (s\<lparr>sr_presence := reg\<rparr>))"

text \<open>Every second: whether the ticker goes on.\<close>

definition timer_tick :: "(server, 'e, bool) sem" where
  "timer_tick = send_cmd Tick"

text \<open>
  Every \<open>interval\<close>, where the collection is enabled: a pass whose failure is only logged. The result is what
  is left on the disk.
\<close>

definition gc_turn :: "remover \<Rightarrow> gc_config \<Rightarrow> fs_path list \<Rightarrow> (server, 'e, fs_path list) sem" where
  "gc_turn rm cfg disk =
     bindE (tryE (on_world (run_pass rm (path_components (gc_root cfg)) (gc_max_age_secs cfg) disk))) (\<lambda>r.
     ret (case r of Inl e \<Rightarrow> disk | Inr (reaped, left) \<Rightarrow> left))"

definition snapshot_filename :: "string \<Rightarrow> string \<Rightarrow> string" where
  "snapshot_filename dir stamp =
     (if ends_with dir ''/'' then dir else dir @ ''/'') @ snapshot_name stamp"

text \<open>
  One turn of the backup task: a snapshot, and only after it the pruning of what the directory then lists.
\<close>

definition backup_turn :: "backup_config \<Rightarrow> bool \<Rightarrow> (string \<Rightarrow> sql_error option) \<Rightarrow> (string \<Rightarrow> bool) \<Rightarrow> listing \<Rightarrow>
    string \<Rightarrow> (backup_error + string) \<times> (backup_error + nat \<times> string list) option" where
  "backup_turn cfg mkdir exec rm entries stamp =
     (let dest = snapshot_filename (bk_dir cfg) stamp in
      case snapshot_to mkdir exec dest (Some dest) of
        Inl e \<Rightarrow> (Inl e, None)
      | Inr q \<Rightarrow> (Inr q, Some (prune rm entries (nat (bk_keep cfg)))))"

section \<open>The life of an installation\<close>

text \<open>
  A machine on which the database is the one the server left behind, whenever it stopped. A crash
  between two statements of a handler is a run of the handler in which all later statements fail.
\<close>

definition same_disk :: "machine \<Rightarrow> server \<Rightarrow> bool" where
  "same_disk m s \<longleftrightarrow> (\<forall>path d. storage_open m path = Inr d \<longrightarrow> d = db (world s))"

inductive life_step :: "host \<Rightarrow> server \<Rightarrow> server \<Rightarrow> bool" for h where
  runs: "server_step h s t \<Longrightarrow> life_step h s t"
| refreshes: "life_step h s (snd ((refresh_catalog h :: (server, unit, unit) sem) s))"
| ticks: "life_step h s (snd ((timer_tick :: (server, unit, bool) sem) s))"
| forgets: "life_step h s (snd ((presence_gc_tick :: (server, unit, unit) sem) s))"
| collects: "life_step h s (snd ((gc_turn rm cfg disk :: (server, unit, fs_path list) sem) s))"
| reboots: "same_disk m s \<Longrightarrow> boot h m = Inr p \<Longrightarrow> life_step h s (ap_server p)"

inductive_cases life_stepE: "life_step h s t"

section \<open>Every life is sound\<close>

lemma sound_seed [sound]: "sound c (seed_if_empty map_json)"
proof -
  have ins: "pres (grown d s) (sql_checked chk f)" if "\<And>s. same_core (db s) (f s)" for d s chk f
    using that by (auto simp: leads_def wp elim: grown_same split: option.split)
  have rows: "same_core d (d\<lparr>d_towns := ts\<rparr>)" "same_core d (d\<lparr>d_rooms := rs\<rparr>)" "same_core d (d\<lparr>d_doors := ds\<rparr>)" for d ts rs ds
    by (simp_all add: same_core_def)
  show ?thesis
    unfolding seed_if_empty_def insert_town_def insert_room_def insert_door_def
    by (intro sound pres_then pres_for pres_cases ins rows)
qed

lemma serves_refresh [serves]: "serves c (refresh_catalog h)"
proof -
  have cat: "serves c (modifyE (\<lambda>s. s\<lparr>sr_catalog := m\<rparr>))" for m
    by (rule serves_modify) (simp add: world_ops.G_refl)
  show ?thesis unfolding refresh_catalog_def by (intro serves cat) simp
qed

lemma serves_presence_gc: "serves c (presence_gc_tick :: (server, 'e, unit) sem)"
proof -
  have reg: "server_goes c s (s\<lparr>sr_presence := reg\<rparr>)" for s reg
    by (rule goes_world) (simp_all add: world_ops.G_refl)
  have "server_goes c s (snd ((announce_presence :: (server, 'e, unit) sem) (s\<lparr>sr_presence := reg\<rparr>)))" for s reg
    by (rule server_ops.G_trans [OF reg steps_inD [OF serves_presence(1)]])
  with reg show ?thesis
    by (simp add: steps_in_def presence_gc_tick_def wp_snd ret_def split: prod.split)
qed

lemma boot_starts:
  assumes "boot h m = Inr p"
  obtains path d s where "storage_open m path = Inr d" "seed_if_empty (mc_map_json m) (opened m d) = (Inr (), s)"
    "ap_server p = snd ((refresh_catalog h :: (server, unit, unit) sem) (fresh_server m s))"
  using assms by (auto simp: boot_def Let_def split: sum.splits prod.splits option.splits)

text \<open>What the tables promise without the world in memory: nobody on record is called like the operator's avatar.\<close>

definition disk_ok :: "database \<Rightarrow> database \<Rightarrow> bool" where
  "disk_ok c d \<longleftrightarrow> db_inv d \<and> startup_of_agent d ''__operator__'' = None \<and> tasks_evolve sched_move c d"

lemma disk_of_world: "world_inv c s \<Longrightarrow> disk_ok c (db s)"
  by (simp add: disk_ok_def world_inv_def avatars_ok_def)

lemma world_of_disk: "avatars s = [] \<Longrightarrow> disk_ok c (db s) \<Longrightarrow> world_inv c s"
  by (simp add: disk_ok_def world_inv_def avatars_ok_def avatar_ids_def)

lemma boot_inv:
  assumes "boot h m = Inr p"
  obtains path d where "storage_open m path = Inr d" "\<forall>c. disk_ok c d \<longrightarrow> server_inv c (ap_server p)"
proof -
  obtain path d s where b: "storage_open m path = Inr d" "seed_if_empty (mc_map_json m) (opened m d) = (Inr (), s)"
    "ap_server p = snd ((refresh_catalog h :: (server, unit, unit) sem) (fresh_server m s))"
    using boot_starts [OF assms(1)] .
  have "server_inv c (ap_server p)" if "disk_ok c d" for c
  proof -
    have "world_inv c (opened m d)"
      by (rule world_of_disk) (simp_all add: opened_def that)
    with steps_inD [OF sound_seed, of c "opened m d" "mc_map_json m"] b(2) have "world_inv c s"
      by (simp add: sound_step_def)
    then have "server_inv c (fresh_server m s)"
      using world_of_disk [of "restart s" c] disk_of_world [of c s]
      by (simp add: server_inv_def fresh_server_def world_def new_supervisor_def restart_def)
    then show ?thesis unfolding b(3) by (rule served [OF serves_refresh])
  qed
  with b(1) that show thesis by blast
qed

lemma life_step_inv:
  assumes "server_inv c s" and "life_step h s t"
  shows "server_inv c t"
  using assms(2)
proof cases
  case runs
  with assms(1) show ?thesis by (rule server_step_inv)
next
  case refreshes
  with served [OF serves_refresh assms(1)] show ?thesis by simp
next
  case ticks
  have "serves c (timer_tick :: (server, unit, bool) sem)"
    unfolding timer_tick_def by (intro serves) simp
  with ticks served [OF _ assms(1)] show ?thesis by simp
next
  case forgets
  with served [OF serves_presence_gc assms(1)] show ?thesis by simp
next
  case (collects rm cfg disk)
  have "serves c (gc_turn rm cfg disk :: (server, unit, fs_path list) sem)"
    unfolding gc_turn_def run_pass_def by (intro serves sound)
  with collects served [OF _ assms(1)] show ?thesis by simp
next
  case (reboots m p)
  obtain path d where b: "storage_open m path = Inr d" "\<forall>c. disk_ok c d \<longrightarrow> server_inv c (ap_server p)"
    using boot_inv [OF reboots(3)] .
  from b(1) reboots(2) have "d = db (world s)" by (simp add: same_disk_def)
  moreover have "disk_ok c (db (world s))" using assms(1) by (simp add: server_inv_def disk_of_world)
  ultimately show ?thesis using b(2) reboots(1) by simp
qed

interpretation life: invariant_system "\<lambda>s. server_inv c s" "life_step h" "\<lambda>s. server_inv c s" for c h
  by unfold_locales (auto intro: life_step_inv)

text \<open>C3: an installation stays sound for life. However often the server is stopped, crashes or is booted again
  on the database it left, with whatever configuration and environment, and whatever its handlers,
  sessions and background tasks do in between, except that no request creates a task over HTTP under a
  parent of another startup (the condition \<open>fits\<close> on requests; \<open>foreign_parent_is_accepted\<close> shows that the
  handler would take one): the tables and the avatars stay sound, where the operator's own avatar stands
  for no agent; the commands waiting for the loop fit the tables; and the status of every task there was
  moves only by transitions of \<open>task_sm::next\<close> and the scheduler's own two moves past it, the roll-back of
  a failed hand-over and the automatic recovery, both to \<open>queued\<close>. It holds from the first boot on an empty
  database, since that is sound.\<close>
theorem every_life_is_sound:
  assumes "\<And>path d. storage_open m path = Inr d \<Longrightarrow> db_inv d \<and> startup_of_agent d ''__operator__'' = None"
    and "boot h m = Inr p" and "(life_step h)\<^sup>*\<^sup>* (ap_server p) t"
  shows "db_inv (db (world t)) \<and> avatars_ok (world t) \<and>
    (\<exists>d path. storage_open m path = Inr d \<and> tasks_evolve sched_move d (db (world t))) \<and>
    (\<forall>k \<in> set (sr_queue t). well_sent k (world t))"
proof -
  obtain path d where d: "storage_open m path = Inr d" "\<forall>c. disk_ok c d \<longrightarrow> server_inv c (ap_server p)"
    using boot_inv [OF assms(2)] .
  have "disk_ok d d" using assms(1) [OF d(1)] by (simp add: disk_ok_def)
  from life.steps_inv [OF assms(3), of d] d this show ?thesis
    by (auto simp: server_inv_def world_inv_def)
qed

lemma empty_disk_ok: "d_tasks d = [] \<Longrightarrow> d_agents d = [] \<Longrightarrow> db_inv d \<and> startup_of_agent d ''__operator__'' = None"
  by (simp add: db_inv_def startup_of_agent_def agent_row_def)

definition sample_config :: config where
  "sample_config = \<lparr> cf_world = \<lparr> cf_tick_hz = 1, cf_position_snapshot_every_ticks = 60 \<rparr>,
     cf_task = \<lparr> cf_max_review_rounds = 3, cf_max_llm_turns_per_task = 20 \<rparr>,
     cf_epistemic = \<lparr> cf_max_hypotheses_per_task = 8, cf_max_tests_per_hypothesis = 5,
       cf_non_trivial_description_token_threshold = 60 \<rparr>,
     cf_budget = \<lparr> cf_warn_pct = 80, cf_no_new_task_pct = 95, cf_pause_all_pct = 100 \<rparr>,
     cf_supervisor = \<lparr> cf_worker_respawn_backoff_seconds = [1, 5, 30], cf_worker_respawn_max_attempts = 3 \<rparr>,
     cf_possess = \<lparr> cf_operator_keepalive_timeout_seconds = 30 \<rparr>,
     cf_kanban = \<lparr> cf_stuck_warn_minutes = 5, cf_stuck_alert_minutes = 30 \<rparr> \<rparr>"

definition sample_machine :: "database \<Rightarrow> machine" where
  "sample_machine d = \<lparr> mc_read = (\<lambda>path. Inr ''[world]''), mc_toml = (\<lambda>text. Inr sample_config),
     mc_from_str = (\<lambda>path. Inr \<lparr> so_file = path,
       so_create_if_missing = False, so_pragmas = [], so_busy_timeout_ms = 0 \<rparr>),
     mc_connect = (\<lambda>c. Inr d), mc_migrate = Inr, mc_vars = [], mc_map_json = ''{}'', mc_bind = (\<lambda>address. None),
     mc_now_ms = 2000000, mc_uuid_ctr = 7, mc_faults = [] \<rparr>"

lemma seed_once: "d_towns d \<noteq> [] \<Longrightarrow> mc_faults m = [] \<Longrightarrow>
    seed_if_empty map_json (opened m d) = (Inr (), opened m d)"
  by (simp add: seed_if_empty_def bindE_def sql_query_def sql_stmt_def ret_def opened_def)

lemma sample_boots: "d_towns d \<noteq> [] \<Longrightarrow> \<exists>p. boot sample_host (sample_machine d) = Inr p"
  using seed_once [of d "sample_machine d"]
  by (simp add: boot_def load_from_def Let_def storage_open_def sample_machine_def)

theorem every_life_is_sound_witness:
  "\<exists>p q. boot sample_host (sample_machine (db town_sys)) = Inr p \<and>
    boot sample_host (sample_machine (db (world (ap_server p)))) = Inr q \<and>
    db_inv (db (world (ap_server q))) \<and> avatars_ok (world (ap_server q))"
proof -
  have towns: "d_towns (db town_sys) \<noteq> []" by simp
  then obtain p where p: "boot sample_host (sample_machine (db town_sys)) = Inr p" using sample_boots by blast
  obtain path d s where s: "storage_open (sample_machine (db town_sys)) path = Inr d"
    "seed_if_empty (mc_map_json (sample_machine (db town_sys))) (opened (sample_machine (db town_sys)) d) = (Inr (), s)"
    "ap_server p = snd ((refresh_catalog sample_host :: (server, unit, unit) sem) (fresh_server (sample_machine (db town_sys)) s))"
    using boot_starts [OF p] .
  have "d_towns (db (world (ap_server p))) \<noteq> []"
    using s towns seed_once [of d "sample_machine (db town_sys)"]
    by (auto simp: sample_machine_def storage_open_def opened_def refresh_catalog_def bindE_def asksE_def modifyE_def
        thenE_def ignoreE_def send_cmd_def fresh_server_def world_def new_supervisor_def restart_def)
  then obtain q where q: "boot sample_host (sample_machine (db (world (ap_server p)))) = Inr q"
    using sample_boots by blast
  have "life_step sample_host (ap_server p) (ap_server q)"
    by (rule life_step.reboots [OF _ q]) (simp add: same_disk_def storage_open_def sample_machine_def)
  moreover have "db_inv (db town_sys)" "startup_of_agent (db town_sys) ''__operator__'' = None"
    by (simp_all add: db_inv_def task_ok_def has_worker_def sample_defs startup_of_agent_def town_agents
        startup_of_task_def agent_row_def task_row_def parse_status_def MAX_REVIEW_ROUNDS_def)
  ultimately have "db_inv (db (world (ap_server q))) \<and> avatars_ok (world (ap_server q))"
    using every_life_is_sound [OF _ p, of "ap_server q"] by (auto simp: storage_open_def sample_machine_def)
  with p q show ?thesis by blast
qed

section \<open>What the configuration changes\<close>

text \<open>
  Nothing the server does depends on the file: two configurations lead to the same server. Only the
  number of review rounds is kept, for the console's display; the dispatcher has its own constant.
\<close>

lemma configuration_is_display_only:
  assumes "boot h m = Inr p" and "boot h (m\<lparr>mc_toml := \<lambda>text. Inr cfg\<rparr>) = Inr q"
  shows "ap_server q = ap_server p \<and> ap_gc q = ap_gc p \<and> ap_backup q = ap_backup p \<and>
    ap_max_review_rounds q = uint (cf_max_review_rounds (cf_task cfg))"
  using assms
  by (auto simp: boot_def load_from_def Let_def opened_def fresh_server_def storage_open_def
      split: sum.splits prod.splits option.splits)

end
