(* ===== verification/Backups.thy ===== *)
theory Backups
  imports Process
begin

text \<open>
  The rotation of the backups, \<open>backup.rs\<close>: what the directory of the snapshots holds after any number of
  turns of the backup task, some of which may have failed.
\<close>

section \<open>The newest of a set of names\<close>

definition newest :: "nat \<Rightarrow> string set \<Rightarrow> string set" where
  "newest k names = set (take k (rev (sorted_list_of_set names)))"

lemma distinct_descending: "sorted_wrt (>) (xs :: string list) \<Longrightarrow> distinct xs"
  by (induction xs) auto

lemma newest_iff:
  assumes "finite names"
  shows "x \<in> newest k names \<longleftrightarrow> x \<in> names \<and> card {y \<in> names. x < y} < k"
proof -
  obtain l where l: "sorted_wrt (>) l" "distinct l" "set l = names" "newest k names = set (take k l)"
    using assms by (intro that [of "rev (sorted_list_of_set names)"]) (simp_all add: sorted_wrt_rev newest_def)
  have above: "card {y \<in> names. l ! i < y} = i" if i: "i < length l" for i
  proof -
    have "{y \<in> names. l ! i < y} = set (take i l)"
    proof (intro equalityI subsetI)
      fix y assume "y \<in> {y \<in> names. l ! i < y}"
      then have "y \<in> set l" and "l ! i < y" unfolding l(3) by simp_all
      then obtain j where j: "j < length l" "y = l ! j" "l ! i < l ! j" by (auto simp: in_set_conv_nth)
      have "j < i" using sorted_wrt_nth_less [OF l(1), of i j] j by (cases i j rule: linorder_cases) auto
      with j show "y \<in> set (take i l)" by (auto simp: in_set_conv_nth)
    next
      fix y assume "y \<in> set (take i l)"
      then obtain j where "j < i" "y = l ! j" by (auto simp: in_set_conv_nth)
      then have "l ! i < y" and "y \<in> set l"
        using sorted_wrt_nth_less [OF l(1), of j i] i nth_mem [of j l] by auto
      then show "y \<in> {y \<in> names. l ! i < y}" unfolding l(3) by simp
    qed
    then show ?thesis using distinct_card [OF distinct_take [OF l(2), of i]] i by simp
  qed
  show ?thesis
  proof (cases "x \<in> names")
    case True
    then obtain i where i: "i < length l" "x = l ! i" using l(3) by (metis in_set_conv_nth)
    have "x \<in> set (take k l) \<longleftrightarrow> i < k"
    proof
      assume "x \<in> set (take k l)"
      then obtain j where j: "j < k" "j < length l" "l ! j = x" by (auto simp: in_set_conv_nth)
      then have "j = i" using nth_eq_iff_index_eq [OF l(2)] i by simp
      with j show "i < k" by simp
    next
      assume "i < k"
      then show "x \<in> set (take k l)" unfolding in_set_conv_nth using i by (intro exI [of _ i]) simp
    qed
    then show ?thesis using True above [OF i(1)] i(2) by (simp add: l(4))
  next
    case False
    then show ?thesis using l(3) in_set_takeD [of x k l] by (auto simp: l(4))
  qed
qed

lemma newest_subset: "finite names \<Longrightarrow> newest k names \<subseteq> names"
  by (auto simp: newest_iff)

lemma card_newest: "finite names \<Longrightarrow> k \<le> card names \<Longrightarrow> card (newest k names) = k"
  unfolding newest_def by (subst distinct_card) (simp_all add: distinct_take)

lemma newest_grow:
  assumes "finite names"
  shows "newest k (insert x names) \<subseteq> insert x (newest k names)"
proof
  fix y assume y: "y \<in> newest k (insert x names)"
  have "card {z \<in> names. y < z} \<le> card {z \<in> insert x names. y < z}" using assms by (intro card_mono) auto
  with y assms show "y \<in> insert x (newest k names)" by (auto simp: newest_iff)
qed

lemma not_newest:
  assumes "finite names" and "later \<subseteq> {y \<in> names. x < y}" and "card later = k"
  shows "x \<notin> newest k names"
  using assms card_mono [of "{y \<in> names. x < y}" later] by (auto simp: newest_iff)

text \<open>A set that holds the newest names of a larger one has the same newest names.\<close>

lemma newest_between:
  assumes "finite names" and "newest k names \<subseteq> part" and "part \<subseteq> names"
  shows "newest k part = newest k names"
proof -
  have fin: "finite part" using assms(1,3) by (rule rev_finite_subset)
  have less: "card {y \<in> part. x < y} \<le> card {y \<in> names. x < y}" for x
    using assms(1,3) by (intro card_mono) auto
  have "x \<in> newest k names" if x: "x \<in> newest k part" for x
  proof (rule ccontr)
    assume "x \<notin> newest k names"
    with x assms(3) have many: "k \<le> card {y \<in> names. x < y}" by (auto simp: newest_iff [OF fin] newest_iff [OF assms(1)])
    have "newest k names \<subseteq> {y \<in> part. x < y}"
    proof
      fix t assume t: "t \<in> newest k names"
      have "x < t"
      proof (rule ccontr)
        assume "\<not> x < t"
        then have "card {y \<in> names. x < y} \<le> card {y \<in> names. t < y}" using assms(1) by (intro card_mono) auto
        with many t show False by (simp add: newest_iff [OF assms(1)])
      qed
      with t assms(2) show "t \<in> {y \<in> part. x < y}" by blast
    qed
    then have "card (newest k names) \<le> card {y \<in> part. x < y}" using fin by (intro card_mono) auto
    moreover have "k \<le> card names" using many card_mono [of names "{y \<in> names. x < y}"] assms(1) by auto
    ultimately show False using x card_newest [OF assms(1)] by (simp add: newest_iff [OF fin])
  qed
  moreover have "x \<in> newest k part" if "x \<in> newest k names" for x
    using that assms(2) less [of x] by (auto simp: newest_iff [OF fin] newest_iff [OF assms(1)])
  ultimately show ?thesis by blast
qed

section \<open>The directory from turn to turn\<close>

text \<open>
  What a turn meets: its time stamp, whether the directory could be made, how \<open>VACUUM INTO\<close> ended and
  whether a failed one left its file behind, which files could be removed, and what the directory lists.
\<close>

record turn =
  tu_stamp :: string
  tu_mkdir :: bool
  tu_exec :: "sql_error option"
  tu_left :: bool
  tu_rm :: "string \<Rightarrow> bool"
  tu_listing :: "string set \<Rightarrow> listing"

text \<open>
  One turn on the names of the directory: a snapshot that succeeds, or fails and leaves its file, adds a
  name; the names \<open>prune\<close> removed are gone.
\<close>

definition turn_dir :: "backup_config \<Rightarrow> turn \<Rightarrow> string set \<Rightarrow> string set" where
  "turn_dir cfg tn dir =
     (let files = insert (snapshot_name (tu_stamp tn)) dir in
      case backup_turn cfg (tu_mkdir tn) (\<lambda>q. tu_exec tn) (tu_rm tn) (tu_listing tn files) (tu_stamp tn) of
        (Inl (BackupSql e), _) \<Rightarrow> if tu_left tn then files else dir
      | (Inl _, _) \<Rightarrow> dir
      | (Inr _, Some (Inr (n, gone))) \<Rightarrow> files - set gone
      | (Inr _, _) \<Rightarrow> files)"

definition safe_path :: "backup_config \<Rightarrow> turn \<Rightarrow> bool" where
  "safe_path cfg tn \<longleftrightarrow> TICK_QUOTE \<notin> set (snapshot_filename (bk_dir cfg) (tu_stamp tn)) \<and>
     CHR 0x5C \<notin> set (snapshot_filename (bk_dir cfg) (tu_stamp tn))"

text \<open>A turn in which a file comes into being, and one in which nothing fails.\<close>

definition makes :: "backup_config \<Rightarrow> turn \<Rightarrow> bool" where
  "makes cfg tn \<longleftrightarrow> safe_path cfg tn \<and> tu_mkdir tn \<and> (tu_exec tn = None \<or> tu_left tn)"

definition made :: "backup_config \<Rightarrow> turn list \<Rightarrow> string set" where
  "made cfg turns = set (map (\<lambda>tn. snapshot_name (tu_stamp tn)) (filter (makes cfg) turns))"

definition clean :: "backup_config \<Rightarrow> turn \<Rightarrow> bool" where
  "clean cfg tn \<longleftrightarrow> safe_path cfg tn \<and> tu_mkdir tn \<and> tu_exec tn = None \<and> (\<forall>n. tu_rm tn n) \<and>
     (\<forall>files. finite files \<longrightarrow> (\<exists>es. tu_listing tn files = Listed es \<and> set (List.map_filter id es) = files))"

text \<open>What listing a directory promises: only names of the directory, none of them twice.\<close>

definition honest :: "turn \<Rightarrow> bool" where
  "honest tn \<longleftrightarrow> (\<forall>files es. tu_listing tn files = Listed es \<longrightarrow>
     distinct (List.map_filter id es) \<and> set (List.map_filter id es) \<subseteq> files)"

definition snapshots :: "string set \<Rightarrow> string set" where
  "snapshots dir = {f \<in> dir. is_snapshot f}"

lemma names_listed: "List.map_filter id (map Some xs) = xs"
  by (induction xs) (simp_all add: map_filter_simps)

lemma is_snapshot_name [simp]: "is_snapshot (snapshot_name stamp)"
  by (simp add: is_snapshot_def snapshot_name_def ends_with_def)

lemma snapshots_insert [simp]: "snapshots (insert (snapshot_name st) dir) = insert (snapshot_name st) (snapshots dir)"
  by (auto simp: snapshots_def)

lemma turn_cases:
  obtains "turn_dir cfg tn dir = dir" and "\<not> makes cfg tn"
  | "turn_dir cfg tn dir = insert (snapshot_name (tu_stamp tn)) dir" and "makes cfg tn"
  | es where "turn_dir cfg tn dir = insert (snapshot_name (tu_stamp tn)) dir -
        {g \<in> set (drop (nat (bk_keep cfg)) (snapshots_newest_first es)). tu_rm tn g}"
      and "makes cfg tn" and "tu_listing tn (insert (snapshot_name (tu_stamp tn)) dir) = Listed es"
proof -
  let ?files = "insert (snapshot_name (tu_stamp tn)) dir"
  consider "\<not> makes cfg tn" | e where "makes cfg tn" "tu_exec tn = Some e" | "makes cfg tn" "tu_exec tn = None"
    by (cases "tu_exec tn") auto
  then show ?thesis
  proof cases
    case 1
    then have "turn_dir cfg tn dir = dir"
      by (auto simp: turn_dir_def makes_def safe_path_def backup_turn_def snapshot_to_def Let_def split: option.split)
    with 1 that(1) show ?thesis by blast
  next
    case 2
    then have "turn_dir cfg tn dir = ?files"
      by (auto simp: turn_dir_def makes_def safe_path_def backup_turn_def snapshot_to_def Let_def)
    with 2 that(2) show ?thesis by blast
  next
    case 3
    then have run: "turn_dir cfg tn dir = (case prune (tu_rm tn) (tu_listing tn ?files) (nat (bk_keep cfg)) of
        Inr (n, gone) \<Rightarrow> ?files - set gone | Inl _ \<Rightarrow> ?files)"
      by (auto simp: turn_dir_def makes_def safe_path_def backup_turn_def snapshot_to_def Let_def split: sum.split)
    show ?thesis
    proof (cases "tu_listing tn ?files")
      case (Listed es)
      then have "turn_dir cfg tn dir = ?files -
          {g \<in> set (drop (nat (bk_keep cfg)) (snapshots_newest_first es)). tu_rm tn g}"
        by (auto simp: run prune_def Let_def)
      with 3 Listed that(3) show ?thesis by blast
    qed (use 3 run that(2) in \<open>auto simp: prune_def\<close>)
  qed
qed

text \<open>What a listing takes from a directory, and what is beyond the names to keep.\<close>

lemma beyond_the_kept:
  assumes "honest tn" and "tu_listing tn files = Listed es" and "finite files"
    and "g \<in> set (drop k (snapshots_newest_first es))"
  shows "g \<in> snapshots files" and "g \<notin> newest k (snapshots files)"
proof -
  let ?l = "snapshots_newest_first es"
  have d: "distinct (List.map_filter id es)" and sub: "set (List.map_filter id es) \<subseteq> files"
    using assms(1,2) by (auto simp: honest_def)
  have "{n. Some n \<in> set es} = set (List.map_filter id es)" by (auto simp: in_map_filter)
  then have l: "sorted_wrt (>) ?l" "set ?l \<subseteq> snapshots files"
    using newest_first [OF d] sub by (auto simp: snapshots_def)
  show g: "g \<in> snapshots files" using in_set_dropD [OF assms(4)] l(2) by blast
  have len: "k \<le> length ?l" using assms(4) by (cases "k \<le> length ?l") auto
  have "sorted_wrt (>) (take k ?l @ drop k ?l)" using l(1) by simp
  then have "set (take k ?l) \<subseteq> {y \<in> snapshots files. g < y}"
    using assms(4) l(2) unfolding sorted_wrt_append by (auto dest: in_set_takeD)
  moreover have "distinct ?l" using l(1) by (rule distinct_descending)
  ultimately show "g \<notin> newest k (snapshots files)"
    using len assms(3) by (intro not_newest [of _ "set (take k ?l)"]) (auto simp: distinct_card snapshots_def)
qed

section \<open>The rotation\<close>

lemma made_snoc: "made cfg (turns @ [tn]) =
    (if makes cfg tn then insert (snapshot_name (tu_stamp tn)) (made cfg turns) else made cfg turns)"
  by (simp add: made_def)

text \<open>\<open>ever\<close> is all the snapshots there have been; the directory holds the newest of them.\<close>

definition rotated :: "nat \<Rightarrow> string set \<Rightarrow> string set \<Rightarrow> bool" where
  "rotated k ever dir \<longleftrightarrow> finite ever \<and> finite dir \<and> newest k ever \<subseteq> snapshots dir \<and> snapshots dir \<subseteq> ever"

lemma rotated_insert:
  "rotated k ever dir \<Longrightarrow>
     rotated k (insert (snapshot_name st) ever) (insert (snapshot_name st) dir)"
  using newest_grow [of ever k "snapshot_name st"] by (auto simp: rotated_def)

lemma rotated_turn:
  assumes "rotated (nat (bk_keep cfg)) ever dir" and "honest tn"
  defines "ever' \<equiv> if makes cfg tn then insert (snapshot_name (tu_stamp tn)) ever else ever"
  shows "rotated (nat (bk_keep cfg)) ever' (turn_dir cfg tn dir)"
    and "turn_dir cfg tn dir - snapshots (turn_dir cfg tn dir) = dir - snapshots dir"
proof -
  let ?k = "nat (bk_keep cfg)" and ?files = "insert (snapshot_name (tu_stamp tn)) dir"
  note more = rotated_insert [OF assms(1), of "tu_stamp tn"]
  have kept_files: "?files - snapshots ?files = dir - snapshots dir" by (auto simp: snapshots_def)
  have both: "rotated ?k ever' (turn_dir cfg tn dir) \<and>
      turn_dir cfg tn dir - snapshots (turn_dir cfg tn dir) = dir - snapshots dir"
  proof (cases rule: turn_cases [of cfg tn dir])
    case 1
    then show ?thesis using assms(1) by (simp add: ever'_def)
  next
    case 2
    then show ?thesis using more kept_files by (simp add: ever'_def)
  next
    case (3 es)
    let ?gone = "{g \<in> set (drop ?k (snapshots_newest_first es)). tu_rm tn g}"
    have fin: "finite ?files" using assms(1) by (simp add: rotated_def)
    have ev: "finite (insert (snapshot_name (tu_stamp tn)) ever)" using assms(1) by (simp add: rotated_def)
    have same: "newest ?k (snapshots ?files) = newest ?k (insert (snapshot_name (tu_stamp tn)) ever)"
      using more by (intro newest_between [OF ev]) (auto simp: rotated_def)
    have gone: "?gone \<subseteq> snapshots ?files" "?gone \<inter> newest ?k (snapshots ?files) = {}"
      using beyond_the_kept [OF assms(2) 3(3) fin] by blast+
    have part: "snapshots (?files - ?gone) = snapshots ?files - ?gone" by (auto simp: snapshots_def)
    have "rotated ?k (insert (snapshot_name (tu_stamp tn)) ever) (?files - ?gone)"
      using more gone(2) unfolding rotated_def part same by auto
    moreover have "(?files - ?gone) - snapshots (?files - ?gone) = dir - snapshots dir"
      unfolding part using gone(1) kept_files by blast
    ultimately show ?thesis using 3(1,2) by (simp add: ever'_def)
  qed
  show "rotated ?k ever' (turn_dir cfg tn dir)"
    and "turn_dir cfg tn dir - snapshots (turn_dir cfg tn dir) = dir - snapshots dir"
    using both by blast+
qed

lemma rotated_run:
  assumes "finite dir" and "\<forall>tn \<in> set turns. honest tn"
  shows "rotated (nat (bk_keep cfg)) (snapshots dir \<union> made cfg turns) (fold (turn_dir cfg) turns dir) \<and>
    fold (turn_dir cfg) turns dir - snapshots (fold (turn_dir cfg) turns dir) = dir - snapshots dir"
  using assms(2)
proof (induction turns rule: rev_induct)
  case Nil
  have "finite (snapshots dir)" using assms(1) by (simp add: snapshots_def)
  then show ?case using assms(1) newest_subset by (simp add: made_def rotated_def)
next
  case (snoc tn turns)
  let ?dir = "fold (turn_dir cfg) turns dir"
  have IH: "rotated (nat (bk_keep cfg)) (snapshots dir \<union> made cfg turns) ?dir"
    "?dir - snapshots ?dir = dir - snapshots dir" and "honest tn" using snoc by auto
  from rotated_turn [OF IH(1) \<open>honest tn\<close>] IH(2) show ?case
    by (cases "makes cfg tn") (simp_all add: made_snoc)
qed

text \<open>After a clean turn there are no more than the newest.\<close>

lemma clean_turn:
  assumes "clean cfg tn" and "honest tn" and "finite dir" and "rotated (nat (bk_keep cfg)) ever (turn_dir cfg tn dir)"
  shows "snapshots (turn_dir cfg tn dir) = newest (nat (bk_keep cfg)) ever"
proof -
  let ?k = "nat (bk_keep cfg)" and ?files = "insert (snapshot_name (tu_stamp tn)) dir"
  obtain es where es: "tu_listing tn ?files = Listed es" "set (List.map_filter id es) = ?files"
    using assms(1,3) unfolding clean_def by blast
  have d: "distinct (List.map_filter id es)" using assms(2) es(1) by (auto simp: honest_def)
  let ?l = "snapshots_newest_first es"
  have "{n. Some n \<in> set es} = ?files" unfolding es(2) [symmetric] by (auto simp: in_map_filter)
  then have l: "sorted_wrt (>) ?l" "set ?l = snapshots ?files"
    using newest_first [OF d] by (auto simp: snapshots_def)
  have fresh: "turn_dir cfg tn dir = ?files - set (drop ?k ?l)"
    using assms(1) es(1)
    by (auto simp: turn_dir_def clean_def safe_path_def backup_turn_def snapshot_to_def prune_def Let_def)
  have "set ?l = set (take ?k ?l) \<union> set (drop ?k ?l)" by (simp flip: set_append)
  moreover have "set (take ?k ?l) \<inter> set (drop ?k ?l) = {}"
    using set_take_disj_set_drop_if_distinct [OF distinct_descending [OF l(1)] order_refl] .
  moreover have "snapshots (?files - set (drop ?k ?l)) = snapshots ?files - set (drop ?k ?l)"
    by (auto simp: snapshots_def)
  ultimately have "snapshots (turn_dir cfg tn dir) = set (take ?k ?l)"
    using l(2) unfolding fresh by blast
  then have "card (snapshots (turn_dir cfg tn dir)) \<le> ?k"
    using card_length [of "take ?k ?l"] by simp
  moreover have r: "finite ever" "newest ?k ever \<subseteq> snapshots (turn_dir cfg tn dir)"
    "snapshots (turn_dir cfg tn dir) \<subseteq> ever" and fin: "finite (snapshots (turn_dir cfg tn dir))"
    using assms(4) by (auto simp: rotated_def snapshots_def)
  ultimately show ?thesis
  proof (cases "?k \<le> card ever")
    case True
    then show ?thesis
      using card_newest [OF r(1) True] card_seteq [OF fin r(2)] \<open>card _ \<le> ?k\<close> by simp
  next
    case False
    have "x \<in> newest ?k ever" if "x \<in> ever" for x
    proof -
      have "card {y \<in> ever. x < y} \<le> card ever" using r(1) by (intro card_mono) auto
      with False that show ?thesis by (simp add: newest_iff [OF r(1)])
    qed
    then show ?thesis using r(2,3) by blast
  qed
qed

text \<open>C37: The backups rotate. Over any number of turns of the backup task, in each of which making the
  directory, \<open>VACUUM INTO\<close>, the listing or the removal of any file may fail, and a failed \<open>VACUUM INTO\<close> may
  leave a file: of all the snapshots that have ever been in the directory the newest ones by name, as many
  as are to be kept, are still there; nothing else is named like a snapshot; and no other file is touched.
  After a turn in which nothing failed there are no snapshots but these newest ones. A listing returns
  names of the directory, none twice, and may miss some.\<close>
theorem backups_rotate:
  assumes "finite dir" and "\<forall>tn \<in> set turns. honest tn"
    and "after = fold (turn_dir cfg) turns dir" and "ever = snapshots dir \<union> made cfg turns"
  shows "newest (nat (bk_keep cfg)) ever \<subseteq> snapshots after \<and> snapshots after \<subseteq> ever \<and>
    after - snapshots after = dir - snapshots dir \<and>
    (turns \<noteq> [] \<and> clean cfg (last turns) \<longrightarrow> snapshots after = newest (nat (bk_keep cfg)) ever)"
proof -
  note run = rotated_run [OF assms(1,2), of cfg]
  have "snapshots after = newest (nat (bk_keep cfg)) ever" if turns: "turns \<noteq> []" "clean cfg (last turns)"
  proof -
    obtain us tn where us: "turns = us @ [tn]" using turns(1) by (cases turns rule: rev_cases) auto
    have "finite (fold (turn_dir cfg) us dir)"
      using rotated_run [OF assms(1), of us cfg] assms(2) us by (simp add: rotated_def)
    then show ?thesis
      using clean_turn [of cfg tn "fold (turn_dir cfg) us dir" ever] run turns(2) assms us by simp
  qed
  then show ?thesis using run assms(3,4) by (auto simp: rotated_def)
qed

text \<open>Three turns with one snapshot to keep: a first one that cannot remove anything, one whose \<open>VACUUM INTO\<close>
  fails and leaves a file, and a clean one.\<close>

definition turn_at :: "string \<Rightarrow> turn" where
  "turn_at stamp = \<lparr> tu_stamp = stamp, tu_mkdir = True, tu_exec = None, tu_left = False, tu_rm = (\<lambda>n. True),
     tu_listing = (\<lambda>files. Listed (map Some (sorted_list_of_set files))) \<rparr>"

definition sample_turns :: "turn list" where
  "sample_turns = [turn_at ''1''\<lparr>tu_rm := (\<lambda>n. False)\<rparr>,
     turn_at ''2''\<lparr>tu_exec := Some SqlFault, tu_left := True\<rparr>, turn_at ''3'']"

theorem backups_rotate_witness:
  "let cfg = \<lparr> bk_dir = ''b'', bk_interval_hours = 6, bk_keep = 1 \<rparr>;
       after = fold (turn_dir cfg) sample_turns {''cliptown-0.db'', ''notes''}
   in snapshots after = {''cliptown-3.db''} \<and> after - snapshots after = {''notes''}"
proof -
  let ?cfg = "\<lparr> bk_dir = ''b'', bk_interval_hours = 6, bk_keep = 1 \<rparr>"
  let ?dir = "{''cliptown-0.db'', ''notes''}"
  have here: "snapshots ?dir = {''cliptown-0.db''}" "?dir - {''cliptown-0.db''} = {''notes''}"
    by (auto simp: snapshots_def is_snapshot_def ends_with_def)
  have made: "made ?cfg sample_turns = {''cliptown-1.db'', ''cliptown-2.db'', ''cliptown-3.db''}"
    by (simp add: made_def makes_def safe_path_def sample_turns_def turn_at_def snapshot_filename_def
        snapshot_name_def ends_with_def TICK_QUOTE_def)
  have "newest 1 ({''cliptown-0.db''} \<union> {''cliptown-1.db'', ''cliptown-2.db'', ''cliptown-3.db''}) = {''cliptown-3.db''}"
    by (simp add: newest_def less_char_def)
  note newest = this
  have "set (sorted_list_of_set files) \<subseteq> files" for files :: "string set" by (cases "finite files") auto
  then have honest: "\<forall>tn \<in> set sample_turns. honest tn"
    by (simp add: sample_turns_def turn_at_def honest_def names_listed)
  have clean: "clean ?cfg (last sample_turns)"
    by (simp add: sample_turns_def turn_at_def clean_def safe_path_def snapshot_filename_def
        snapshot_name_def ends_with_def TICK_QUOTE_def names_listed)
  have "sample_turns \<noteq> []" by (simp add: sample_turns_def)
  with backups_rotate [OF _ honest refl refl, of ?dir ?cfg] clean
  have "snapshots (fold (turn_dir ?cfg) sample_turns ?dir) = {''cliptown-3.db''} \<and>
    fold (turn_dir ?cfg) sample_turns ?dir - snapshots (fold (turn_dir ?cfg) sample_turns ?dir) = {''notes''}"
    unfolding here made by (auto simp: newest [simplified])
  then show ?thesis unfolding Let_def .
qed

end
