(* ===== verification/Det.thy ===== *)
theory Det
  imports Prelude
begin

unbundle bit_operations_syntax

text \<open>
  The determinism helpers, \<open>det.rs\<close>: a clock, a random source and a supply of identifiers behind one
  interface each, with the seeded versions tests run on. A generator is a step function on its atomic cell.
\<close>

section \<open>The seeded versions\<close>

text \<open>\<open>fetch_add\<close> on an \<open>AtomicI64\<close> wraps.\<close>

definition fake_clock_advance :: "64 word \<Rightarrow> 64 word \<Rightarrow> 64 word" where
  "fake_clock_advance t by = t + by"

definition fake_clock_now :: "64 word \<Rightarrow> int" where
  "fake_clock_now t = sint t"

definition xorshift_left :: "nat \<Rightarrow> 32 word \<Rightarrow> 32 word" where
  "xorshift_left n x = x XOR push_bit n x"

definition xorshift_right :: "nat \<Rightarrow> 32 word \<Rightarrow> 32 word" where
  "xorshift_right n x = x XOR drop_bit n x"

text \<open>xorshift32: the new state is also the number drawn.\<close>

definition next_u32 :: "32 word \<Rightarrow> 32 word" where
  "next_u32 x = xorshift_left 5 (xorshift_right 17 (xorshift_left 13 x))"

text \<open>\<open>{:x}\<close>, and \<open>{:012x}\<close>, which pads to twelve digits and cuts nothing off.\<close>

definition hex_digit :: "nat \<Rightarrow> char" where
  "hex_digit d = (if d < 10 then char_of (48 + d) else char_of (87 + d))"

fun show_hex :: "nat \<Rightarrow> string" where
  "show_hex n = (if n < 16 then [hex_digit n] else show_hex (n div 16) @ [hex_digit (n mod 16)])"

declare show_hex.simps [simp del]

definition pad12 :: "string \<Rightarrow> string" where
  "pad12 s = replicate (12 - length s) (CHR ''0'') @ s"

text \<open>The identifier, and the counter after it.\<close>

definition seeded_uuid :: "64 word \<Rightarrow> string \<times> 64 word" where
  "seeded_uuid n = (''00000000-0000-0000-0000-'' @ pad12 (show_hex (unat n)), n + 1)"

record det_ctx =
  det_clock :: "64 word"
  det_random :: "32 word"
  det_uuid :: "64 word"

definition ctx :: "64 word \<Rightarrow> 32 word \<Rightarrow> det_ctx" where
  "ctx t0 seed = \<lparr> det_clock = t0, det_random = seed, det_uuid = 0 \<rparr>"

section \<open>The random sequence\<close>

lemma shift_fixpoint_zero:
  fixes d :: "32 word"
  assumes "0 < n" and "d = push_bit n d \<or> d = drop_bit n d"
  shows "d = 0"
  using assms(2)
proof
  assume d: "d = push_bit n d"
  have "\<not> bit d i" for i
  proof (induction i rule: less_induct)
    case (less i)
    have "bit d i \<longleftrightarrow> n \<le> i \<and> i < 32 \<and> bit d (i - n)"
      by (subst d) (auto simp: bit_push_bit_iff)
    with less assms(1) show ?case by auto
  qed
  then show ?thesis by (simp add: bit_eq_iff)
next
  assume d: "d = drop_bit n d"
  have step: "bit d i \<longleftrightarrow> bit d (n + i)" for i
    by (subst d) (simp add: bit_drop_bit_eq)
  have "bit d i \<longleftrightarrow> bit d (i + m * n)" for i m
  proof (induction m)
    case (Suc m)
    have "i + Suc m * n = n + (i + m * n)" by simp
    with Suc step show ?case by metis
  qed simp
  from this [of _ 32] have "\<not> bit d i" for i
    using assms(1) bit_imp_le_length [of d "i + 32 * n"] by fastforce
  then show ?thesis by (simp add: bit_eq_iff)
qed

lemma xor_zero: "x XOR y = 0 \<longleftrightarrow> x = (y :: 32 word)"
  by (auto simp: bit_eq_iff bit_xor_iff)

lemma xor_shift_inj:
  fixes x y :: "32 word"
  assumes "\<And>a b :: 32 word. f (a XOR b) = f a XOR f b" and "x XOR f x = y XOR f y"
  shows "x XOR y = f (x XOR y)"
proof -
  have "(x XOR f x) XOR (y XOR f y) = (x XOR y) XOR f (x XOR y)"
    by (simp add: assms(1) ac_simps)
  with assms(2) show ?thesis by (simp add: xor_zero)
qed

lemma xorshift_inj: "0 < n \<Longrightarrow> inj (xorshift_left n)" "0 < n \<Longrightarrow> inj (xorshift_right n)"
proof -
  assume "0 < n"
  show "inj (xorshift_left n)"
  proof (rule injI)
    fix x y assume "xorshift_left n x = xorshift_left n y"
    from xor_shift_inj [OF push_bit_xor this [unfolded xorshift_left_def]]
    have "x XOR y = 0" using shift_fixpoint_zero [OF \<open>0 < n\<close>] by blast
    then show "x = y" by (simp add: xor_zero)
  qed
  show "inj (xorshift_right n)"
  proof (rule injI)
    fix x y assume "xorshift_right n x = xorshift_right n y"
    from xor_shift_inj [OF drop_bit_xor this [unfolded xorshift_right_def]]
    have "x XOR y = 0" using shift_fixpoint_zero [OF \<open>0 < n\<close>] by blast
    then show "x = y" by (simp add: xor_zero)
  qed
qed

text \<open>
  The random sequence never loses information: a draw is a permutation of the states, so a sequence
  comes back to its seed, and one that does not start at zero never reaches it.
\<close>

lemma next_u32_bij: "bij next_u32"
proof -
  have "inj (xorshift_left 5 \<circ> (xorshift_right 17 \<circ> xorshift_left 13))"
    by (intro inj_compose xorshift_inj) simp_all
  moreover have "next_u32 = xorshift_left 5 \<circ> (xorshift_right 17 \<circ> xorshift_left 13)"
    by (simp add: fun_eq_iff next_u32_def)
  ultimately have "inj next_u32" by simp
  then show ?thesis by (simp add: bij_def finite_UNIV_inj_surj)
qed

lemma next_u32_zero: "next_u32 x = 0 \<longleftrightarrow> x = 0"
proof -
  have "next_u32 0 = 0" by (simp add: next_u32_def xorshift_left_def xorshift_right_def)
  then show ?thesis using next_u32_bij by (metis bij_is_inj injD)
qed

lemma random_never_zero: "seed \<noteq> 0 \<Longrightarrow> (next_u32 ^^ n) seed \<noteq> 0"
  by (induction n) (simp_all add: next_u32_zero)

section \<open>Identifiers\<close>

definition hex_value :: "char \<Rightarrow> nat" where
  "hex_value c = (if (of_char c :: nat) < 58 then of_char c - 48 else of_char c - 87)"

fun read_hex :: "nat \<Rightarrow> string \<Rightarrow> nat" where
  "read_hex acc [] = acc"
| "read_hex acc (c # cs) = read_hex (16 * acc + hex_value c) cs"

lemma read_hex_append: "read_hex acc (a @ b) = read_hex (read_hex acc a) b"
  by (induction a arbitrary: acc) simp_all

lemma hex_value_digit: "d < 16 \<Longrightarrow> hex_value (hex_digit d) = d"
  by (auto simp: hex_value_def hex_digit_def)

lemma read_show_hex: "read_hex 0 (show_hex n) = n"
proof (induction n rule: less_induct)
  case (less n)
  then show ?case
    by (subst show_hex.simps) (auto simp: read_hex_append hex_value_digit)
qed

lemma read_pad: "read_hex 0 (pad12 s) = read_hex 0 s"
proof -
  have "read_hex 0 (replicate k (CHR ''0'')) = 0" for k
    by (induction k) (simp_all add: hex_value_def)
  then show ?thesis by (simp add: pad12_def read_hex_append)
qed

text \<open>No two of the first \<open>2 ^ 64\<close> identifiers are the same.\<close>

lemma seeded_uuids_distinct: "fst (seeded_uuid a) = fst (seeded_uuid b) \<longleftrightarrow> a = b"
proof -
  have "pad12 (show_hex (unat a)) = pad12 (show_hex (unat b)) \<Longrightarrow> unat a = unat b"
    by (metis read_pad read_show_hex)
  then show ?thesis by (auto simp: seeded_uuid_def dest: word_unat_eq_iff [THEN iffD2])
qed

end
