(* ===== verification/Liveness.thy ===== *)
theory Liveness
  imports SchedulerRules ServerInv Answers
begin

text \<open>
  The scheduler conserves work: a tick leaves no agent idle that is connected, within its budget and in
  the right place, while a task of its own is queued and waits for nothing.
\<close>

section \<open>What a dispatch changes\<close>

definition row_status :: "sys \<Rightarrow> ident \<Rightarrow> string option" where
  "row_status s i = map_option t_status (task_row (db s) i)"

definition post :: "sys \<Rightarrow> ident \<Rightarrow> (string \<times> ident) option" where
  "post s i = map_option (\<lambda>a. (av_status a, av_room_id a)) (map_of (avatars s) i)"

definition channel :: "sys \<Rightarrow> ident \<Rightarrow> chan option" where
  "channel s i = map_of (out_bus s) i"

definition purses :: "sys \<Rightarrow> (ident \<Rightarrow> agent option) \<times> (ident \<Rightarrow> startup option)" where
  "purses s = (agent_row (db s), startup_row (db s))"

lemmas views = row_status_def post_def channel_def purses_def

text \<open>Nobody has changed place or status, been written to or charged, and no task its status.\<close>

definition unmoved :: "sys \<Rightarrow> sys \<Rightarrow> bool" where
  "unmoved s u \<longleftrightarrow> faults u = [] \<and> post u = post s \<and> channel u = channel s \<and> row_status u = row_status s \<and>
     purses u = purses s"

text \<open>The task is in the hands of its assignee, and everything else as before.\<close>

definition handed :: "queued_task \<Rightarrow> sys \<Rightarrow> sys \<Rightarrow> bool" where
  "handed q s u \<longleftrightarrow> faults u = [] \<and> purses u = purses s \<and>
     row_status u = (row_status s)(q_id q \<mapsto> ''in_progress'') \<and>
     (\<exists>room c. post s (q_assignee q) = Some (''idle'', room) \<and> post u = (post s)(q_assignee q \<mapsto> (''working'', room)) \<and>
        channel s (q_assignee q) = Some c \<and>
        channel u = (channel s)(q_assignee q \<mapsto> c\<lparr>ch_queue := ch_queue c @ [task_assigned_json q]\<rparr>))"

definition takes_frames :: "chan option \<Rightarrow> bool" where
  "takes_frames c \<longleftrightarrow> (\<exists>x. c = Some x \<and> ch_is_open x \<and> length (ch_queue x) < OUT_BUS_CAP)"

lemma unmoved_refl: "faults s = [] \<Longrightarrow> unmoved s s"
  by (simp add: unmoved_def)

lemma unmoved_trans: "unmoved s t \<Longrightarrow> unmoved t u \<Longrightarrow> unmoved s u"
  by (simp add: unmoved_def)

lemma handed_after: "unmoved s t \<Longrightarrow> handed q t u \<Longrightarrow> handed q s u"
  by (simp add: unmoved_def handed_def)

lemma move_unmoved:
  assumes "path_finding env" and "faults s = []"
  shows "wpE (do_start_move env i room x) (\<lambda>_ u. unmoved s u) (\<lambda>_ _. False) s"
proof -
  obtain r avs ps where m: "start_move (e_astar_room env) (e_astar_tile env) (layout s) (e_graph env) i room x
      (avatars s) (paths s) = Inr (r, avs, ps)"
    using start_move_total [OF assms(1)] by blast
  have "post (s\<lparr>avatars := avs, paths := ps\<rparr>) = post s"
  proof (cases "r = MoveOk")
    case True
    with m show ?thesis
      by (auto elim!: start_move_granted simp: post_def fun_eq_iff map_of_amap_upd option.map_comp comp_def)
  next
    case False
    with start_move_refused [OF m] show ?thesis by (simp add: post_def fun_eq_iff)
  qed
  with m assms(2) show ?thesis
    by (simp add: wpE_def do_start_move_def unmoved_def views [abs_def])
qed

lemma block_unmoved:
  assumes "faults s = []"
  shows "wpE (blocking_gate env q) (\<lambda>b u. unmoved s u \<and> (q_blocked_on q = None \<longrightarrow> b)) (\<lambda>_ _. False) s"
  using assms
  by (auto simp: blocking_gate_def wp unmoved_def views fun_eq_iff emit_system_event_def insert_system_event_def
      task_row_upd option.map_comp comp_def split: option.split sum.split)

lemma room_unmoved:
  assumes "path_finding env" and "faults s = []"
  shows "wpE (room_gate env q room) (\<lambda>b u. unmoved s u \<and> ((\<forall>r. q_required_room q = Some r \<longrightarrow> room = r) \<longrightarrow> b))
    (\<lambda>_ _. False) s"
  using move_unmoved [OF assms] unmoved_refl [OF assms(2)]
  by (auto simp: room_gate_def wp split: option.split elim: wp_mono)

lemma budget_unmoved:
  assumes "faults s = []"
  shows "wpE (budget_gate q) (\<lambda>b u. unmoved s u \<and> (affordable q s \<longrightarrow> b)) (\<lambda>_ _. False) s"
  using assms
  by (auto simp: budget_gate_def wp unmoved_def views fun_eq_iff affordable_def field_simps bind_eq_Some_conv
      split: option.split)

lemma affordable_purses: "purses u = purses s \<Longrightarrow> affordable q u = affordable q s"
  by (simp add: affordable_def purses_def)

lemma assign_effect:
  assumes "faults s = []" and "row_status s (q_id q) = Some ''queued''"
    and "post s (q_assignee q) = Some (''idle'', room)"
  shows "wpE (assign_task None q) (\<lambda>_ u. (unmoved s u \<or> handed q s u) \<and>
      (takes_frames (channel s (q_assignee q)) \<longrightarrow> handed q s u)) (\<lambda>_ _. False) s"
proof -
  obtain t where t: "task_row (db s) (q_id q) = Some t" "t_status t = ''queued''"
    using assms(2) by (auto simp: row_status_def)
  obtain a where a: "map_of (avatars s) (q_assignee q) = Some a" "av_status a = ''idle''" "av_room_id a = room"
    using assms(3) by (auto simp: post_def)
  show ?thesis
  proof (cases "takes_frames (channel s (q_assignee q))")
    case True
    then obtain c where c: "map_of (out_bus s) (q_assignee q) = Some c" "ch_is_open c"
      "length (ch_queue c) < OUT_BUS_CAP" by (auto simp: takes_frames_def channel_def)
    with t a assms(1) show ?thesis
      by (simp add: assign_task_def start_work_def hand_over_def wp append_audit_def try_send_def handed_def
          views fun_eq_iff task_row_upd map_of_amap_upd bus_send_def)
  next
    case False
    then have "(case map_of (out_bus s) (q_assignee q) of None \<Rightarrow> SendClosed
        | Some c \<Rightarrow> fst (try_send (task_assigned_json q) c)) \<noteq> SendOk"
      by (auto simp: takes_frames_def channel_def try_send_def split: option.split)
    moreover have "map_of (bus_send (q_assignee q) (task_assigned_json q) (out_bus s)) i = map_of (out_bus s) i" for i
      using False by (cases "map_of (out_bus s) (q_assignee q)")
        (auto simp: bus_send_def map_of_amap_upd takes_frames_def channel_def try_send_def)
    ultimately show ?thesis
      using False t a assms(1)
      by (simp add: assign_task_def start_work_def hand_over_def wp append_audit_def unmoved_def
          views fun_eq_iff task_row_upd map_of_amap_upd)
  qed
qed

text \<open>A task that nothing holds back, of an agent who is there.\<close>

definition dispatchable :: "queued_task \<Rightarrow> sys \<Rightarrow> bool" where
  "dispatchable q s \<longleftrightarrow> q_blocked_on q = None \<and> affordable q s \<and>
     (\<exists>room. post s (q_assignee q) = Some (''idle'', room) \<and> (\<forall>r. q_required_room q = Some r \<longrightarrow> room = r)) \<and>
     takes_frames (channel s (q_assignee q))"

lemma gate_then:
  assumes "wpE gate (\<lambda>b u. unmoved s u \<and> (ok \<longrightarrow> b)) (\<lambda>_ _. False) u"
    and "\<And>w. unmoved s w \<Longrightarrow> wpE m (\<lambda>_ u. (unmoved s u \<or> handed q s u) \<and> (good \<longrightarrow> handed q s u)) (\<lambda>_ _. False) w"
    and "good \<Longrightarrow> ok"
  shows "wpE (when_gate gate m) (\<lambda>_ u. (unmoved s u \<or> handed q s u) \<and> (good \<longrightarrow> handed q s u)) (\<lambda>_ _. False) u"
  unfolding when_gate_def wp_bind
  by (rule wp_mono [OF assms(1)]) (auto simp: wp assms(2,3))

lemma dispatch_effect:
  assumes "path_finding env" and "faults s = []" and "row_status s (q_id q) = Some ''queued''"
  shows "wpE (dispatch_one env None q) (\<lambda>_ u. (unmoved s u \<or> handed q s u) \<and> (dispatchable q s \<longrightarrow> handed q s u))
    (\<lambda>_ _. False) s"
proof -
  let ?good = "dispatchable q s"
  let ?Q = "\<lambda>(_ :: nat) u. (unmoved s u \<or> handed q s u) \<and> (?good \<longrightarrow> handed q s u)"
  have "wpE (when_gate (blocking_gate env q) (when_gate (room_gate env q (av_room_id a)) (when_gate (budget_gate q)
      (when_gate (live_gate None q) (assign_task None q))))) ?Q (\<lambda>_ _. False) s"
    if a: "map_of (avatars s) (q_assignee q) = Some a" "av_status a = ''idle''" for a
  proof -
    have p: "post s (q_assignee q) = Some (''idle'', av_room_id a)" by (simp add: post_def a)
    have assign: "wpE (assign_task None q) ?Q (\<lambda>_ _. False) w" if w: "unmoved s w" for w
    proof -
      from w have w': "faults w = []" "row_status w (q_id q) = Some ''queued''"
        "post w (q_assignee q) = Some (''idle'', av_room_id a)" "channel w = channel s"
        using assms(3) p by (simp_all add: unmoved_def)
      have good: "?good \<Longrightarrow> takes_frames (channel w (q_assignee q))" by (simp add: w'(4) dispatchable_def)
      show ?thesis
        by (rule wp_mono [OF assign_effect [OF w'(1-3)]]) (use w good in \<open>blast intro: unmoved_trans handed_after\<close>)+
    qed
    have live: "wpE (when_gate (live_gate None q) (assign_task None q)) ?Q (\<lambda>_ _. False) w" if w: "unmoved s w" for w
    proof (rule gate_then [where ok = ?good])
      show "wpE (live_gate None q) (\<lambda>b u. unmoved s u \<and> (?good \<longrightarrow> b)) (\<lambda>_ _. False) w"
        using w by (auto simp: live_gate_def wp dispatchable_def takes_frames_def unmoved_def channel_def fun_eq_iff)
    qed (use assign in auto)
    have budget: "wpE (when_gate (budget_gate q) (when_gate (live_gate None q) (assign_task None q))) ?Q (\<lambda>_ _. False) w"
      if w: "unmoved s w" for w
    proof (rule gate_then [where ok = "affordable q s"])
      have f: "faults w = []" and "purses w = purses s" using w by (simp_all add: unmoved_def)
      from f affordable_purses [OF this(2)] show "wpE (budget_gate q) (\<lambda>b u. unmoved s u \<and> (affordable q s \<longrightarrow> b)) (\<lambda>_ _. False) w"
        by (intro wp_mono [OF budget_unmoved]) (auto dest: unmoved_trans [OF w])
    qed (use live in \<open>auto simp: dispatchable_def\<close>)
    have room: "wpE (when_gate (room_gate env q (av_room_id a)) (when_gate (budget_gate q)
        (when_gate (live_gate None q) (assign_task None q)))) ?Q (\<lambda>_ _. False) w" if w: "unmoved s w" for w
    proof (rule gate_then [where ok = "\<forall>r. q_required_room q = Some r \<longrightarrow> av_room_id a = r"])
      have "faults w = []" using w by (simp add: unmoved_def)
      then show "wpE (room_gate env q (av_room_id a)) (\<lambda>b u. unmoved s u \<and>
          ((\<forall>r. q_required_room q = Some r \<longrightarrow> av_room_id a = r) \<longrightarrow> b)) (\<lambda>_ _. False) w"
        by (intro wp_mono [OF room_unmoved [OF assms(1)]]) (auto dest: unmoved_trans [OF w])
    qed (use budget p in \<open>auto simp: dispatchable_def\<close>)
    show ?thesis
    proof (rule gate_then [where ok = "q_blocked_on q = None"])
      show "wpE (blocking_gate env q) (\<lambda>b u. unmoved s u \<and> (q_blocked_on q = None \<longrightarrow> b)) (\<lambda>_ _. False) s"
        by (rule block_unmoved [OF assms(2)])
    qed (use room in \<open>auto simp: dispatchable_def\<close>)
  qed
  moreover have "\<not> ?good" if "\<And>a. map_of (avatars s) (q_assignee q) = Some a \<Longrightarrow> av_status a \<noteq> ''idle''"
    using that by (auto simp: dispatchable_def post_def)
  ultimately show ?thesis
    unfolding dispatch_one_def
    using unmoved_refl [OF assms(2)]
    by (auto simp: wp_bind wp_asks wp_option wp_if wp_ret split: option.split)
qed

section \<open>The dispatch loop\<close>

text \<open>An agent in a room, with a channel, while the tasks of a list are still to be looked at.\<close>

definition to_do :: "sys \<Rightarrow> queued_task list \<Rightarrow> sys \<Rightarrow> bool" where
  "to_do s rest u \<longleftrightarrow> faults u = [] \<and> purses u = purses s \<and> distinct (map q_id rest) \<and>
     (\<forall>q \<in> set rest. row_status u (q_id q) = Some ''queued'')"

definition at_desk :: "ident \<Rightarrow> ident \<Rightarrow> chan \<Rightarrow> sys \<Rightarrow> bool" where
  "at_desk i room c u \<longleftrightarrow> post u i = Some (''idle'', room) \<and> channel u i = Some c"

definition at_work :: "queued_task set \<Rightarrow> ident set \<Rightarrow> ident \<Rightarrow> ident \<Rightarrow> chan \<Rightarrow> sys \<Rightarrow> bool" where
  "at_work all left i room c u \<longleftrightarrow> (\<exists>q \<in> all. q_assignee q = i \<and> q_id q \<notin> left \<and>
     post u i = Some (''working'', room) \<and> row_status u (q_id q) = Some ''in_progress'' \<and>
     channel u i = Some (c\<lparr>ch_queue := ch_queue c @ [task_assigned_json q]\<rparr>))"

lemma to_do_step:
  assumes "to_do s (q # rest) u" and "unmoved u w \<or> handed q u w"
  shows "to_do s rest w"
  using assms by (auto simp: to_do_def unmoved_def handed_def image_iff)

lemma desk_step:
  assumes "at_desk i room c u" and "unmoved u w \<or> handed q u w" and "q \<in> all" and "q_id q \<notin> left"
  shows "if handed q u w \<and> q_assignee q = i then at_work all left i room c w else at_desk i room c w"
proof (cases "handed q u w \<and> q_assignee q = i")
  case True
  with assms(1,3,4) show ?thesis by (auto simp: handed_def at_work_def at_desk_def)
next
  case False
  with assms(1,2) show ?thesis by (auto simp: handed_def unmoved_def at_desk_def)
qed

lemma work_step:
  assumes "at_work all (insert (q_id q) left) i room c u" and "unmoved u w \<or> handed q u w"
  shows "at_work all left i room c w"
  using assms by (auto simp: at_work_def unmoved_def handed_def)

lemma work_loop:
  assumes "path_finding env" and "to_do s qs u" and "at_work all (q_id ` set qs) i room c u"
  shows "wpE (countE qs (dispatch_one env None)) (\<lambda>_ w. at_work all {} i room c w \<and> faults w = []) (\<lambda>_ _. False) u"
  using assms(2,3)
proof (induction qs arbitrary: u)
  case Nil
  then show ?case by (simp add: wp to_do_def)
next
  case (Cons q qs)
  have q: "faults u = []" "row_status u (q_id q) = Some ''queued''" using Cons.prems(1) by (simp_all add: to_do_def)
  show ?case
    unfolding countE.simps wp_bind
  proof (rule wp_mono [OF dispatch_effect [OF assms(1) q]])
    fix n w
    assume e: "(unmoved u w \<or> handed q u w) \<and> (dispatchable q u \<longrightarrow> handed q u w)"
    have "at_work all (q_id ` set qs) i room c w"
      using work_step [of all q "q_id ` set qs" i room c u w] Cons.prems(2) e by simp
    with Cons.IH [OF to_do_step [OF Cons.prems(1)]] e
    show "wpE (countE qs (dispatch_one env None)) (\<lambda>k. wpE (ret (n + k))
        (\<lambda>_ w. at_work all {} i room c w \<and> faults w = []) (\<lambda>_ _. False)) (\<lambda>_ _. False) w"
      by (simp add: wp_ret)
  qed simp
qed

lemma dispatchable_for:
  assumes "to_do s (q # rest) u" and "at_desk i room c u" and "q_assignee q = i"
  shows "dispatchable q u \<longleftrightarrow> q_blocked_on q = None \<and> affordable q s \<and>
    (\<forall>r. q_required_room q = Some r \<longrightarrow> room = r) \<and> takes_frames (Some c)"
  using assms affordable_purses [of u s q] by (auto simp: dispatchable_def to_do_def at_desk_def)

lemma desk_loop:
  assumes "path_finding env" and "to_do s qs u" and "at_desk i room c u" and "set qs \<subseteq> all"
    and "q \<in> set qs" "q_assignee q = i" "q_blocked_on q = None" "affordable q s"
    "\<forall>r. q_required_room q = Some r \<longrightarrow> room = r" "takes_frames (Some c)"
  shows "wpE (countE qs (dispatch_one env None)) (\<lambda>_ w. at_work all {} i room c w \<and> faults w = []) (\<lambda>_ _. False) u"
  using assms(2,3,4,5)
proof (induction qs arbitrary: u)
  case (Cons p qs)
  have p: "faults u = []" "row_status u (q_id p) = Some ''queued''" "q_id p \<notin> q_id ` set qs"
    using Cons.prems(1) by (simp_all add: to_do_def)
  show ?case
    unfolding countE.simps wp_bind
  proof (rule wp_mono [OF dispatch_effect [OF assms(1) p(1,2)]])
    fix n w
    assume e: "(unmoved u w \<or> handed p u w) \<and> (dispatchable p u \<longrightarrow> handed p u w)"
    then have rest: "to_do s qs w" using to_do_step [OF Cons.prems(1)] by blast
    have "wpE (countE qs (dispatch_one env None)) (\<lambda>_ w. at_work all {} i room c w \<and> faults w = []) (\<lambda>_ _. False) w"
    proof (cases "handed p u w \<and> q_assignee p = i")
      case True
      then have "at_work all (q_id ` set qs) i room c w"
        using desk_step [OF Cons.prems(2), of w p all "q_id ` set qs"] e p(3) Cons.prems(3) by auto
      with work_loop [OF assms(1) rest] show ?thesis by blast
    next
      case False
      then have desk: "at_desk i room c w"
        using desk_step [OF Cons.prems(2), of w p all "q_id ` set qs"] e p(3) Cons.prems(3) by auto
      have "dispatchable p u" if "p = q"
        using dispatchable_for [OF Cons.prems(1,2)] assms(6-10) that by simp
      with False e assms(6) have "q \<noteq> p" by blast
      with Cons.prems(3,4) show ?thesis by (intro Cons.IH [OF rest desk]) auto
    qed
    then show "wpE (countE qs (dispatch_one env None)) (\<lambda>k. wpE (ret (n + k))
        (\<lambda>_ w. at_work all {} i room c w \<and> faults w = []) (\<lambda>_ _. False)) (\<lambda>_ _. False) w"
      by (simp add: wp_ret)
  qed simp
qed simp

section \<open>The rest of the tick\<close>

text \<open>Work in progress goes on: the later passes touch no avatar, no channel and no row in progress.\<close>

definition goes_on :: "sys \<Rightarrow> sys \<Rightarrow> bool" where
  "goes_on s t \<longleftrightarrow> avatars t = avatars s \<and> out_bus t = out_bus s \<and>
     (\<forall>i. row_status s i = Some ''in_progress'' \<longrightarrow> row_status t i = Some ''in_progress'')"

interpretation pass: forward goes_on
  by unfold_locales (auto simp: goes_on_def)

named_theorems goes_on "computations that leave the work in progress alone"

lemmas [goes_on] = pass.bind pass.seq pass.wraps pass.ends pass.cases pass.loop

lemma goes_on_sql [goes_on]:
  "steps_in goes_on (sql_query g)" "steps_in goes_on (fresh_uuid env)"
  "(\<And>s. row_status (s\<lparr>db := f s\<rparr>) = row_status s) \<Longrightarrow> steps_in goes_on (sql_exec f)"
  "(\<And>s. row_status (s\<lparr>db := f s\<rparr>) = row_status s) \<Longrightarrow> steps_in goes_on (sql_checked chk f)"
  by (auto simp: steps_in_def wp goes_on_def row_status_def fun_eq_iff split: option.split)

lemma row_status_simps [simp]: "row_status (s\<lparr>db := (db s)\<lparr>d_system_events := e\<rparr>\<rparr>) = row_status s"
  "row_status (s\<lparr>frames := fr\<rparr>) = row_status s"
  by (simp_all add: row_status_def fun_eq_iff)

lemma goes_on_broadcast [goes_on]: "steps_in goes_on (broadcast fr)"
  by (simp add: steps_in_def wp goes_on_def)

lemma row_status_upd: "(\<And>t. t_id (f t) = t_id t \<and> t_status (f t) = t_status t) \<Longrightarrow>
    row_status (s\<lparr>db := upd_task i f (db s)\<rparr>) = row_status s"
  by (auto simp: row_status_def fun_eq_iff task_row_upd option.map_comp comp_def)

lemma goes_on_store [goes_on]: "steps_in goes_on (append_audit i e)"
  "steps_in goes_on (emit_system_event env su k pl sv)"
  unfolding append_audit_def emit_system_event_def insert_system_event_def
  by (intro goes_on row_status_upd; simp)+

lemma kept_by_miss:
  assumes "\<And>t. hit t \<Longrightarrow> t_status t \<noteq> ''in_progress''" and "\<And>t. t_id (f t) = t_id t"
    and "row_status s i = Some ''in_progress''"
  shows "row_status (s\<lparr>db := upd_tasks hit f (db s)\<rparr>) i = Some ''in_progress''"
proof -
  have "find_row t_id i rows = Some t \<Longrightarrow> \<not> hit t \<Longrightarrow> find_row t_id i (update_rows hit f rows) = Some t" for rows t
    using assms(2) by (induction rows) (auto simp: update_rows_def split: if_splits)
  with assms(1,3) show ?thesis by (auto simp: row_status_def task_row_def upd_tasks_def)
qed

lemma goes_on_rows [goes_on]: "steps_in goes_on (steal_row i old new)" "steps_in goes_on (recover_row i old new)"
proof -
  have hit: "steps_in goes_on (sql_stmt (\<lambda>s. if b s then Inl e else Inr (n s, upd_tasks hit (f s) (db s))))"
    if "\<And>t. hit t \<Longrightarrow> t_status t \<noteq> ''in_progress''" "\<And>s t. t_id (f s t) = t_id t"
    for b e n hit and f :: "sys \<Rightarrow> task \<Rightarrow> task"
  proof -
    have "row_status (sql_pop s\<lparr>db := upd_tasks hit (f s) (db s)\<rparr>) = row_status (s\<lparr>db := upd_tasks hit (f s) (db s)\<rparr>)"
      "row_status (sql_pop s) = row_status s" for s
      by (simp_all add: row_status_def fun_eq_iff)
    then show ?thesis using kept_by_miss [OF that] by (simp add: steps_in_def wp goes_on_def)
  qed
  show "steps_in goes_on (steal_row i old new)" "steps_in goes_on (recover_row i old new)"
    unfolding steal_row_def recover_row_def Let_def by (rule hit; simp)+
qed

lemma goes_on_passes: "steps_in goes_on (deadline_scan env)" "steps_in goes_on (auto_steal_pass env)"
  "steps_in goes_on (auto_recovery_pass env)"
  unfolding deadline_scan_def auto_steal_pass_def auto_recovery_pass_def steal_one_def recover_one_def
    role_of_def Let_def
  by (intro goes_on row_status_upd; simp)+

lemma total_passes: "total (deadline_scan env)" "total (auto_steal_pass env)" "total (auto_recovery_pass env)"
proof -
  have cases: "total (if b then m else n)" if "total m" "total n" for b and m n :: "(sys, 'z, unit) sem"
    using that by simp
  have sums: "total (case r of Inl a \<Rightarrow> ml a | Inr b \<Rightarrow> mr b)" if "\<And>a. total (ml a)" "\<And>b. total (mr b)"
    for r and ml :: "'p \<Rightarrow> (sys, 'z, unit) sem" and mr :: "'q \<Rightarrow> (sys, 'z, unit) sem"
    using that by (cases r) simp_all
  show "total (deadline_scan env)" "total (auto_steal_pass env)" "total (auto_recovery_pass env)"
    unfolding deadline_scan_def auto_steal_pass_def auto_recovery_pass_def steal_one_def recover_one_def
      role_of_def Let_def
    by (intro total cases sums)+
qed

section \<open>Work conservation\<close>

text \<open>C7: the scheduler conserves work: take an agent that is idle and whose connection takes frames, with a task
  of its own that is queued, not blocked, wanted in the room where the agent is, and affordable. With no
  failing statement and a path-finding crate that honours its contract, a tick of the scheduler without
  per-task workers (the mode in which tasks go to connected workers) returns, and then the agent is at work: a task of its own is in progress and the very last frame in its channel assigns that task.\<close>
theorem no_ready_agent_stays_idle:
  assumes "path_finding env" and "db_inv (db s)" and "avatars_ok s" and "faults s = []"
    and "q \<in> set (queued_rows (db s))" and "dispatchable q s" and "channel s (q_assignee q) = Some c"
  shows "\<exists>n t q' a c'. tick env None s = (Inr n, t) \<and>
    q' \<in> set (queued_rows (db s)) \<and> q_assignee q' = q_assignee q \<and>
    map_of (avatars t) (q_assignee q) = Some a \<and> av_status a = ''working'' \<and>
    row_status t (q_id q') = Some ''in_progress'' \<and>
    map_of (out_bus t) (q_assignee q) = Some c' \<and> ch_queue c' = ch_queue c @ [task_assigned_json q']"
proof -
  let ?qs = "queued_rows (db s)" and ?i = "q_assignee q"
  have "pending (db s) ?qs s"
    using queued_rows_pending world_inv_kept(2) [OF world_inv_start [OF assms(2,3)]] by blast
  then have todo: "to_do s ?qs (sql_pop s)"
    using assms(4) by (auto simp: to_do_def pending_def row_is_def row_status_def purses_def)
  obtain room where room: "post s ?i = Some (''idle'', room)" "\<forall>r. q_required_room q = Some r \<longrightarrow> room = r"
    using assms(6) by (auto simp: dispatchable_def)
  have desk: "at_desk ?i room c (sql_pop s)"
    using room(1) assms(7) by (simp add: at_desk_def post_def channel_def)
  have loop: "wpE (countE ?qs (dispatch_one env None)) (\<lambda>_ w. at_work (set ?qs) {} ?i room c w \<and> faults w = [])
      (\<lambda>_ _. False) (sql_pop s)"
    by (rule desk_loop [OF assms(1) todo desk order_refl assms(5) refl])
       (use assms(6,7) room(2) in \<open>simp_all add: dispatchable_def\<close>)
  have rest: "wpE (thenE (deadline_scan env) (thenE (auto_steal_pass env) (thenE (auto_recovery_pass env) (ret n))))
      (\<lambda>_ t. goes_on w t) (\<lambda>_ _. False) w" for n :: nat and w
  proof -
    let ?m = "thenE (deadline_scan env) (thenE (auto_steal_pass env) (thenE (auto_recovery_pass env) (ret n)))"
    have "total ?m" by (intro total total_passes)
    then have t: "wpE ?m (\<lambda>_ _. True) (\<lambda>_ _. False) w" by (simp only: total_def)
    have "steps_in goes_on ?m" by (intro goes_on goes_on_passes)
    then have "wpE ?m (\<lambda>_. goes_on w) (\<lambda>_. goes_on w) w" by (simp only: steps_in_def)
    from wp_conj [OF t this] show ?thesis by (rule wp_mono) simp_all
  qed
  have stays: "at_work all {} i room c t" if "at_work all {} i room c w" "goes_on w t" for all i w t
    using that by (fastforce simp: at_work_def goes_on_def post_def channel_def)
  have all_passes: "wpE (bindE (countE ?qs (dispatch_one env None)) (\<lambda>n. thenE (deadline_scan env)
      (thenE (auto_steal_pass env) (thenE (auto_recovery_pass env) (ret n)))))
      (\<lambda>_ t. at_work (set ?qs) {} ?i room c t) (\<lambda>_ _. False) (sql_pop s)"
    unfolding wp_bind by (rule wp_mono [OF loop], rule wp_mono [OF rest], erule conjE, erule (1) stays)
  have "wpE (tick env None) (\<lambda>_ t. at_work (set ?qs) {} ?i room c t) (\<lambda>_ _. False) s"
    unfolding tick_def wp_bind [of "tryE _"] wp_try wp_sql_query using all_passes assms(4) by simp
  then show ?thesis
    by (cases "tick env None s") (fastforce simp: wpE_def at_work_def post_def channel_def split: sum.splits)
qed

theorem no_ready_agent_stays_idle_witness:
  "\<exists>n t a. tick sample_env None sample_sys = (Inr n, t) \<and> map_of (avatars t) ''e2'' = Some a \<and>
    av_status a = ''working'' \<and> row_status t ''t2'' = Some ''in_progress''"
proof -
  have q: "queued_rows (db sample_sys) = [sample_queued]"
    by (simp add: queued_rows_def queued_row_def sample_db_def sample_task_def new_task_def map_filter_simps
        agent_row_def startup_row_def sample_agent_def sample_startup_def sample_queued_def)
  have "dispatchable sample_queued sample_sys"
    by (simp add: dispatchable_def sample_queued_def affordable_def sample_rows post_def takes_frames_def
        channel_def OUT_BUS_CAP_def sample_agent_def sample_startup_def)
      (simp add: sample_sys_def sample_avatar_def)
  moreover have "channel sample_sys (q_assignee sample_queued) = Some \<lparr> ch_queue = [], ch_is_open = True \<rparr>"
    by (simp add: channel_def sample_sys_def sample_queued_def)
  moreover have "path_finding sample_env" by (simp add: path_finding_def sample_env_contract)
  moreover have "db_inv (db sample_sys)" "avatars_ok sample_sys"
    by (simp_all add: db_inv_def task_ok_def has_worker_def sample_defs startup_of_agent_def startup_of_task_def
        agent_row_def task_row_def parse_status_def MAX_REVIEW_ROUNDS_def avatars_ok_def avatar_ids_def)
  ultimately show ?thesis
    using no_ready_agent_stays_idle [of sample_env sample_sys sample_queued] q
    by (fastforce simp: sample_queued_def)
qed

end
