(* ===== verification/Spending.thy ===== *)
theory Spending
  imports CmdWorker TaskKept
begin

text \<open>
  Runs of budget reports: what the reports of the workers of one startup do to its spend and to the
  channels of its workers, over the whole handler of \<open>cmd_worker.rs\<close> with the booking, the variance event
  and the frames of \<open>budget.rs\<close>.
\<close>

text \<open>What the reports of the startup \<open>sid\<close> concern: its row and the channel of the agent \<open>j\<close>.\<close>

definition books :: "ident \<Rightarrow> ident \<Rightarrow> sys \<Rightarrow> bool list \<times> avatars \<times> startup option \<times> chan option" where
  "books sid j s = (faults s, avatars s, startup_row (db s) sid, map_of (out_bus s) j)"

lemma startup_row_simps:
  "startup_row (d\<lparr>d_system_events := e\<rparr>) = startup_row d"
  "startup_row (d\<lparr>d_budget_events := b\<rparr>) = startup_row d"
  by (simp_all add: startup_row_def [abs_def])

lemma startup_row_upd:
  assumes "\<And>x. su_id (f x) = su_id x"
  shows "startup_row (upd_startup sid f d) sid = map_option f (startup_row d sid)"
  using assms by (simp add: startup_row_def upd_startup_def find_row_update)

lemma books_events:
  assumes "faults s = []"
  shows "wpE (record_threshold_event env st th x y) (\<lambda>_ t. books sid j t = books sid j s) (\<lambda>_ _. False) s"
    and "wpE (report_variance env st tid cost) (\<lambda>_ t. books sid j t = books sid j s) (\<lambda>_ _. False) s"
  using assms
  by (auto simp: record_threshold_event_def report_variance_def emit_system_event_def insert_system_event_def
      wp books_def startup_row_simps split: option.split prod.split sum.split)

text \<open>The loop over the workers puts the frame once into the channel of every avatar of the startup.\<close>

definition works_for :: "ident \<Rightarrow> avatars \<Rightarrow> ident \<Rightarrow> bool" where
  "works_for sid avs j \<longleftrightarrow> map_option av_startup_id (map_of avs j) = Some sid"

definition boxed :: "ident \<Rightarrow> json \<Rightarrow> ident \<Rightarrow> avatars \<Rightarrow> sys \<Rightarrow> bool list \<times> avatars \<times> startup option \<times> chan option" where
  "boxed sid p j avs s = (faults s, avatars s, startup_row (db s) sid,
     if works_for sid avs j
     then map_option (\<lambda>c. snd (try_send p c)) (map_of (out_bus s) j) else map_of (out_bus s) j)"

lemma books_send_loop:
  fixes body :: "ident \<times> avatar \<Rightarrow> (sys, 'e, nat) sem"
  assumes body: "body = (\<lambda>(agent_id, av).
       if av_startup_id av \<noteq> sid then ret 0
       else bindE (asksE (\<lambda>s. map_of (out_bus s) agent_id \<noteq> None)) (\<lambda>present.
         if present then thenE (send_to agent_id p) (ret 1) else ret 0))"
    and "distinct (map fst avs)"
  shows "wpE (countE avs body) (\<lambda>_ t. books sid j t = boxed sid p j avs s) (\<lambda>_ _. False) s"
  using assms(2)
proof (induction avs arbitrary: s)
  case Nil
  then show ?case by (simp add: wp books_def boxed_def works_for_def)
next
  case (Cons a avs)
  obtain i av where a: "a = (i, av)" by (cases a)
  have new: "map_of avs i = None" and IH: "wpE (countE avs body) (\<lambda>_ t. books sid j t = boxed sid p j avs s) (\<lambda>_ _. False) s" for s
    using Cons a by (auto simp: map_of_eq_None_iff)
  have rest: "wpE (countE avs body) (\<lambda>_ t. books sid j t = boxed sid p j (a # avs) s) (\<lambda>_ _. False) u"
    if "boxed sid p j avs u = boxed sid p j (a # avs) s" for u
    using IH [of u] that by simp
  have other: "boxed sid p j avs s = boxed sid p j (a # avs) s" if "av_startup_id av \<noteq> sid"
    using that new by (auto simp: boxed_def works_for_def a)
  have absent: "boxed sid p j avs s = boxed sid p j (a # avs) s" if "map_of (out_bus s) i = None"
    using that new by (auto simp: boxed_def works_for_def a)
  have sent: "boxed sid p j avs (s\<lparr>out_bus := bus_send i p (out_bus s)\<rparr>) = boxed sid p j (a # avs) s"
    if "av_startup_id av = sid"
    using that new by (auto simp: boxed_def works_for_def a bus_send_def map_of_amap_upd)
  show ?case
    unfolding countE.simps wp_bind by (auto simp: body wp a rest [unfolded a body] other [unfolded a] absent [unfolded a] sent [unfolded a])
qed

lemma books_send:
  assumes "distinct (map fst (avatars s))"
  shows "wpE (send_startup p sid) (\<lambda>_ t. books sid j t = boxed sid p j (avatars s) s) (\<lambda>_ _. False) s"
  using books_send_loop [OF refl assms] by (simp add: send_startup_def wp)


section \<open>One report\<close>

text \<open>The frames a report sends to every worker of the startup.\<close>

fun tripped_frames :: "real \<Rightarrow> real \<Rightarrow> threshold option \<Rightarrow> json list" where
  "tripped_frames spent cap None = []"
| "tripped_frames spent cap (Some Pause100) = [pause_json]"
| "tripped_frames spent cap (Some th) =
     [warn_json (max (cap - spent) 0) (if 0 < cap then f64_as_u32 (spent / cap * 100) else 0)]"

lemma tripped_frames_facts:
  "length (tripped_frames spent cap th) \<le> 1"
  "pause_json \<in> set (tripped_frames spent cap th) \<longleftrightarrow> th = Some Pause100"
  by (induction spent cap th rule: tripped_frames.induct) (auto simp: pause_json_def warn_json_def)

lemma books_booked:
  assumes "faults s = []" and "startup_row (db s) sid = Some su"
  shows "wpE (apply_report env sid a tid m i out cost)
    (\<lambda>v t. v = (su_spent su + report_cost m i out cost, su_cap su,
        newly_crossed (su_spent su) (su_spent su + report_cost m i out cost) (su_cap su)) \<and>
      books sid j t = ([], avatars s, Some (su\<lparr>su_spent := su_spent su + report_cost m i out cost\<rparr>),
        map_of (out_bus s) j))
    (\<lambda>_ _. False) s"
  using assms
  by (auto simp: apply_report_def Let_def wp record_budget_event_def books_def startup_row_simps startup_row_upd
      split: option.split)

lemma books_threshold:
  assumes "faults s = []" and "distinct (map fst (avatars s))"
    and "map_of (out_bus s) j = Some ch" and "ch_is_open ch" and "length (ch_queue ch) < OUT_BUS_CAP"
  shows "wpE (act_on_threshold env sid spent cap th :: (sys, 'b, unit) sem)
    (\<lambda>_ t. books sid j t = (faults s, avatars s, startup_row (db s) sid,
       Some (ch\<lparr>ch_queue := ch_queue ch @
         (if works_for sid (avatars s) j
          then tripped_frames spent cap (Some th) else [])\<rparr>))) (\<lambda>_ _. False) s"
proof -
  let ?goal = "\<lambda>t. books sid j t = (faults s, avatars s, startup_row (db s) sid,
       Some (ch\<lparr>ch_queue := ch_queue ch @
         (if works_for sid (avatars s) j
          then tripped_frames spent cap (Some th) else [])\<rparr>))"
  have send: "wpE (send_startup p sid :: (sys, 'b, nat) sem) (\<lambda>_. ?goal) (\<lambda>_. ?goal) u"
    if "books sid j u = books sid j s" and "tripped_frames spent cap (Some th) = [p]" for p u
  proof -
    have "boxed sid p j (avatars u) u = boxed sid p j (avatars s) s" and "avatars u = avatars s"
      using that(1) by (auto simp: books_def boxed_def)
    moreover have "boxed sid p j (avatars s) s = (faults s, avatars s, startup_row (db s) sid,
       Some (ch\<lparr>ch_queue := ch_queue ch @
         (if works_for sid (avatars s) j then [p] else [])\<rparr>))"
      using assms by (simp add: boxed_def try_send_def)
    ultimately show ?thesis
      using books_send [of u p sid j] assms(2) that(2) by (auto elim!: wp_mono)
  qed
  have frames: "wpE (case th of
        Pause100 \<Rightarrow> ignoreE (pause_startup sid :: (sys, 'b, nat) sem)
      | _ \<Rightarrow> ignoreE (warn_startup sid (max (cap - spent) 0)
          (if 0 < cap then f64_as_u32 (spent / cap * 100) else 0) :: (sys, 'b, nat) sem))
      (\<lambda>_. ?goal) (\<lambda>_ _. False) u" if "books sid j u = books sid j s" for u
    using send [OF that] by (cases th) (simp_all add: wp_ignore pause_startup_def warn_startup_def)
  show ?thesis
    unfolding act_on_threshold_def wp_then
    by (rule wp_mono [OF books_events(1) [OF assms(1), where sid = sid and j = j]]) (simp_all only: frames)
qed

lemma books_report:
  assumes "faults s = []" and "distinct (map fst (avatars s))"
    and "works_for sid (avatars s) a"
    and "startup_row (db s) sid = Some su"
    and "map_of (out_bus s) j = Some ch" and "ch_is_open ch" and "length (ch_queue ch) < OUT_BUS_CAP"
  shows "wpE (handle_report_budget env a i out m tid cost)
    (\<lambda>_ t. books sid j t = ([], avatars s, Some (su\<lparr>su_spent := su_spent su + report_cost m i out cost\<rparr>),
       Some (ch\<lparr>ch_queue := ch_queue ch @
         (if works_for sid (avatars s) j
          then tripped_frames (su_spent su + report_cost m i out cost) (su_cap su)
            (newly_crossed (su_spent su) (su_spent su + report_cost m i out cost) (su_cap su))
          else [])\<rparr>)))
    (\<lambda>_ _. False) s"
proof -
  obtain av where av: "map_of (avatars s) a = Some av" "av_startup_id av = sid" using assms(3) by (auto simp: works_for_def)
  let ?n = "su_spent su + report_cost m i out cost"
  let ?th = "newly_crossed (su_spent su) ?n (su_cap su)"
  let ?new = "([], avatars s, Some (su\<lparr>su_spent := ?n\<rparr>), Some (ch\<lparr>ch_queue := ch_queue ch @
         (if works_for sid (avatars s) j
          then tripped_frames ?n (su_cap su) ?th else [])\<rparr>))"
  have after: "wpE (case ?th of None \<Rightarrow> ret () | Some th \<Rightarrow> act_on_threshold env sid ?n (su_cap su) th)
      (\<lambda>_ t. books sid j t = ?new) (\<lambda>_ _. False) u"
    if "books sid j u = ([], avatars s, Some (su\<lparr>su_spent := ?n\<rparr>), Some ch)" for u
  proof (cases ?th)
    case None
    with that show ?thesis by (simp add: wp)
  next
    case (Some th)
    have "faults u = []" "avatars u = avatars s" "startup_row (db u) sid = Some (su\<lparr>su_spent := ?n\<rparr>)"
      "map_of (out_bus u) j = Some ch"
      using that by (simp_all add: books_def)
    then show ?thesis unfolding Some option.case
      by (intro wp_mono [OF books_threshold [of u j ch env sid ?n "su_cap su" th]]) (simp_all add: assms Some)
  qed
  have variance: "wpE (report_variance env sid tid cost) (\<lambda>_ t. wpE
        (case ?th of None \<Rightarrow> ret () | Some th \<Rightarrow> act_on_threshold env sid ?n (su_cap su) th)
        (\<lambda>_ t. books sid j t = ?new) (\<lambda>_ _. False) t) (\<lambda>_ _. False) u"
    if "books sid j u = ([], avatars s, Some (su\<lparr>su_spent := ?n\<rparr>), Some ch)" for u
    using that by (intro wp_mono [OF books_events(2) [of u env sid tid cost sid j]] after) (simp_all add: books_def)
  have booked: "wpE (apply_report env sid a tid m i out cost)
      (\<lambda>v u. v = (?n, su_cap su, ?th) \<and> wpE (report_variance env sid tid cost) (\<lambda>_ t. wpE
        (case ?th of None \<Rightarrow> ret () | Some th \<Rightarrow> act_on_threshold env sid ?n (su_cap su) th)
        (\<lambda>_ t. books sid j t = ?new) (\<lambda>_ _. False) t) (\<lambda>_ _. False) u) (\<lambda>_ _. False) s"
    using variance by (intro wp_mono [OF books_booked [OF assms(1,4), where j = j]]) (auto simp: assms(5))
  show ?thesis
    unfolding handle_report_budget_def wp_bind wp_asks av option.case wp_try sum.case
    by (rule wp_mono [OF booked]) (simp_all add: wp_then wp_ret prod.case)
qed

section \<open>A run of reports\<close>

text \<open>A report: the agent, the tokens read and written, the model, the task and the cost, the last two
  optional. The loop handles them one after the other.\<close>

type_synonym report = "ident \<times> int \<times> int \<times> string \<times> ident option \<times> real option"

fun cost_of :: "report \<Rightarrow> real" where
  "cost_of (a, i, out, m, tid, cost) = report_cost m i out cost"

definition handle_reports :: "env \<Rightarrow> report list \<Rightarrow> (sys, 'e, unit) sem" where
  "handle_reports env rs = forE rs (\<lambda>(a, i, out, m, tid, cost).
     thenE (handle_report_budget env a i out m tid cost) (ret ()))"

lemma paused_once_from_here:
  assumes "c = su_spent su" and "0 \<le> x" and "0 \<le> y"
  shows "(if newly_crossed c (c + x) cap = Some Pause100 then 1 else 0) +
      (if 0 < cap \<and> c + x < cap \<and> cap \<le> c + x + y then 1 else 0) =
    (if 0 < cap \<and> c < cap \<and> cap \<le> c + (x + y) then 1 else (0 :: nat))"
  using assms by (auto simp: newly_crossed_pause)

lemma pauses_in_frames:
  "length (filter (\<lambda>f. f = pause_json) (tripped_frames spent cap th)) = (if th = Some Pause100 then 1 else 0)"
  by (induction spent cap th rule: tripped_frames.induct) (auto simp: pause_json_def warn_json_def)

lemma books_run:
  assumes "faults s = []" and "distinct (map fst (avatars s))" and "startup_row (db s) sid = Some su"
    and "\<forall>(a, i, out, m, tid, cost) \<in> set rs. works_for sid (avatars s) a \<and> 0 \<le> i \<and> 0 \<le> out"
    and "map_of (out_bus s) j = Some ch" and "ch_is_open ch"
    and "length (ch_queue ch) + length rs \<le> OUT_BUS_CAP"
  shows "wpE (handle_reports env rs :: (sys, 'e, unit) sem) (\<lambda>_ t. \<exists>fs.
      books sid j t = ([], avatars s, Some (su\<lparr>su_spent := su_spent su + sum_list (map cost_of rs)\<rparr>),
        Some (ch\<lparr>ch_queue := ch_queue ch @ fs\<rparr>)) \<and>
      length (filter (\<lambda>f. f = pause_json) fs) =
        (if works_for sid (avatars s) j \<and> 0 < su_cap su \<and> su_spent su < su_cap su \<and>
            su_cap su \<le> su_spent su + sum_list (map cost_of rs) then 1 else 0))
    (\<lambda>_ _. False) s"
  using assms
proof (induction rs arbitrary: s su ch)
  case Nil
  then show ?case by (auto simp: handle_reports_def wp books_def intro!: exI [of _ "[]"])
next
  case (Cons r rs)
  obtain a i out m tid cost where r: "r = (a, i, out, m, tid, cost)" by (cases r)
  let ?x = "report_cost m i out cost" and ?total = "sum_list (map cost_of rs)"
  let ?su = "su\<lparr>su_spent := su_spent su + ?x\<rparr>"
  let ?fs = "if works_for sid (avatars s) j then tripped_frames (su_spent su + ?x) (su_cap su)
      (newly_crossed (su_spent su) (su_spent su + ?x) (su_cap su)) else []"
  let ?ch = "ch\<lparr>ch_queue := ch_queue ch @ ?fs\<rparr>"
  have short: "length ?fs \<le> 1" using tripped_frames_facts(1) by simp
  have x: "0 \<le> ?x" using Cons.prems(4) r by (auto intro: report_cost_nonneg)
  have "0 \<le> cost_of q" if "q \<in> set rs" for q
    using bspec [OF Cons.prems(4), of q] that by (cases q) (simp add: report_cost_nonneg)
  then have total_nonneg: "0 \<le> ?total" by (intro sum_list_nonneg) auto
  let ?Q = "\<lambda>t. \<exists>fs.
      books sid j t = ([], avatars s, Some (su\<lparr>su_spent := su_spent su + sum_list (map cost_of (r # rs))\<rparr>),
        Some (ch\<lparr>ch_queue := ch_queue ch @ fs\<rparr>)) \<and>
      length (filter (\<lambda>f. f = pause_json) fs) =
        (if works_for sid (avatars s) j \<and> 0 < su_cap su \<and> su_spent su < su_cap su \<and>
            su_cap su \<le> su_spent su + sum_list (map cost_of (r # rs)) then 1 else 0)"
  have later: "wpE (handle_reports env rs :: (sys, 'e, unit) sem) (\<lambda>_. ?Q) (\<lambda>_ _. False) t"
    if t: "books sid j t = ([], avatars s, Some ?su, Some ?ch)" for t
  proof -
    have parts: "faults t = []" "avatars t = avatars s" "startup_row (db t) sid = Some ?su"
      "map_of (out_bus t) j = Some ?ch"
      using t by (simp_all add: books_def)
    have "?Q u" if "books sid j u = ([], avatars s, Some (?su\<lparr>su_spent := su_spent ?su + ?total\<rparr>),
          Some (?ch\<lparr>ch_queue := ch_queue ?ch @ fs\<rparr>))"
        and "length (filter (\<lambda>f. f = pause_json) fs) = (if works_for sid (avatars s) j \<and> 0 < su_cap ?su \<and>
          su_spent ?su < su_cap ?su \<and> su_cap ?su \<le> su_spent ?su + ?total then 1 else 0)" for u fs
    proof (intro exI [of _ "?fs @ fs"] conjI)
      show "books sid j u = ([], avatars s, Some (su\<lparr>su_spent := su_spent su + sum_list (map cost_of (r # rs))\<rparr>),
          Some (ch\<lparr>ch_queue := ch_queue ch @ ?fs @ fs\<rparr>))"
        using that(1) by (simp add: r add.assoc)
      show "length (filter (\<lambda>f. f = pause_json) (?fs @ fs)) =
        (if works_for sid (avatars s) j \<and> 0 < su_cap su \<and> su_spent su < su_cap su \<and>
            su_cap su \<le> su_spent su + sum_list (map cost_of (r # rs)) then 1 else 0)"
      proof (cases "works_for sid (avatars s) j")
        case True
        have "length (filter (\<lambda>f. f = pause_json) (?fs @ fs)) =
            length (filter (\<lambda>f. f = pause_json) ?fs) + length (filter (\<lambda>f. f = pause_json) fs)"
          by simp
        also have "\<dots> = (if newly_crossed (su_spent su) (su_spent su + ?x) (su_cap su) = Some Pause100 then 1 else 0) +
            (if 0 < su_cap su \<and> su_spent su + ?x < su_cap su \<and>
              su_cap su \<le> su_spent su + ?x + ?total then 1 else 0)"
          unfolding that(2) by (simp only: True if_True pauses_in_frames) simp
        also note paused_once_from_here [OF refl x total_nonneg]
        finally show ?thesis by (simp add: True r)
      next
        case False
        then show ?thesis using that(2) by simp
      qed
    qed
    then show ?thesis
      using Cons.prems(2,4,6,7) short
      by (intro wp_mono [OF Cons.IH [of t ?su ?ch]]) (auto simp: parts)
  qed
  have report: "wpE (handle_report_budget env a i out m tid cost)
      (\<lambda>_ t. books sid j t = ([], avatars s, Some ?su, Some ?ch)) (\<lambda>_ _. False) s"
    using Cons.prems r by (intro books_report) auto
  show ?case
    unfolding handle_reports_def forE.simps r prod.case wp_then wp_ret
    by (rule wp_mono [OF report]) (use later in \<open>simp_all add: handle_reports_def r\<close>)
qed

section \<open>Properties\<close>

text \<open>C19: A startup is paused exactly once, when its cap is exhausted. Over any run of budget
  reports of its workers, without SQL failures and with room in the channels, the spend of the row grows
  by the costs of the reports, and into the open channel of each agent goes exactly one pause frame if
  the agent works for the startup and the run takes the spend from below a positive cap to the cap or
  beyond; otherwise, and to the agents of every other startup, no pause is sent.\<close>
theorem paused_exactly_when_exhausted:
  assumes "faults s = []" and "distinct (map fst (avatars s))" and "startup_row (db s) sid = Some su"
    and "\<forall>(a, i, out, m, tid, cost) \<in> set rs. works_for sid (avatars s) a \<and> 0 \<le> i \<and> 0 \<le> out"
    and "map_of (out_bus s) j = Some ch" and "ch_is_open ch"
    and "length (ch_queue ch) + length rs \<le> OUT_BUS_CAP"
    and "handle_reports env rs s = (res, t)"
  shows "res = Inr () \<and>
    startup_row (db t) sid = Some (su\<lparr>su_spent := su_spent su + sum_list (map cost_of rs)\<rparr>) \<and>
    (\<exists>fs. map_of (out_bus t) j = Some (ch\<lparr>ch_queue := ch_queue ch @ fs\<rparr>) \<and>
      length (filter (\<lambda>f. f = pause_json) fs) =
        (if works_for sid (avatars s) j \<and> 0 < su_cap su \<and> su_spent su < su_cap su \<and>
            su_cap su \<le> su_spent su + sum_list (map cost_of rs) then 1 else 0))"
  using wpE_run [OF books_run [OF assms(1-7)] assms(8)] by (auto simp: books_def)

text \<open>Two engineers report 2, 2 and 3 dollars on a startup that has spent 7 of 10: its founder is told to
  pause once.\<close>

definition sample_reports :: "report list" where
  "sample_reports = [(''e1'', 10, 10, ''gpt-4o'', None, Some 2), (''e2'', 10, 10, ''gpt-4o'', None, Some 2),
     (''e1'', 10, 10, ''gpt-4o'', None, Some 3)]"

theorem paused_exactly_when_exhausted_witness:
  "\<exists>t. handle_reports sample_env sample_reports sample_sys = (Inr () :: string + unit, t) \<and>
     map_option su_spent (startup_row (db t) ''s1'') = Some 14 \<and>
     (\<exists>fs. map_option ch_queue (map_of (out_bus t) ''m1'') = Some fs \<and>
       length (filter (\<lambda>f. f = pause_json) fs) = 1)"
proof -
  obtain res t where t: "handle_reports sample_env sample_reports sample_sys = (res :: string + unit, t)"
    by (cases "handle_reports sample_env sample_reports sample_sys :: (string + unit) \<times> sys") auto
  have "res = Inr () \<and> startup_row (db t) ''s1'' = Some (sample_startup\<lparr>su_spent := su_spent sample_startup +
      sum_list (map cost_of sample_reports)\<rparr>) \<and>
    (\<exists>fs. map_of (out_bus t) ''m1'' = Some (\<lparr> ch_queue = [], ch_is_open = True \<rparr>\<lparr>ch_queue := [] @ fs\<rparr>) \<and>
      length (filter (\<lambda>f. f = pause_json) fs) = 1)"
    using paused_exactly_when_exhausted [OF _ _ _ _ _ _ _ t, of "''s1''" sample_startup "''m1''"
      "\<lparr> ch_queue = [], ch_is_open = True \<rparr>"]
    by (simp add: sample_rows sample_reports_def works_for_def OUT_BUS_CAP_def)
       (simp add: sample_sys_def sample_avatar_def sample_startup_def report_cost_def)
  then show ?thesis using t by (auto simp: sample_reports_def sample_startup_def report_cost_def)
qed

end
