(* ===== verification/Sessions.thy ===== *)
theory Sessions
  imports Protocol ServerInv ServerSample
begin

text \<open>
  Two connections of one agent: the order in which the sessions of \<open>http.rs\<close> tell the loop that one has
  opened and another has closed decides whether the agent still has a channel.
\<close>

section \<open>The loop on a server\<close>


lemma takes_register: "loop_takes h (RegisterWorker i tx) s =
    (None, set_world (snd ((register_worker i tx :: (sys, panic, unit) sem) (world s))) s)"
  by (simp add: loop_takes_def thenE_def bindE_def ret_def register_worker_def modifyE_def)

lemma takes_unregister: "loop_takes h (UnregisterWorker i) s =
    (None, set_world (snd ((unregister_worker i :: (sys, panic, unit) sem) (world s))) s)"
  by (simp add: loop_takes_def thenE_def bindE_def ret_def unregister_worker_def modifyE_def)

lemma hello_registers:
  assumes "worker_hello h txt s = (Inr new, t)" and "wk_agent new = Some i" and "sr_up s"
  shows "sr_queue t = sr_queue s @ [RegisterWorker i \<lparr> ch_queue = [], ch_is_open = True \<rparr>] \<and>
    sr_up t \<and> sr_stuck t = sr_stuck s"
  using assms
  by (auto simp: worker_hello_def Let_def bindE_def thenE_def asksE_def mapErr_def on_world_def send_cmd_def
      ret_def throw_def split: option.splits prod.splits sum.splits)

lemma gone_unregisters:
  assumes "wk_agent old = Some i" and "sr_up s"
  shows "worker_step h ok WorkerGone old s = (Inr (old\<lparr>wk_agent := None\<rparr>), s\<lparr>sr_queue := sr_queue s @ [UnregisterWorker i]\<rparr>)"
  using assms by (simp add: worker_step_def leave_worker_def thenE_def bindE_def send_cmd_def ret_def)


text \<open>In the other order the new session keeps its channel.\<close>

lemma early_unregister_keeps_the_new_session:
  assumes "sr_up s" and "\<not> sr_stuck s" and "sr_queue s = []"
    and "wk_agent old = Some i" and "worker_step h ok WorkerGone old s = (r, s1)"
    and "worker_hello h txt s1 = (Inr new, s2)" and "wk_agent new = Some i"
  shows "map_of (out_bus (world (drain h (sr_queue s2) (s2\<lparr>sr_queue := []\<rparr>)))) i =
    Some \<lparr> ch_queue = [], ch_is_open = True \<rparr>"
proof -
  have s1: "s1 = s\<lparr>sr_queue := [UnregisterWorker i]\<rparr>" using assms(3,5) by (simp add: gone_unregisters [OF assms(4,1)])
  have "sr_queue s2 = [UnregisterWorker i, RegisterWorker i \<lparr> ch_queue = [], ch_is_open = True \<rparr>]"
    "sr_up s2" "\<not> sr_stuck s2"
    using hello_registers [OF assms(6,7)] assms(1,2) by (simp_all add: s1)
  then show ?thesis
    by (simp add: takes_register takes_unregister register_worker_def unregister_worker_def modifyE_def Let_def update_conv')
qed

section \<open>Properties\<close>




end
