(* ===== verification/Restarts.thy ===== *)
theory Restarts
  imports Process Keeps
begin

text \<open>
  What a restart forgets: \<open>main.rs\<close> starts the loop on an empty view and the default layout, and nothing
  reads agents or rooms back from the database.
\<close>

section \<open>A town without avatars\<close>

text \<open>What the database records of a task that the dispatch goes by.\<close>

definition task_core :: "task \<Rightarrow> ident \<times> ident \<times> string \<times> ident option \<times> int" where
  "task_core t = (t_id t, t_startup t, t_status t, t_assignee t, t_review_round t)"

definition deserted :: "database \<Rightarrow> sys \<Rightarrow> bool" where
  "deserted d s \<longleftrightarrow> avatars s = [] \<and> paths s = [] \<and> layout s = default_town \<and>
     map task_core (d_tasks (db s)) = map task_core (d_tasks d) \<and> d_agents (db s) = d_agents d"

lemma deserted_simps [simp]:
  "deserted d (sql_pop s) = deserted d s" "deserted d (s\<lparr>uuid_ctr := n\<rparr>) = deserted d s"
  "deserted d (s\<lparr>frames := fr\<rparr>) = deserted d s" "deserted d (s\<lparr>out_bus := b\<rparr>) = deserted d s"
  "deserted d (s\<lparr>tick_seq := q\<rparr>) = deserted d s" "deserted d (s\<lparr>catalog := c\<rparr>) = deserted d s"
  by (simp_all add: deserted_def)

lemma deserted_db:
  "deserted d s \<Longrightarrow> map task_core (d_tasks e) = map task_core (d_tasks (db s)) \<Longrightarrow> d_agents e = d_agents (db s) \<Longrightarrow>
     deserted d (s\<lparr>db := e\<rparr>)"
  by (simp add: deserted_def)

lemma nobody_there: "deserted d s \<Longrightarrow> map_of (avatars s) i = None" "deserted d s \<Longrightarrow> avatars s = []"
  by (simp_all add: deserted_def)

text \<open>Every pass of the tick: nothing is dispatched, stolen or recovered, an overdue task is only announced.\<close>

lemma deserted_dispatch: "pres (deserted d) (countE qs (dispatch_one env spw))"
proof -
  have "wpE (dispatch_one env spw q) (\<lambda>_. deserted d) (\<lambda>_. deserted d) s" if "deserted d s" for q s
    using that by (simp add: dispatch_one_def wp nobody_there)
  then show ?thesis unfolding leads_def by (intro allI impI wp_countE)
qed

lemma deserted_query: "pres (deserted d) (sql_query f)"
  by (simp add: leads_def wp deserted_db)

lemma deserted_emit: "pres (deserted d) (emit_system_event env su k pl sv)"
  by (auto simp: leads_def emit_system_event_def insert_system_event_def wp deserted_db split: option.split)

lemma deserted_notified:
  "pres (deserted d) (sql_exec (\<lambda>s. upd_task i (\<lambda>t. t\<lparr>t_deadline_notified_at := Some n\<rparr>) (db s)))"
proof -
  have "map task_core (d_tasks (upd_task i (\<lambda>t. t\<lparr>t_deadline_notified_at := Some n\<rparr>) e)) = map task_core (d_tasks e)" for e
    by (simp add: upd_task_def upd_tasks_def update_rows_def task_core_def comp_def if_distrib cong: if_cong)
  then show ?thesis by (simp add: leads_def wp deserted_db upd_task_def upd_tasks_def)
qed

lemma deserted_deadline: "pres (deserted d) (deadline_scan env)"
  unfolding deadline_scan_def by (intro pres deserted_query deserted_emit deserted_notified)

lemma deserted_steal: "pres (deserted d) (auto_steal_pass env)"
proof -
  have "wpE (steal_one env sid x) (\<lambda>_. deserted d) (\<lambda>_. deserted d) s" if "deserted d s" for sid x s
    using that by (simp add: steal_one_def case_prod_beta role_of_def wp nobody_there idle_peer_def deserted_db split: option.split)
  then have "pres (deserted d) (steal_one env sid x)" for sid x by (simp add: leads_def)
  then show ?thesis unfolding auto_steal_pass_def by (intro pres deserted_query)
qed

lemma deserted_recovery: "pres (deserted d) (auto_recovery_pass env)"
proof -
  have "wpE (recover_one env sid x) (\<lambda>_. deserted d) (\<lambda>_. deserted d) s" if "deserted d s" for sid x s
    using that by (simp add: recover_one_def case_prod_beta role_of_def wp nobody_there idle_peer_def deserted_db split: option.split)
  then have "pres (deserted d) (recover_one env sid x)" for sid x by (simp add: leads_def)
  then show ?thesis unfolding auto_recovery_pass_def by (intro pres deserted_query)
qed

lemma deserted_tick: "pres (deserted d) (tick env spw)"
  unfolding tick_def
  by (intro pres deserted_query deserted_dispatch deserted_deadline deserted_steal deserted_recovery)

section \<open>The commands that bring nobody\<close>

fun brings_nobody :: "cmd \<Rightarrow> bool" where
  "brings_nobody (InsertAvatars new claim) = False"
| "brings_nobody (HandleConsoleMsg msg identity) = False"
| "brings_nobody c = True"

lemma deserted_worker:
  assumes "deserted d s"
  shows "wpE (worker_dispatch env dec i msg) (\<lambda>_. deserted d) (\<lambda>_. deserted d) s"
proof -
  have none: "map_of (avatars s) i = None" using assms by (rule nobody_there)
  have "mcp_dispatch env i msg s = (Inr (mcp_err (str_or [] (get_str ''corr_id'' msg)) ''unknown_agent''
      ''agent not found in world''), s)"
    using none by (simp add: mcp_dispatch_def bindE_def asksE_def ret_def Let_def)
  moreover have "handle_report_budget env i a b m tid c s = (Inr (err_reason ''unknown_agent'') :: panic + json, s)" for a b m tid c
    using none by (simp add: handle_report_budget_def bindE_def asksE_def ret_def)
  moreover have "do_start_move env i room t s = (Inr NoSuchAgent, s)" for room t
    using none by (simp add: do_start_move_def start_move_def)
  then have "handle_worker_move env i room t s = (Inr (err_reason ''unknown_agent''), s)" for room t
    by (simp add: handle_worker_move_def bindE_def ret_def)
  ultimately show ?thesis
    using assms by (auto simp: worker_dispatch_def wpE_def ret_def split: sum.splits worker_inbound.splits)
qed

lemma deserted_pass: "pres (deserted d) (scheduler_pass env spw)"
proof -
  have "deserted d (snd (scheduler_pass env spw s))" if "deserted d s" for s
  proof -
    have "deserted d (snd (tick env spw s))"
      using leadsD [OF deserted_tick that] by (simp add: wp_snd)
    then show ?thesis
      by (auto simp: scheduler_pass_def split: prod.split sum.split handler_error.split)
  qed
  then show ?thesis by (simp add: leads_def wp_snd)
qed

lemma deserted_loop_cmd:
  assumes "brings_nobody k" and "deserted d s"
  shows "wpE (loop_cmd env spw dec k) (\<lambda>_. deserted d) (\<lambda>_. deserted d) s"
proof (cases k)
  case Tick
  have "pres (deserted d) (announce_arrival e)" for e by (cases e) (simp add: leads_def wp)
  moreover have "pres (deserted d) (modifyE (\<lambda>s. s\<lparr>tick_seq := tick_seq s + 1\<rparr>))"
    by (simp add: leads_def wp)
  moreover have "pres (deserted d) move_avatars" "pres (deserted d) (modifyE refresh_health)"
    by (simp_all add: leads_def wpE_def move_avatars_def deserted_def refresh_health_def modifyE_def)
  moreover have "pres (deserted d) compute_and_emit"
    by (simp add: leads_def compute_and_emit_def wp rooms_of_def nobody_there)
  ultimately have "pres (deserted d) (do_tick env spw)"
    unfolding do_tick_def by (intro pres deserted_pass)
  then show ?thesis using assms(2) by (simp add: Tick wp leads_def)
next
  case (ReleaseSuite sid)
  have "release_suites sid default_town = default_town"
    by (simp add: release_suites_def default_town_def)
  with assms(2) show ?thesis by (simp add: ReleaseSuite wp deserted_def drop_startup_avatars_def)
next
  case (HandleWorkerMsg i msg)
  have "s\<lparr>avatars := amap_upd i f (avatars s)\<rparr> = s" for f using assms(2) by (simp add: deserted_def amap_upd_def)
  then show ?thesis using deserted_worker [OF assms(2)]
    by (auto simp: HandleWorkerMsg touch_def wp intro!: wp_mono)
qed (use assms in \<open>auto simp: wp register_worker_def unregister_worker_def deserted_def amap_upd_def\<close>)

lemma deserted_run:
  assumes "\<forall>k \<in> set cs. brings_nobody k" and "deserted d s"
  shows "wpE (run_loop env spw dec cs) (\<lambda>_. deserted d) (\<lambda>_. deserted d) s"
  using assms
proof (induction cs arbitrary: s)
  case Nil
  then show ?case by (simp add: wp)
next
  case (Cons k cs)
  have "wpE (case r of Stopped \<Rightarrow> ret [] | Reply j \<Rightarrow> bindE (run_loop env spw dec cs) (\<lambda>js. ret (j # js))
      | NoReply \<Rightarrow> run_loop env spw dec cs) (\<lambda>_. deserted d) (\<lambda>_. deserted d) t" if "deserted d t" for r t
    using Cons.IH [OF _ that] Cons.prems(1) that by (cases r) (simp_all add: wp)
  then show ?case
    using Cons.prems by (auto simp: wp_bind intro!: wp_mono [OF deserted_loop_cmd])
qed

section \<open>The boot\<close>

lemma seed_keeps_rows: "keeps (\<lambda>d. (d_tasks d, d_agents d)) (seed_if_empty map_json)"
  unfolding seed_if_empty_def insert_town_def insert_room_def insert_door_def
  by (intro keeps; simp)

lemma deserted_boot:
  assumes "storage_open m (str_or ''cliptown.db'' (map_of (mc_vars m) ''CLIPTOWN_DB'')) = Inr d"
    and "boot h m = Inr p"
  shows "deserted d (world (ap_server p))"
proof -
  obtain s where s: "seed_if_empty (mc_map_json m) (opened m d) = (Inr (), s)"
    "ap_server p = snd ((refresh_catalog h :: (server, unit, unit) sem) (fresh_server m s))"
    using assms by (auto simp: boot_def Let_def split: sum.splits prod.splits option.splits)
  have "d_tasks (db s) = d_tasks d \<and> d_agents (db s) = d_agents d"
    using seed_keeps_rows [of "mc_map_json m"] s(1)
    by (auto simp: keeps_def wpE_def opened_def split: prod.splits dest!: spec [of _ "opened m d"])
  moreover have "world (ap_server p) = restart s"
    by (simp add: s(2) refresh_catalog_def bindE_def asksE_def thenE_def modifyE_def ignoreE_def send_cmd_def
        fresh_server_def world_def new_supervisor_def)
  ultimately show ?thesis by (simp add: deserted_def restart_def)
qed

section \<open>Properties\<close>

text \<open>C39: A restart forgets the town. After a boot on a database, whatever agents, tasks and rooms it holds, and
  until a new startup or an operator's message reaches the loop, whatever workers send, whatever startups
  are dissolved and however often the clock ticks: there is no avatar; no task is dispatched, stolen, recovered or changed in its
  status, assignee or round; every tool call of every agent, one on record too, is refused as coming
  from an unknown agent; and every startup may enter every room of the layout, also those that the
  database keeps private to another one.\<close>
theorem restart_forgets_the_town:
  assumes "storage_open m (str_or ''cliptown.db'' (map_of (mc_vars m) ''CLIPTOWN_DB'')) = Inr d"
    and "boot h m = Inr p" and "\<forall>k \<in> set cs. brings_nobody k"
    and "run_loop env spw dec cs (world (ap_server p)) = (res, t)"
  shows "avatars t = [] \<and>
    map task_core (d_tasks (db t)) = map task_core (d_tasks d) \<and> d_agents (db t) = d_agents d \<and>
    (\<forall>i msg. mcp_dispatch env i msg t = (Inr (mcp_err (str_or [] (get_str ''corr_id'' msg))
       ''unknown_agent'' ''agent not found in world''), t)) \<and>
    (\<forall>r \<in> set (d_rooms d). rm_id r \<in> rd_id ` set (tl_rooms default_town) \<longrightarrow>
       (\<forall>sid. can_enter_layout_room (layout t) sid (rm_id r)))"
proof -
  have t: "deserted d t"
    using wpE_inv [OF deserted_run [OF assms(3) deserted_boot [OF assms(1,2)]] assms(4)] .
  have "can_enter_layout_room default_town sid room" if "room \<in> rd_id ` set (tl_rooms default_town)" for sid room
    using that by (auto simp: can_enter_iff layout_room_def default_town_def find_Some_iff)
  with t show ?thesis
    by (simp add: deserted_def mcp_dispatch_def bindE_def asksE_def ret_def Let_def)
qed

text \<open>The sample installation, with an engineer at work on a task and the first suite private to its
  startup, after a boot, a tick and a tool call.\<close>

definition private_suite :: room_row where
  "private_suite = sample_office\<lparr>rm_id := ''suite_1'', rm_private_to := Some ''s1''\<rparr>"

definition housed_db :: database where
  "housed_db = (db town_sys)\<lparr>d_rooms := [private_suite]\<rparr>"

theorem restart_forgets_the_town_witness:
  "\<exists>p t. boot sample_host (sample_machine housed_db) = Inr p \<and>
     t = snd (run_loop sample_env None sample_decoders [Tick, HandleWorkerMsg ''e1'' (JObj [])] (world (ap_server p))) \<and>
     agent_row (db t) ''e1'' \<noteq> None \<and> avatars t = [] \<and>
     can_enter_layout_room (layout t) ''s2'' ''suite_1'' \<and> rm_private_to private_suite = Some ''s1''"
proof -
  obtain p where p: "boot sample_host (sample_machine housed_db) = Inr p"
    using sample_boots [of housed_db] by (auto simp: housed_db_def)
  let ?cs = "[Tick, HandleWorkerMsg ''e1'' (JObj [])]"
  let ?r = "run_loop sample_env None sample_decoders ?cs (world (ap_server p))"
  have disk: "storage_open (sample_machine housed_db) path = Inr housed_db" for path
    by (simp add: storage_open_def sample_machine_def)
  have quiet: "\<forall>k \<in> set ?cs. brings_nobody k" by simp
  have room: "private_suite \<in> set (d_rooms housed_db)" "rm_id private_suite \<in> rd_id ` set (tl_rooms default_town)"
    "rm_id private_suite = ''suite_1''"
    by (simp_all add: housed_db_def private_suite_def default_town_def)
  have "run_loop sample_env None sample_decoders ?cs (world (ap_server p)) = (fst ?r, snd ?r)" by simp
  note after = restart_forgets_the_town [OF disk p quiet this]
  have "agent_row (db (snd ?r)) ''e1'' = agent_row sample_db ''e1''"
    using after by (simp add: agent_row_def housed_db_def)
  then show ?thesis using p after room by (auto simp: sample_rows private_suite_def)
qed

end
