(* ===== verification/Spec2Isabelle.thy ===== *)
theory Spec2Isabelle
  imports SchedulerInv Budget Locks Presence Sample View SkillsInv DispatchInv WorldInv Answers Keeps Operators
    Delivery TaskTools SchedulerRules SupervisorInv Seed Catalogue Upkeep Startups Protocol Commands Counters Process
    Backups Det Liveness Spending Sessions Restarts
begin

text \<open>
  A verification library for the world server of cliptown, the Rust crate \<open>src/crates/world\<close>: a town in
  which the agents of several startups walk between rooms, talk, work on tasks and are watched by human
  operators.

  \<^bold>\<open>The program.\<close> One loop (\<open>loop_.rs\<close>) owns the in-memory view of the town and takes one command at a time
  from a channel: a tick every second, a message of a worker (an agent's process), a message of an
  operator's console, a registration, a change of the town. A tick moves the avatars (\<open>move_sys.rs\<close> along
  paths of \<open>path.rs\<close>), runs the scheduler (\<open>scheduler.rs\<close>), tells every agent who is in its room
  (\<open>proximity.rs\<close>) and derives the health of the workers (\<open>health.rs\<close>). A worker message is an MCP call, one
  of thirty-two tools of \<open>mcp_dispatch.rs\<close>, a budget report (\<open>cmd_worker.rs\<close>, \<open>budget.rs\<close>) or a direct move. A
  console message goes through \<open>cmd_console.rs\<close>, gated by the operator's role (\<open>auth.rs\<close>) and, for forced
  decisions, by a soft lock (\<open>action_locks.rs\<close>). Everything lasting is in SQLite: tasks with their state
  machine (\<open>task_sm.rs\<close>), agents, startups, messages, skills (\<open>skills.rs\<close>), audit and events (\<open>persist.rs\<close>,
  \<open>emit.rs\<close>). Around the loop runs the HTTP server (\<open>http.rs\<close>): sessions of consoles and workers, the
  creation and dissolution of startups (\<open>api_startups.rs\<close>), tasks from the outside (\<open>api_tasks.rs\<close>), skills
  for a worker (\<open>api_skills.rs\<close>) and MCP over HTTP (\<open>mcp_http.rs\<close>); the supervisor of the worker processes
  (\<open>agent_supervisor.rs\<close>); and background tasks (\<open>execenv_gc.rs\<close>, \<open>backup.rs\<close>, \<open>metrics.rs\<close>,
  \<open>backend_catalog.rs\<close>). \<open>main.rs\<close> reads the configuration (\<open>config.rs\<close>), opens and seeds the database
  (\<open>storage.rs\<close>, \<open>seed.rs\<close>) and starts the loop, the background tasks and the server; the messages on the two
  WebSockets are the types of \<open>protocol/ws_messages.rs\<close>.

  \<^bold>\<open>The model.\<close> The state of the loop is the record \<open>sys\<close> of \<open>World\<close>: the avatars, the paths, the town layout,
  the channel of each connected worker with its queue, the tables as lists of rows, the frames broadcast
  to consoles, the clock, and two oracles: the counter the fresh UUIDs are taken from and the list
  \<open>faults\<close> that says which of the next SQL statements fail. A handler is a state transformer with early
  return, \<open>sem\<close> of \<open>Prelude\<close>, so that every \<open>?\<close> and \<open>return\<close> of the source is a branch, and the changes made
  before it stay. A panic is an error of its own, and so is a handler that awaits a command which never
  returns (\<open>Hangs\<close>): the loop is then stuck (\<open>sr_stuck\<close>). Constraints of the schema (primary and foreign keys,
  \<open>UNIQUE\<close>) are checked by the statement that could violate them; \<open>ON DELETE CASCADE\<close> and \<open>SET NULL\<close> are
  written out in \<open>drop_skill\<close> and \<open>drop_operator\<close>. Numbers are unbounded integers where the code's width is
  not reached or the cast is written out (\<open>as_i32\<close>, \<open>as_u32\<close>, \<open>f64_as_u32\<close>, \<open>wrap_i64\<close>); the tick counter is a
  64-bit word; \<open>f64\<close> is \<open>real\<close>. Strings are UTF-8 byte sequences. The process is the record \<open>server\<close> of
  \<open>Server\<close>: the supervisor with the world it writes to, the environment variables, the commands sent to
  the loop and not yet taken, the operators present. A handler of the HTTP server is a \<open>sem\<close> on it whose
  early returns are responses; a session is a step function on what reaches its socket.

  \<^bold>\<open>The theories\<close>, each with the source it translates: \<open>Prelude\<close> (monad, weakest preconditions, table and map
  lemmas, the locale \<open>invariant_system\<close>), \<open>Json\<close> (\<open>serde_json::Value\<close>), \<open>TaskSM\<close> (\<open>task_sm.rs\<close>), \<open>Permissions\<close>
  (\<open>permissions.rs\<close>, roles of \<open>auth.rs\<close>), \<open>Town\<close> (\<open>seed.rs\<close>), \<open>Paths\<close> (\<open>path.rs\<close>), \<open>Health\<close> (\<open>health.rs\<close>), \<open>MoveSys\<close>
  (\<open>move_sys.rs\<close>), \<open>Presence\<close> (\<open>presence.rs\<close>), \<open>World\<close> (\<open>state.rs\<close>, the schema), \<open>Store\<close> (\<open>persist.rs\<close>, \<open>emit.rs\<close>, the
  invariant \<open>db_inv\<close> of the tables), \<open>Sandbox\<close> (\<open>sandbox.rs\<close>, \<open>self_review.rs\<close>, \<open>agent_tools.rs\<close>), \<open>McpTasks\<close>,
  \<open>McpTools\<close> and \<open>McpSkills\<close> (\<open>mcp_dispatch.rs\<close>), \<open>Scheduler\<close> (\<open>scheduler.rs\<close>), \<open>Budget\<close> (\<open>budget.rs\<close>), \<open>Locks\<close>
  (\<open>action_locks.rs\<close>), \<open>View\<close> (\<open>view.rs\<close>), \<open>Skills\<close> (\<open>skills.rs\<close>), \<open>CmdWorker\<close> (\<open>cmd_worker.rs\<close>), \<open>CmdConsole\<close>
  (\<open>cmd_console.rs\<close>), \<open>WorldLoop\<close> (\<open>loop_.rs\<close>, \<open>proximity.rs\<close>), \<open>Auth\<close> (\<open>auth.rs\<close>), \<open>Seed\<close> (the seeding of
  \<open>seed.rs\<close>, the start in \<open>main.rs\<close>), \<open>Supervisor\<close> (\<open>agent_supervisor.rs\<close>), \<open>Server\<close> (\<open>api_startups.rs\<close>), \<open>Api\<close>
  (\<open>api_tasks.rs\<close>, \<open>api_skills.rs\<close>, \<open>patch_startup\<close>), \<open>McpHttp\<close> (\<open>mcp_http.rs\<close>), \<open>Http\<close> (\<open>http.rs\<close>), \<open>Upkeep\<close>
  (\<open>backend_catalog.rs\<close>, \<open>metrics.rs\<close>, \<open>execenv_gc.rs\<close>, \<open>backup.rs\<close>), \<open>Protocol\<close> (\<open>protocol/ws_messages.rs\<close>:
  the readers of the messages a worker and a console send, and of those a worker receives), \<open>Commands\<close> (the
  command runner of \<open>agent_tools.rs\<close>), \<open>Counters\<close> (the counters of \<open>metrics.rs\<close> with their increments and the
  page), \<open>Process\<close> (\<open>config.rs\<close>, \<open>storage.rs\<close>, the boot and the background tasks of \<open>main.rs\<close> and \<open>loop_.rs\<close>),
  \<open>Backups\<close> (the directory of the backup task), \<open>Det\<close> (\<open>det.rs\<close>). \<open>Spending\<close>, \<open>Sessions\<close> and \<open>Restarts\<close> hold
  properties of several components: runs of budget reports, two connections of one agent, a restart. \<open>Sample\<close> and \<open>ServerSample\<close> are the example
  world and server of the witnesses.

  \<^bold>\<open>What is proved.\<close> Invariants: the locale \<open>plain_invariant\<close> (\<open>TaskInv\<close>) proves once what reads, sends and log
  entries cannot disturb; \<open>TaskKept\<close> shows that every task tool keeps \<open>db_inv\<close> and moves tasks along
  \<open>task_sm::next\<close>, \<open>SchedulerInv\<close> the same for a tick, \<open>SkillsInv\<close> the skill tables, \<open>DispatchInv\<close> all tools,
  \<open>WorldInv\<close> every command and every run of the world (relation \<open>world_step\<close>). \<open>ServerInv\<close> lifts this to the
  whole process (relation \<open>server_step\<close>, locale \<open>forward\<close> of computations that stay within a preorder): what a
  handler has written still holds when the loop takes the command it has sent. \<open>SupervisorInv\<close> treats the
  watch loops and dissolves, interleaved lock by lock, \<open>Startups\<close> the creation of startups and tasks,
  \<open>Catalogue\<close> the MCP front end. \<open>Answers\<close> shows that nothing panics, and that only a command which never
  ends gets the loop stuck. \<open>Locks\<close> follows a soft lock through the steps of all operators. \<open>Keeps\<close> and \<open>Operators\<close>
  show what a command leaves alone, by the role of its sender (locale \<open>aloof\<close>). \<open>TaskTools\<close>,
  \<open>SchedulerRules\<close> and \<open>Delivery\<close> read off successful runs what a tool has checked, when a task is
  dispatched and who receives what. \<open>Liveness\<close> composes the gates, the loop over the queue and the later
  passes of a tick: no agent that could work stays idle. \<open>Protocol\<close> shows once, for
  every property of the channels that protocol frames keep (locale \<open>bus_invariant\<close>), that the whole loop keeps it: with
  one interpretation a worker's channel holds only messages of the protocol, with another an agent without
  a channel gets none unless it connects, on which \<open>Sessions\<close> rests; \<open>Process\<close> shows that all invariants hold over crashes and
  reboots (relation \<open>life_step\<close>), \<open>Restarts\<close> what a boot forgets, \<open>Counters\<close> that the page counts exactly,
  \<open>Spending\<close> that a run of reports pauses its startup once, \<open>Backups\<close> what rotation leaves whatever fails, and
  \<open>Commands\<close> what the time limit of a command does not do. The component theories end with the functional properties of their
  operations; the properties below span components.

  \<^bold>\<open>Bounds.\<close> No operation of the model needs fuel: the loops of the source run over collected lists, the
  watch loops are steps, and the recursion of the chunker, of the UTF-8 scanners and of the number printers
  has a termination proof. A command that never ends is a \<open>run_command\<close> with the value \<open>None\<close>. \<open>dfs_astar\<close> of \<open>Paths\<close>, the search the witnesses use in place of A*, takes a depth; it is no model
  of the crate.

  \<^bold>\<open>Parameters\<close> (records \<open>env\<close> and \<open>host\<close>, and arguments): the A* of the crate \<open>pathfinding\<close> with its documented
  contract (\<open>astar_contract\<close>: a path returned is a walk from the start to the goal), the file system,
  Unicode NFC, UUIDs, SHA-256, the JSON and TOML parsers and the JSON printer, the texts of SQL, \<open>Debug\<close> and
  parse error messages, the SQLite driver with its migrations, what a child process
  writes and when it closes its streams and exits (\<open>e_process\<close>), the date and
  the printer of \<open>f64\<close>. The world loop takes the deserializers of the message types as an argument, so that
  what is proved of it holds for any; \<open>Protocol\<close> defines the derived ones.

  \<^bold>\<open>Not modelled.\<close> The axum framework, the sockets, the watch and broadcast channels (a session is told what
  they deliver), the intervals of the timers (a background task may run at any moment), the log lines and
  traces; the positional array form in which the derived deserializers would also take a message, the
  serializer of the console's frames and the TypeScript export; the production sources of time and randomness
  in \<open>det.rs\<close>; the unit tests inside the source files; the directory that \<open>create_startup\<close> makes for a
  workspace. A handler is atomic: within one command, or one request, the
  clock stands still and nothing else writes the database; between them anything of \<open>server_step\<close> may
  happen. In \<open>delete_startup\<close> the five seconds of grace pass within the request; the interleavings of a
  dissolve with other events are those of \<open>sup_step\<close>. A failing statement leaves the database as it was.
\<close>

section \<open>The example world\<close>

lemma sample_sound: "db_inv sample_db" "avatars_ok sample_sys" "skill_inv sample_db"
  "path_finding sample_env"
proof -
  show "db_inv sample_db"
    by (simp add: db_inv_def task_ok_def has_worker_def sample_defs startup_of_agent_def
        startup_of_task_def agent_row_def task_row_def parse_status_def MAX_REVIEW_ROUNDS_def)
  show "avatars_ok sample_sys"
    by (simp add: avatars_ok_def avatar_ids_def sample_defs startup_of_agent_def agent_row_def)
  show "skill_inv sample_db"
    by (simp add: skill_inv_def skills_ok_def links_ok_def files_ok_def log_ok_def numbered_def)
  show "path_finding sample_env"
    by (simp add: path_finding_def sample_env_contract)
qed

lemma sample_commands: "commands_end sample_env"
  by (simp add: commands_end_def sample_env_def tiny_env_def ends_def)

section \<open>Every run of the world\<close>

text \<open>C1: In every state the world can reach, by whatever commands of workers and operators, clock
  ticks, lock collections and failing statements, every task has a known status, a review round within
  the limit, an assignee and a parent of its own startup, and a worker whenever it is in progress or
  under review; and every avatar but the operator's own, \<open>__operator__\<close>, stands for an agent of its
  startup.\<close>
theorem world_stays_sound:
  assumes "db_inv (db s)" and "avatars_ok s" and "(world_step env spw dec)\<^sup>*\<^sup>* s t"
  shows "db_inv (db t) \<and> avatars_ok t"
  using world_run [OF assms] by blast

lemma sample_step:
  "(world_step env spw dec)\<^sup>*\<^sup>* sample_sys
     (snd (loop_cmd env spw dec (HandleConsoleMsg j idn) sample_sys))"
  by (rule r_into_rtranclp, rule world_step.command) simp

theorem world_stays_sound_witness:
  "db_inv (db (snd (loop_cmd sample_env None sample_decoders
     (HandleConsoleMsg JNull \<lparr> oi_id = ''o1'', oi_name = ''Ada'', oi_role = RAdmin \<rparr>) sample_sys)))"
  using world_stays_sound [OF _ _ sample_step] by (simp add: sample_sound)

section \<open>Every run of the server\<close>

text \<open>C2: The same holds of the whole server: whatever requests it serves, in whatever order console and
  worker sessions, the supervisor, the ticker and the loop take their turns, and whichever statements
  fail, the tables and the avatars stay sound (the operator's own avatar stands for no agent), and every
  avatar still on its way to the loop stands for an agent of its startup. A task that exists stays, and its
  status moves only by transitions of \<open>task_sm::next\<close> and by two moves the scheduler makes past it: from
  \<open>in_progress\<close> back to \<open>queued\<close> when a hand-over fails, and from \<open>changes_requested\<close> to \<open>queued\<close> in an
  automatic recovery. Requests that create a task over HTTP are taken with a parent of the task's own
  startup only (\<open>fits\<close>): with a foreign one the tables do not stay sound (\<open>foreign_parent_is_accepted\<close>).\<close>
theorem server_stays_sound:
  assumes "db_inv (db (world s))" and "avatars_ok (world s)" and "sr_queue s = []"
    and "(server_step h)\<^sup>*\<^sup>* s t"
  shows "db_inv (db (world t)) \<and> avatars_ok (world t) \<and>
    tasks_evolve sched_move (db (world s)) (db (world t)) \<and>
    (\<forall>new claim. InsertAvatars new claim \<in> set (sr_queue t) \<longrightarrow> known_avatars new (world t))"
  using server_run [OF assms] unfolding server_inv_def world_inv_def by fastforce

theorem server_stays_sound_witness:
  "db_inv (db (world (snd (serve sample_host (DeleteStartupRequest admin_headers ''s1'') sample_server))))"
proof -
  have "db_inv (db (world sample_server))" "avatars_ok (world sample_server)"
    using sample_sound(1,2) by (simp_all add: town_sys_def db_inv_def avatars_ok_def avatar_ids_def
        startup_of_agent_def [abs_def] startup_of_task_def [abs_def] agent_row_def task_row_def)
  moreover have "(server_step sample_host)\<^sup>*\<^sup>* sample_server
      (snd (serve sample_host (DeleteStartupRequest admin_headers ''s1'') sample_server))"
    by (rule r_into_rtranclp, rule server_step.request) simp
  ultimately show ?thesis using server_stays_sound [of sample_server] by simp
qed

text \<open>C4: A task that is done or failed keeps its row, its status and its startup in every later state
  of the world.\<close>
theorem finished_tasks_stay_finished:
  assumes "db_inv (db s)" and "avatars_ok s" and "(world_step env spw dec)\<^sup>*\<^sup>* s t"
    and "task_row (db s) i = Some u" and "t_status u = ''done'' \<or> t_status u = ''failed''"
  shows "\<exists>v. task_row (db t) i = Some v \<and> t_status v = t_status u \<and> t_startup v = t_startup u"
proof -
  have w: "db_inv (db t)" "tasks_evolve sched_move (db s) (db t)"
    using world_run [OF assms(1-3)] by blast+
  then obtain v where v: "task_row (db t) i = Some v" "task_evolves sched_move u v"
    using tasks_evolve_row [OF w(2) _ assms(4)] by (auto simp: db_inv_def)
  have "t_status v = t_status u"
    using v(2) assms(5) sched_move_final
    by (auto simp: task_evolves_def parse_status_def split: if_splits)
  with v show ?thesis by (auto simp: task_evolves_def)
qed

definition sample_done :: sys where
  "sample_done = sample_sys\<lparr>db := upd_task ''t3'' (\<lambda>t. t\<lparr>t_status := ''done''\<rparr>) sample_db\<rparr>"

lemma sample_done_sound: "db_inv (db sample_done)" "avatars_ok sample_done"
  "task_row (db sample_done) ''t3'' = Some (sample_task ''t3'' (Some ''p1'') ''e1'' ''done'')"
  by (simp_all add: sample_done_def db_inv_def avatars_ok_def avatar_ids_def task_ok_def has_worker_def
      sample_defs startup_of_agent_def startup_of_task_def agent_row_def task_row_def parse_status_def
      MAX_REVIEW_ROUNDS_def upd_task_def upd_tasks_def update_rows_def)

theorem finished_tasks_stay_finished_witness:
  "\<exists>v. task_row (db (snd (loop_cmd sample_env None sample_decoders (HandleConsoleMsg JNull
      \<lparr> oi_id = ''o1'', oi_name = ''Ada'', oi_role = RAdmin \<rparr>) sample_done))) ''t3'' = Some v \<and>
     t_status v = ''done'' \<and> t_startup v = ''s1''"
proof -
  have "(world_step sample_env None sample_decoders)\<^sup>*\<^sup>* sample_done
      (snd (loop_cmd sample_env None sample_decoders (HandleConsoleMsg JNull
        \<lparr> oi_id = ''o1'', oi_name = ''Ada'', oi_role = RAdmin \<rparr>) sample_done))"
    by (rule r_into_rtranclp, rule world_step.command) simp
  from finished_tasks_stay_finished [OF sample_done_sound(1,2) this sample_done_sound(3)]
  show ?thesis by (simp add: sample_task_def new_task_def)
qed

lemma kept_cmd:
  assumes "kept c s" and "well_sent k s" and "k \<noteq> Tick"
  shows "wpE (loop_cmd env spw dec k) (\<lambda>_. kept c) (\<lambda>_. kept c) s"
proof (cases k)
  case (InsertAvatars new claim)
  with assms(2) kept_new_avatars [OF assms(1)] show ?thesis by (simp add: wp)
next
  case (ReleaseSuite sid)
  with kept_release [OF assms(1)] show ?thesis by (simp add: wp)
qed (use assms(3) in simp_all,
    (rule leadsD [of "kept c" "kept c", OF _ assms(1)], (intro pres pres_console pres_worker_dispatch kept.pres_upkeep)+)+)

text \<open>C5: Refinement of the abstract task machine: whatever a command other than a tick does, it moves
  every task along transitions that \<open>task_sm::next\<close> grants, deletes none, and keeps its parent and
  startup.\<close>
theorem commands_refine_the_task_machine:
  assumes "db_inv (db s)" and "avatars_ok s" and "well_sent k s" and "k \<noteq> Tick"
  shows "tasks_evolve task_step (db s) (db (snd (loop_cmd env spw dec k s)))"
proof -
  have k: "kept (db s) s" using assms by (simp add: kept_def)
  have "wpE (loop_cmd env spw dec k) (\<lambda>_. kept (db s)) (\<lambda>_. kept (db s)) s"
    by (rule kept_cmd [OF k assms(3,4)])
  then show ?thesis by (simp add: wp_snd kept_def)
qed

theorem commands_refine_the_task_machine_witness:
  "tasks_evolve task_step sample_db (db (snd (loop_cmd sample_env None sample_decoders
     (HandleConsoleMsg JNull \<lparr> oi_id = ''o1'', oi_name = ''Ada'', oi_role = RAdmin \<rparr>) sample_sys)))"
  using commands_refine_the_task_machine [of sample_sys
    "HandleConsoleMsg JNull \<lparr> oi_id = ''o1'', oi_name = ''Ada'', oi_role = RAdmin \<rparr>"]
  by (simp add: sample_sound)

text \<open>C17: In every state the world can reach the skill tables stay sound: names are unique in a
  startup and well formed, contents within the limit, every attachment links an agent and a skill of
  one startup, every file has its skill, and the revisions of a skill are numbered from one without a
  gap.\<close>
theorem skill_tables_stay_sound:
  assumes "skill_inv (db s)" and "(world_step env spw dec)\<^sup>*\<^sup>* s t"
  shows "skill_inv (db t)"
  by (rule world_skill_inv [OF assms(2,1)])

theorem skill_tables_stay_sound_witness:
  "skill_inv (db (snd (loop_cmd sample_env None sample_decoders Tick
     (sample_sys\<lparr>db := skilled_db [sample_link]\<rparr>)))) \<and> skilled_db [sample_link] \<noteq> sample_db"
proof -
  let ?s = "sample_sys\<lparr>db := skilled_db [sample_link]\<rparr>"
  have step: "(world_step sample_env None sample_decoders)\<^sup>*\<^sup>* ?s (snd (loop_cmd sample_env None sample_decoders Tick ?s))"
    by (rule r_into_rtranclp, rule world_step.command) simp
  have "skill_inv (db (snd (loop_cmd sample_env None sample_decoders Tick ?s)))"
    by (rule skill_tables_stay_sound [OF _ step]) (simp add: skilled_inv(2))
  moreover have "skilled_db [sample_link] \<noteq> sample_db"
  proof
    assume "skilled_db [sample_link] = sample_db"
    then have "d_skills (skilled_db [sample_link]) = d_skills sample_db" by simp
    then show False by simp
  qed
  ultimately show ?thesis by blast
qed

section \<open>Every message is answered\<close>

text \<open>The commands a console or a worker waits on.\<close>

fun awaits_reply :: "cmd \<Rightarrow> bool" where
  "awaits_reply (HandleConsoleMsg _ _) = True"
| "awaits_reply (HandleWorkerMsg _ _) = True"
| "awaits_reply _ = False"

lemma outcome_of_cmd:
  "k \<noteq> Shutdown \<Longrightarrow> wpE (loop_cmd env spw dec k)
     (\<lambda>r _. r \<noteq> Stopped \<and> (awaits_reply k \<longleftrightarrow> (\<exists>j. r = Reply j))) (\<lambda>_ _. True) s"
  by (cases k) (simp_all add: wp touch_def)

text \<open>C6: The world loop never stops on a command: given a path-finding crate that honours its contract and
  child processes that close their output streams in the end, and until a shutdown, it processes every
  command to its end without a panic and answers each console and worker message exactly once, in order.
  Without the second condition it does not (\<open>hanging_command_stops_the_world\<close>).\<close>
theorem every_message_is_answered:
  assumes "path_finding env" and "commands_end env" and "Shutdown \<notin> set cs"
  shows "\<exists>js t. run_loop env spw dec cs s = (Inr js, t) \<and> length js = length (filter awaits_reply cs)"
  using assms(3)
proof (induction cs arbitrary: s)
  case Nil
  then show ?case by (simp add: ret_def)
next
  case (Cons k cs)
  obtain r u where r: "loop_cmd env spw dec k s = (Inr r, u)"
    using total_run [OF total_cmd [OF assms(1,2)]] by blast
  obtain js t where js: "run_loop env spw dec cs u = (Inr js, t)"
    "length js = length (filter awaits_reply cs)"
    using Cons.IH [of u] Cons.prems by auto
  have "wpE (loop_cmd env spw dec k) (\<lambda>r _. r \<noteq> Stopped \<and> (awaits_reply k \<longleftrightarrow> (\<exists>j. r = Reply j)))
      (\<lambda>_ _. True) s"
    using Cons.prems by (intro outcome_of_cmd) auto
  from wpE_Inr [OF this r] show ?case
    by (cases r) (auto simp: bindE_def ret_def r js)
qed

theorem every_message_is_answered_witness:
  "\<exists>j t. run_loop sample_env None sample_decoders
     [Tick, HandleWorkerMsg ''e1'' (JObj []), UnregisterWorker ''e1''] sample_sys = (Inr [j], t)"
  using every_message_is_answered [OF sample_sound(4) sample_commands, of
      "[Tick, HandleWorkerMsg ''e1'' (JObj []), UnregisterWorker ''e1'']" None sample_decoders sample_sys]
  by (auto simp: length_Suc_conv)

text \<open>
  A tool that runs a command is awaited inside the loop. When the command keeps its streams open, the
  message that started it is never answered, and no command after it is ever taken.
\<close>

lemma hanging_command_stops_the_world:
  assumes "map_of (avatars s) k = Some a" and "av_agent_id a = k" and "task_row (db s) i = Some u"
    and "parse_status (t_status u) = Some st" and "t_startup u = av_startup_id a" and "t_assignee u = Some k"
    and "faults s = []" and "e_exists env (task_workdir (av_startup_id a) i)"
    and "\<And>n. run_command (e_process env ''sh'' [''-c'', cmd] (task_workdir (av_startup_id a) i)) n = None"
  shows "\<exists>t. \<forall>cs. run_loop env spw dec (HandleWorkerMsg k
      (mcp_envelope ''run_tests'' (JObj [(''task_id'', JStr i), (''command'', JStr cmd)]) cid) # cs) s = (Inl Hangs, t)"
proof -
  let ?args = "JObj [(''task_id'', JStr i), (''command'', JStr cmd)]" and ?a = "a\<lparr>av_last_seen_at := Some (now_secs s)\<rparr>"
  let ?w = "s\<lparr>avatars := amap_upd k (\<lambda>a. a\<lparr>av_last_seen_at := Some (now_secs s)\<rparr>) (avatars s)\<rparr>"
  have "wpE (handle_run_tests env ?a ?args) (\<lambda>_ _. False) (\<lambda>e _. e = HPanic Hangs) ?w"
    using assms(2-9)
    by (simp add: handle_run_tests_def require_task_workdir_def load_task_def same_startup_def require_str_def get_str_def
        wp run_or_fail_def Let_def task_row_def split: option.split)
  then obtain t where "handle_run_tests env ?a ?args ?w = (Inl (HPanic Hangs), t)"
    by (cases "handle_run_tests env ?a ?args ?w") (auto simp: wpE_def split: sum.splits)
  then have run: "run_tool env ''run_tests'' ?a ?args ?w = (Inl (HPanic Hangs), t)" by (simp add: run_tool_def)
  have "map_of (avatars ?w) k = Some ?a" using assms(1) by (simp add: map_of_amap_upd)
  from worker_call [OF this run] show ?thesis
    by (simp add: touch_def thenE_def bindE_def modifyE_def)
qed

section \<open>Two ways to move\<close>

definition places :: "sys \<Rightarrow> avatars \<times> path_store" where
  "places s = (avatars s, paths s)"

lemma places_simps [simp]: "places (sql_pop s) = places s" "places (s\<lparr>db := d\<rparr>) = places s"
  "places (s\<lparr>out_bus := b\<rparr>) = places s" "places (s\<lparr>frames := f\<rparr>) = places s"
  "places (s\<lparr>uuid_ctr := n\<rparr>) = places s"
  by (simp_all add: places_def)

text \<open>The MCP tool \<open>move_intent\<close> and the direct worker message \<open>MoveIntent\<close> are equivalent on the
  world: asked for the same room and tile (within 32 bits), both leave the same avatars and paths.\<close>

lemma both_move_routes_agree:
  assumes "get_str ''target_room'' args = Some room" and "jget ''target_tile'' args = Some (tile_json (x, y))"
    and "- (2 ^ 31) \<le> x" "x < 2 ^ 31" "- (2 ^ 31) \<le> y" "y < 2 ^ 31"
  shows "places (snd (handle_move_intent env caller args s)) =
    places (snd (handle_worker_move env (av_agent_id caller) room (x, y) s))"
proof -
  obtain r u where run: "do_start_move env (av_agent_id caller) room (x, y) s = (r, u)"
    by fastforce
  have target: "move_target caller args = ret (room, (x, y))"
    using assms by (simp add: move_target_def tile_arg_def tile_json_def get_i64_def as_i32_id
        bindE_def ret_def fun_eq_iff)
  have "wpE (handle_worker_move env (av_agent_id caller) room (x, y)) (\<lambda>_ t. places t = places u)
      (\<lambda>_ t. places t = places u) s"
    by (auto simp: handle_worker_move_def wp wpE_def bindE_def run ret_def thenE_def send_to_def modifyE_def
        split: sum.split start_move_result.split)
  moreover have go: "wpE (do_start_move env (av_agent_id caller) room (x, y)) Q E s =
      (case r of Inl e \<Rightarrow> E e u | Inr a \<Rightarrow> Q a u)" for Q E
    by (simp add: wpE_def run)
  have "wpE (handle_move_intent env caller args) (\<lambda>_ t. places t = places u)
      (\<lambda>_ t. places t = places u) s"
    unfolding handle_move_intent_def target
    by (auto simp: wp go emit_system_event_def insert_system_event_def Let_def
        split: sum.split option.split start_move_result.split)
  ultimately show ?thesis by (simp add: wp_snd)
qed

section \<open>Connections\<close>

end
